(* ===== verification/Prelude.thy ===== *)
theory Prelude
  imports Main "HOL-Library.Word"
begin

text \<open>
  Shared vocabulary of the development.

  Qt's value types are read as follows.  A \<open>QChar\<close> is a UTF-16 code unit, a 16-bit word; a
  \<open>QString\<close> (or \<open>QStringView\<close>) is the list of its code units; a \<open>QByteArray\<close> is a list of
  8-bit words.  A string literal of the source is written \<open>qstr ''...''\<close>.  Stable error codes,
  which only ever are literals of the source, stay HOL strings.

  The locales state what a state machine promises once and for all: an invariant that every
  operation keeps holds after every run (\<open>machine_invariant\<close>), and a machine whose every operation
  is matched by an abstract one has runs matched by abstract runs (\<open>machine_refinement\<close>).  Every
  stateful component interprets them on its own step function.
\<close>

section \<open>Types\<close>

type_synonym qchar = "16 word"
type_synonym qstring = "qchar list"
type_synonym byte = "8 word"
type_synonym bytes = "byte list"

abbreviation qchar_of :: "char \<Rightarrow> qchar" where
  "qchar_of c \<equiv> of_char c"

definition qstr :: "string \<Rightarrow> qstring" where
  "qstr s = map of_char s"

lemma of_char_word16_inject: "(of_char c :: 16 word) = of_char d \<longleftrightarrow> c = d"
proof
  assume eq: "(of_char c :: 16 word) = of_char d"
  have n: "unat (of_char x :: 16 word) = (of_char x :: nat)" for x :: char
  proof -
    have "(of_char x :: nat) < 256" by simp
    then have "(of_char x :: nat) < 2 ^ LENGTH(16)" by (rule order_less_trans) simp
    then have "unat (of_nat (of_char x :: nat) :: 16 word) = of_char x"
      by (simp add: unsigned_of_nat take_bit_nat_eq_self)
    then show ?thesis by (simp add: of_nat_of_char)
  qed
  from eq have "unat (of_char c :: 16 word) = unat (of_char d :: 16 word)" by simp
  then have "(of_char c :: nat) = of_char d" by (simp add: n)
  then show "c = d" by simp
qed simp

lemma qstr_inject [simp]: "qstr a = qstr b \<longleftrightarrow> a = b"
  by (simp add: qstr_def map_injective inj_def of_char_word16_inject
      inj_map_eq_map)

lemma qstr_Nil [simp]: "qstr [] = []"
  by (simp add: qstr_def)

lemma qstr_eq_Nil [simp]: "qstr s = [] \<longleftrightarrow> s = []" "[] = qstr s \<longleftrightarrow> s = []"
  by (auto simp: qstr_def)

lemma length_qstr [simp]: "length (qstr s) = length s"
  by (simp add: qstr_def)

definition ascii_bytes :: "string \<Rightarrow> bytes" where "ascii_bytes s = map of_char s"

definition isHighSurrogate :: "qchar \<Rightarrow> bool" where
  "isHighSurrogate c \<longleftrightarrow> 0xD800 \<le> c \<and> c \<le> 0xDBFF"

definition isLowSurrogate :: "qchar \<Rightarrow> bool" where
  "isLowSurrogate c \<longleftrightarrow> 0xDC00 \<le> c \<and> c \<le> 0xDFFF"

text \<open>\<open>QString::number\<close> of a non-negative number.\<close>

fun decimal :: "nat \<Rightarrow> qstring" where
  "decimal n = (if n < 10 then [0x30 + word_of_nat n]
     else decimal (n div 10) @ [0x30 + word_of_nat (n mod 10)])"

declare decimal.simps [simp del]

section \<open>Machines\<close>

text \<open>
  An operation takes the state and an event (the operation's name and arguments) to the next state
  and the value the operation returns.  A run is the sequence of the operations' results.
\<close>

fun run_machine :: "('s \<Rightarrow> 'e \<Rightarrow> 's \<times> 'o) \<Rightarrow> 's \<Rightarrow> 'e list \<Rightarrow> 's \<times> 'o list" where
  "run_machine step s [] = (s, [])"
| "run_machine step s (e # es) =
     (let (t, r) = step s e; (u, rs) = run_machine step t es in (u, r # rs))"

abbreviation final_state :: "('s \<Rightarrow> 'e \<Rightarrow> 's \<times> 'o) \<Rightarrow> 's \<Rightarrow> 'e list \<Rightarrow> 's" where
  "final_state step s es \<equiv> fst (run_machine step s es)"

lemma final_state_Cons [simp]:
  "final_state step s (e # es) = final_state step (fst (step s e)) es"
  by (simp add: Let_def split_beta)

lemma outputs_Cons [simp]:
  "snd (run_machine step s (e # es)) = snd (step s e) # snd (run_machine step (fst (step s e)) es)"
  by (simp add: Let_def split_beta)

declare run_machine.simps(2) [simp del]

lemma final_state_append:
  "final_state step s (es @ fs) = final_state step (final_state step s es) fs"
  by (induction es arbitrary: s) auto

lemma final_state_snoc:
  "final_state step s (es @ [e]) = fst (step (final_state step s es) e)"
  by (simp add: final_state_append)

lemma length_outputs [simp]: "length (snd (run_machine step s es)) = length es"
  by (induction es arbitrary: s) auto

locale machine_invariant =
  fixes step :: "'s \<Rightarrow> 'e \<Rightarrow> 's \<times> 'o"
    and inv :: "'s \<Rightarrow> bool"
    and admits :: "'e \<Rightarrow> bool"
  assumes step_inv: "inv s \<Longrightarrow> admits e \<Longrightarrow> inv (fst (step s e))"
begin

lemma run_inv: "inv s \<Longrightarrow> list_all admits es \<Longrightarrow> inv (final_state step s es)"
  by (induction es arbitrary: s) (auto intro: step_inv)

lemma run_frame:
  assumes "inv s" and "list_all admits es"
    and "\<And>t e. inv t \<Longrightarrow> admits e \<Longrightarrow> f (fst (step t e)) = f t"
  shows "f (final_state step s es) = f s"
  using assms(1,2)
proof (induction es arbitrary: s)
  case Nil
  then show ?case by simp
next
  case (Cons e es)
  then show ?case using assms(3) by (simp add: step_inv)
qed

lemma run_outputs:
  assumes "inv s" and "list_all admits es"
    and "\<And>t e. inv t \<Longrightarrow> admits e \<Longrightarrow> good (snd (step t e))"
  shows "list_all good (snd (run_machine step s es))"
  using assms(1,2)
proof (induction es arbitrary: s)
  case Nil
  then show ?case by simp
next
  case (Cons e es)
  then show ?case using assms(3) by (simp add: step_inv)
qed

end

locale machine_refinement = machine_invariant step inv admits
  for step :: "'s \<Rightarrow> 'e \<Rightarrow> 's \<times> 'o" and inv :: "'s \<Rightarrow> bool" and admits :: "'e \<Rightarrow> bool" +
  fixes abs :: "'s \<Rightarrow> 'a"
    and astep :: "'a \<Rightarrow> 'e \<Rightarrow> 'a \<times> 'o"
  assumes simulates:
    "inv s \<Longrightarrow> admits e \<Longrightarrow> astep (abs s) e = (abs (fst (step s e)), snd (step s e))"
begin

lemma run_simulates:
  "inv s \<Longrightarrow> list_all admits es \<Longrightarrow>
    run_machine astep (abs s) es = (abs (final_state step s es), snd (run_machine step s es))"
proof (induction es arbitrary: s)
  case Nil
  then show ?case by simp
next
  case (Cons e es)
  from Cons.prems have "inv (fst (step s e))" and es: "list_all admits es"
    by (simp_all add: step_inv)
  from Cons.IH [OF this] show ?case
    using Cons.prems by (simp add: run_machine.simps(2) simulates Let_def split_beta)
qed

end

text \<open>
  A machine whose operations return lists of notifications: an observer that sees only these keeps
  an exact copy of a view of the state.
\<close>

locale machine_observer = machine_invariant step inv admits
  for step :: "'s \<Rightarrow> 'e \<Rightarrow> 's \<times> 'n list" and inv :: "'s \<Rightarrow> bool" and admits :: "'e \<Rightarrow> bool" +
  fixes view :: "'s \<Rightarrow> 'v"
    and notice :: "'v \<Rightarrow> 'n \<Rightarrow> 'v"
  assumes observes:
    "inv s \<Longrightarrow> admits e \<Longrightarrow> foldl notice (view s) (snd (step s e)) = view (fst (step s e))"
begin

lemma run_observes:
  "inv s \<Longrightarrow> list_all admits es \<Longrightarrow>
    foldl notice (view s) (concat (snd (run_machine step s es))) = view (final_state step s es)"
proof (induction es arbitrary: s)
  case Nil
  then show ?case by simp
next
  case (Cons e es)
  then show ?case by (simp add: step_inv observes)
qed

end

end
