(* ===== verification/WorkerSupervisor.thy ===== *)
theory WorkerSupervisor
  imports Prelude
begin

text \<open>
  The supervisor of a package Worker (\<open>runtime/worker/WorkerSupervisor\<close>): it hands out activation
  and attempt identifiers, watches heartbeats, and answers a failure with one restart, a restart
  after a healthy run, or a rollback.

  The two callbacks the constructor receives are effects: the model appends every invocation to
  \<open>sup_calls\<close>, and keeps whether each callback is set (\<open>if (restart_)\<close>).  A callback is always the
  last thing a method does before it returns a constant, so a callback that re-enters the
  supervisor is the same as the call coming next.  Times are the milliseconds of a monotonic clock,
  far from the limits of \<open>qint64\<close>, and are integers here; identifiers are 64-bit words because the
  code treats their overflow.
\<close>

section \<open>State\<close>

record supervision_policy =
  healthWindowMs :: int
  heartbeatTimeoutMs :: int

definition default_policy :: supervision_policy where
  "default_policy = \<lparr>healthWindowMs = 30000, heartbeatTimeoutMs = 5000\<rparr>"

type_synonym activation_id = "64 word"
type_synonym attempt_id = "64 word"

record attempt_key =
  key_activation :: activation_id
  key_attempt :: attempt_id

datatype worker_exit_reason = Clean | Crashed | StartupFailure

datatype supervisor_state = Stopped | Running | Retired

datatype supervision_action =
    NoAction
  | Restart
  | StartupRollback
  | CrashLoopRollback
  | IgnoredStaleAttempt
  | IgnoredDuplicateFailure

datatype supervisor_call = RestartCall activation_id | RollbackCall activation_id

record supervisor =
  sup_policy :: supervision_policy
  restart_set :: bool
  rollback_set :: bool
  sup_calls :: "supervisor_call list"
  activation :: activation_id
  attempt :: attempt_id
  lastFailedAttempt :: attempt_key
  sup_state :: supervisor_state
  attemptStartMs :: int
  handshakeMs :: int
  lastHeartbeatMs :: int
  restartUsed :: bool
  rollbackCalled :: bool
  hasAttempt :: bool
  hasLastFailedAttempt :: bool
  crashLoop :: bool
  hasAuthenticatedHandshake :: bool

definition nextId :: "64 word \<Rightarrow> 64 word" where
  "nextId current = (if current = - 1 then 1 else current + 1)"

definition new_supervisor :: "supervision_policy \<Rightarrow> bool \<Rightarrow> bool \<Rightarrow> supervisor" where
  "new_supervisor policy restart rollback =
     \<lparr>sup_policy =
        (if healthWindowMs policy \<le> 0 \<or> heartbeatTimeoutMs policy \<le> 0
         then default_policy else policy),
      restart_set = restart, rollback_set = rollback, sup_calls = [],
      activation = 0, attempt = 0,
      lastFailedAttempt = \<lparr>key_activation = 0, key_attempt = 0\<rparr>,
      sup_state = Retired, attemptStartMs = 0, handshakeMs = 0, lastHeartbeatMs = 0,
      restartUsed = False, rollbackCalled = False, hasAttempt = False,
      hasLastFailedAttempt = False, crashLoop = False, hasAuthenticatedHandshake = False\<rparr>"

section \<open>Operations\<close>

definition isCurrent :: "supervisor \<Rightarrow> attempt_key \<Rightarrow> bool" where
  "isCurrent s key \<longleftrightarrow>
     hasAttempt s \<and> key_activation key = activation s \<and> key_attempt key = attempt s"

definition isDuplicateFailure :: "supervisor \<Rightarrow> attempt_key \<Rightarrow> bool" where
  "isDuplicateFailure s key \<longleftrightarrow> hasLastFailedAttempt s \<and> key = lastFailedAttempt s"

definition call_restart :: "supervisor \<Rightarrow> supervisor" where
  "call_restart s =
     (if restart_set s then s\<lparr>sup_calls := sup_calls s @ [RestartCall (activation s)]\<rparr> else s)"

definition call_rollback :: "supervisor \<Rightarrow> supervisor" where
  "call_rollback s =
     (if rollback_set s then s\<lparr>sup_calls := sup_calls s @ [RollbackCall (activation s)]\<rparr> else s)"

definition beginActivation :: "supervisor \<Rightarrow> int \<Rightarrow> supervisor \<times> activation_id" where
  "beginActivation s nowMs =
     (let s' = s\<lparr>activation := nextId (activation s),
                 sup_state := Stopped,
                 lastHeartbeatMs := nowMs,
                 restartUsed := False,
                 rollbackCalled := False,
                 hasAttempt := False,
                 hasLastFailedAttempt := False,
                 crashLoop := False,
                 hasAuthenticatedHandshake := False\<rparr>
      in (s', activation s'))"

definition beginAttempt ::
  "supervisor \<Rightarrow> activation_id \<Rightarrow> int \<Rightarrow> supervisor \<times> attempt_id option" where
  "beginAttempt s act nowMs =
     (if act \<noteq> activation s \<or> sup_state s \<noteq> Stopped \<or> crashLoop s then (s, None)
      else let s' = s\<lparr>attempt := nextId (attempt s),
                      hasAttempt := True,
                      sup_state := Running,
                      attemptStartMs := nowMs,
                      lastHeartbeatMs := nowMs,
                      hasAuthenticatedHandshake := False\<rparr>
           in (s', Some (attempt s')))"

definition authenticatedHandshake :: "supervisor \<Rightarrow> attempt_key \<Rightarrow> int \<Rightarrow> supervisor \<times> bool" where
  "authenticatedHandshake s key nowMs =
     (if sup_state s \<noteq> Running \<or> \<not> isCurrent s key \<or> nowMs < attemptStartMs s
         \<or> hasAuthenticatedHandshake s
      then (s, False)
      else (s\<lparr>handshakeMs := nowMs, lastHeartbeatMs := nowMs,
              hasAuthenticatedHandshake := True\<rparr>, True))"

definition heartbeat :: "supervisor \<Rightarrow> attempt_key \<Rightarrow> int \<Rightarrow> supervisor" where
  "heartbeat s key nowMs =
     (if sup_state s = Running \<and> isCurrent s key \<and> hasAuthenticatedHandshake s
         \<and> lastHeartbeatMs s \<le> nowMs
      then s\<lparr>lastHeartbeatMs := nowMs\<rparr> else s)"

definition isHealthy :: "supervisor \<Rightarrow> attempt_key \<Rightarrow> int \<Rightarrow> bool" where
  "isHealthy s key nowMs \<longleftrightarrow>
     sup_state s = Running \<and> isCurrent s key \<and> hasAuthenticatedHandshake s
     \<and> handshakeMs s \<le> nowMs
     \<and> healthWindowMs (sup_policy s) \<le> nowMs - handshakeMs s
     \<and> nowMs \<le> lastHeartbeatMs s + heartbeatTimeoutMs (sup_policy s)"

definition unexpectedFailure ::
  "supervisor \<Rightarrow> attempt_key \<Rightarrow> int \<Rightarrow> supervisor \<times> supervision_action" where
  "unexpectedFailure s key nowMs =
     (let s1 = s\<lparr>lastFailedAttempt := key, hasLastFailedAttempt := True, sup_state := Stopped\<rparr> in
      if \<not> restartUsed s1 then (call_restart (s1\<lparr>restartUsed := True\<rparr>), Restart)
      else let healthWindowStart =
                 (if hasAuthenticatedHandshake s1 then handshakeMs s1 else attemptStartMs s1) in
        if nowMs \<le> healthWindowStart + healthWindowMs (sup_policy s1) then
          let s2 = s1\<lparr>crashLoop := True, sup_state := Retired\<rparr> in
          (if \<not> rollbackCalled s2 then call_rollback (s2\<lparr>rollbackCalled := True\<rparr>) else s2,
           CrashLoopRollback)
        else (call_restart (s1\<lparr>restartUsed := True\<rparr>), Restart))"

definition checkHealth ::
  "supervisor \<Rightarrow> attempt_key \<Rightarrow> int \<Rightarrow> supervisor \<times> supervision_action" where
  "checkHealth s key nowMs =
     (if isDuplicateFailure s key then (s, IgnoredDuplicateFailure)
      else if \<not> isCurrent s key then (s, IgnoredStaleAttempt)
      else if sup_state s \<noteq> Running
              \<or> nowMs \<le> lastHeartbeatMs s + heartbeatTimeoutMs (sup_policy s)
      then (s, NoAction)
      else unexpectedFailure s key nowMs)"

definition workerExited ::
  "supervisor \<Rightarrow> attempt_key \<Rightarrow> worker_exit_reason \<Rightarrow> int \<Rightarrow> supervisor \<times> supervision_action" where
  "workerExited s key reason nowMs =
     (if isDuplicateFailure s key then (s, IgnoredDuplicateFailure)
      else if \<not> isCurrent s key then (s, IgnoredStaleAttempt)
      else if sup_state s \<noteq> Running then (s, NoAction)
      else if reason = Clean then (s\<lparr>sup_state := Retired\<rparr>, NoAction)
      else if reason = StartupFailure then
        let s1 = s\<lparr>lastFailedAttempt := key, hasLastFailedAttempt := True, sup_state := Retired\<rparr> in
        (if \<not> rollbackCalled s1 then call_rollback (s1\<lparr>rollbackCalled := True\<rparr>) else s1,
         StartupRollback)
      else unexpectedFailure s key nowMs)"

definition activeAttempt :: "supervisor \<Rightarrow> attempt_id option" where
  "activeAttempt s = (if hasAttempt s \<and> sup_state s = Running then Some (attempt s) else None)"

section \<open>The machine\<close>

datatype supervisor_event =
    BeginActivation int
  | BeginAttempt activation_id int
  | AuthenticatedHandshake attempt_key int
  | Heartbeat attempt_key int
  | CheckHealth attempt_key int
  | WorkerExited attempt_key worker_exit_reason int

datatype supervisor_result =
    ActivationStarted activation_id
  | AttemptStarted "attempt_id option"
  | HandshakeTaken bool
  | HeartbeatTaken
  | Supervised supervision_action

fun supervisor_step :: "supervisor \<Rightarrow> supervisor_event \<Rightarrow> supervisor \<times> supervisor_result" where
  "supervisor_step s (BeginActivation t) = apsnd ActivationStarted (beginActivation s t)"
| "supervisor_step s (BeginAttempt a t) = apsnd AttemptStarted (beginAttempt s a t)"
| "supervisor_step s (AuthenticatedHandshake k t) =
     apsnd HandshakeTaken (authenticatedHandshake s k t)"
| "supervisor_step s (Heartbeat k t) = (heartbeat s k t, HeartbeatTaken)"
| "supervisor_step s (CheckHealth k t) = apsnd Supervised (checkHealth s k t)"
| "supervisor_step s (WorkerExited k r t) = apsnd Supervised (workerExited s k r t)"

named_theorems supervisor_ops

lemmas supervisor_op_defs [supervisor_ops] =
  beginActivation_def beginAttempt_def authenticatedHandshake_def heartbeat_def
  unexpectedFailure_def checkHealth_def workerExited_def call_restart_def call_rollback_def
  isCurrent_def isDuplicateFailure_def Let_def

section \<open>Invariant\<close>

definition begins_activation :: "supervisor_event \<Rightarrow> bool" where
  "begins_activation e = (case e of BeginActivation t \<Rightarrow> True | _ \<Rightarrow> False)"

definition current_key :: "supervisor \<Rightarrow> attempt_key" where
  "current_key s = \<lparr>key_activation = activation s, key_attempt = attempt s\<rparr>"

definition supervisor_inv :: "supervisor \<Rightarrow> bool" where
  "supervisor_inv s \<longleftrightarrow>
     0 < healthWindowMs (sup_policy s) \<and> 0 < heartbeatTimeoutMs (sup_policy s)
     \<and> (rollbackCalled s \<longrightarrow> sup_state s = Retired)
     \<and> (crashLoop s \<longrightarrow> rollbackCalled s)
     \<and> (sup_state s = Running \<longrightarrow> hasAttempt s)
     \<and> (sup_state s = Running \<and> hasAuthenticatedHandshake s \<longrightarrow>
          attemptStartMs s \<le> handshakeMs s \<and> handshakeMs s \<le> lastHeartbeatMs s)
     \<and> (hasLastFailedAttempt s \<longrightarrow>
          hasAttempt s \<and> (sup_state s = Running \<longrightarrow> lastFailedAttempt s \<noteq> current_key s))
     \<and> (hasLastFailedAttempt s \<longrightarrow> restartUsed s \<or> sup_state s = Retired)
     \<and> (sup_state s = Stopped \<and> hasAttempt s \<longrightarrow>
          hasLastFailedAttempt s \<and> lastFailedAttempt s = current_key s)"

lemma isCurrent_iff: "isCurrent s key \<longleftrightarrow> hasAttempt s \<and> key = current_key s"
  by (cases key) (auto simp: isCurrent_def current_key_def)

lemma nextId_neq [simp]: "nextId x \<noteq> x" "x \<noteq> nextId x"
  by (auto simp: nextId_def)

lemma nextId_nonzero [simp]: "nextId x \<noteq> 0"
  by (simp add: nextId_def eq_neg_iff_add_eq_0 [symmetric])

lemma inv_beginActivation:
  "supervisor_inv s \<Longrightarrow> supervisor_inv (fst (beginActivation s t))"
  by (simp add: supervisor_inv_def beginActivation_def Let_def)

lemma inv_beginAttempt: "supervisor_inv s \<Longrightarrow> supervisor_inv (fst (beginAttempt s a t))"
  by (auto simp: supervisor_inv_def beginAttempt_def current_key_def Let_def)

lemma inv_authenticatedHandshake:
  "supervisor_inv s \<Longrightarrow> supervisor_inv (fst (authenticatedHandshake s k t))"
  by (auto simp: supervisor_inv_def authenticatedHandshake_def current_key_def)

lemma inv_heartbeat: "supervisor_inv s \<Longrightarrow> supervisor_inv (heartbeat s k t)"
  by (auto simp: supervisor_inv_def heartbeat_def current_key_def)

lemma inv_unexpectedFailure:
  "supervisor_inv s \<Longrightarrow> sup_state s = Running \<Longrightarrow> isCurrent s k \<Longrightarrow>
    supervisor_inv (fst (unexpectedFailure s k t))"
  by (auto simp: supervisor_inv_def unexpectedFailure_def call_restart_def call_rollback_def
      isCurrent_iff current_key_def Let_def)

lemma inv_checkHealth: "supervisor_inv s \<Longrightarrow> supervisor_inv (fst (checkHealth s k t))"
  by (simp add: checkHealth_def inv_unexpectedFailure)

lemma inv_workerExited: "supervisor_inv s \<Longrightarrow> supervisor_inv (fst (workerExited s k r t))"
  by (auto simp: workerExited_def Let_def intro!: inv_unexpectedFailure)
    (auto simp: supervisor_inv_def call_rollback_def isCurrent_iff)

lemma supervisor_inv_step: "supervisor_inv s \<Longrightarrow> supervisor_inv (fst (supervisor_step s e))"
  by (cases e) (simp_all add: inv_beginActivation inv_beginAttempt inv_authenticatedHandshake
      inv_heartbeat inv_checkHealth inv_workerExited)

lemma supervisor_inv_new: "supervisor_inv (new_supervisor p a b)"
  by (simp add: supervisor_inv_def new_supervisor_def default_policy_def)

interpretation supervisor_always: machine_invariant supervisor_step supervisor_inv "\<lambda>_. True"
  by unfold_locales (rule supervisor_inv_step)

section \<open>One activation\<close>

text \<open>
  Between two calls of \<open>beginActivation\<close> the identifier of the activation is fixed.  Seen from its
  start, the callbacks are restarts followed by at most one rollback, and a rollback retires the
  supervisor.
\<close>

definition keeps_activation :: "supervisor_event \<Rightarrow> bool" where
  "keeps_activation e \<longleftrightarrow> \<not> begins_activation e"

definition calls_since :: "supervisor_call list \<Rightarrow> activation_id \<Rightarrow> supervisor \<Rightarrow> bool" where
  "calls_since before a s \<longleftrightarrow>
     activation s = a \<and> (rollbackCalled s \<longrightarrow> sup_state s = Retired)
     \<and> (\<exists>n. sup_calls s = before @ replicate n (RestartCall a)
              @ (if rollback_set s \<and> rollbackCalled s then [RollbackCall a] else []))"

lemma calls_since_restart:
  "calls_since before a s \<Longrightarrow> \<not> rollbackCalled s \<Longrightarrow> calls_since before a (call_restart s)"
  by (auto simp: calls_since_def call_restart_def replicate_append_same [symmetric]
      intro: exI [of _ "Suc _"])

lemma calls_since_rollback:
  "calls_since before a s \<Longrightarrow> \<not> rollbackCalled s \<Longrightarrow> sup_state s = Retired \<Longrightarrow>
    calls_since before a (call_rollback (s\<lparr>rollbackCalled := True\<rparr>))"
  by (auto simp: calls_since_def call_rollback_def)

lemma calls_since_cong:
  assumes "calls_since before a s"
    and "activation t = activation s" "sup_calls t = sup_calls s"
      "rollback_set t = rollback_set s" "rollbackCalled t = rollbackCalled s"
    and "rollbackCalled s \<longrightarrow> sup_state t = Retired"
  shows "calls_since before a t"
  using assms by (simp add: calls_since_def)

lemma calls_since_unexpectedFailure:
  assumes "calls_since before a s" and "sup_state s = Running"
  shows "calls_since before a (fst (unexpectedFailure s k t))"
proof -
  from assms have fresh: "\<not> rollbackCalled s" by (auto simp: calls_since_def)
  then show ?thesis
    by (auto simp: unexpectedFailure_def Let_def intro!: calls_since_restart calls_since_rollback
        intro: calls_since_cong [OF assms(1)])
qed

lemma calls_since_step:
  assumes "calls_since before a s" and "keeps_activation e"
  shows "calls_since before a (fst (supervisor_step s e))"
proof (cases e)
  case (WorkerExited k r t)
  show ?thesis
  proof (cases "isDuplicateFailure s k \<or> \<not> isCurrent s k \<or> sup_state s \<noteq> Running")
    case True
    with assms(1) WorkerExited show ?thesis by (auto simp: workerExited_def)
  next
    case False
    then have "\<not> rollbackCalled s" using assms(1) by (auto simp: calls_since_def)
    with False WorkerExited show ?thesis
      using calls_since_unexpectedFailure [OF assms(1)]
      by (auto simp: workerExited_def Let_def intro!: calls_since_rollback
          intro: calls_since_cong [OF assms(1)])
  qed
next
  case (CheckHealth k t)
  with assms(1) show ?thesis
    by (simp add: checkHealth_def calls_since_unexpectedFailure)
next
  case (BeginAttempt b t)
  with assms(1) show ?thesis
    by (auto simp: beginAttempt_def Let_def calls_since_def)
qed (use assms in \<open>auto simp: keeps_activation_def begins_activation_def heartbeat_def
    authenticatedHandshake_def calls_since_def\<close>)

interpretation activation_calls:
  machine_invariant supervisor_step "calls_since before a" keeps_activation for before a
  by unfold_locales (rule calls_since_step)

lemma retired_step:
  "sup_state s = Retired \<Longrightarrow> keeps_activation e \<Longrightarrow> fst (supervisor_step s e) = s"
  by (cases e) (auto simp: keeps_activation_def begins_activation_def beginAttempt_def
      authenticatedHandshake_def heartbeat_def checkHealth_def workerExited_def)

text \<open>The outputs of a retired supervisor: nothing is started, nothing is asked for.\<close>

definition inert_result :: "supervisor_result \<Rightarrow> bool" where
  "inert_result r \<longleftrightarrow> r \<in> {AttemptStarted None, HandshakeTaken False, HeartbeatTaken,
     Supervised NoAction, Supervised IgnoredStaleAttempt, Supervised IgnoredDuplicateFailure}"

lemma retired_result:
  "sup_state s = Retired \<Longrightarrow> keeps_activation e \<Longrightarrow> inert_result (snd (supervisor_step s e))"
  by (cases e) (auto simp: keeps_activation_def begins_activation_def beginAttempt_def inert_result_def
      authenticatedHandshake_def checkHealth_def workerExited_def)

interpretation retired: machine_invariant supervisor_step "\<lambda>s. sup_state s = Retired" keeps_activation
  by unfold_locales (simp add: retired_step)

text \<open>What the state remembers of the events it has seen.\<close>

definition seen_in :: "supervisor_event list \<Rightarrow> supervisor \<Rightarrow> bool" where
  "seen_in es s \<longleftrightarrow> hasAttempt s \<and> hasAuthenticatedHandshake s \<longrightarrow>
     AuthenticatedHandshake (current_key s) (handshakeMs s) \<in> set es
     \<and> (AuthenticatedHandshake (current_key s) (lastHeartbeatMs s) \<in> set es
        \<or> Heartbeat (current_key s) (lastHeartbeatMs s) \<in> set es)"

lemma seen_in_mono: "seen_in es s \<Longrightarrow> seen_in (es @ fs) s"
  by (auto simp: seen_in_def)

lemma seen_in_frame [simp]:
  "seen_in es (s\<lparr>sup_state := x\<rparr>) = seen_in es s"
  "seen_in es (s\<lparr>lastFailedAttempt := k\<rparr>) = seen_in es s"
  "seen_in es (s\<lparr>hasLastFailedAttempt := b\<rparr>) = seen_in es s"
  "seen_in es (s\<lparr>rollbackCalled := b\<rparr>) = seen_in es s"
  "seen_in es (s\<lparr>sup_calls := cs\<rparr>) = seen_in es s"
  by (simp_all add: seen_in_def current_key_def)

lemma unexpectedFailure_frame:
  "activation (fst (unexpectedFailure s k t)) = activation s"
  "attempt (fst (unexpectedFailure s k t)) = attempt s"
  "hasAttempt (fst (unexpectedFailure s k t)) = hasAttempt s"
  "hasAuthenticatedHandshake (fst (unexpectedFailure s k t)) = hasAuthenticatedHandshake s"
  "handshakeMs (fst (unexpectedFailure s k t)) = handshakeMs s"
  "lastHeartbeatMs (fst (unexpectedFailure s k t)) = lastHeartbeatMs s"
  by (simp_all add: unexpectedFailure_def call_restart_def call_rollback_def Let_def)

lemma seen_in_unexpectedFailure: "seen_in es s \<Longrightarrow> seen_in es (fst (unexpectedFailure s k t))"
  by (simp add: seen_in_def current_key_def unexpectedFailure_frame)

lemma seen_in_step:
  assumes "seen_in es s"
  shows "seen_in (es @ [e]) (fst (supervisor_step s e))"
proof -
  note keep = seen_in_mono [OF assms, of "[e]"]
  show ?thesis
  proof (cases e)
    case (AuthenticatedHandshake k t)
    with keep show ?thesis
      by (auto simp: authenticatedHandshake_def seen_in_def isCurrent_iff current_key_def)
  next
    case (Heartbeat k t)
    with keep show ?thesis
      by (auto simp: heartbeat_def seen_in_def isCurrent_iff current_key_def)
  next
    case (CheckHealth k t)
    with keep show ?thesis
      by (auto simp: checkHealth_def intro: seen_in_unexpectedFailure)
  next
    case (WorkerExited k r t)
    with keep show ?thesis
      by (auto simp: workerExited_def Let_def call_rollback_def intro: seen_in_unexpectedFailure)
  next
    case (BeginActivation t)
    then show ?thesis by (simp add: beginActivation_def Let_def seen_in_def)
  next
    case (BeginAttempt a t)
    have "seen_in (es @ [e]) (s\<lparr>attempt := i, hasAttempt := True, sup_state := Running,
        attemptStartMs := t, lastHeartbeatMs := t, hasAuthenticatedHandshake := False\<rparr>)" for i
      by (simp add: seen_in_def)
    with BeginAttempt keep show ?thesis by (auto simp: beginAttempt_def Let_def)
  qed
qed

lemma run_seen_in: "seen_in es (final_state supervisor_step (new_supervisor p r b) es)"
proof (induction es rule: rev_induct)
  case Nil
  then show ?case by (simp add: seen_in_def new_supervisor_def)
next
  case (snoc e es)
  then show ?case by (simp add: final_state_snoc seen_in_step)
qed

text \<open>A restart that has been used stays used, and a running attempt was begun by an event.\<close>

definition restarted_run :: "supervisor \<Rightarrow> supervisor_event list \<Rightarrow> supervisor \<Rightarrow> bool" where
  "restarted_run s fs u \<longleftrightarrow>
     restartUsed u \<and> activation u = activation s \<and> sup_policy u = sup_policy s
     \<and> (sup_state u = Running \<longrightarrow> BeginAttempt (activation s) (attemptStartMs u) \<in> set fs)"

lemma restarted_run_step:
  assumes "restarted_run s fs u" and "keeps_activation e"
  shows "restarted_run s (fs @ [e]) (fst (supervisor_step u e))"
  using assms
  by (cases e) (auto simp: restarted_run_def keeps_activation_def begins_activation_def
      beginAttempt_def authenticatedHandshake_def heartbeat_def checkHealth_def workerExited_def
      unexpectedFailure_def call_restart_def call_rollback_def Let_def)

lemma restarted_run_final:
  assumes "restarted_run s [] s" and "list_all keeps_activation fs"
  shows "restarted_run s fs (final_state supervisor_step s fs)"
  using assms(2)
proof (induction fs rule: rev_induct)
  case Nil
  then show ?case using assms(1) by simp
next
  case (snoc e fs)
  then show ?case by (simp add: final_state_snoc restarted_run_step)
qed

lemma restart_result:
  assumes "snd (supervisor_step s e) = Supervised Restart"
  obtains k now where "e = CheckHealth k now \<or> e = WorkerExited k Crashed now"
    and "sup_state s = Running" and "isCurrent s k"
    and "supervisor_step s e = apsnd Supervised (unexpectedFailure s k now)"
    and "snd (unexpectedFailure s k now) = Restart"
proof (cases e)
  case (CheckHealth k now)
  with assms that show ?thesis by (auto simp: checkHealth_def split: if_splits)
next
  case (WorkerExited k r now)
  with assms that show ?thesis
    by (cases r) (auto simp: workerExited_def Let_def split: if_splits)
qed (use assms in \<open>auto simp: beginActivation_def beginAttempt_def Let_def\<close>)

lemma unexpectedFailure_restart:
  assumes "snd (unexpectedFailure s k now) = Restart"
  shows "restartUsed (fst (unexpectedFailure s k now))"
    and "sup_state (fst (unexpectedFailure s k now)) = Stopped"
    and "sup_policy (fst (unexpectedFailure s k now)) = sup_policy s"
    and "restartUsed s \<Longrightarrow> healthWindowMs (sup_policy s)
      + (if hasAuthenticatedHandshake s then handshakeMs s else attemptStartMs s) < now"
  using assms
  by (auto simp: unexpectedFailure_def call_restart_def Let_def split: if_splits)

section \<open>Properties\<close>

text \<open>
  C1.  The callbacks of one activation.  Whatever happens between two calls of \<open>beginActivation\<close>, the
  supervisor has asked for some restarts and then for at most one rollback, all of them for this
  activation; once it has asked for the rollback it is retired, so no restart follows a rollback.
\<close>

theorem supervisor_callback_sequence:
  assumes "list_all keeps_activation es"
  shows "\<exists>n m. m \<le> 1
    \<and> sup_calls (final_state supervisor_step (fst (beginActivation s t)) es)
      = sup_calls s @ replicate n (RestartCall (nextId (activation s)))
          @ replicate m (RollbackCall (nextId (activation s)))
    \<and> (m = 1 \<longrightarrow> sup_state (final_state supervisor_step (fst (beginActivation s t)) es) = Retired)"
proof -
  let ?u = "final_state supervisor_step (fst (beginActivation s t)) es"
  have "calls_since (sup_calls s) (nextId (activation s)) (fst (beginActivation s t))"
    by (simp add: calls_since_def beginActivation_def Let_def)
  then have "calls_since (sup_calls s) (nextId (activation s)) ?u"
    using assms by (rule activation_calls.run_inv)
  then obtain n where n: "sup_calls ?u = sup_calls s @ replicate n (RestartCall (nextId (activation s)))
      @ (if rollback_set ?u \<and> rollbackCalled ?u then [RollbackCall (nextId (activation s))] else [])"
    and retired: "rollbackCalled ?u \<Longrightarrow> sup_state ?u = Retired"
    by (auto simp: calls_since_def)
  show ?thesis
  proof (cases "rollback_set ?u \<and> rollbackCalled ?u")
    case True
    with n retired show ?thesis by (intro exI [of _ n] exI [of _ 1]) simp
  next
    case False
    with n show ?thesis by (intro exI [of _ n] exI [of _ 0]) auto
  qed
qed

theorem supervisor_callback_sequence_witness:
  "\<exists>n m. m \<le> 1
    \<and> sup_calls (final_state supervisor_step
          (fst (beginActivation (new_supervisor default_policy True True) 0))
          [BeginAttempt 1 0, WorkerExited \<lparr>key_activation = 1, key_attempt = 1\<rparr> Crashed 5])
      = [] @ replicate n (RestartCall 1) @ replicate m (RollbackCall 1)"
  using supervisor_callback_sequence [of
      "[BeginAttempt 1 0, WorkerExited \<lparr>key_activation = 1, key_attempt = 1\<rparr> Crashed 5]"
      "new_supervisor default_policy True True" 0]
  by (auto simp: keeps_activation_def begins_activation_def nextId_def new_supervisor_def)

text \<open>
   Retirement is final.  After a clean exit, a startup failure or a crash loop nothing but a new
  activation changes the supervisor: no attempt starts, no handshake is taken, no failure report
  leads to a restart or a rollback, and the state stays as it is.
\<close>

theorem retired_until_next_activation:
  assumes "sup_state s = Retired" and "list_all keeps_activation es"
  shows "final_state supervisor_step s es = s
    \<and> list_all inert_result (snd (run_machine supervisor_step s es))"
proof
  show "final_state supervisor_step s es = s"
    using assms by (rule retired.run_frame [where f = "\<lambda>s. s"]) (rule retired_step)
  show "list_all inert_result (snd (run_machine supervisor_step s es))"
    using assms by (rule retired.run_outputs) (rule retired_result)
qed

theorem retired_until_next_activation_witness:
  "final_state supervisor_step (new_supervisor default_policy True True) [BeginAttempt 0 7]
    = new_supervisor default_policy True True"
  using retired_until_next_activation [of "new_supervisor default_policy True True"
      "[BeginAttempt 0 7]"]
  by (simp add: new_supervisor_def keeps_activation_def begins_activation_def)


definition demo_key :: "attempt_id \<Rightarrow> attempt_key" where
  "demo_key i = \<lparr>key_activation = 1, key_attempt = i\<rparr>"

definition demo_running :: supervisor where
  "demo_running = final_state supervisor_step (new_supervisor default_policy True True)
     [BeginActivation 0, BeginAttempt 1 0]"

lemmas demo_evaluation = demo_running_def demo_key_def new_supervisor_def default_policy_def
  supervisor_ops nextId_def keeps_activation_def begins_activation_def supervisor_inv_def
  current_key_def


text \<open>
  C3.  What a healthy verdict is worth.  In every run from the start, \<open>isHealthy\<close> holds of a key only
  when an authenticated handshake of exactly this attempt was received at least a health window
  ago, and a handshake or heartbeat of this attempt within the heartbeat timeout.
\<close>

theorem healthy_has_evidence:
  assumes "s = final_state supervisor_step (new_supervisor p r b) es"
    and "isHealthy s key now"
  shows "\<exists>t0 t1. AuthenticatedHandshake key t0 \<in> set es
    \<and> healthWindowMs (sup_policy s) \<le> now - t0
    \<and> (AuthenticatedHandshake key t1 \<in> set es \<or> Heartbeat key t1 \<in> set es)
    \<and> now \<le> t1 + heartbeatTimeoutMs (sup_policy s)"
  using run_seen_in [of es p r b] assms
  by (auto simp: isHealthy_def isCurrent_iff seen_in_def)

definition demo_healthy_events :: "supervisor_event list" where
  "demo_healthy_events =
     [BeginActivation 0, BeginAttempt 1 0, AuthenticatedHandshake (demo_key 1) 100,
      Heartbeat (demo_key 1) 30000]"

theorem healthy_has_evidence_witness:
  "\<exists>t0 t1. AuthenticatedHandshake (demo_key 1) t0 \<in> set demo_healthy_events
    \<and> 30000 \<le> 31000 - t0
    \<and> (AuthenticatedHandshake (demo_key 1) t1 \<in> set demo_healthy_events
       \<or> Heartbeat (demo_key 1) t1 \<in> set demo_healthy_events)
    \<and> 31000 \<le> t1 + 5000"
proof -
  let ?s = "final_state supervisor_step (new_supervisor default_policy True True)
    demo_healthy_events"
  have "isHealthy ?s (demo_key 1) 31000"
    by (simp add: demo_evaluation demo_healthy_events_def isHealthy_def)
  moreover have "sup_policy ?s = default_policy"
    by (simp add: demo_evaluation demo_healthy_events_def)
  ultimately show ?thesis
    using healthy_has_evidence [OF refl, of default_policy True True demo_healthy_events
        "demo_key 1" 31000]
    by (simp add: default_policy_def)
qed

end
