(* ===== verification/GestureStore.thy ===== *)
theory GestureStore
  imports Prelude "HOL-Library.AList"
begin

text \<open>
  The store of user-gesture grants (\<open>runtime/broker/UserGestureGrantStore\<close>): sessions of an
  application identity, single-use grants for one request identifier with a lifetime, and a window
  in which a request identifier that has left the active set may not be granted again.

  A \<open>QHash\<close> is an association list with distinct keys (the proofs never use its order).  The mutex
  makes every method one atomic step, and \<open>clock.elapsed()\<close> is the argument \<open>now\<close> of the step.
  The session and grant handles are move-only objects; a moved-from or reset handle has no state
  pointer.  A state pointer is the identity of the store it points to, so a handle of another store
  is a value of the model.  The two 64-bit counters grow by one per successful call and are natural
  numbers here.
\<close>

section \<open>State\<close>

definition maximumActiveGrants :: nat where "maximumActiveGrants = 4096"
definition maximumRememberedRecords :: nat where "maximumRememberedRecords = 8192"
definition maximumSessions :: nat where "maximumSessions = 128"
definition replayWindowMs :: int where "replayWindowMs = 60000"

record grant_record =
  rec_requestId :: qstring
  expiresAt :: int

record session_state =
  ses_appIdentity :: qstring
  active :: "(nat \<times> grant_record) list"
  used :: "(qstring \<times> int) list"

record gesture_store =
  store_id :: nat
  sessions :: "(nat \<times> session_state) list"
  nextSessionId :: nat
  nextGrantId :: nat
  accepting :: bool

record gesture_session =
  gs_state :: "nat option"
  gs_sessionId :: nat

record gesture_grant =
  gg_state :: "nat option"
  gg_sessionId :: nat
  gg_grantId :: nat
  gg_appIdentity :: qstring
  gg_requestId :: qstring
  gg_active :: bool

definition new_store :: "nat \<Rightarrow> gesture_store" where
  "new_store i =
     \<lparr>store_id = i, sessions = [], nextSessionId = 1, nextGrantId = 1, accepting = True\<rparr>"

definition validToken :: "qstring \<Rightarrow> bool" where
  "validToken token \<longleftrightarrow>
     token \<noteq> [] \<and> length token \<le> 256 \<and> list_all (\<lambda>c. 0x21 \<le> c \<and> c \<le> 0x7e) token"

section \<open>Operations\<close>

definition purge_session :: "int \<Rightarrow> session_state \<Rightarrow> session_state" where
  "purge_session now ses =
     (let expired = filter (\<lambda>(i, g). expiresAt g \<le> now) (active ses);
          remembered = foldl (\<lambda>u (i, g). AList.update (rec_requestId g) (now + replayWindowMs) u)
                         (used ses) expired
      in ses\<lparr>active := filter (\<lambda>(i, g). \<not> expiresAt g \<le> now) (active ses),
             used := filter (\<lambda>(r, t). \<not> t \<le> now) remembered\<rparr>)"

definition purgeExpired :: "gesture_store \<Rightarrow> int \<Rightarrow> gesture_store" where
  "purgeExpired st now =
     st\<lparr>sessions := map (\<lambda>(i, ses). (i, purge_session now ses)) (sessions st)\<rparr>"

definition recordCount :: "gesture_store \<Rightarrow> nat" where
  "recordCount st = sum_list (map (\<lambda>(i, ses). length (active ses) + length (used ses)) (sessions st))"

definition activeCount :: "gesture_store \<Rightarrow> nat" where
  "activeCount st = sum_list (map (\<lambda>(i, ses). length (active ses)) (sessions st))"

definition openSession :: "gesture_store \<Rightarrow> qstring \<Rightarrow> gesture_store \<times> gesture_session option" where
  "openSession st appIdentity =
     (if \<not> validToken appIdentity then (st, None)
      else if \<not> accepting st \<or> maximumSessions \<le> length (sessions st) then (st, None)
      else let i = nextSessionId st in
        (st\<lparr>nextSessionId := i + 1,
            sessions := AList.update i
              \<lparr>ses_appIdentity = appIdentity, active = [], used = []\<rparr> (sessions st)\<rparr>,
         Some \<lparr>gs_state = Some (store_id st), gs_sessionId = i\<rparr>))"

definition issueLocked ::
  "gesture_store \<Rightarrow> gesture_session \<Rightarrow> qstring \<Rightarrow> int \<Rightarrow> int \<Rightarrow> gesture_store \<times> gesture_grant option"
  where
  "issueLocked st0 session requestId lifetimeMs now =
     (let st = purgeExpired st0 now in
      case map_of (sessions st) (gs_sessionId session) of
        None \<Rightarrow> (st, None)
      | Some found \<Rightarrow>
          if \<not> accepting st \<or> maximumActiveGrants \<le> activeCount st
             \<or> maximumRememberedRecords \<le> recordCount st then (st, None)
          else if list_ex (\<lambda>(i, g). rec_requestId g = requestId) (active found) then (st, None)
          else if map_of (used found) requestId \<noteq> None then (st, None)
          else let grantId = nextGrantId st;
                   found' = found\<lparr>active := AList.update grantId
                     \<lparr>rec_requestId = requestId, expiresAt = now + lifetimeMs\<rparr> (active found)\<rparr>
            in (st\<lparr>nextGrantId := grantId + 1,
                   sessions := AList.update (gs_sessionId session) found' (sessions st)\<rparr>,
                Some \<lparr>gg_state = Some (store_id st), gg_sessionId = gs_sessionId session,
                      gg_grantId = grantId, gg_appIdentity = ses_appIdentity found,
                      gg_requestId = requestId, gg_active = True\<rparr>))"

definition issue_guard :: "gesture_store \<Rightarrow> gesture_session \<Rightarrow> qstring \<Rightarrow> int \<Rightarrow> bool" where
  "issue_guard st session requestId lifetimeMs \<longleftrightarrow>
     gs_state session = Some (store_id st) \<and> gs_sessionId session \<noteq> 0 \<and> validToken requestId
     \<and> 0 < lifetimeMs \<and> lifetimeMs \<le> 60000"

definition issue ::
  "gesture_store \<Rightarrow> gesture_session \<Rightarrow> qstring \<Rightarrow> int \<Rightarrow> int \<Rightarrow> gesture_store \<times> gesture_grant option"
  where
  "issue st session requestId lifetimeMs now =
     (if \<not> issue_guard st session requestId lifetimeMs then (st, None)
      else issueLocked st session requestId lifetimeMs now)"

text \<open>\<open>locked\<close> is the result of \<open>mutex.tryLock()\<close>.\<close>

definition tryIssue ::
  "gesture_store \<Rightarrow> bool \<Rightarrow> gesture_session \<Rightarrow> qstring \<Rightarrow> int \<Rightarrow> int
    \<Rightarrow> gesture_store \<times> gesture_grant option" where
  "tryIssue st locked session requestId lifetimeMs now =
     (if \<not> issue_guard st session requestId lifetimeMs \<or> \<not> locked then (st, None)
      else issueLocked st session requestId lifetimeMs now)"

definition consume ::
  "gesture_store \<Rightarrow> gesture_grant \<Rightarrow> qstring \<Rightarrow> qstring \<Rightarrow> int
    \<Rightarrow> gesture_store \<times> gesture_grant \<times> bool" where
  "consume st0 grant appIdentity requestId now =
     (if gg_state grant \<noteq> Some (store_id st0) \<or> \<not> gg_active grant
         \<or> gg_appIdentity grant \<noteq> appIdentity \<or> gg_requestId grant \<noteq> requestId
      then (st0, grant, False)
      else let st = purgeExpired st0 now in
        case map_of (sessions st) (gg_sessionId grant) of
          None \<Rightarrow> (st, grant, False)
        | Some session \<Rightarrow>
            if \<not> accepting st \<or> ses_appIdentity session \<noteq> appIdentity then (st, grant, False)
            else case map_of (active session) (gg_grantId grant) of
                None \<Rightarrow> (st, grant, False)
              | Some r \<Rightarrow>
                  if rec_requestId r \<noteq> requestId \<or> expiresAt r \<le> now then (st, grant, False)
                  else let session' = session\<lparr>active := AList.delete (gg_grantId grant) (active session),
                             used := AList.update requestId (now + replayWindowMs) (used session)\<rparr>
                    in (st\<lparr>sessions := AList.update (gg_sessionId grant) session' (sessions st)\<rparr>,
                        grant\<lparr>gg_active := False\<rparr>, True))"

definition revokeOutstanding :: "gesture_store \<Rightarrow> gesture_session \<Rightarrow> int \<Rightarrow> gesture_store \<times> bool" where
  "revokeOutstanding st0 session now =
     (if gs_state session \<noteq> Some (store_id st0) \<or> gs_sessionId session = 0 then (st0, False)
      else if map_of (sessions st0) (gs_sessionId session) = None then (st0, False)
      else let st = purgeExpired st0 now in
        case map_of (sessions st) (gs_sessionId session) of
          None \<Rightarrow> (st, False)
        | Some found \<Rightarrow>
            let found' = found\<lparr>used := foldl (\<lambda>u (i, g).
                      AList.update (rec_requestId g) (now + replayWindowMs) u)
                    (used found) (active found),
                  active := []\<rparr>
            in (st\<lparr>sessions := AList.update (gs_sessionId session) found' (sessions st)\<rparr>, True))"

text \<open>\<open>UserGestureSession::close\<close> (the destructor) and \<open>UserGestureGrant::revoke\<close> (likewise).\<close>

definition close_session :: "gesture_store \<Rightarrow> gesture_session \<Rightarrow> gesture_store \<times> gesture_session" where
  "close_session st session =
     (if gs_state session = Some (store_id st) \<and> gs_sessionId session \<noteq> 0
      then st\<lparr>sessions := AList.delete (gs_sessionId session) (sessions st)\<rparr> else st,
      session\<lparr>gs_sessionId := 0, gs_state := None\<rparr>)"

definition revoke_grant :: "gesture_store \<Rightarrow> gesture_grant \<Rightarrow> int \<Rightarrow> gesture_store \<times> gesture_grant" where
  "revoke_grant st grant now =
     ((if gg_active grant \<and> gg_state grant = Some (store_id st) \<and> gg_sessionId grant \<noteq> 0
          \<and> gg_grantId grant \<noteq> 0
       then case map_of (sessions st) (gg_sessionId grant) of
              None \<Rightarrow> st
            | Some session \<Rightarrow>
                if map_of (active session) (gg_grantId grant) = None then st
                else st\<lparr>sessions := AList.update (gg_sessionId grant)
                  (session\<lparr>active := AList.delete (gg_grantId grant) (active session),
                           used := AList.update (gg_requestId grant) (now + replayWindowMs)
                                     (used session)\<rparr>) (sessions st)\<rparr>
       else st),
      grant\<lparr>gg_active := False, gg_state := None\<rparr>)"

text \<open>The destructor of the store; outstanding handles keep the shared state alive.\<close>

definition destroy_store :: "gesture_store \<Rightarrow> gesture_store" where
  "destroy_store st = st\<lparr>accepting := False, sessions := []\<rparr>"

text \<open>
  Moving a handle out of another one: the new handle and what is left of the old one, whose strings
  \<open>std::move\<close> leaves unspecified and the model leaves empty.
\<close>

definition move_session :: "gesture_session \<Rightarrow> gesture_session \<times> gesture_session" where
  "move_session other = (other, other\<lparr>gs_state := None, gs_sessionId := 0\<rparr>)"

definition move_grant :: "gesture_grant \<Rightarrow> gesture_grant \<times> gesture_grant" where
  "move_grant other =
     (other, other\<lparr>gg_state := None, gg_sessionId := 0, gg_grantId := 0, gg_appIdentity := [],
                   gg_requestId := [], gg_active := False\<rparr>)"

text \<open>Move assignment of two different handles: the target is closed or revoked first.\<close>

definition move_assign_session ::
  "gesture_store \<Rightarrow> gesture_session \<Rightarrow> gesture_session
    \<Rightarrow> gesture_store \<times> gesture_session \<times> gesture_session" where
  "move_assign_session st this other =
     (fst (close_session st this), fst (move_session other), snd (move_session other))"

definition move_assign_grant ::
  "gesture_store \<Rightarrow> gesture_grant \<Rightarrow> gesture_grant \<Rightarrow> int
    \<Rightarrow> gesture_store \<times> gesture_grant \<times> gesture_grant" where
  "move_assign_grant st this other now =
     (fst (revoke_grant st this now), fst (move_grant other), snd (move_grant other))"

section \<open>The machine\<close>

text \<open>
  A world is a store with the handles its clients hold.  An event names a handle by its position; a
  position that holds no handle stands for a call no client can make.
\<close>

record gesture_world =
  gw_store :: gesture_store
  gw_sessions :: "gesture_session list"
  gw_grants :: "gesture_grant list"

datatype gesture_event =
    OpenSession qstring
  | Issue nat qstring int int
  | TryIssue bool nat qstring int int
  | Consume nat qstring qstring int
  | RevokeOutstanding nat int
  | CloseSession nat
  | DropGrant nat int
  | DestroyStore

datatype gesture_result =
    SessionOpened bool
  | GrantIssued bool
  | GrantConsumed bool
  | OutstandingRevoked bool
  | HandleDone
  | NoSuchHandle

definition new_world :: "nat \<Rightarrow> gesture_world" where
  "new_world i = \<lparr>gw_store = new_store i, gw_sessions = [], gw_grants = []\<rparr>"

definition add_session ::
  "gesture_world \<Rightarrow> gesture_store \<times> gesture_session option \<Rightarrow> gesture_world \<times> gesture_result" where
  "add_session w r =
     (w\<lparr>gw_store := fst r,
        gw_sessions := gw_sessions w @ (case snd r of None \<Rightarrow> [] | Some h \<Rightarrow> [h])\<rparr>,
      SessionOpened (snd r \<noteq> None))"

definition add_grant ::
  "gesture_world \<Rightarrow> gesture_store \<times> gesture_grant option \<Rightarrow> gesture_world \<times> gesture_result" where
  "add_grant w r =
     (w\<lparr>gw_store := fst r,
        gw_grants := gw_grants w @ (case snd r of None \<Rightarrow> [] | Some h \<Rightarrow> [h])\<rparr>,
      GrantIssued (snd r \<noteq> None))"

fun gesture_step :: "gesture_world \<Rightarrow> gesture_event \<Rightarrow> gesture_world \<times> gesture_result" where
  "gesture_step w (OpenSession app) = add_session w (openSession (gw_store w) app)"
| "gesture_step w (Issue i r life now) =
     (if i < length (gw_sessions w)
      then add_grant w (issue (gw_store w) (gw_sessions w ! i) r life now)
      else (w, NoSuchHandle))"
| "gesture_step w (TryIssue locked i r life now) =
     (if i < length (gw_sessions w)
      then add_grant w (tryIssue (gw_store w) locked (gw_sessions w ! i) r life now)
      else (w, NoSuchHandle))"
| "gesture_step w (Consume j app r now) =
     (if j < length (gw_grants w)
      then let (st, g, ok) = consume (gw_store w) (gw_grants w ! j) app r now
        in (w\<lparr>gw_store := st, gw_grants := (gw_grants w)[j := g]\<rparr>, GrantConsumed ok)
      else (w, NoSuchHandle))"
| "gesture_step w (RevokeOutstanding i now) =
     (if i < length (gw_sessions w)
      then let (st, ok) = revokeOutstanding (gw_store w) (gw_sessions w ! i) now
        in (w\<lparr>gw_store := st\<rparr>, OutstandingRevoked ok)
      else (w, NoSuchHandle))"
| "gesture_step w (CloseSession i) =
     (if i < length (gw_sessions w)
      then let (st, h) = close_session (gw_store w) (gw_sessions w ! i)
        in (w\<lparr>gw_store := st, gw_sessions := (gw_sessions w)[i := h]\<rparr>, HandleDone)
      else (w, NoSuchHandle))"
| "gesture_step w (DropGrant j now) =
     (if j < length (gw_grants w)
      then let (st, g) = revoke_grant (gw_store w) (gw_grants w ! j) now
        in (w\<lparr>gw_store := st, gw_grants := (gw_grants w)[j := g]\<rparr>, HandleDone)
      else (w, NoSuchHandle))"
| "gesture_step w DestroyStore = (w\<lparr>gw_store := destroy_store (gw_store w)\<rparr>, HandleDone)"

fun event_time :: "gesture_event \<Rightarrow> int option" where
  "event_time (Issue i r life now) = Some now"
| "event_time (TryIssue locked i r life now) = Some now"
| "event_time (Consume j app r now) = Some now"
| "event_time (RevokeOutstanding i now) = Some now"
| "event_time (DropGrant j now) = Some now"
| "event_time _ = None"

definition within :: "int \<Rightarrow> int \<Rightarrow> gesture_event \<Rightarrow> bool" where
  "within t u e \<longleftrightarrow> (case event_time e of None \<Rightarrow> True | Some now \<Rightarrow> t \<le> now \<and> now < u)"

section \<open>Association lists\<close>

lemma map_of_map_snd: "map_of (map (\<lambda>(i, x). (i, f x)) xs) k = map_option f (map_of xs k)"
  by (induction xs) auto

lemma map_of_filter_kept:
  "map_of xs k = Some v \<Longrightarrow> P (k, v) \<Longrightarrow> map_of (filter P xs) k = Some v"
  by (induction xs) auto

lemma map_of_foldl_update_other:
  "\<forall>(i, g) \<in> set gs. f g \<noteq> k \<Longrightarrow>
    map_of (foldl (\<lambda>u (i, g). AList.update (f g) t u) us gs) k = map_of us k"
  by (induction gs arbitrary: us) (auto simp: update_conv')

lemma length_update_le: "length (AList.update k v xs) \<le> Suc (length xs)"
  by (induction xs) auto

lemma length_foldl_update:
  "length (foldl (\<lambda>u (i, g). AList.update (f g) t u) us gs) \<le> length us + length gs"
proof (induction gs arbitrary: us)
  case Nil
  then show ?case by simp
next
  case (Cons g gs)
  obtain i x where g: "g = (i, x)" by (cases g)
  have "length (AList.update (f x) t us) \<le> Suc (length us)" by (rule length_update_le)
  then show ?case using Cons.IH [of "AList.update (f x) t us"] by (simp add: g)
qed

lemma length_foldl_update':
  "length (foldl (\<lambda>u (i, g). AList.update (f g) (t + d) u) us gs) \<le> length gs + length us"
  using length_foldl_update [of f "t + d" us gs] by simp

lemma sum_update:
  "map_of xs k = Some v \<Longrightarrow>
    sum_list (map (\<lambda>(i, x). w x) (AList.update k u xs)) + w v
      = sum_list (map (\<lambda>(i, x). w x) xs) + (w u :: nat)"
  by (induction xs) auto

lemma sum_update_fresh:
  "map_of xs k = None \<Longrightarrow>
    sum_list (map (\<lambda>(i, x). w x) (AList.update k u xs))
      = sum_list (map (\<lambda>(i, x). w x) xs) + (w u :: nat)"
  by (induction xs) auto

lemma sum_delete_le:
  "sum_list (map (\<lambda>(i, x). w x) (AList.delete k xs)) \<le> (sum_list (map (\<lambda>(i, x). w x) xs) :: nat)"
  by (induction xs) (auto simp: AList.delete_eq)

lemma sum_map_le:
  "(\<And>x. w (f x) \<le> w x) \<Longrightarrow>
    sum_list (map (\<lambda>(i, x). w x) (map (\<lambda>(i, x). (i, f x)) xs))
      \<le> (sum_list (map (\<lambda>(i, x). w x) xs) :: nat)"
  by (induction xs) (auto intro: add_mono)

lemma length_update_present: "map_of xs k \<noteq> None \<Longrightarrow> length (AList.update k v xs) = length xs"
  by (induction xs) auto

lemma length_update_fresh: "map_of xs k = None \<Longrightarrow> length (AList.update k v xs) = Suc (length xs)"
  by (induction xs) auto

lemma length_delete_present: "map_of xs k \<noteq> None \<Longrightarrow> length (AList.delete k xs) < length xs"
  by (induction xs) (auto simp: AList.delete_eq le_imp_less_Suc)

lemma set_update_subset: "set (AList.update k v xs) \<subseteq> insert (k, v) (set xs)"
  by (induction xs) auto

lemma set_delete_subset: "set (AList.delete k xs) \<subseteq> set xs"
  by (auto simp: AList.delete_eq)

lemma distinct_update_values:
  "distinct (map (\<lambda>(i, x). f x) xs) \<Longrightarrow> \<forall>(i, x) \<in> set xs. f x \<noteq> f v \<Longrightarrow>
    distinct (map (\<lambda>(i, x). f x) (AList.update k v xs))"
proof (induction xs)
  case Nil
  then show ?case by simp
next
  case (Cons y xs)
  then show ?case
    using set_update_subset [of k v xs] by (fastforce split: prod.splits)
qed

section \<open>Bounds\<close>

definition store_bounded :: "gesture_store \<Rightarrow> bool" where
  "store_bounded st \<longleftrightarrow> length (sessions st) \<le> maximumSessions
     \<and> activeCount st \<le> maximumActiveGrants \<and> recordCount st \<le> maximumRememberedRecords"

lemma purge_session_active_le: "length (active (purge_session now ses)) \<le> length (active ses)"
  by (simp add: purge_session_def Let_def)

lemma purge_session_records_le:
  "length (active (purge_session now ses)) + length (used (purge_session now ses))
    \<le> length (active ses) + length (used ses)"
proof -
  let ?gone = "filter (\<lambda>(i, g). expiresAt g \<le> now) (active ses)"
  let ?left = "filter (\<lambda>(i, g). \<not> expiresAt g \<le> now) (active ses)"
  let ?used = "foldl (\<lambda>u (i, g). AList.update (rec_requestId g) (now + replayWindowMs) u) (used ses) ?gone"
  have split: "length ?gone + length ?left = length (active ses)"
    using sum_length_filter_compl [of "\<lambda>(i, g). expiresAt g \<le> now" "active ses"]
    by (simp add: case_prod_unfold)
  have "length (filter (\<lambda>(r, t). \<not> t \<le> now) ?used) \<le> length ?used" by simp
  also have "\<dots> \<le> length (used ses) + length ?gone" by (rule length_foldl_update)
  finally show ?thesis using split by (simp add: purge_session_def Let_def)
qed

lemma purge_activeCount_le: "activeCount (purgeExpired st now) \<le> activeCount st"
  unfolding activeCount_def purgeExpired_def
  by (simp add: sum_map_le purge_session_active_le del: map_map)

lemma purge_recordCount_le: "recordCount (purgeExpired st now) \<le> recordCount st"
  unfolding recordCount_def purgeExpired_def
  by (simp add: sum_map_le purge_session_records_le del: map_map)

lemma purge_bounded: "store_bounded st \<Longrightarrow> store_bounded (purgeExpired st now)"
  using purge_activeCount_le [of st now] purge_recordCount_le [of st now]
  by (simp add: store_bounded_def) (simp add: purgeExpired_def)

lemma bounded_replace:
  assumes "store_bounded st" and "map_of (sessions st) i = Some ses"
    and "length (active ses') \<le> length (active ses)"
    and "length (active ses') + length (used ses') \<le> length (active ses) + length (used ses)"
  shows "store_bounded (st\<lparr>sessions := AList.update i ses' (sessions st)\<rparr>)"
  using assms sum_update [OF assms(2), of "\<lambda>ses. length (active ses)" ses']
    sum_update [OF assms(2), of "\<lambda>ses. length (active ses) + length (used ses)" ses']
  by (simp add: store_bounded_def activeCount_def recordCount_def length_update_present)

lemma openSession_bounded: "store_bounded st \<Longrightarrow> store_bounded (fst (openSession st app))"
proof -
  assume b: "store_bounded st"
  show ?thesis
  proof (cases "map_of (sessions st) (nextSessionId st)")
    case None
    note sums = sum_update_fresh [OF None, of "\<lambda>ses. length (active ses)"]
      sum_update_fresh [OF None, of "\<lambda>ses. length (active ses) + length (used ses)"]
    from b None show ?thesis
      by (auto simp: openSession_def store_bounded_def activeCount_def recordCount_def
          length_update_fresh sums Let_def)
  next
    case (Some ses)
    from bounded_replace [OF b Some, of "\<lparr>ses_appIdentity = app, active = [], used = []\<rparr>"] b
    show ?thesis
      by (simp add: openSession_def store_bounded_def activeCount_def recordCount_def Let_def)
  qed
qed

lemma issueLocked_bounded:
  assumes "store_bounded st0"
  shows "store_bounded (fst (issueLocked st0 h r life now))"
proof (cases "map_of (sessions (purgeExpired st0 now)) (gs_sessionId h)")
  case None
  then show ?thesis using purge_bounded [OF assms] by (simp add: issueLocked_def)
next
  case (Some found)
  let ?st = "purgeExpired st0 now"
  let ?new = "found\<lparr>active := AList.update (nextGrantId ?st)
    \<lparr>rec_requestId = r, expiresAt = now + life\<rparr> (active found)\<rparr>"
  have "length (active ?new) \<le> Suc (length (active found))" by (simp add: length_update_le)
  with purge_bounded [OF assms, of now] show ?thesis
    using sum_update [OF Some, of "\<lambda>ses. length (active ses)" ?new]
      sum_update [OF Some, of "\<lambda>ses. length (active ses) + length (used ses)" ?new]
    by (auto simp: issueLocked_def Some store_bounded_def activeCount_def recordCount_def
        length_update_present Let_def)
qed

lemma issue_bounded: "store_bounded st \<Longrightarrow> store_bounded (fst (issue st h r life now))"
  by (simp add: issue_def issueLocked_bounded)

lemma tryIssue_bounded: "store_bounded st \<Longrightarrow> store_bounded (fst (tryIssue st l h r life now))"
  by (simp add: tryIssue_def issueLocked_bounded)

lemma move_to_used_bounded:
  assumes "store_bounded st" and "map_of (sessions st) i = Some ses"
    and "map_of (active ses) g \<noteq> None"
  shows "store_bounded (st\<lparr>sessions := AList.update i
    (ses\<lparr>active := AList.delete g (active ses), used := AList.update r t (used ses)\<rparr>)
    (sessions st)\<rparr>)"
  using length_delete_present [OF assms(3)] length_update_le [of r t "used ses"]
  by (intro bounded_replace [OF assms(1,2)]) auto

lemma consume_bounded:
  "store_bounded st \<Longrightarrow> store_bounded (fst (consume st g app r now))"
  using purge_bounded [of st now]
  by (auto simp: consume_def Let_def intro!: move_to_used_bounded split: option.splits)

lemma revokeOutstanding_bounded:
  "store_bounded st \<Longrightarrow> store_bounded (fst (revokeOutstanding st h now))"
  using purge_bounded [of st now]
  by (auto simp: revokeOutstanding_def Let_def add.commute intro!: bounded_replace
      intro: length_foldl_update' split: option.splits)

lemma close_session_bounded: "store_bounded st \<Longrightarrow> store_bounded (fst (close_session st h))"
proof -
  assume b: "store_bounded st"
  have "length (AList.delete i (sessions st)) \<le> length (sessions st)" for i
    by (simp add: AList.delete_eq)
  with b show ?thesis
    using sum_delete_le [of "\<lambda>ses. length (active ses)" "gs_sessionId h" "sessions st"]
      sum_delete_le [of "\<lambda>ses. length (active ses) + length (used ses)" "gs_sessionId h" "sessions st"]
    by (auto simp: close_session_def store_bounded_def activeCount_def recordCount_def
        intro: order_trans)
qed

lemma revoke_grant_bounded: "store_bounded st \<Longrightarrow> store_bounded (fst (revoke_grant st g now))"
  by (auto simp: revoke_grant_def intro!: move_to_used_bounded split: option.splits)

lemma destroy_store_bounded: "store_bounded (destroy_store st)"
  by (simp add: store_bounded_def destroy_store_def activeCount_def recordCount_def)

lemma gesture_step_bounded:
  "store_bounded (gw_store w) \<Longrightarrow> store_bounded (gw_store (fst (gesture_step w e)))"
  by (cases e) (auto simp: add_session_def add_grant_def split_beta openSession_bounded issue_bounded
      tryIssue_bounded consume_bounded revokeOutstanding_bounded close_session_bounded
      revoke_grant_bounded destroy_store_bounded)

interpretation gesture_bounds:
  machine_invariant gesture_step "\<lambda>w. store_bounded (gw_store w)" "\<lambda>_. True"
  by unfold_locales (rule gesture_step_bounded)

section \<open>Replay protection\<close>

text \<open>
  A request identifier is quiet in a session until \<open>u\<close> when no active grant carries it and it is
  remembered as used until \<open>u\<close> at least (or the session is gone; its number never comes back).
\<close>

definition quiet_session :: "qstring \<Rightarrow> int \<Rightarrow> session_state \<Rightarrow> bool" where
  "quiet_session r u ses \<longleftrightarrow>
     (\<forall>(i, g) \<in> set (active ses). rec_requestId g \<noteq> r)
     \<and> (\<exists>v. map_of (used ses) r = Some v \<and> u \<le> v)"

definition quiet :: "nat \<Rightarrow> qstring \<Rightarrow> int \<Rightarrow> gesture_store \<Rightarrow> bool" where
  "quiet sid r u st \<longleftrightarrow> sid < nextSessionId st
     \<and> (\<forall>ses. map_of (sessions st) sid = Some ses \<longrightarrow> quiet_session r u ses)"

lemma quietD: "quiet sid r u st \<Longrightarrow> map_of (sessions st) sid = Some ses \<Longrightarrow> quiet_session r u ses"
  by (simp add: quiet_def)

lemma quiet_purge_session:
  assumes "quiet_session r u ses" and "now < u"
  shows "quiet_session r u (purge_session now ses)"
proof -
  let ?gone = "filter (\<lambda>(i, g). expiresAt g \<le> now) (active ses)"
  let ?used = "foldl (\<lambda>u (i, g). AList.update (rec_requestId g) (now + replayWindowMs) u) (used ses) ?gone"
  from assms obtain v where v: "map_of (used ses) r = Some v" "u \<le> v"
    and none: "\<forall>(i, g) \<in> set (active ses). rec_requestId g \<noteq> r"
    by (auto simp: quiet_session_def)
  from none have "\<forall>(i, g) \<in> set ?gone. rec_requestId g \<noteq> r" by auto
  then have "map_of ?used r = Some v"
    using v(1) map_of_foldl_update_other [of ?gone rec_requestId r "now + replayWindowMs" "used ses"]
    by simp
  then have "map_of (filter (\<lambda>(r, t). \<not> t \<le> now) ?used) r = Some v"
    using v(2) assms(2) by (intro map_of_filter_kept) auto
  with v(2) none show ?thesis
    by (auto simp: quiet_session_def purge_session_def Let_def)
qed

lemma sessions_purge:
  "map_of (sessions (purgeExpired st now)) i
    = map_option (purge_session now) (map_of (sessions st) i)"
  by (simp add: purgeExpired_def map_of_map_snd)

lemma purge_frame [simp]:
  "store_id (purgeExpired st now) = store_id st"
  "nextSessionId (purgeExpired st now) = nextSessionId st"
  "nextGrantId (purgeExpired st now) = nextGrantId st"
  "accepting (purgeExpired st now) = accepting st"
  by (simp_all add: purgeExpired_def)

lemma quiet_purge: "quiet sid r u st \<Longrightarrow> now < u \<Longrightarrow> quiet sid r u (purgeExpired st now)"
  by (auto simp: quiet_def sessions_purge quiet_purge_session)

lemma quiet_replace:
  assumes "quiet sid r u st" and "i = sid \<Longrightarrow> quiet_session r u ses"
  shows "quiet sid r u (st\<lparr>sessions := AList.update i ses (sessions st)\<rparr>)"
  using assms by (auto simp: quiet_def update_conv')

lemma quiet_openSession: "quiet sid r u st \<Longrightarrow> quiet sid r u (fst (openSession st app))"
  by (auto simp: quiet_def openSession_def Let_def update_conv')

lemma quiet_issueLocked:
  assumes "quiet sid r u st" and "now < u"
  shows "quiet sid r u (fst (issueLocked st h req life now))"
proof (cases "map_of (sessions (purgeExpired st now)) (gs_sessionId h)")
  case None
  then show ?thesis using quiet_purge [OF assms] by (simp add: issueLocked_def)
next
  case (Some found)
  note q = quiet_purge [OF assms]
  show ?thesis
  proof (cases "map_of (used found) req")
    case None': None
    have "quiet_session r u (found\<lparr>active := AList.update n
        \<lparr>rec_requestId = req, expiresAt = now + life\<rparr> (active found)\<rparr>)"
      if "gs_sessionId h = sid" for n
    proof -
      from q Some that have qs: "quiet_session r u found" by (auto simp: quiet_def)
      with None' have "req \<noteq> r" by (auto simp: quiet_session_def)
      with qs show ?thesis
        using set_update_subset [of n "\<lparr>rec_requestId = req, expiresAt = now + life\<rparr>" "active found"]
        by (fastforce simp: quiet_session_def)
    qed
    with q have "quiet sid r u ((purgeExpired st now)\<lparr>sessions := AList.update (gs_sessionId h)
        (found\<lparr>active := AList.update n \<lparr>rec_requestId = req, expiresAt = now + life\<rparr> (active found)\<rparr>)
        (sessions (purgeExpired st now))\<rparr>)" for n
      by (intro quiet_replace)
    with q show ?thesis
      by (simp add: issueLocked_def Some Let_def quiet_def)
  next
    case used: (Some v)
    with q show ?thesis by (simp add: issueLocked_def Some Let_def)
  qed
qed

lemma quiet_refuses:
  assumes "quiet sid r u st" and "now < u" and "gs_sessionId h = sid"
  shows "snd (issueLocked st h r life now) = None"
  using quiet_purge [OF assms(1,2)] assms(3)
  by (auto simp: issueLocked_def quiet_def quiet_session_def Let_def split: option.splits)

lemma quiet_move_to_used:
  assumes "quiet_session r u ses" and "u \<le> now + replayWindowMs"
  shows "quiet_session r u
    (ses\<lparr>active := AList.delete g (active ses), used := AList.update q (now + replayWindowMs) (used ses)\<rparr>)"
  using assms set_delete_subset [of g "active ses"]
  by (fastforce simp: quiet_session_def update_conv')

lemma quiet_consume:
  assumes "quiet sid r u st" and "now < u" and "u \<le> now + replayWindowMs"
  shows "quiet sid r u (fst (consume st g app req now))"
  using quiet_purge [OF assms(1,2)] assms(1,3)
  by (auto simp: consume_def Let_def intro!: quiet_replace quiet_move_to_used
      split: option.splits dest: quietD)

lemma quiet_not_consumed:
  assumes "quiet sid r u st" and "now < u" and "gg_sessionId g = sid"
  shows "\<not> snd (snd (consume st g app r now))"
  using quiet_purge [OF assms(1,2)] assms(3)
  by (auto simp: consume_def Let_def quiet_def quiet_session_def split: option.splits
      dest: map_of_SomeD)

lemma quiet_revokeOutstanding:
  assumes "quiet sid r u st" and "now < u"
  shows "quiet sid r u (fst (revokeOutstanding st h now))"
proof -
  have "quiet_session r u (ses\<lparr>used := foldl (\<lambda>v (i, g).
      AList.update (rec_requestId g) (now + replayWindowMs) v) (used ses) (active ses), active := []\<rparr>)"
    if "quiet_session r u ses" for ses
    using that map_of_foldl_update_other [of "active ses" rec_requestId r "now + replayWindowMs" "used ses"]
    by (simp add: quiet_session_def)
  with quiet_purge [OF assms] assms(1) show ?thesis
    by (auto simp: revokeOutstanding_def Let_def intro!: quiet_replace split: option.splits dest: quietD)
qed

lemma quiet_close_session: "quiet sid r u st \<Longrightarrow> quiet sid r u (fst (close_session st h))"
  by (auto simp: close_session_def quiet_def delete_conv')

lemma quiet_revoke_grant:
  "quiet sid r u st \<Longrightarrow> u \<le> now + replayWindowMs \<Longrightarrow> quiet sid r u (fst (revoke_grant st g now))"
  by (auto simp: revoke_grant_def intro!: quiet_replace quiet_move_to_used
      split: option.splits dest: quietD)

lemma quiet_destroy_store: "quiet sid r u st \<Longrightarrow> quiet sid r u (destroy_store st)"
  by (simp add: quiet_def destroy_store_def)

lemma quiet_gesture_step:
  assumes "quiet sid r (t + replayWindowMs) (gw_store w)" and "within t (t + replayWindowMs) e"
  shows "quiet sid r (t + replayWindowMs) (gw_store (fst (gesture_step w e)))"
  using assms
  by (cases e) (auto simp: within_def add_session_def add_grant_def split_beta quiet_openSession
      issue_def tryIssue_def quiet_issueLocked quiet_consume quiet_revokeOutstanding
      quiet_close_session quiet_revoke_grant quiet_destroy_store)

interpretation replay_window:
  machine_invariant gesture_step "\<lambda>w. quiet sid r (t + replayWindowMs) (gw_store w)"
    "within t (t + replayWindowMs)" for sid r t
  by unfold_locales (rule quiet_gesture_step)

section \<open>Invariants of single sessions\<close>

text \<open>
  What the operations promise of one session: it starts empty, its active grants are only ever
  filtered or extended by a grant with the next number and a request that no active grant carries,
  and its identity never changes.  A predicate on sessions with these closure laws holds of every
  session of the store in every run.  \<open>P n i ses\<close> speaks of session \<open>i\<close> while the next grant number
  is \<open>n\<close>; the laws are only required of numbers from \<open>slim\<close> and \<open>glim\<close> on.
\<close>

definition all_sessions ::
  "nat \<Rightarrow> nat \<Rightarrow> (nat \<Rightarrow> nat \<Rightarrow> session_state \<Rightarrow> bool) \<Rightarrow> gesture_store \<Rightarrow> bool" where
  "all_sessions slim glim P st \<longleftrightarrow> slim \<le> nextSessionId st \<and> glim \<le> nextGrantId st
     \<and> distinct (map fst (sessions st))
     \<and> list_all (\<lambda>(i, ses). i < nextSessionId st \<and> P (nextGrantId st) i ses) (sessions st)"

lemma list_all_update: "list_all Q xs \<Longrightarrow> Q (k, v) \<Longrightarrow> list_all Q (AList.update k v xs)"
  by (induction xs) auto

lemma list_all_delete: "list_all Q xs \<Longrightarrow> list_all Q (AList.delete k xs)"
  by (auto simp: list_all_iff AList.delete_eq)

lemma list_all_map_of: "list_all (\<lambda>(i, x). Q i x) xs \<Longrightarrow> map_of xs k = Some x \<Longrightarrow> Q k x"
  by (auto simp: list_all_iff dest!: map_of_SomeD)

lemma all_sessionsD:
  "all_sessions slim glim P st \<Longrightarrow> map_of (sessions st) i = Some ses \<Longrightarrow>
    i < nextSessionId st \<and> P (nextGrantId st) i ses"
  unfolding all_sessions_def by (elim conjE, drule list_all_map_of) auto

lemma all_sessions_replace:
  "all_sessions slim glim P st \<Longrightarrow> map_of (sessions st) i = Some old \<Longrightarrow> P (nextGrantId st) i ses \<Longrightarrow>
    all_sessions slim glim P (st\<lparr>sessions := AList.update i ses (sessions st)\<rparr>)"
  using all_sessionsD [of slim glim P st i old]
  by (simp add: all_sessions_def distinct_update list_all_update)

locale session_invariant =
  fixes slim glim :: nat
    and P :: "nat \<Rightarrow> nat \<Rightarrow> session_state \<Rightarrow> bool"
  assumes fresh: "slim \<le> i \<Longrightarrow> P n i \<lparr>ses_appIdentity = app, active = [], used = []\<rparr>"
    and shrink: "P n i ses \<Longrightarrow> ses_appIdentity ses' = ses_appIdentity ses \<Longrightarrow>
      active ses' = filter Q (active ses) \<Longrightarrow> P n i ses'"
    and later: "P n i ses \<Longrightarrow> P (Suc n) i ses"
    and issued: "P n i ses \<Longrightarrow> glim \<le> n \<Longrightarrow>
      \<not> list_ex (\<lambda>(j, g). rec_requestId g = rec_requestId new) (active ses) \<Longrightarrow>
      P (Suc n) i (ses\<lparr>active := AList.update n new (active ses)\<rparr>)"
begin

abbreviation holds :: "gesture_store \<Rightarrow> bool" where
  "holds \<equiv> all_sessions slim glim P"

lemma holds_purge: "holds st \<Longrightarrow> holds (purgeExpired st now)"
proof -
  assume st: "holds st"
  have keys: "map fst (sessions (purgeExpired st now)) = map fst (sessions st)"
    by (simp add: purgeExpired_def case_prod_unfold comp_def)
  have "P n i (purge_session now ses)" if "P n i ses" for n i ses
    using that by (rule shrink) (simp_all add: purge_session_def Let_def)
  then have "list_all (\<lambda>(i, ses). i < nextSessionId st \<and> P (nextGrantId st) i ses)
      (sessions (purgeExpired st now))"
    using st by (auto simp: all_sessions_def purgeExpired_def list_all_iff)
  with st keys show ?thesis by (simp add: all_sessions_def)
qed

lemma holds_openSession: "holds st \<Longrightarrow> holds (fst (openSession st app))"
proof -
  assume st: "holds st"
  then have "slim \<le> nextSessionId st" by (simp add: all_sessions_def)
  then have "P n (nextSessionId st) \<lparr>ses_appIdentity = app, active = [], used = []\<rparr>" for n
    by (rule fresh)
  moreover have "list_all (\<lambda>(i, ses). i < Suc (nextSessionId st) \<and> P (nextGrantId st) i ses) (sessions st)"
    using st by (auto simp: all_sessions_def list_all_iff)
  ultimately show ?thesis
    using st by (simp add: openSession_def Let_def all_sessions_def distinct_update list_all_update)
qed

lemma holds_issueLocked:
  assumes "holds st"
  shows "holds (fst (issueLocked st h r life now))"
proof -
  let ?st = "purgeExpired st now"
  have st: "holds ?st" using assms by (rule holds_purge)
  have later: "holds (?st\<lparr>nextGrantId := Suc (nextGrantId st)\<rparr>)"
    using st later by (auto simp: all_sessions_def list_all_iff)
  show ?thesis
  proof (cases "map_of (sessions ?st) (gs_sessionId h)")
    case None
    with st show ?thesis by (simp add: issueLocked_def)
  next
    case (Some ses)
    from all_sessionsD [OF st Some] st
    have "P (Suc (nextGrantId st)) (gs_sessionId h) (ses\<lparr>active := AList.update (nextGrantId st)
        \<lparr>rec_requestId = r, expiresAt = now + life\<rparr> (active ses)\<rparr>)"
      if "\<not> list_ex (\<lambda>(j, g). rec_requestId g = r) (active ses)"
      using that by (intro issued) (auto simp: all_sessions_def)
    with later st Some show ?thesis
      using all_sessions_replace [OF later, of "gs_sessionId h" ses]
      by (simp add: issueLocked_def Let_def)
  qed
qed

lemma holds_move_to_used:
  "holds st \<Longrightarrow> map_of (sessions st) i = Some ses \<Longrightarrow>
    holds (st\<lparr>sessions := AList.update i
      (ses\<lparr>active := AList.delete g (active ses), used := us\<rparr>) (sessions st)\<rparr>)"
  using all_sessionsD [of slim glim P st i ses]
  by (auto intro!: all_sessions_replace simp: AList.delete_eq intro: shrink)

lemma holds_consume: "holds st \<Longrightarrow> holds (fst (consume st g app r now))"
  using holds_purge [of st now]
  by (auto simp: consume_def Let_def intro!: holds_move_to_used split: option.splits)

lemma holds_revokeOutstanding: "holds st \<Longrightarrow> holds (fst (revokeOutstanding st h now))"
proof -
  assume st: "holds st"
  have "P n i (ses\<lparr>used := us, active := []\<rparr>)" if "P n i ses" for n i ses us
    using that by (rule shrink [where Q = "\<lambda>_. False"]) simp_all
  with st holds_purge [OF st, of now] show ?thesis
    using all_sessionsD [OF holds_purge [OF st, of now]]
    by (auto simp: revokeOutstanding_def Let_def intro!: all_sessions_replace split: option.splits)
qed

lemma holds_close_session: "holds st \<Longrightarrow> holds (fst (close_session st h))"
  by (simp add: close_session_def all_sessions_def distinct_delete list_all_delete)

lemma holds_revoke_grant: "holds st \<Longrightarrow> holds (fst (revoke_grant st g now))"
  by (auto simp: revoke_grant_def intro!: holds_move_to_used split: option.splits)

lemma holds_destroy_store: "holds st \<Longrightarrow> holds (destroy_store st)"
  by (simp add: destroy_store_def all_sessions_def)

lemma holds_gesture_step: "holds (gw_store w) \<Longrightarrow> holds (gw_store (fst (gesture_step w e)))"
  by (cases e) (auto simp: add_session_def add_grant_def split_beta holds_openSession issue_def
      tryIssue_def holds_issueLocked holds_consume holds_revokeOutstanding holds_close_session
      holds_revoke_grant holds_destroy_store)

end

sublocale session_invariant \<subseteq> runs: machine_invariant gesture_step "\<lambda>w. holds (gw_store w)" "\<lambda>_. True"
  by unfold_locales (rule holds_gesture_step)

text \<open>
  First instance: grant numbers stay below their counter, and no two active grants of a session
  carry the same request.
\<close>

definition session_ok :: "nat \<Rightarrow> nat \<Rightarrow> session_state \<Rightarrow> bool" where
  "session_ok n i ses \<longleftrightarrow>
     distinct (map (\<lambda>(j, g). rec_requestId g) (active ses))
     \<and> list_all (\<lambda>(j, g). j < n) (active ses)"

abbreviation store_ok :: "gesture_store \<Rightarrow> bool" where
  "store_ok \<equiv> all_sessions 0 0 session_ok"

lemma distinct_requests_filter:
  "distinct (map (\<lambda>(j, g). f g) xs) \<Longrightarrow> distinct (map (\<lambda>(j, g). f g) (filter P xs))"
  by (induction xs) (auto split: prod.splits)

lemma session_ok_issue:
  assumes "session_ok n i ses"
    and "\<not> list_ex (\<lambda>(j, g). rec_requestId g = rec_requestId new) (active ses)"
  shows "session_ok (Suc n) i (ses\<lparr>active := AList.update n new (active ses)\<rparr>)"
proof -
  have "list_all (\<lambda>(j, g). j < Suc n) (active ses)"
    using assms(1) by (auto simp: session_ok_def list_all_iff)
  then have "list_all (\<lambda>(j, g). j < Suc n) (AList.update n new (active ses))"
    by (rule list_all_update) simp
  moreover have "distinct (map (\<lambda>(j, g). rec_requestId g) (AList.update n new (active ses)))"
    using assms by (intro distinct_update_values) (auto simp: session_ok_def list_ex_iff)
  ultimately show ?thesis by (simp add: session_ok_def)
qed

interpretation well_formed: session_invariant 0 0 session_ok
  by unfold_locales
    (auto simp: session_ok_issue, auto simp: session_ok_def list_all_iff intro: distinct_requests_filter)

text \<open>Second instance: whose a given grant is, which request it answers and when it expires.\<close>

definition session_tracks ::
  "nat \<Rightarrow> nat \<Rightarrow> qstring \<Rightarrow> qstring \<Rightarrow> int \<Rightarrow> nat \<Rightarrow> nat \<Rightarrow> session_state \<Rightarrow> bool" where
  "session_tracks sid gid app r exp n i ses \<longleftrightarrow>
     (i = sid \<longrightarrow> ses_appIdentity ses = app
        \<and> list_all (\<lambda>(j, g). j = gid \<longrightarrow> expiresAt g = exp \<and> rec_requestId g = r) (active ses))"

interpretation tracking:
  session_invariant "Suc sid" "Suc gid" "session_tracks sid gid app r exp" for sid gid app r exp
proof
  fix n i ses and new :: grant_record
  assume "session_tracks sid gid app r exp n i ses" and "Suc gid \<le> n"
  then show "session_tracks sid gid app r exp (Suc n) i (ses\<lparr>active := AList.update n new (active ses)\<rparr>)"
    by (auto simp: session_tracks_def intro!: list_all_update)
qed (auto simp: session_tracks_def list_all_iff)

text \<open>A request identifier is quiet from the moment its grant is consumed.\<close>

lemma consume_makes_quiet:
  assumes "store_ok st" and "snd (snd (consume st g app r now))"
  shows "quiet (gg_sessionId g) r (now + replayWindowMs) (fst (consume st g app r now))"
proof -
  let ?st = "purgeExpired st now"
  from assms(2) obtain ses rec where ses: "map_of (sessions ?st) (gg_sessionId g) = Some ses"
    and rec: "map_of (active ses) (gg_grantId g) = Some rec" "rec_requestId rec = r"
    and result: "fst (consume st g app r now) = ?st\<lparr>sessions := AList.update (gg_sessionId g)
      (ses\<lparr>active := AList.delete (gg_grantId g) (active ses),
           used := AList.update r (now + replayWindowMs) (used ses)\<rparr>) (sessions ?st)\<rparr>"
    by (auto simp: consume_def Let_def split: option.splits if_splits)
  from all_sessionsD [OF well_formed.holds_purge [OF assms(1)] ses]
  have d: "distinct (map (\<lambda>(j, g). rec_requestId g) (active ses))"
    and sid: "gg_sessionId g < nextSessionId ?st"
    by (simp_all add: session_ok_def)
  have "rec_requestId q \<noteq> r" if "(j, q) \<in> set (AList.delete (gg_grantId g) (active ses))" for j q
  proof
    assume "rec_requestId q = r"
    from that have "(j, q) \<in> set (active ses)" "j \<noteq> gg_grantId g" by (auto simp: AList.delete_eq)
    with map_of_SomeD [OF rec(1)] rec(2) \<open>rec_requestId q = r\<close> d show False
      by (fastforce simp: distinct_map inj_on_def)
  qed
  then have "quiet_session r (now + replayWindowMs)
      (ses\<lparr>active := AList.delete (gg_grantId g) (active ses),
           used := AList.update r (now + replayWindowMs) (used ses)\<rparr>)"
    by (auto simp: quiet_session_def update_conv')
  with sid show ?thesis
    by (auto simp: result quiet_def update_conv')
qed

text \<open>A grant that was just issued is tracked with the session's identity and its expiry.\<close>

lemma issueLocked_result:
  assumes "snd (issueLocked st h r life now) = Some g"
  obtains ses where "map_of (sessions (purgeExpired st now)) (gs_sessionId h) = Some ses"
    and "g = \<lparr>gg_state = Some (store_id st), gg_sessionId = gs_sessionId h,
      gg_grantId = nextGrantId st, gg_appIdentity = ses_appIdentity ses,
      gg_requestId = r, gg_active = True\<rparr>"
    and "fst (issueLocked st h r life now) = (purgeExpired st now)
      \<lparr>nextGrantId := Suc (nextGrantId st),
       sessions := AList.update (gs_sessionId h) (ses\<lparr>active := AList.update (nextGrantId st)
          \<lparr>rec_requestId = r, expiresAt = now + life\<rparr> (active ses)\<rparr>) (sessions (purgeExpired st now))\<rparr>"
  using assms
  by (auto simp: issueLocked_def Let_def split: option.splits if_splits)

lemma keys_update_map_of:
  "distinct (map fst xs) \<Longrightarrow> (i, x) \<in> set (AList.update k v xs) \<Longrightarrow> i = k \<Longrightarrow> x = v"
  using map_of_is_SomeI [of "AList.update k v xs" i x]
  by (simp add: distinct_update update_conv')

lemma issue_tracks:
  assumes ok: "store_ok st" and issued: "snd (issueLocked st h r life now) = Some g"
  shows "all_sessions (Suc (gg_sessionId g)) (Suc (gg_grantId g))
    (session_tracks (gg_sessionId g) (gg_grantId g) (gg_appIdentity g) r (now + life))
    (fst (issueLocked st h r life now))"
proof -
  let ?st = "purgeExpired st now"
  let ?rec = "\<lparr>rec_requestId = r, expiresAt = now + life\<rparr>"
  have ok1: "store_ok ?st" using ok by (rule well_formed.holds_purge)
  obtain ses where ses: "map_of (sessions ?st) (gs_sessionId h) = Some ses"
    and g: "g = \<lparr>gg_state = Some (store_id st), gg_sessionId = gs_sessionId h,
      gg_grantId = nextGrantId st, gg_appIdentity = ses_appIdentity ses,
      gg_requestId = r, gg_active = True\<rparr>"
    and result: "fst (issueLocked st h r life now) = ?st\<lparr>nextGrantId := Suc (nextGrantId st),
       sessions := AList.update (gs_sessionId h)
         (ses\<lparr>active := AList.update (nextGrantId st) ?rec (active ses)\<rparr>) (sessions ?st)\<rparr>"
    using issued by (rule issueLocked_result)
  let ?sessions = "AList.update (gs_sessionId h)
    (ses\<lparr>active := AList.update (nextGrantId st) ?rec (active ses)\<rparr>) (sessions ?st)"
  from all_sessionsD [OF ok1 ses] have below: "list_all (\<lambda>(j, g). j < nextGrantId st) (active ses)"
    and sid: "gs_sessionId h < nextSessionId st"
    by (simp_all add: session_ok_def)
  have "list_all (\<lambda>(j, g). j = nextGrantId st \<longrightarrow> expiresAt g = now + life \<and> rec_requestId g = r)
      (AList.update (nextGrantId st) ?rec (active ses))"
    using below by (intro list_all_update) (auto simp: list_all_iff)
  moreover have "distinct (map fst (sessions ?st))"
    using ok1 by (simp add: all_sessions_def)
  moreover have "list_all (\<lambda>(i, ses). i < nextSessionId st) ?sessions"
    using ok1 sid by (intro list_all_update) (auto simp: all_sessions_def list_all_iff)
  moreover have "list_all (\<lambda>(i, x). i = gs_sessionId h \<longrightarrow> x = ses\<lparr>active :=
      AList.update (nextGrantId st) ?rec (active ses)\<rparr>) ?sessions"
    using ok1 by (auto simp: list_all_iff all_sessions_def dest: keys_update_map_of)
  ultimately show ?thesis
    using sid
    by (fastforce simp: result g all_sessions_def session_tracks_def list_all_iff distinct_update)
qed

lemma consume_tracked:
  assumes st: "all_sessions (Suc (gg_sessionId g)) (Suc (gg_grantId g))
      (session_tracks (gg_sessionId g) (gg_grantId g) app r exp) st"
    and ok: "snd (snd (consume st g app' r' now))"
  shows "app' = app \<and> r' = r \<and> now < exp"
proof -
  from ok obtain ses rec where ses: "map_of (sessions (purgeExpired st now)) (gg_sessionId g) = Some ses"
    and rec: "map_of (active ses) (gg_grantId g) = Some rec"
    and given: "ses_appIdentity ses = app'" "rec_requestId rec = r'" "now < expiresAt rec"
    by (auto simp: consume_def Let_def split: option.splits if_splits)
  from all_sessionsD [OF tracking.holds_purge [OF st] ses]
  have "ses_appIdentity ses = app" and "list_all (\<lambda>(j, g').
      j = gg_grantId g \<longrightarrow> expiresAt g' = exp \<and> rec_requestId g' = r) (active ses)"
    by (simp_all add: session_tracks_def)
  from this(1) list_all_map_of [OF this(2) rec] given show ?thesis by simp
qed

section \<open>Properties\<close>

text \<open>A world that some client can reach: a new store, then any operations.\<close>

definition reachable_world :: "gesture_world \<Rightarrow> bool" where
  "reachable_world w \<longleftrightarrow> (\<exists>i es. w = final_state gesture_step (new_world i) es)"

lemma reachable_world_ok:
  assumes "reachable_world w"
  shows "store_ok (gw_store w)" and "store_bounded (gw_store w)"
proof -
  obtain i es where w: "w = final_state gesture_step (new_world i) es"
    using assms by (auto simp: reachable_world_def)
  have "store_ok (gw_store (new_world i))"
    by (simp add: new_world_def new_store_def all_sessions_def)
  then show "store_ok (gw_store w)"
    unfolding w by (rule well_formed.runs.run_inv) (simp add: list_all_iff)
  have "store_bounded (gw_store (new_world i))"
    by (simp add: new_world_def new_store_def store_bounded_def activeCount_def recordCount_def)
  then show "store_bounded (gw_store w)"
    unfolding w by (rule gesture_bounds.run_inv) (simp add: list_all_iff)
qed

lemma reachable_world_step:
  "reachable_world w \<Longrightarrow> reachable_world (final_state gesture_step w es)"
  unfolding reachable_world_def by (metis final_state_append)

lemma consume_event:
  assumes "snd (gesture_step w (Consume j app r now)) = GrantConsumed True"
  shows "j < length (gw_grants w)"
    and "snd (snd (consume (gw_store w) (gw_grants w ! j) app r now))"
    and "gw_store (fst (gesture_step w (Consume j app r now)))
      = fst (consume (gw_store w) (gw_grants w ! j) app r now)"
  using assms by (auto split: if_splits prod.splits)

text \<open>
  C3.  A consumed request cannot be replayed.  Once a grant of a session has been consumed for a
  request at time \<open>t\<close>, then whatever else happens at times within the replay window (grants issued,
  consumed, dropped or revoked, sessions opened and closed), no grant of that session is consumed
  for the same request, and none is issued for it.
\<close>

theorem consumed_request_not_replayed:
  assumes "reachable_world w"
    and first: "snd (gesture_step w (Consume j app r t)) = GrantConsumed True"
    and run: "list_all (within t (t + replayWindowMs)) es"
    and v: "v = final_state gesture_step (fst (gesture_step w (Consume j app r t))) es"
    and now: "t \<le> now" "now < t + replayWindowMs"
  shows "(k < length (gw_grants v) \<and> gg_sessionId (gw_grants v ! k) = gg_sessionId (gw_grants w ! j)
      \<longrightarrow> snd (gesture_step v (Consume k app' r now)) = GrantConsumed False)
    \<and> (i < length (gw_sessions v) \<and> gs_sessionId (gw_sessions v ! i) = gg_sessionId (gw_grants w ! j)
      \<longrightarrow> snd (gesture_step v (Issue i r life now)) = GrantIssued False)"
proof -
  let ?sid = "gg_sessionId (gw_grants w ! j)"
  have "quiet ?sid r (t + replayWindowMs) (gw_store (fst (gesture_step w (Consume j app r t))))"
    using consume_makes_quiet [OF reachable_world_ok(1) [OF assms(1)] consume_event(2) [OF first]]
    by (simp only: consume_event(3) [OF first])
  then have "quiet ?sid r (t + replayWindowMs) (gw_store v)"
    unfolding v using run by (rule replay_window.run_inv)
  with now show ?thesis
    by (auto simp: split_beta quiet_not_consumed add_grant_def issue_def quiet_refuses)
qed

text \<open>
  C4.  A grant is bound to its session's identity, its request and its lifetime.  After a grant was
  issued at time \<open>t\<close> with lifetime \<open>life\<close>, and after any further operations, presenting it succeeds
  only under the identity its session was opened with, for the request it was issued for, and before
  \<open>t + life\<close>.
\<close>

theorem grant_bound_to_request_and_lifetime:
  assumes "reachable_world w"
    and issued: "snd (gesture_step w (Issue i r life t)) = GrantIssued True"
    and w1: "w1 = fst (gesture_step w (Issue i r life t))"
    and g: "g = last (gw_grants w1)"
    and run: "v = final_state gesture_step w1 es"
    and same: "k < length (gw_grants v)" "gg_sessionId (gw_grants v ! k) = gg_sessionId g"
      "gg_grantId (gw_grants v ! k) = gg_grantId g"
    and used: "snd (gesture_step v (Consume k app' r' now)) = GrantConsumed True"
  shows "app' = gg_appIdentity g \<and> r' = r \<and> now < t + life"
proof -
  let ?h = "gw_sessions w ! i"
  from issued have some: "snd (issueLocked (gw_store w) ?h r life t) \<noteq> None"
    and store1: "gw_store w1 = fst (issueLocked (gw_store w) ?h r life t)"
    and g1: "snd (issueLocked (gw_store w) ?h r life t) = Some g"
    by (auto simp: w1 g add_grant_def issue_def split: if_splits option.splits)
  have "all_sessions (Suc (gg_sessionId g)) (Suc (gg_grantId g))
      (session_tracks (gg_sessionId g) (gg_grantId g) (gg_appIdentity g) r (t + life)) (gw_store w1)"
    unfolding store1 by (rule issue_tracks [OF reachable_world_ok(1) [OF assms(1)] g1])
  then have "all_sessions (Suc (gg_sessionId g)) (Suc (gg_grantId g))
      (session_tracks (gg_sessionId g) (gg_grantId g) (gg_appIdentity g) r (t + life)) (gw_store v)"
    unfolding run by (rule tracking.runs.run_inv) (simp add: list_all_iff)
  with consume_tracked [of "gw_grants v ! k"] consume_event(2) [OF used] same show ?thesis
    by simp
qed

text \<open>
  C4.  The store stays bounded.  In every reachable world it holds at most 128 sessions, 4096 active
  grants and 8192 records (active or remembered) altogether.
\<close>

theorem gesture_store_bounded:
  "length (sessions (gw_store (final_state gesture_step (new_world i) es))) \<le> 128
    \<and> activeCount (gw_store (final_state gesture_step (new_world i) es)) \<le> 4096
    \<and> recordCount (gw_store (final_state gesture_step (new_world i) es)) \<le> 8192"
  using reachable_world_ok(2) [of "final_state gesture_step (new_world i) es"]
  by (auto simp: reachable_world_def store_bounded_def maximumSessions_def
      maximumActiveGrants_def maximumRememberedRecords_def)

text \<open>A concrete world: one session of the application \<open>app\<close>, one grant for the request \<open>rq\<close>.\<close>

definition demo_open :: gesture_world where
  "demo_open = final_state gesture_step (new_world 0) [OpenSession (qstr ''app'')]"

definition demo_issued :: gesture_world where
  "demo_issued = final_state gesture_step demo_open [Issue 0 (qstr ''rq'') 1000 5]"

lemma demo_open_reachable: "reachable_world demo_open"
  unfolding demo_open_def reachable_world_def by blast

lemma demo_issued_reachable: "reachable_world demo_issued"
  unfolding demo_issued_def by (rule reachable_world_step) (rule demo_open_reachable)

lemma demo_open_eq:
  "demo_open = \<lparr>gw_store = \<lparr>store_id = 0, sessions = [(1, \<lparr>ses_appIdentity = qstr ''app'',
      active = [], used = []\<rparr>)], nextSessionId = 2, nextGrantId = 1, accepting = True\<rparr>,
    gw_sessions = [\<lparr>gs_state = Some 0, gs_sessionId = 1\<rparr>], gw_grants = []\<rparr>"
  by (simp add: demo_open_def new_world_def new_store_def add_session_def openSession_def
      validToken_def qstr_def maximumSessions_def Let_def)

lemmas gesture_evaluation = add_grant_def issue_def issue_guard_def issueLocked_def consume_def
  purgeExpired_def purge_session_def activeCount_def recordCount_def maximumActiveGrants_def
  maximumRememberedRecords_def replayWindowMs_def validToken_def Let_def

lemma demo_issued_eq:
  "demo_issued = \<lparr>gw_store = \<lparr>store_id = 0, sessions = [(1, \<lparr>ses_appIdentity = qstr ''app'',
      active = [(1, \<lparr>rec_requestId = qstr ''rq'', expiresAt = 1005\<rparr>)], used = []\<rparr>)],
      nextSessionId = 2, nextGrantId = 2, accepting = True\<rparr>,
    gw_sessions = [\<lparr>gs_state = Some 0, gs_sessionId = 1\<rparr>],
    gw_grants = [\<lparr>gg_state = Some 0, gg_sessionId = 1, gg_grantId = 1,
      gg_appIdentity = qstr ''app'', gg_requestId = qstr ''rq'', gg_active = True\<rparr>]\<rparr>"
  by (simp add: demo_issued_def demo_open_eq gesture_evaluation qstr_def)

theorem consumed_request_not_replayed_witness:
  "snd (gesture_step (fst (gesture_step demo_issued (Consume 0 (qstr ''app'') (qstr ''rq'') 10)))
      (Consume 0 (qstr ''app'') (qstr ''rq'') 20)) = GrantConsumed False
   \<and> snd (gesture_step (fst (gesture_step demo_issued (Consume 0 (qstr ''app'') (qstr ''rq'') 10)))
      (Issue 0 (qstr ''rq'') 7 20)) = GrantIssued False"
proof -
  have first: "snd (gesture_step demo_issued (Consume 0 (qstr ''app'') (qstr ''rq'') 10))
      = GrantConsumed True"
    by (simp add: demo_issued_eq gesture_evaluation)
  show ?thesis
    using consumed_request_not_replayed [OF demo_issued_reachable first, of "[]" _ 20 0
        "qstr ''app''" 0 7, OF _ refl]
    by (simp add: demo_issued_eq gesture_evaluation)
qed

theorem grant_bound_to_request_and_lifetime_witness:
  "qstr ''app'' = gg_appIdentity (last (gw_grants demo_issued)) \<and> (10 :: int) < 5 + 1000"
proof -
  have issued: "snd (gesture_step demo_open (Issue 0 (qstr ''rq'') 1000 5)) = GrantIssued True"
    by (simp add: demo_open_eq gesture_evaluation qstr_def)
  have w1: "demo_issued = fst (gesture_step demo_open (Issue 0 (qstr ''rq'') 1000 5))"
    by (simp add: demo_issued_def)
  have used: "snd (gesture_step (final_state gesture_step demo_issued [])
      (Consume 0 (qstr ''app'') (qstr ''rq'') 10)) = GrantConsumed True"
    by (simp add: demo_issued_eq gesture_evaluation)
  show ?thesis
    using grant_bound_to_request_and_lifetime [OF demo_open_reachable issued w1 refl refl,
        of 0 "[]", OF _ _ _ used]
    by (simp add: demo_issued_eq)
qed

end
