(* ===== verification/JsonScan.thy ===== *)
theory JsonScan
  imports Prelude
begin

text \<open>
  The strict JSON scanner that every incoming frame passes before it is parsed
  (\<open>StrictJsonScanner\<close> of \<open>runtime/ipc/FrameCodec.cpp\<close>): a recursive descent over UTF-16 code units
  that accepts one JSON value, refuses duplicate member names, more than 64 levels of nesting and
  more than 4096 members and elements altogether.

  The scanner's position is the rest of the text still to read; \<open>aggregateEntries_\<close> is threaded
  through.  A method that returns false stops the whole scan, so a result is either the value
  \<open>result_\<close> has at that moment (\<open>ScanValid\<close> when nothing set it) or the rest and the count.

  \<open>QChar::isDigit\<close> is ASCII below 128; above, it asks Qt's Unicode tables, a parameter of the model.
\<close>

section \<open>Characters\<close>

abbreviation c_lbrace :: qchar where "c_lbrace \<equiv> 0x7B"
abbreviation c_rbrace :: qchar where "c_rbrace \<equiv> 0x7D"
abbreviation c_lbracket :: qchar where "c_lbracket \<equiv> 0x5B"
abbreviation c_rbracket :: qchar where "c_rbracket \<equiv> 0x5D"
abbreviation c_quote :: qchar where "c_quote \<equiv> 0x22"
abbreviation c_backslash :: qchar where "c_backslash \<equiv> 0x5C"
abbreviation c_slash :: qchar where "c_slash \<equiv> 0x2F"
abbreviation c_comma :: qchar where "c_comma \<equiv> 0x2C"
abbreviation c_colon :: qchar where "c_colon \<equiv> 0x3A"
abbreviation c_minus :: qchar where "c_minus \<equiv> 0x2D"
abbreviation c_plus :: qchar where "c_plus \<equiv> 0x2B"
abbreviation c_dot :: qchar where "c_dot \<equiv> 0x2E"
abbreviation c_zero :: qchar where "c_zero \<equiv> 0x30"

definition ascii_digit :: "qchar \<Rightarrow> bool" where
  "ascii_digit c \<longleftrightarrow> 0x30 \<le> c \<and> c \<le> 0x39"

definition isDigit :: "(qchar \<Rightarrow> bool) \<Rightarrow> qchar \<Rightarrow> bool" where
  "isDigit unicode_digit c \<longleftrightarrow> ascii_digit c \<or> 127 < c \<and> unicode_digit c"

definition whitespace :: "qchar \<Rightarrow> bool" where
  "whitespace c \<longleftrightarrow> c = 0x20 \<or> c = 0x09 \<or> c = 0x0A \<or> c = 0x0D"

section \<open>The scanner\<close>

datatype strict_scan_result = ScanValid | ScanDuplicateMember | ScanResourceLimit | ScanInvalid

definition maximumJsonNesting :: nat where "maximumJsonNesting = 64"
definition maximumJsonAggregateEntries :: nat where "maximumJsonAggregateEntries = 4096"

definition skipWhitespace :: "qstring \<Rightarrow> qstring" where
  "skipWhitespace s = dropWhile whitespace s"

definition consume_char :: "qchar \<Rightarrow> qstring \<Rightarrow> qstring option" where
  "consume_char expected s =
     (case s of [] \<Rightarrow> None | c # r \<Rightarrow> if c \<noteq> expected then None else Some r)"

definition countAggregateEntry :: "nat \<Rightarrow> nat option" where
  "countAggregateEntry n = (if maximumJsonAggregateEntries \<le> n then None else Some (n + 1))"

definition consumeKeyword :: "qstring \<Rightarrow> qstring \<Rightarrow> qstring option" where
  "consumeKeyword keyword s =
     (if take (length keyword) s \<noteq> keyword then None else Some (drop (length keyword) s))"

definition hexDigit :: "qchar \<Rightarrow> qchar option" where
  "hexDigit c =
     (if 0x30 \<le> c \<and> c \<le> 0x39 then Some (c - 0x30)
      else if 0x61 \<le> c \<and> c \<le> 0x66 then Some (c - 0x61 + 10)
      else if 0x41 \<le> c \<and> c \<le> 0x46 then Some (c - 0x41 + 10)
      else None)"

fun hexCodeUnit :: "nat \<Rightarrow> qchar \<Rightarrow> qstring \<Rightarrow> (qchar \<times> qstring) option" where
  "hexCodeUnit 0 decoded s = Some (decoded, s)"
| "hexCodeUnit (Suc n) decoded [] = None"
| "hexCodeUnit (Suc n) decoded (c # s) =
     (case hexDigit c of None \<Rightarrow> None
      | Some digit \<Rightarrow> hexCodeUnit n (or (push_bit 4 decoded) digit) s)"

definition parseHexCodeUnit :: "qstring \<Rightarrow> (qchar \<times> qstring) option" where
  "parseHexCodeUnit s = (if length s < 4 then None else hexCodeUnit 4 0 s)"

lemma hexCodeUnit_length: "hexCodeUnit n d s = Some (u, r) \<Longrightarrow> length s = n + length r"
  by (induction n d s rule: hexCodeUnit.induct) (auto split: option.splits)

lemma parseHexCodeUnit_length: "parseHexCodeUnit s = Some (u, r) \<Longrightarrow> length s = 4 + length r"
  by (auto simp: parseHexCodeUnit_def dest: hexCodeUnit_length split: if_splits)

text \<open>
  One round of the loop of \<open>parseString\<close>: the closing quote, code units to append, or a failure.
\<close>

datatype string_piece = PieceEnd qstring | Piece qstring qstring | PieceBad

definition escapePiece :: "qstring \<Rightarrow> string_piece" where
  "escapePiece s =
     (case s of
        [] \<Rightarrow> PieceBad
      | e # s1 \<Rightarrow>
          if e = c_quote \<or> e = c_backslash \<or> e = c_slash then Piece [e] s1
          else if e = 0x62 then Piece [0x08] s1
          else if e = 0x66 then Piece [0x0C] s1
          else if e = 0x6E then Piece [0x0A] s1
          else if e = 0x72 then Piece [0x0D] s1
          else if e = 0x74 then Piece [0x09] s1
          else if e = 0x75 then
            (case parseHexCodeUnit s1 of
               None \<Rightarrow> PieceBad
             | Some (u, s2) \<Rightarrow>
                 if isHighSurrogate u then
                   (if length s2 < 2 \<or> s2 ! 0 \<noteq> c_backslash \<or> s2 ! 1 \<noteq> 0x75 then PieceBad
                    else case parseHexCodeUnit (drop 2 s2) of
                        None \<Rightarrow> PieceBad
                      | Some (l, s3) \<Rightarrow> if \<not> isLowSurrogate l then PieceBad else Piece [u, l] s3)
                 else if isLowSurrogate u then PieceBad
                 else Piece [u] s2)
          else PieceBad)"

definition stringPiece :: "qstring \<Rightarrow> string_piece" where
  "stringPiece s =
     (case s of
        [] \<Rightarrow> PieceBad
      | c # r \<Rightarrow>
          if c = c_quote then PieceEnd r
          else if c < 0x20 then PieceBad
          else if c \<noteq> c_backslash then
            (if isHighSurrogate c then
               (if r = [] \<or> \<not> isLowSurrogate (hd r) then PieceBad else Piece [c, hd r] (tl r))
             else if isLowSurrogate c then PieceBad
             else Piece [c] r)
          else escapePiece r)"

lemma escapePiece_length: "escapePiece s = Piece u r \<Longrightarrow> length r < length s"
  by (auto simp: escapePiece_def split: list.splits if_splits option.splits
      dest!: parseHexCodeUnit_length)

lemma escapePiece_not_end: "escapePiece s \<noteq> PieceEnd r"
  by (simp add: escapePiece_def split: list.splits option.splits)

lemma stringPiece_length:
  "stringPiece s = Piece u r \<Longrightarrow> length r < length s"
  "stringPiece s = PieceEnd r \<Longrightarrow> length r < length s"
  by (auto simp: stringPiece_def escapePiece_not_end split: list.splits if_splits
      dest!: escapePiece_length)

function stringBody :: "qstring \<Rightarrow> qstring \<Rightarrow> (qstring \<times> qstring) option" where
  "stringBody decoded s =
     (case stringPiece s of
        PieceEnd r \<Rightarrow> Some (decoded, r)
      | Piece u r \<Rightarrow> stringBody (decoded @ u) r
      | PieceBad \<Rightarrow> None)"
  by pat_completeness auto
termination
  by (relation "measure (\<lambda>(d, s). length s)") (auto dest: stringPiece_length)

declare stringBody.simps [simp del]

definition parseString :: "qstring \<Rightarrow> (qstring \<times> qstring) option" where
  "parseString s = (case consume_char c_quote s of None \<Rightarrow> None | Some r \<Rightarrow> stringBody [] r)"

definition parseExponent :: "qstring \<Rightarrow> qstring option" where
  "parseExponent s =
     (case s of
        e # s1 \<Rightarrow>
          if e = 0x65 \<or> e = 0x45 then
            let s2 = (case s1 of sign # t \<Rightarrow> if sign = c_plus \<or> sign = c_minus then t else s1
                      | [] \<Rightarrow> s1);
                s3 = dropWhile ascii_digit s2
            in if length s3 = length s2 then None else Some s3
          else Some s
      | [] \<Rightarrow> Some s)"

definition parseFraction :: "qstring \<Rightarrow> qstring option" where
  "parseFraction s =
     (case consume_char c_dot s of
        None \<Rightarrow> parseExponent s
      | Some s1 \<Rightarrow>
          let s2 = dropWhile ascii_digit s1
          in if length s2 = length s1 then None else parseExponent s2)"

definition parseNumber :: "(qchar \<Rightarrow> bool) \<Rightarrow> qstring \<Rightarrow> qstring option" where
  "parseNumber unicode_digit s =
     (let s1 = (case consume_char c_minus s of None \<Rightarrow> s | Some r \<Rightarrow> r) in
      case s1 of
        [] \<Rightarrow> None
      | c # s2 \<Rightarrow>
          if c = c_zero then
            (if s2 \<noteq> [] \<and> isDigit unicode_digit (hd s2) then None else parseFraction s2)
          else if 0x31 \<le> c \<and> c \<le> 0x39 then parseFraction (dropWhile ascii_digit s2)
          else None)"

definition keyword_value :: "qstring \<Rightarrow> qstring option" where
  "keyword_value s =
     (case consumeKeyword (qstr ''true'') s of Some r \<Rightarrow> Some r
      | None \<Rightarrow> (case consumeKeyword (qstr ''false'') s of Some r \<Rightarrow> Some r
      | None \<Rightarrow> consumeKeyword (qstr ''null'') s))"

type_synonym scan_outcome = "strict_scan_result + qstring \<times> nat"

definition scanned :: "nat \<Rightarrow> qstring option \<Rightarrow> scan_outcome" where
  "scanned n r = (case r of None \<Rightarrow> Inl ScanValid | Some s \<Rightarrow> Inr (s, n))"

function parseValue :: "(qchar \<Rightarrow> bool) \<Rightarrow> nat \<Rightarrow> qstring \<Rightarrow> nat \<Rightarrow> scan_outcome"
  and parseObject :: "(qchar \<Rightarrow> bool) \<Rightarrow> nat \<Rightarrow> qstring \<Rightarrow> nat \<Rightarrow> scan_outcome"
  and parseMembers :: "(qchar \<Rightarrow> bool) \<Rightarrow> nat \<Rightarrow> qstring set \<Rightarrow> qstring \<Rightarrow> nat \<Rightarrow> scan_outcome"
  and parseArray :: "(qchar \<Rightarrow> bool) \<Rightarrow> nat \<Rightarrow> qstring \<Rightarrow> nat \<Rightarrow> scan_outcome"
  and parseElements :: "(qchar \<Rightarrow> bool) \<Rightarrow> nat \<Rightarrow> qstring \<Rightarrow> nat \<Rightarrow> scan_outcome" where
  "parseValue ud nesting s n =
     (case s of
        [] \<Rightarrow> Inl ScanValid
      | c # r \<Rightarrow>
          if c = c_lbrace then
            (if maximumJsonNesting \<le> nesting then Inl ScanResourceLimit
             else parseObject ud (nesting + 1) r n)
          else if c = c_lbracket then
            (if maximumJsonNesting \<le> nesting then Inl ScanResourceLimit
             else parseArray ud (nesting + 1) r n)
          else if c = c_quote then scanned n (map_option snd (parseString s))
          else if c = c_minus \<or> ascii_digit c then scanned n (parseNumber ud s)
          else scanned n (keyword_value s))"
| "parseObject ud nesting s n =
     (case consume_char c_rbrace (skipWhitespace s) of
        Some r \<Rightarrow> Inr (r, n)
      | None \<Rightarrow> parseMembers ud nesting {} (skipWhitespace s) n)"
| "parseMembers ud nesting members s n =
     (case parseString s of
        None \<Rightarrow> Inl ScanValid
      | Some (member, s1) \<Rightarrow>
          if member \<in> members then Inl ScanDuplicateMember
          else (case countAggregateEntry n of
              None \<Rightarrow> Inl ScanResourceLimit
            | Some n1 \<Rightarrow>
                (case consume_char c_colon (skipWhitespace s1) of
                   None \<Rightarrow> Inl ScanValid
                 | Some s2 \<Rightarrow>
                     (case parseValue ud nesting (skipWhitespace s2) n1 of
                        Inl e \<Rightarrow> Inl e
                      | Inr (s3, n2) \<Rightarrow>
                          (case consume_char c_rbrace (skipWhitespace s3) of
                             Some r \<Rightarrow> Inr (r, n2)
                           | None \<Rightarrow>
                               (case consume_char c_comma (skipWhitespace s3) of
                                  None \<Rightarrow> Inl ScanValid
                                | Some s4 \<Rightarrow>
                                    parseMembers ud nesting (insert member members)
                                      (skipWhitespace s4) n2))))))"
| "parseArray ud nesting s n =
     (case consume_char c_rbracket (skipWhitespace s) of
        Some r \<Rightarrow> Inr (r, n)
      | None \<Rightarrow> parseElements ud nesting (skipWhitespace s) n)"
| "parseElements ud nesting s n =
     (case countAggregateEntry n of
        None \<Rightarrow> Inl ScanResourceLimit
      | Some n1 \<Rightarrow>
          (case parseValue ud nesting s n1 of
             Inl e \<Rightarrow> Inl e
           | Inr (s3, n2) \<Rightarrow>
               (case consume_char c_rbracket (skipWhitespace s3) of
                  Some r \<Rightarrow> Inr (r, n2)
                | None \<Rightarrow>
                    (case consume_char c_comma (skipWhitespace s3) of
                       None \<Rightarrow> Inl ScanValid
                     | Some s4 \<Rightarrow> parseElements ud nesting (skipWhitespace s4) n2))))"
  by pat_completeness auto

lemma skipWhitespace_length: "length (skipWhitespace s) \<le> length s"
  by (simp add: skipWhitespace_def length_dropWhile_le)

lemma consume_char_Some [simp]: "consume_char c s = Some r \<longleftrightarrow> s = c # r"
  by (auto simp: consume_char_def split: list.splits)

lemma stringBody_length: "stringBody d s = Some (m, r) \<Longrightarrow> length r < length s"
proof (induction d s rule: stringBody.induct)
  case (1 d s)
  show ?case
  proof (cases "stringPiece s")
    case (Piece u q)
    with "1.prems" have "stringBody (d @ u) q = Some (m, r)" by (simp add: stringBody.simps [of d])
    from "1.IH" [OF Piece this] stringPiece_length(1) [OF Piece] show ?thesis by simp
  qed (use "1.prems" in \<open>auto simp: stringBody.simps [of d] dest: stringPiece_length\<close>)
qed

lemma parseString_length: "parseString s = Some (m, r) \<Longrightarrow> length r < length s"
  by (auto simp: parseString_def split: option.splits dest!: stringBody_length)

lemma parseExponent_length: "parseExponent s = Some r \<Longrightarrow> length r \<le> length s"
  using length_dropWhile_le [of ascii_digit]
  by (fastforce simp: parseExponent_def Let_def split: list.splits if_splits
      intro: le_SucI order_trans)

lemma parseFraction_length: "parseFraction s = Some r \<Longrightarrow> length r \<le> length s"
  using length_dropWhile_le [of ascii_digit]
  by (auto simp: parseFraction_def Let_def split: option.splits if_splits
      dest!: parseExponent_length intro: le_SucI order_trans)

lemma parseNumber_length: "parseNumber ud s = Some r \<Longrightarrow> length r < length s"
proof -
  assume num: "parseNumber ud s = Some r"
  define s1 where "s1 = (case consume_char c_minus s of None \<Rightarrow> s | Some r \<Rightarrow> r)"
  have le: "length s1 \<le> length s" by (auto simp: s1_def split: option.splits)
  from num obtain c s2 where s1: "s1 = c # s2"
    and "parseFraction s2 = Some r \<or> parseFraction (dropWhile ascii_digit s2) = Some r"
    by (auto simp: parseNumber_def s1_def [symmetric] Let_def split: list.splits if_splits)
  then have "length r \<le> length s2"
    using length_dropWhile_le [of ascii_digit s2] by (auto dest!: parseFraction_length)
  with le s1 show ?thesis by simp
qed

lemma consumeKeyword_length: "consumeKeyword k s = Some r \<Longrightarrow> k \<noteq> [] \<Longrightarrow> length r < length s"
  by (cases s) (auto simp: consumeKeyword_def split: if_splits)

lemma keyword_value_length: "keyword_value s = Some r \<Longrightarrow> length r < length s"
  by (auto simp: keyword_value_def split: option.splits dest: consumeKeyword_length)

lemma scanned_Inr [simp]: "scanned n r = Inr (s, m) \<longleftrightarrow> r = Some s \<and> m = n"
  by (auto simp: scanned_def split: option.splits)

text \<open>
  The recursion of the scanner ends because every value it reads is at least one code unit long.
  That fact is proved first on the inputs where the functions return, and then gives termination.
\<close>

lemma skipWhitespace_Cons_length: "skipWhitespace s = c # r \<Longrightarrow> length r < length s"
  using skipWhitespace_length [of s] by simp

lemma scanner_shrinks:
  "parseValue_parseObject_parseMembers_parseArray_parseElements_dom (Inl (Inl (ud, k, s, n))) \<Longrightarrow>
    (\<forall>r m. parseValue ud k s n = Inr (r, m) \<longrightarrow> length r < length s)"
  "parseValue_parseObject_parseMembers_parseArray_parseElements_dom (Inl (Inr (ud, k, s, n))) \<Longrightarrow>
    (\<forall>r m. parseObject ud k s n = Inr (r, m) \<longrightarrow> length r < length s)"
  "parseValue_parseObject_parseMembers_parseArray_parseElements_dom (Inr (Inl (ud, k, ms, s, n))) \<Longrightarrow>
    (\<forall>r m. parseMembers ud k ms s n = Inr (r, m) \<longrightarrow> length r < length s)"
  "parseValue_parseObject_parseMembers_parseArray_parseElements_dom (Inr (Inr (Inl (ud, k, s, n)))) \<Longrightarrow>
    (\<forall>r m. parseArray ud k s n = Inr (r, m) \<longrightarrow> length r < length s)"
  "parseValue_parseObject_parseMembers_parseArray_parseElements_dom (Inr (Inr (Inr (ud, k, s, n)))) \<Longrightarrow>
    (\<forall>r m. parseElements ud k s n = Inr (r, m) \<longrightarrow> length r < length s)"
proof (induction ud k s n and ud k s n and ud k ms s n and ud k s n and ud k s n
    rule: parseValue_parseObject_parseMembers_parseArray_parseElements.pinduct)
  case (1 ud k s n)
  show ?case
  proof (cases s)
    case Nil
    with 1 show ?thesis by (simp add: parseValue.psimps)
  next
    case (Cons c t)
    with 1 show ?thesis
      by (auto simp: parseValue.psimps dest!: parseNumber_length keyword_value_length parseString_length
          intro: less_SucI)
  qed
next
  case (2 ud k s n)
  then show ?case
    using skipWhitespace_length [of s]
    by (auto simp: parseObject.psimps split: option.splits dest: skipWhitespace_Cons_length
        intro: order_less_le_trans)
next
  case (3 ud k ms s n)
  show ?case
  proof (intro allI impI)
    fix r m
    assume ret: "parseMembers ud k ms s n = Inr (r, m)"
    from 3(1) ret obtain x s1 n1 s2 s3 n2
      where str: "parseString s = Some (x, s1)" "x \<notin> ms" "countAggregateEntry n = Some n1"
        and colon: "consume_char c_colon (skipWhitespace s1) = Some s2"
        and val: "parseValue ud k (skipWhitespace s2) n1 = Inr (s3, n2)"
        and rest: "(case consume_char c_rbrace (skipWhitespace s3) of
            Some r \<Rightarrow> Inr (r, n2)
          | None \<Rightarrow> (case consume_char c_comma (skipWhitespace s3) of
              None \<Rightarrow> Inl ScanValid
            | Some s4 \<Rightarrow> parseMembers ud k (insert x ms) (skipWhitespace s4) n2)) = Inr (r, m)"
      by (auto simp: parseMembers.psimps split: option.splits if_splits sum.splits simp del: consume_char_Some)
    have "length s3 < length (skipWhitespace s2)"
      using 3(2) [OF str(1) refl str(2,3) colon] val by blast
    also have "\<dots> < length s"
      using colon parseString_length [OF str(1)] skipWhitespace_Cons_length [of s1 c_colon s2]
        skipWhitespace_length [of s2] by simp
    finally have s3: "length s3 < length s" .
    show "length r < length s"
    proof (cases "consume_char c_rbrace (skipWhitespace s3)")
      case (Some r')
      with rest s3 show ?thesis using skipWhitespace_Cons_length [of s3 c_rbrace r] by auto
    next
      case None
      with rest obtain s4 where comma: "consume_char c_comma (skipWhitespace s3) = Some s4"
        and more: "parseMembers ud k (insert x ms) (skipWhitespace s4) n2 = Inr (r, m)"
        by (auto split: option.splits simp del: consume_char_Some)
      have "length r < length (skipWhitespace s4)"
        using 3(3) [OF str(1) refl str(2,3) colon val refl None comma] more by blast
      then show ?thesis
        using s3 comma skipWhitespace_Cons_length [of s3 c_comma s4] skipWhitespace_length [of s4]
        by simp
    qed
  qed
next
  case (4 ud k s n)
  then show ?case
    using skipWhitespace_length [of s]
    by (auto simp: parseArray.psimps split: option.splits dest: skipWhitespace_Cons_length
        intro: order_less_le_trans)
next
  case (5 ud k s n)
  show ?case
  proof (intro allI impI)
    fix r m
    assume ret: "parseElements ud k s n = Inr (r, m)"
    from 5(1) ret obtain n1 s3 n2
      where count: "countAggregateEntry n = Some n1"
        and val: "parseValue ud k s n1 = Inr (s3, n2)"
        and rest: "(case consume_char c_rbracket (skipWhitespace s3) of
            Some r \<Rightarrow> Inr (r, n2)
          | None \<Rightarrow> (case consume_char c_comma (skipWhitespace s3) of
              None \<Rightarrow> Inl ScanValid
            | Some s4 \<Rightarrow> parseElements ud k (skipWhitespace s4) n2)) = Inr (r, m)"
      by (auto simp: parseElements.psimps split: option.splits sum.splits simp del: consume_char_Some)
    have s3: "length s3 < length s" using 5(2) [OF count] val by blast
    show "length r < length s"
    proof (cases "consume_char c_rbracket (skipWhitespace s3)")
      case (Some r')
      with rest s3 show ?thesis using skipWhitespace_Cons_length [of s3 c_rbracket r] by auto
    next
      case None
      with rest obtain s4 where comma: "consume_char c_comma (skipWhitespace s3) = Some s4"
        and more: "parseElements ud k (skipWhitespace s4) n2 = Inr (r, m)"
        by (auto split: option.splits simp del: consume_char_Some)
      have "length r < length (skipWhitespace s4)"
        using 5(3) [OF count val refl None comma] more by blast
      then show ?thesis
        using s3 comma skipWhitespace_Cons_length [of s3 c_comma s4] skipWhitespace_length [of s4]
        by simp
    qed
  qed
qed

lemma after_member_length:
  assumes "parseString s = Some (x, s1)" and "skipWhitespace s1 = c_colon # s2"
  shows "length (skipWhitespace s2) < length s"
  using parseString_length [OF assms(1)] skipWhitespace_Cons_length [OF assms(2)]
    skipWhitespace_length [of s2] by simp

lemma after_comma_length:
  assumes "length s3 < length s" and "skipWhitespace s3 = c # s4"
  shows "length (skipWhitespace s4) < length s"
  using assms(1) skipWhitespace_Cons_length [OF assms(2)] skipWhitespace_length [of s4] by simp

lemma order_3_length:
  "length (t :: 'a list) < length s \<Longrightarrow> 3 * length t < Suc (3 * length s)"
  "length t \<le> length s \<Longrightarrow> 3 * length t < Suc (3 * length s)"
  by simp_all

termination parseValue
proof (relation "measure (\<lambda>x. case x of
      Inl (Inl (ud, k, s, n)) \<Rightarrow> 3 * length s
    | Inl (Inr (ud, k, s, n)) \<Rightarrow> 3 * length s + 2
    | Inr (Inl (ud, k, ms, s, n)) \<Rightarrow> 3 * length s + 1
    | Inr (Inr (Inl (ud, k, s, n))) \<Rightarrow> 3 * length s + 2
    | Inr (Inr (Inr (ud, k, s, n))) \<Rightarrow> 3 * length s + 1)", goal_cases)
qed (auto simp: skipWhitespace_length order_3_length after_member_length
    dest!: scanner_shrinks(1) intro: after_member_length after_comma_length
    order_less_trans [OF _ after_member_length])

declare parseValue.simps [simp del] parseObject.simps [simp del] parseMembers.simps [simp del]
  parseArray.simps [simp del] parseElements.simps [simp del]

definition strict_scan :: "(qchar \<Rightarrow> bool) \<Rightarrow> qstring \<Rightarrow> strict_scan_result" where
  "strict_scan unicode_digit text =
     (case parseValue unicode_digit 0 (skipWhitespace text) 0 of
        Inl e \<Rightarrow> if e = ScanValid then ScanInvalid else e
      | Inr (r, n) \<Rightarrow> if skipWhitespace r = [] then ScanValid else ScanInvalid)"

end
