(* ===== verification/JsonGrammar.thy ===== *)
theory JsonGrammar
  imports JsonScan
begin

text \<open>
  The specification of the strict scanner: the JSON grammar (RFC 8259, with well-formed UTF-16 in
  strings) as inductive predicates that relate a piece of text to the tree it denotes, and the
  three limits as functions of the tree.  The scanner is proved sound and complete for it.
\<close>

section \<open>Strings\<close>

definition blank :: "qstring \<Rightarrow> bool" where
  "blank s \<longleftrightarrow> list_all whitespace s"

definition hex_number :: "qstring \<Rightarrow> qchar" where
  "hex_number ds = foldl (\<lambda>a c. 16 * a + the (hexDigit c)) 0 ds"

definition hex_quad :: "qstring \<Rightarrow> bool" where
  "hex_quad ds \<longleftrightarrow> length ds = 4 \<and> list_all (\<lambda>c. hexDigit c \<noteq> None) ds"

definition simple_escapes :: "(qchar \<times> qchar) list" where
  "simple_escapes =
     [(c_quote, c_quote), (c_backslash, c_backslash), (c_slash, c_slash), (0x62, 0x08),
      (0x66, 0x0C), (0x6E, 0x0A), (0x72, 0x0D), (0x74, 0x09)]"

inductive string_unit :: "qstring \<Rightarrow> qstring \<Rightarrow> bool" where
  plain: "0x20 \<le> c \<Longrightarrow> c \<noteq> c_quote \<Longrightarrow> c \<noteq> c_backslash \<Longrightarrow> \<not> isHighSurrogate c \<Longrightarrow>
    \<not> isLowSurrogate c \<Longrightarrow> string_unit [c] [c]"
| pair: "isHighSurrogate h \<Longrightarrow> isLowSurrogate l \<Longrightarrow> string_unit [h, l] [h, l]"
| escape: "(e, u) \<in> set simple_escapes \<Longrightarrow> string_unit [c_backslash, e] [u]"
| hex: "hex_quad ds \<Longrightarrow> \<not> isHighSurrogate (hex_number ds) \<Longrightarrow> \<not> isLowSurrogate (hex_number ds) \<Longrightarrow>
    string_unit ([c_backslash, 0x75] @ ds) [hex_number ds]"
| hex_pair: "hex_quad ds \<Longrightarrow> isHighSurrogate (hex_number ds) \<Longrightarrow>
    hex_quad es \<Longrightarrow> isLowSurrogate (hex_number es) \<Longrightarrow>
    string_unit ([c_backslash, 0x75] @ ds @ [c_backslash, 0x75] @ es) [hex_number ds, hex_number es]"

inductive json_chars :: "qstring \<Rightarrow> qstring \<Rightarrow> bool" where
  none: "json_chars [] []"
| some: "string_unit p u \<Longrightarrow> json_chars s m \<Longrightarrow> json_chars (p @ s) (u @ m)"

definition json_string :: "qstring \<Rightarrow> qstring \<Rightarrow> bool" where
  "json_string m s \<longleftrightarrow> (\<exists>b. s = [c_quote] @ b @ [c_quote] \<and> json_chars b m)"

section \<open>Numbers\<close>

definition digits :: "qstring \<Rightarrow> bool" where
  "digits ds \<longleftrightarrow> ds \<noteq> [] \<and> list_all ascii_digit ds"

definition json_int :: "qstring \<Rightarrow> bool" where
  "json_int s \<longleftrightarrow> s = [c_zero] \<or> (\<exists>c ds. s = c # ds \<and> 0x31 \<le> c \<and> c \<le> 0x39 \<and> list_all ascii_digit ds)"

definition json_frac :: "qstring \<Rightarrow> bool" where
  "json_frac s \<longleftrightarrow> s = [] \<or> (\<exists>ds. s = c_dot # ds \<and> digits ds)"

definition json_exp :: "qstring \<Rightarrow> bool" where
  "json_exp s \<longleftrightarrow> s = [] \<or> (\<exists>e sign ds. s = e # sign @ ds \<and> (e = 0x65 \<or> e = 0x45)
     \<and> (sign = [] \<or> sign = [c_plus] \<or> sign = [c_minus]) \<and> digits ds)"

definition json_number :: "qstring \<Rightarrow> bool" where
  "json_number s \<longleftrightarrow> (\<exists>m i f e. s = m @ i @ f @ e \<and> (m = [] \<or> m = [c_minus])
     \<and> json_int i \<and> json_frac f \<and> json_exp e)"

section \<open>Values\<close>

datatype jtree = GLeaf | GObject "(qstring \<times> jtree) list" | GArray "jtree list"

inductive json_value :: "jtree \<Rightarrow> qstring \<Rightarrow> bool"
  and json_members :: "(qstring \<times> jtree) list \<Rightarrow> qstring \<Rightarrow> bool"
  and json_elements :: "jtree list \<Rightarrow> qstring \<Rightarrow> bool" where
  keyword: "s \<in> {qstr ''true'', qstr ''false'', qstr ''null''} \<Longrightarrow> json_value GLeaf s"
| number: "json_number s \<Longrightarrow> json_value GLeaf s"
| text_value: "json_string m s \<Longrightarrow> json_value GLeaf s"
| empty_object: "blank w \<Longrightarrow> json_value (GObject []) ([c_lbrace] @ w @ [c_rbrace])"
| object: "blank w \<Longrightarrow> json_members ms s \<Longrightarrow>
    json_value (GObject ms) ([c_lbrace] @ w @ s @ [c_rbrace])"
| empty_array: "blank w \<Longrightarrow> json_value (GArray []) ([c_lbracket] @ w @ [c_rbracket])"
| array: "blank w \<Longrightarrow> json_elements ts s \<Longrightarrow>
    json_value (GArray ts) ([c_lbracket] @ w @ s @ [c_rbracket])"
| last_member: "json_string x k \<Longrightarrow> blank a \<Longrightarrow> blank b \<Longrightarrow> json_value t v \<Longrightarrow> blank c \<Longrightarrow>
    json_members [(x, t)] (k @ a @ [c_colon] @ b @ v @ c)"
| more_members: "json_string x k \<Longrightarrow> blank a \<Longrightarrow> blank b \<Longrightarrow> json_value t v \<Longrightarrow> blank c \<Longrightarrow>
    blank d \<Longrightarrow> json_members ms s \<Longrightarrow>
    json_members ((x, t) # ms) (k @ a @ [c_colon] @ b @ v @ c @ [c_comma] @ d @ s)"
| last_element: "json_value t v \<Longrightarrow> blank c \<Longrightarrow> json_elements [t] (v @ c)"
| more_elements: "json_value t v \<Longrightarrow> blank c \<Longrightarrow> blank d \<Longrightarrow> json_elements ts s \<Longrightarrow>
    json_elements (t # ts) (v @ c @ [c_comma] @ d @ s)"

text \<open>Nesting, members and elements altogether, and distinct names within each object.\<close>

fun depth :: "jtree \<Rightarrow> nat"
  and depth_members :: "(qstring \<times> jtree) list \<Rightarrow> nat"
  and depth_elements :: "jtree list \<Rightarrow> nat" where
  "depth GLeaf = 0"
| "depth (GObject ms) = Suc (depth_members ms)"
| "depth (GArray ts) = Suc (depth_elements ts)"
| "depth_members [] = 0"
| "depth_members ((x, t) # ms) = max (depth t) (depth_members ms)"
| "depth_elements [] = 0"
| "depth_elements (t # ts) = max (depth t) (depth_elements ts)"

fun entries :: "jtree \<Rightarrow> nat"
  and entries_members :: "(qstring \<times> jtree) list \<Rightarrow> nat"
  and entries_elements :: "jtree list \<Rightarrow> nat" where
  "entries GLeaf = 0"
| "entries (GObject ms) = entries_members ms"
| "entries (GArray ts) = entries_elements ts"
| "entries_members [] = 0"
| "entries_members ((x, t) # ms) = Suc (entries t + entries_members ms)"
| "entries_elements [] = 0"
| "entries_elements (t # ts) = Suc (entries t + entries_elements ts)"

fun names_unique :: "jtree \<Rightarrow> bool"
  and unique_members :: "(qstring \<times> jtree) list \<Rightarrow> bool"
  and unique_elements :: "jtree list \<Rightarrow> bool" where
  "names_unique GLeaf = True"
| "names_unique (GObject ms) = (distinct (map fst ms) \<and> unique_members ms)"
| "names_unique (GArray ts) = unique_elements ts"
| "unique_members [] = True"
| "unique_members ((x, t) # ms) = (names_unique t \<and> unique_members ms)"
| "unique_elements [] = True"
| "unique_elements (t # ts) = (names_unique t \<and> unique_elements ts)"

definition strict_json :: "qstring \<Rightarrow> bool" where
  "strict_json text \<longleftrightarrow> (\<exists>t a v b. text = a @ v @ b \<and> blank a \<and> blank b \<and> json_value t v
     \<and> depth t \<le> 64 \<and> entries t \<le> 4096 \<and> names_unique t)"

section \<open>Strings, read and written\<close>

lemma hexDigit_less: "hexDigit c = Some d \<Longrightarrow> d < 16"
  by (auto simp: hexDigit_def split: if_splits) unat_arith+

lemma shift_or_digit:
  assumes "d < (16 :: qchar)"
  shows "or (push_bit 4 a) d = 16 * a + d"
proof -
  have "d mod 16 = d"
    using assms by (rule mod_word_less)
  then have small: "take_bit 4 d = d"
    by (simp add: take_bit_eq_mod)
  have "bit (and (push_bit 4 a) (take_bit 4 d)) n \<longleftrightarrow> False" for n
    by (auto simp: bit_simps)
  then have "and (push_bit 4 a) (take_bit 4 d) = 0"
    by (simp add: bit_eq_iff)
  then have "push_bit 4 a + d = or (push_bit 4 a) d"
    by (simp add: small disjunctive_add_eq_or)
  then show ?thesis by (simp add: push_bit_eq_mult mult.commute)
qed

lemma hexCodeUnit_eq:
  "hexCodeUnit n a s =
    (if n \<le> length s \<and> list_all (\<lambda>c. hexDigit c \<noteq> None) (take n s)
     then Some (foldl (\<lambda>a c. 16 * a + the (hexDigit c)) a (take n s), drop n s) else None)"
  by (induction n a s rule: hexCodeUnit.induct)
    (auto simp: shift_or_digit hexDigit_less split: option.splits)

lemma parseHexCodeUnit_iff:
  "parseHexCodeUnit s = Some (u, r) \<longleftrightarrow> (\<exists>ds. s = ds @ r \<and> hex_quad ds \<and> u = hex_number ds)"
proof
  assume "parseHexCodeUnit s = Some (u, r)"
  then have "s = take 4 s @ r \<and> hex_quad (take 4 s) \<and> u = hex_number (take 4 s)"
    by (auto simp: parseHexCodeUnit_def hexCodeUnit_eq hex_quad_def hex_number_def split: if_splits)
  then show "\<exists>ds. s = ds @ r \<and> hex_quad ds \<and> u = hex_number ds" by blast
qed (auto simp: parseHexCodeUnit_def hexCodeUnit_eq hex_quad_def hex_number_def)

lemma surrogate_range:
  "isHighSurrogate c \<Longrightarrow> 0x20 \<le> c \<and> c \<noteq> c_quote \<and> c \<noteq> c_backslash \<and> \<not> isLowSurrogate c"
  "isLowSurrogate c \<Longrightarrow> 0x20 \<le> c \<and> c \<noteq> c_quote \<and> c \<noteq> c_backslash"
  unfolding isHighSurrogate_def isLowSurrogate_def by unat_arith+

lemma stringPiece_unit:
  assumes "string_unit p u"
  shows "stringPiece (p @ r) = Piece u r"
  using assms
proof cases
  case (pair h l)
  then show ?thesis by (simp add: stringPiece_def surrogate_range not_less)
next
  case (hex ds)
  have "parseHexCodeUnit (ds @ r) = Some (hex_number ds, r)"
    using hex by (auto simp: parseHexCodeUnit_iff)
  with hex show ?thesis by (simp add: stringPiece_def escapePiece_def)
next
  case (hex_pair ds es)
  have "parseHexCodeUnit (ds @ [c_backslash, 0x75] @ es @ r) = Some (hex_number ds, [c_backslash, 0x75] @ es @ r)"
    and "parseHexCodeUnit (es @ r) = Some (hex_number es, r)"
    using hex_pair by (auto simp: parseHexCodeUnit_iff)
  with hex_pair show ?thesis by (simp add: stringPiece_def escapePiece_def)
qed (auto simp: stringPiece_def escapePiece_def simple_escapes_def not_less)

lemma unit_of_stringPiece:
  assumes "stringPiece s = Piece u r"
  shows "\<exists>p. s = p @ r \<and> string_unit p u"
proof (cases s)
  case Nil
  with assms show ?thesis by (simp add: stringPiece_def)
next
  case (Cons c t)
  show ?thesis
  proof (cases "c = c_backslash")
    case False
    with assms Cons show ?thesis
      by (cases t) (auto simp: stringPiece_def not_less split: if_splits
          intro: string_unit.plain string_unit.pair intro!: exI [of _ "[c]"] exI [of _ "[c, hd t]"])
  next
    case True
    with assms Cons have esc: "escapePiece t = Piece u r" by (simp add: stringPiece_def)
    then obtain e t1 where t: "t = e # t1" by (cases t) (auto simp: escapePiece_def)
    show ?thesis
    proof (cases "e = 0x75")
      case False
      with esc t have "t1 = r" and "\<exists>v. (e, v) \<in> set simple_escapes \<and> u = [v]"
        by (auto simp: escapePiece_def simple_escapes_def split: if_splits)
      with Cons True t show ?thesis
        by (auto intro!: exI [of _ "[c_backslash, e]"] string_unit.escape)
    next
      case e: True
      from esc t e obtain h s2 where h: "parseHexCodeUnit t1 = Some (h, s2)"
        by (auto simp: escapePiece_def split: option.splits)
      then obtain ds where ds: "t1 = ds @ s2" "hex_quad ds" "h = hex_number ds"
        by (auto simp: parseHexCodeUnit_iff)
      show ?thesis
      proof (cases "isHighSurrogate h")
        case False
        with esc t e h have "u = [h]" "s2 = r" "\<not> isLowSurrogate h"
          by (auto simp: escapePiece_def split: if_splits)
        with Cons True t e ds False show ?thesis
          using string_unit.hex [of ds] by (intro exI [of _ "[c_backslash, 0x75] @ ds"]) auto
      next
        case high: True
        from esc t e h high obtain l s3 where l: "parseHexCodeUnit (drop 2 s2) = Some (l, s3)"
          and s2: "2 \<le> length s2" "s2 ! 0 = c_backslash" "s2 ! 1 = 0x75"
          and res: "isLowSurrogate l" "u = [h, l]" "s3 = r"
          by (auto simp: escapePiece_def split: option.splits if_splits)
        from l obtain es where es: "drop 2 s2 = es @ r" "hex_quad es" "l = hex_number es"
          using res by (auto simp: parseHexCodeUnit_iff)
        obtain x y z where s2': "s2 = x # y # z" using s2(1) by (cases s2; cases "tl s2") auto
        with s2 es have "s2 = [c_backslash, 0x75] @ es @ r" by auto
        with Cons True t e ds high res es show ?thesis
          using string_unit.hex_pair [of ds es]
          by (intro exI [of _ "[c_backslash, 0x75] @ ds @ [c_backslash, 0x75] @ es"]) auto
      qed
    qed
  qed
qed

lemma stringPiece_end: "stringPiece s = PieceEnd r \<longleftrightarrow> s = c_quote # r"
  by (auto simp: stringPiece_def escapePiece_not_end split: list.splits if_splits)

lemma stringBody_chars:
  assumes "json_chars b m"
  shows "stringBody d (b @ c_quote # r) = Some (d @ m, r)"
  using assms
proof (induction arbitrary: d)
  case none
  then show ?case by (subst stringBody.simps) (simp add: stringPiece_end [THEN iffD2])
next
  case (some p u s m)
  then show ?case by (subst stringBody.simps) (simp add: stringPiece_unit)
qed

lemma chars_of_stringBody:
  "stringBody d s = Some (m, r) \<Longrightarrow> \<exists>b u. s = b @ c_quote # r \<and> json_chars b u \<and> m = d @ u"
proof (induction d s rule: stringBody.induct)
  case (1 d s)
  show ?case
  proof (cases "stringPiece s")
    case (PieceEnd q)
    with "1.prems" have "s = c_quote # r" "m = d"
      by (simp_all add: stringBody.simps [of d] stringPiece_end)
    then show ?thesis using json_chars.none by (intro exI [of _ "[]"]) simp
  next
    case (Piece u q)
    with "1.prems" have "stringBody (d @ u) q = Some (m, r)" by (simp add: stringBody.simps [of d])
    from "1.IH" [OF Piece this] obtain b v where bv: "q = b @ c_quote # r" "json_chars b v"
      "m = (d @ u) @ v" by blast
    from unit_of_stringPiece [OF Piece] obtain p where "s = p @ q" "string_unit p u" by blast
    with bv show ?thesis
      using json_chars.some by (intro exI [of _ "p @ b"] exI [of _ "u @ v"]) auto
  next
    case PieceBad
    with "1.prems" show ?thesis by (simp add: stringBody.simps [of d])
  qed
qed

lemma parseString_iff: "parseString s = Some (m, r) \<longleftrightarrow> (\<exists>k. s = k @ r \<and> json_string m k)"
proof
  assume "parseString s = Some (m, r)"
  then obtain t where "s = c_quote # t" and "stringBody [] t = Some (m, r)"
    by (auto simp: parseString_def split: option.splits)
  with chars_of_stringBody [of "[]" t m r] show "\<exists>k. s = k @ r \<and> json_string m k"
    by (fastforce simp: json_string_def)
next
  assume "\<exists>k. s = k @ r \<and> json_string m k"
  then obtain b where "s = c_quote # b @ c_quote # r" "json_chars b m"
    by (auto simp: json_string_def)
  then show "parseString s = Some (m, r)"
    by (simp add: parseString_def consume_char_def stringBody_chars)
qed

section \<open>Numbers and keywords, read and written\<close>

definition value_end :: "qstring \<Rightarrow> bool" where
  "value_end r \<longleftrightarrow> r = [] \<or> whitespace (hd r) \<or> hd r = c_comma \<or> hd r = c_rbrace \<or> hd r = c_rbracket"

lemma value_end_Cons [simp]:
  "value_end []"
  "value_end (c # r) \<longleftrightarrow> whitespace c \<or> c = c_comma \<or> c = c_rbrace \<or> c = c_rbracket"
  by (simp_all add: value_end_def)

lemma value_end_not_number:
  assumes "value_end (c # r)"
  shows "\<not> ascii_digit c" "\<not> isDigit ud c" "c \<noteq> c_dot" "c \<noteq> 0x65" "c \<noteq> 0x45"
  using assms by (auto simp: whitespace_def ascii_digit_def isDigit_def)

lemma value_end_not_digit: "value_end r \<Longrightarrow> r = [] \<or> \<not> ascii_digit (hd r)"
  using value_end_not_number(1) by (cases r) (simp_all del: value_end_Cons)

lemma dropWhile_digits:
  assumes "list_all ascii_digit ds" and "r = [] \<or> \<not> ascii_digit (hd r)"
  shows "dropWhile ascii_digit (ds @ r) = r"
  using assms by (induction ds) (cases r; auto)+

lemma nonzero_digit: "0x31 \<le> c \<Longrightarrow> c \<le> 0x39 \<Longrightarrow> ascii_digit c" "0x31 \<le> c \<Longrightarrow> c \<noteq> c_zero"
  for c :: qchar
  unfolding ascii_digit_def by (unat_arith, auto)

lemma split_digits:
  obtains ds where "s = ds @ dropWhile ascii_digit s" "list_all ascii_digit ds"
    "ds = [] \<longleftrightarrow> length (dropWhile ascii_digit s) = length s"
proof
  show "s = takeWhile ascii_digit s @ dropWhile ascii_digit s" by simp
  show "list_all ascii_digit (takeWhile ascii_digit s)"
    by (auto simp: list_all_iff dest: set_takeWhileD)
  have "length s = length (takeWhile ascii_digit s) + length (dropWhile ascii_digit s)"
    by (metis length_append takeWhile_dropWhile_id)
  then show "takeWhile ascii_digit s = [] \<longleftrightarrow> length (dropWhile ascii_digit s) = length s"
    by auto
qed

lemma exponent_sound:
  assumes "parseExponent s = Some r"
  shows "\<exists>e. s = e @ r \<and> json_exp e"
proof (cases "\<exists>e s1. s = e # s1 \<and> (e = 0x65 \<or> e = 0x45)")
  case False
  with assms have "r = s" by (auto simp: parseExponent_def split: list.splits if_splits)
  then show ?thesis by (simp add: json_exp_def)
next
  case True
  then obtain e s1 where s: "s = e # s1" "e = 0x65 \<or> e = 0x45" by blast
  define s2 where
    "s2 = (case s1 of sign # t \<Rightarrow> if sign = c_plus \<or> sign = c_minus then t else s1 | [] \<Rightarrow> s1)"
  obtain sign where s2: "s1 = sign @ s2" "sign = [] \<or> sign = [c_plus] \<or> sign = [c_minus]"
  proof (cases s1)
    case Nil
    with that [of "[]"] show thesis by (simp add: s2_def)
  next
    case (Cons a t)
    with that [of "[a]"] that [of "[]"] show thesis
      by (cases "a = c_plus \<or> a = c_minus") (auto simp: s2_def)
  qed
  obtain ds where ds: "s2 = ds @ dropWhile ascii_digit s2" "list_all ascii_digit ds"
    "ds = [] \<longleftrightarrow> length (dropWhile ascii_digit s2) = length s2" by (rule split_digits)
  have "parseExponent s =
      (let s3 = dropWhile ascii_digit s2 in if length s3 = length s2 then None else Some s3)"
    unfolding s2_def s(1) parseExponent_def using s(2) by (simp add: Let_def)
  with assms have r: "r = dropWhile ascii_digit s2" and
    "length (dropWhile ascii_digit s2) \<noteq> length s2"
    by (simp_all add: Let_def split: if_splits)
  with ds(2,3) s(2) s2(2) have "json_exp (e # sign @ ds)" by (auto simp: json_exp_def digits_def)
  moreover have "s2 = ds @ r" unfolding r by (rule ds(1))
  ultimately show ?thesis using s(1) s2(1) by (intro exI [of _ "e # sign @ ds"]) simp
qed

lemma exponent_complete:
  assumes "json_exp e" and "value_end r"
  shows "parseExponent (e @ r) = Some r"
proof (cases "e = []")
  case True
  with assms show ?thesis
    by (cases r) (use value_end_not_number in \<open>auto simp: parseExponent_def\<close>)
next
  case False
  with assms obtain m sign ds where e: "e = m # sign @ ds" "m = 0x65 \<or> m = 0x45"
    "sign = [] \<or> sign = [c_plus] \<or> sign = [c_minus]" "digits ds"
    by (auto simp: json_exp_def)
  then obtain d es where ds: "ds = d # es" "ascii_digit d" "list_all ascii_digit es"
    by (cases ds) (auto simp: digits_def)
  have "r = [] \<or> \<not> ascii_digit (hd r)"
    using assms(2) by (rule value_end_not_digit)
  then have drop: "dropWhile ascii_digit (es @ r) = r" using ds by (simp add: dropWhile_digits)
  have "d \<noteq> c_plus" "d \<noteq> c_minus" using ds by (auto simp: ascii_digit_def)
  with e ds drop show ?thesis by (auto simp: parseExponent_def Let_def)
qed

lemma fraction_sound:
  assumes "parseFraction s = Some r"
  shows "\<exists>f e. s = f @ e @ r \<and> json_frac f \<and> json_exp e"
proof (cases "consume_char c_dot s")
  case None
  with assms exponent_sound [of s r] show ?thesis by (auto simp: parseFraction_def json_frac_def)
next
  case (Some s1)
  obtain ds where ds: "s1 = ds @ dropWhile ascii_digit s1" "list_all ascii_digit ds"
    "ds = [] \<longleftrightarrow> length (dropWhile ascii_digit s1) = length s1" by (rule split_digits)
  from assms Some have "parseExponent (dropWhile ascii_digit s1) = Some r" "ds \<noteq> []"
    using ds(3) by (auto simp: parseFraction_def Let_def split: if_splits)
  with exponent_sound obtain e where "dropWhile ascii_digit s1 = e @ r" "json_exp e" by blast
  with Some ds \<open>ds \<noteq> []\<close> show ?thesis
    by (intro exI [of _ "c_dot # ds"] exI [of _ e]) (auto simp: json_frac_def digits_def)
qed

lemma exp_head: "json_exp e \<Longrightarrow> value_end r \<Longrightarrow> e @ r = c # t \<Longrightarrow> \<not> isDigit ud c \<and> c \<noteq> c_dot"
  by (cases e)
    (auto simp: json_exp_def isDigit_def ascii_digit_def whitespace_def value_end_def)

lemma exp_head_digit:
  assumes "json_exp e" and "value_end r"
  shows "e @ r = [] \<or> \<not> ascii_digit (hd (e @ r))"
  using exp_head [OF assms, of _ _ "\<lambda>_. False"] by (cases "e @ r") (auto simp: isDigit_def)

lemma fraction_complete:
  assumes "json_frac f" and "json_exp e" and "value_end r"
  shows "parseFraction (f @ e @ r) = Some r"
proof (cases "f = []")
  case True
  have "consume_char c_dot (e @ r) = None"
    using exp_head [OF assms(2,3)] by (cases "e @ r") (auto simp: consume_char_def)
  with True assms show ?thesis by (simp add: parseFraction_def exponent_complete)
next
  case False
  with assms obtain ds where f: "f = c_dot # ds" "digits ds" by (auto simp: json_frac_def)
  have "dropWhile ascii_digit (ds @ e @ r) = e @ r"
    using f exp_head_digit [OF assms(2,3)] by (intro dropWhile_digits) (auto simp: digits_def)
  with f assms show ?thesis
    by (auto simp: parseFraction_def Let_def consume_char_def exponent_complete digits_def)
qed

lemma json_numberI:
  "m = [] \<or> m = [c_minus] \<Longrightarrow> json_int i \<Longrightarrow> json_frac f \<Longrightarrow> json_exp e \<Longrightarrow>
    json_number (m @ i @ f @ e)"
  unfolding json_number_def by blast

lemma number_sound:
  assumes "parseNumber ud s = Some r"
  shows "\<exists>v. s = v @ r \<and> json_number v"
proof -
  define s1 where "s1 = (case consume_char c_minus s of None \<Rightarrow> s | Some r \<Rightarrow> r)"
  obtain m where m: "s = m @ s1" "m = [] \<or> m = [c_minus]"
    by (cases "consume_char c_minus s") (auto simp: s1_def)
  from assms obtain c s2 where s1: "s1 = c # s2"
    by (auto simp: parseNumber_def s1_def [symmetric] Let_def split: list.splits)
  show ?thesis
  proof (cases "c = c_zero")
    case True
    with assms s1 have "parseFraction s2 = Some r"
      by (simp add: parseNumber_def s1_def [symmetric] Let_def split: if_splits)
    with fraction_sound obtain f e where "s2 = f @ e @ r" "json_frac f" "json_exp e" by blast
    with m s1 True show ?thesis
      by (intro exI [of _ "m @ [c_zero] @ f @ e"])
        (auto intro!: json_numberI simp: json_int_def simp del: append.simps)
  next
    case False
    with assms s1 have c: "0x31 \<le> c" "c \<le> 0x39" and
      fr: "parseFraction (dropWhile ascii_digit s2) = Some r"
      by (simp_all add: parseNumber_def s1_def [symmetric] Let_def split: if_splits)
    obtain ds where ds: "s2 = ds @ dropWhile ascii_digit s2" "list_all ascii_digit ds"
      by (rule split_digits)
    from fraction_sound [OF fr] obtain f e where
      "dropWhile ascii_digit s2 = f @ e @ r" "json_frac f" "json_exp e" by blast
    moreover have "json_int (c # ds)" using c ds by (simp add: json_int_def)
    ultimately have "json_number (m @ (c # ds) @ f @ e)"
      using m(2) unfolding json_number_def by blast
    moreover have "s = (m @ (c # ds) @ f @ e) @ r"
      using m(1) s1 ds \<open>dropWhile ascii_digit s2 = f @ e @ r\<close> by simp
    ultimately show ?thesis by blast
  qed
qed

lemma fraction_exp_head:
  assumes "json_frac f" and "json_exp e" and "value_end r"
  shows "f @ e @ r = [] \<or> \<not> isDigit ud (hd (f @ e @ r))"
proof (cases "f = []")
  case True
  then show ?thesis using exp_head [OF assms(2,3)] by (cases "e @ r") auto
next
  case False
  with assms(1) show ?thesis by (auto simp: json_frac_def isDigit_def ascii_digit_def)
qed

lemma number_complete:
  assumes "json_number v" and "value_end r"
  shows "parseNumber ud (v @ r) = Some r"
proof -
  from assms obtain m i f e where v: "v = m @ i @ f @ e" and m: "m = [] \<or> m = [c_minus]"
    and i: "json_int i" and f: "json_frac f" and e: "json_exp e"
    by (auto simp: json_number_def)
  note head = fraction_exp_head [OF f e assms(2)]
  have frac: "parseFraction (f @ e @ r) = Some r" using f e assms by (simp add: fraction_complete)
  from i obtain c ds where c: "i = c # ds" "ascii_digit c" "c \<noteq> c_zero \<longrightarrow> 0x31 \<le> c \<and> c \<le> 0x39"
    "c = c_zero \<longrightarrow> ds = []" "list_all ascii_digit ds"
  proof (cases "i = [c_zero]")
    case True
    with that show thesis by (simp add: ascii_digit_def)
  next
    case False
    with i that show thesis by (auto simp: json_int_def nonzero_digit)
  qed
  have "dropWhile ascii_digit (ds @ f @ e @ r) = f @ e @ r"
    using c head [of "\<lambda>_. False"] by (intro dropWhile_digits) (auto simp: isDigit_def)
  with frac have tail: "parseFraction (dropWhile ascii_digit (ds @ f @ e @ r)) = Some r" by simp
  have "c \<noteq> c_minus" using c by (auto simp: ascii_digit_def)
  then show ?thesis
    using v m c(1,3,4) frac tail head [of ud]
    by (cases "c = c_zero") (auto simp: parseNumber_def consume_char_def Let_def)
qed

lemma number_head:
  assumes "json_number v"
  obtains c t where "v = c # t" "c = c_minus \<or> ascii_digit c"
proof -
  from assms obtain m i f e where v: "v = m @ i @ f @ e" "m = [] \<or> m = [c_minus]" "json_int i"
    by (auto simp: json_number_def)
  from v(3) obtain c t where "i = c # t" "ascii_digit c"
    by (auto simp: json_int_def nonzero_digit)
      (simp add: ascii_digit_def)
  with v that show thesis by auto
qed

lemma consumeKeyword_iff: "consumeKeyword k s = Some r \<longleftrightarrow> s = k @ r"
proof
  assume "consumeKeyword k s = Some r"
  then have "k = take (length k) s" "r = drop (length k) s"
    by (auto simp: consumeKeyword_def split: if_splits)
  then show "s = k @ r" by (metis append_take_drop_id)
qed (simp add: consumeKeyword_def)

lemma consumeKeyword_None: "consumeKeyword k s = None \<longleftrightarrow> (\<forall>r. s \<noteq> k @ r)"
  by (metis consumeKeyword_iff not_Some_eq)

lemma keyword_sound:
  "keyword_value s = Some r \<Longrightarrow>
    \<exists>v. s = v @ r \<and> v \<in> {qstr ''true'', qstr ''false'', qstr ''null''}"
  by (auto simp: keyword_value_def consumeKeyword_iff split: option.splits)

lemma keyword_complete:
  assumes "v \<in> {qstr ''true'', qstr ''false'', qstr ''null''}"
  shows "keyword_value (v @ r) = Some r"
  using assms by (auto simp: keyword_value_def consumeKeyword_def qstr_def)

lemma keyword_head:
  assumes "v \<in> {qstr ''true'', qstr ''false'', qstr ''null''}"
  obtains c t where "v = c # t" "c \<in> {0x74, 0x66, 0x6E}"
  using assms by (auto simp: qstr_def)

section \<open>Blanks and first characters\<close>

lemma split_blank:
  obtains w where "s = w @ skipWhitespace s" "blank w"
proof
  show "s = takeWhile whitespace s @ skipWhitespace s" by (simp add: skipWhitespace_def)
  show "blank (takeWhile whitespace s)"
    by (auto simp: blank_def list_all_iff dest: set_takeWhileD)
qed

lemma blank_simps [simp]:
  "blank []" "blank (c # w) \<longleftrightarrow> whitespace c \<and> blank w" "blank (v @ w) \<longleftrightarrow> blank v \<and> blank w"
  by (auto simp: blank_def)

lemma skip_blank:
  assumes "blank w"
  shows "skipWhitespace (w @ s) = skipWhitespace s"
  using assms by (induction w) (auto simp: skipWhitespace_def)

lemma skip_none [simp]: "skipWhitespace [] = []" "\<not> whitespace c \<Longrightarrow> skipWhitespace (c # s) = c # s"
  by (simp_all add: skipWhitespace_def)

lemma not_whitespace [simp]:
  "\<not> whitespace c_lbrace" "\<not> whitespace c_rbrace" "\<not> whitespace c_lbracket"
  "\<not> whitespace c_rbracket" "\<not> whitespace c_quote" "\<not> whitespace c_comma" "\<not> whitespace c_colon"
  by (simp_all add: whitespace_def)

lemma consume_char_Cons [simp]:
  "consume_char c [] = None" "consume_char c (d # r) = (if d = c then Some r else None)"
  by (simp_all add: consume_char_def)

definition value_head :: "qchar \<Rightarrow> bool" where
  "value_head c \<longleftrightarrow> \<not> whitespace c \<and> c \<noteq> c_rbrace \<and> c \<noteq> c_rbracket \<and> c \<noteq> c_comma \<and> c \<noteq> c_colon"

lemma json_string_head: "json_string m k \<Longrightarrow> \<exists>b. k = c_quote # b"
  by (auto simp: json_string_def)

lemma json_value_head:
  assumes "json_value t v"
  shows "\<exists>c b. v = c # b \<and> value_head c"
  using assms
proof cases
  case keyword
  from keyword(2) show ?thesis
    by (rule keyword_head) (auto simp: value_head_def whitespace_def)
next
  case number
  from number(2) show ?thesis
    by (rule number_head) (auto simp: value_head_def whitespace_def ascii_digit_def)
qed (auto simp: value_head_def dest: json_string_head)

lemma skip_value:
  assumes "json_value t v" and "blank w"
  shows "skipWhitespace (w @ v @ s) = v @ s"
  using json_value_head [OF assms(1)] by (auto simp: skip_blank assms(2) value_head_def)

lemma skip_string:
  assumes "json_string m v" and "blank w"
  shows "skipWhitespace (w @ v @ s) = v @ s"
  using json_string_head [OF assms(1)] by (auto simp: skip_blank assms(2))

lemma value_end_blank: "blank w \<Longrightarrow> value_end (c # s) \<Longrightarrow> value_end (w @ c # s)"
  by (cases w) auto

lemma json_members_head: "json_members ms s \<Longrightarrow> \<exists>b. s = c_quote # b"
  by (cases rule: json_members.cases) (auto dest: json_string_head)

lemma json_elements_head: "json_elements ts s \<Longrightarrow> \<exists>c b. s = c # b \<and> value_head c"
  by (cases rule: json_elements.cases) (auto dest: json_value_head)

section \<open>The scanner reads what the grammar describes\<close>

lemma parseMembers_step:
  assumes "json_string x k" "blank a" "blank b" "json_value t v"
    and "x \<notin> M" "n < 4096"
  shows "parseMembers ud nesting M (k @ a @ c_colon # b @ v @ s) n =
    (case parseValue ud nesting (v @ s) (Suc n) of
       Inl e \<Rightarrow> Inl e
     | Inr (s3, n2) \<Rightarrow>
         (case consume_char c_rbrace (skipWhitespace s3) of
            Some r \<Rightarrow> Inr (r, n2)
          | None \<Rightarrow> (case consume_char c_comma (skipWhitespace s3) of
              None \<Rightarrow> Inl ScanValid
            | Some s4 \<Rightarrow> parseMembers ud nesting (insert x M) (skipWhitespace s4) n2)))"
proof -
  have "parseString (k @ a @ c_colon # b @ v @ s) = Some (x, a @ c_colon # b @ v @ s)"
    using assms(1) by (auto simp: parseString_iff)
  moreover have "consume_char c_colon (skipWhitespace (a @ c_colon # b @ v @ s)) = Some (b @ v @ s)"
    by (simp add: skip_blank assms(2))
  ultimately show ?thesis
    using assms(5,6)
    by (simp add: parseMembers.simps [of ud nesting M "k @ q" for q] countAggregateEntry_def
        maximumJsonAggregateEntries_def skip_value [OF assms(4,3)])
qed

lemma value_complete:
  "json_value t v \<Longrightarrow>
    (\<forall>k n r. value_end r \<longrightarrow> k + depth t \<le> 64 \<longrightarrow> n + entries t \<le> 4096 \<longrightarrow> names_unique t \<longrightarrow>
       parseValue ud k (v @ r) n = Inr (r, n + entries t))"
  "json_members ms s \<Longrightarrow>
    (\<forall>k n M r. k + depth_members ms \<le> 64 \<longrightarrow> n + entries_members ms \<le> 4096 \<longrightarrow>
       unique_members ms \<longrightarrow> distinct (map fst ms) \<longrightarrow> fst ` set ms \<inter> M = {} \<longrightarrow>
       parseMembers ud k M (s @ c_rbrace # r) n = Inr (r, n + entries_members ms))"
  "json_elements ts s' \<Longrightarrow>
    (\<forall>k n r. k + depth_elements ts \<le> 64 \<longrightarrow> n + entries_elements ts \<le> 4096 \<longrightarrow> unique_elements ts \<longrightarrow>
       parseElements ud k (s' @ c_rbracket # r) n = Inr (r, n + entries_elements ts))"
proof (induction rule: json_value_json_members_json_elements.inducts)
  case (keyword s)
  obtain c t where "s = c # t" "c \<in> {0x74, 0x66, 0x6E}" by (rule keyword_head [OF keyword])
  with keyword_complete [OF keyword] show ?case
    by (auto simp: parseValue.simps [of ud] ascii_digit_def)
next
  case (number s)
  show ?case
  proof (intro allI impI)
    fix k n r
    assume "value_end r"
    with number have "parseNumber ud (s @ r) = Some r" by (rule number_complete)
    moreover from number obtain c t where "s = c # t" "c = c_minus \<or> ascii_digit c"
      by (rule number_head)
    ultimately show "parseValue ud k (s @ r) n = Inr (r, n + entries GLeaf)"
      by (auto simp: parseValue.simps [of ud k] ascii_digit_def)
  qed
next
  case (text_value m s)
  then obtain b where "s = c_quote # b" by (blast dest: json_string_head)
  with text_value show ?case
    by (auto simp: parseValue.simps [of ud] parseString_iff)
next
  case (empty_object w)
  then show ?case
    by (simp add: parseValue.simps [of ud] parseObject.simps skip_blank maximumJsonNesting_def)
next
  case (object w ms s)
  obtain b where "s = c_quote # b" using object.hyps by (blast dest: json_members_head)
  then have "skipWhitespace (w @ s @ q) = s @ q" "consume_char c_rbrace (s @ q) = None" for q
    using object.hyps by (simp_all add: skip_blank consume_char_def)
  with object show ?case
    by (auto simp: parseValue.simps [of ud] parseObject.simps maximumJsonNesting_def)
next
  case (empty_array w)
  then show ?case
    by (simp add: parseValue.simps [of ud] parseArray.simps skip_blank maximumJsonNesting_def)
next
  case (array w ts s)
  obtain c b where "s = c # b" "value_head c"
    using array.hyps by (blast dest: json_elements_head)
  then have "skipWhitespace (w @ s @ q) = s @ q" "consume_char c_rbracket (s @ q) = None" for q
    using array.hyps by (simp_all add: skip_blank consume_char_def value_head_def)
  with array show ?case
    by (auto simp: parseValue.simps [of ud] parseArray.simps maximumJsonNesting_def)
next
  case (last_member x k a b t v c)
  then show ?case
    by (auto simp: parseMembers_step [OF last_member.hyps(1-4)] skip_blank value_end_blank)
next
  case (more_members x k a b t v c d ms s)
  have "skipWhitespace (d @ s @ q) = s @ q" for q
    using more_members.hyps json_members_head by (fastforce simp: skip_blank)
  with more_members show ?case
    by (auto simp: parseMembers_step [OF more_members.hyps(1-4)] skip_blank value_end_blank
        consume_char_def)
next
  case (last_element t v c)
  then show ?case
    by (auto simp: parseElements.simps [of ud] countAggregateEntry_def maximumJsonAggregateEntries_def
        skip_blank value_end_blank)
next
  case (more_elements t v c d ts s)
  have "skipWhitespace (d @ s @ q) = s @ q" for q
    using more_elements.hyps json_elements_head by (fastforce simp: skip_blank value_head_def)
  with more_elements show ?case
    by (auto simp: parseElements.simps [of ud k "v @ q" for k q] countAggregateEntry_def
        maximumJsonAggregateEntries_def skip_blank value_end_blank consume_char_def)
qed

section \<open>What the scanner reads is in the grammar\<close>

definition within :: "nat \<Rightarrow> nat \<Rightarrow> nat \<Rightarrow> jtree \<Rightarrow> bool" where
  "within k n m t \<longleftrightarrow> m = n + entries t \<and> m \<le> 4096 \<and> k + depth t \<le> 64 \<and> names_unique t"

definition members_within :: "nat \<Rightarrow> nat \<Rightarrow> nat \<Rightarrow> qstring set \<Rightarrow> (qstring \<times> jtree) list \<Rightarrow> bool" where
  "members_within k n m M ms \<longleftrightarrow> m = n + entries_members ms \<and> m \<le> 4096 \<and> k + depth_members ms \<le> 64
     \<and> unique_members ms \<and> distinct (map fst ms) \<and> fst ` set ms \<inter> M = {}"

definition elements_within :: "nat \<Rightarrow> nat \<Rightarrow> nat \<Rightarrow> jtree list \<Rightarrow> bool" where
  "elements_within k n m ts \<longleftrightarrow> m = n + entries_elements ts \<and> m \<le> 4096
     \<and> k + depth_elements ts \<le> 64 \<and> unique_elements ts"

lemmas within_defs = within_def members_within_def elements_within_def

lemma countAggregateEntry_iff [simp]: "countAggregateEntry n = Some m \<longleftrightarrow> n < 4096 \<and> m = Suc n"
  by (auto simp: countAggregateEntry_def maximumJsonAggregateEntries_def)

lemma leaf_sound:
  assumes "n \<le> 4096" "k \<le> 64" "json_value GLeaf v" "s = v @ r"
  shows "\<exists>t v. s = v @ r \<and> json_value t v \<and> within k n n t"
  using assms by (intro exI [of _ GLeaf] exI [of _ v]) (simp add: within_def)

lemma value_sound:
  "(\<forall>r m. parseValue ud k s n = Inr (r, m) \<longrightarrow> k \<le> 64 \<longrightarrow> n \<le> 4096 \<longrightarrow>
     (\<exists>t v. s = v @ r \<and> json_value t v \<and> within k n m t))"
  "(\<forall>r m. parseObject ud k s n = Inr (r, m) \<longrightarrow> k \<le> 64 \<longrightarrow> n \<le> 4096 \<longrightarrow>
     (\<exists>ms v. c_lbrace # s = v @ r \<and> json_value (GObject ms) v \<and> members_within k n m {} ms))"
  "(\<forall>r m. parseMembers ud k M s n = Inr (r, m) \<longrightarrow> k \<le> 64 \<longrightarrow> n \<le> 4096 \<longrightarrow>
     (\<exists>ms v. s = v @ c_rbrace # r \<and> json_members ms v \<and> members_within k n m M ms))"
  "(\<forall>r m. parseArray ud k s n = Inr (r, m) \<longrightarrow> k \<le> 64 \<longrightarrow> n \<le> 4096 \<longrightarrow>
     (\<exists>ts v. c_lbracket # s = v @ r \<and> json_value (GArray ts) v \<and> elements_within k n m ts))"
  "(\<forall>r m. parseElements ud k s n = Inr (r, m) \<longrightarrow> k \<le> 64 \<longrightarrow> n \<le> 4096 \<longrightarrow>
     (\<exists>ts v. s = v @ c_rbracket # r \<and> json_elements ts v \<and> elements_within k n m ts))"
proof (induction ud k s n and ud k s n and ud k M s n and ud k s n and ud k s n
    rule: parseValue_parseObject_parseMembers_parseArray_parseElements.induct)
  case (1 ud k s n)
  show ?case
  proof (intro allI impI)
    fix r m
    assume ret: "parseValue ud k s n = Inr (r, m)" and lim: "k \<le> 64" "n \<le> 4096"
    then obtain c t where s: "s = c # t" by (auto simp: parseValue.simps [of ud k] split: list.splits)
    consider "c = c_lbrace" | "c = c_lbracket" | "c = c_quote" | "c = c_minus \<or> ascii_digit c"
      | "c \<noteq> c_lbrace" "c \<noteq> c_lbracket" "c \<noteq> c_quote" "\<not> (c = c_minus \<or> ascii_digit c)" by blast
    then show "\<exists>t v. s = v @ r \<and> json_value t v \<and> within k n m t"
    proof cases
      case a: 1
      with ret s have "parseObject ud (k + 1) t n = Inr (r, m)" "k < 64"
        by (auto simp: parseValue.simps [of ud k] maximumJsonNesting_def split: if_splits)
      with "1.IH"(1) [of c t] s a lim obtain ms v where
        "c_lbrace # t = v @ r" "json_value (GObject ms) v" "members_within (k + 1) n m {} ms"
        by (fastforce simp: maximumJsonNesting_def)
      with s a show ?thesis
        by (intro exI [of _ "GObject ms"] exI [of _ v]) (auto simp: within_defs)
    next
      case a: 2
      with ret s have "parseArray ud (k + 1) t n = Inr (r, m)" "k < 64"
        by (auto simp: parseValue.simps [of ud k] maximumJsonNesting_def split: if_splits)
      with "1.IH"(2) [of c t] s a lim obtain ts v where
        "c_lbracket # t = v @ r" "json_value (GArray ts) v" "elements_within (k + 1) n m ts"
        by (fastforce simp: maximumJsonNesting_def)
      with s a show ?thesis
        by (intro exI [of _ "GArray ts"] exI [of _ v]) (auto simp: within_defs)
    next
      case a: 3
      with ret s obtain x where "parseString s = Some (x, r)" "m = n"
        by (auto simp: parseValue.simps [of ud k])
      with leaf_sound lim show ?thesis
        by (auto simp: parseString_iff dest: json_value_json_members_json_elements.text_value)
    next
      case a: 4
      then have "c \<noteq> c_lbrace" "c \<noteq> c_lbracket" "c \<noteq> c_quote" by (auto simp: ascii_digit_def)
      with a ret s have "parseNumber ud s = Some r" "m = n"
        by (auto simp: parseValue.simps [of ud k])
      with number_sound leaf_sound lim show ?thesis
        by (metis json_value_json_members_json_elements.number)
    next
      case a: 5
      with ret s have "keyword_value s = Some r" "m = n"
        by (auto simp: parseValue.simps [of ud k])
      with keyword_sound leaf_sound lim show ?thesis
        by (metis json_value_json_members_json_elements.keyword)
    qed
  qed
next
  case (2 ud k s n)
  show ?case
  proof (intro allI impI)
    fix r m
    assume ret: "parseObject ud k s n = Inr (r, m)" and lim: "k \<le> 64" "n \<le> 4096"
    obtain w where w: "s = w @ skipWhitespace s" "blank w" by (rule split_blank)
    show "\<exists>ms v. c_lbrace # s = v @ r \<and> json_value (GObject ms) v \<and> members_within k n m {} ms"
    proof (cases "consume_char c_rbrace (skipWhitespace s)")
      case (Some q)
      with ret have "m = n" "skipWhitespace s = c_rbrace # r"
        by (simp_all add: parseObject.simps [of ud k s])
      with w lim json_value_json_members_json_elements.empty_object [of w] show ?thesis
        by (intro exI [of _ "[]"] exI [of _ "[c_lbrace] @ w @ [c_rbrace]"]) (simp add: within_defs)
    next
      case None
      with ret have "parseMembers ud k {} (skipWhitespace s) n = Inr (r, m)"
        by (simp add: parseObject.simps [of ud k s])
      with "2.IH" [OF None] lim obtain ms v where mv: "skipWhitespace s = v @ c_rbrace # r"
        "json_members ms v" "members_within k n m {} ms" by blast
      with w json_value_json_members_json_elements.object [of w ms v] show ?thesis
        by (intro exI [of _ ms] exI [of _ "[c_lbrace] @ w @ v @ [c_rbrace]"]) simp
    qed
  qed
next
  case (3 ud k M s n)
  show ?case
  proof (intro allI impI)
    fix r m
    assume ret: "parseMembers ud k M s n = Inr (r, m)" and lim: "k \<le> 64" "n \<le> 4096"
    from ret obtain x s1 s2 s3 n2
      where str: "parseString s = Some (x, s1)" "x \<notin> M" "countAggregateEntry n = Some (Suc n)"
        and colon: "consume_char c_colon (skipWhitespace s1) = Some s2"
        and val: "parseValue ud k (skipWhitespace s2) (Suc n) = Inr (s3, n2)"
        and rest: "(case consume_char c_rbrace (skipWhitespace s3) of
            Some r \<Rightarrow> Inr (r, n2)
          | None \<Rightarrow> (case consume_char c_comma (skipWhitespace s3) of
              None \<Rightarrow> Inl ScanValid
            | Some s4 \<Rightarrow> parseMembers ud k (insert x M) (skipWhitespace s4) n2)) = Inr (r, m)"
      by (auto simp: parseMembers.simps [of ud k M s] split: option.splits if_splits sum.splits
          simp del: consume_char_Some)
    from str(1) obtain kx where kx: "s = kx @ s1" "json_string x kx" by (auto simp: parseString_iff)
    from "3.IH"(1) [OF str(1) refl str(2,3) colon] val lim str(3) obtain t v
      where v: "skipWhitespace s2 = v @ s3" "json_value t v" "within k (Suc n) n2 t" by fastforce
    obtain a where a: "s1 = a @ skipWhitespace s1" "blank a" by (rule split_blank)
    obtain b where b: "s2 = b @ skipWhitespace s2" "blank b" by (rule split_blank)
    obtain c where c: "s3 = c @ skipWhitespace s3" "blank c" by (rule split_blank)
    have whole: "s = kx @ a @ [c_colon] @ b @ v @ c @ skipWhitespace s3"
      using kx(1) a(1) b(1) c(1) colon v(1) by (metis append_Cons append_Nil consume_char_Some)
    show "\<exists>ms v. s = v @ c_rbrace # r \<and> json_members ms v \<and> members_within k n m M ms"
    proof (cases "consume_char c_rbrace (skipWhitespace s3)")
      case (Some q)
      with rest have "m = n2" "skipWhitespace s3 = c_rbrace # r" by simp_all
      with whole v(3) str(2)
        json_value_json_members_json_elements.last_member [OF kx(2) a(2) b(2) v(2) c(2)]
      show ?thesis
        by (intro exI [of _ "[(x, t)]"] exI [of _ "kx @ a @ [c_colon] @ b @ v @ c"])
          (auto simp: within_defs)
    next
      case None
      with rest obtain s4 where comma: "consume_char c_comma (skipWhitespace s3) = Some s4"
        and more: "parseMembers ud k (insert x M) (skipWhitespace s4) n2 = Inr (r, m)"
        by (auto split: option.splits simp del: consume_char_Some)
      have "n2 \<le> 4096" using v(3) by (simp add: within_def)
      with "3.IH"(2) [OF str(1) refl str(2,3) colon val refl None comma] more lim obtain ms u
        where u: "skipWhitespace s4 = u @ c_rbrace # r" "json_members ms u"
          "members_within k n2 m (insert x M) ms" by blast
      obtain d where d: "s4 = d @ skipWhitespace s4" "blank d" by (rule split_blank)
      have "skipWhitespace s3 = c_comma # d @ u @ c_rbrace # r"
        using comma d(1) u(1) by (metis consume_char_Some)
      with whole v(3) u(3) str(2)
        json_value_json_members_json_elements.more_members [OF kx(2) a(2) b(2) v(2) c(2) d(2) u(2)]
      show ?thesis
        by (intro exI [of _ "(x, t) # ms"]
            exI [of _ "kx @ a @ [c_colon] @ b @ v @ c @ [c_comma] @ d @ u"])
          (auto simp: within_defs)
    qed
  qed
next
  case (4 ud k s n)
  show ?case
  proof (intro allI impI)
    fix r m
    assume ret: "parseArray ud k s n = Inr (r, m)" and lim: "k \<le> 64" "n \<le> 4096"
    obtain w where w: "s = w @ skipWhitespace s" "blank w" by (rule split_blank)
    show "\<exists>ts v. c_lbracket # s = v @ r \<and> json_value (GArray ts) v \<and> elements_within k n m ts"
    proof (cases "consume_char c_rbracket (skipWhitespace s)")
      case (Some q)
      with ret have "m = n" "skipWhitespace s = c_rbracket # r"
        by (simp_all add: parseArray.simps [of ud k s])
      with w lim json_value_json_members_json_elements.empty_array [of w] show ?thesis
        by (intro exI [of _ "[]"] exI [of _ "[c_lbracket] @ w @ [c_rbracket]"]) (simp add: within_defs)
    next
      case None
      with ret have "parseElements ud k (skipWhitespace s) n = Inr (r, m)"
        by (simp add: parseArray.simps [of ud k s])
      with "4.IH" [OF None] lim obtain ts v where mv: "skipWhitespace s = v @ c_rbracket # r"
        "json_elements ts v" "elements_within k n m ts" by blast
      with w json_value_json_members_json_elements.array [of w ts v] show ?thesis
        by (intro exI [of _ ts] exI [of _ "[c_lbracket] @ w @ v @ [c_rbracket]"]) simp
    qed
  qed
next
  case (5 ud k s n)
  show ?case
  proof (intro allI impI)
    fix r m
    assume ret: "parseElements ud k s n = Inr (r, m)" and lim: "k \<le> 64" "n \<le> 4096"
    from ret obtain s3 n2
      where count: "countAggregateEntry n = Some (Suc n)"
        and val: "parseValue ud k s (Suc n) = Inr (s3, n2)"
        and rest: "(case consume_char c_rbracket (skipWhitespace s3) of
            Some r \<Rightarrow> Inr (r, n2)
          | None \<Rightarrow> (case consume_char c_comma (skipWhitespace s3) of
              None \<Rightarrow> Inl ScanValid
            | Some s4 \<Rightarrow> parseElements ud k (skipWhitespace s4) n2)) = Inr (r, m)"
      by (auto simp: parseElements.simps [of ud k s] split: option.splits sum.splits
          simp del: consume_char_Some)
    from "5.IH"(1) [OF count] val lim count obtain t v
      where v: "s = v @ s3" "json_value t v" "within k (Suc n) n2 t" by fastforce
    obtain c where c: "s3 = c @ skipWhitespace s3" "blank c" by (rule split_blank)
    have whole: "s = v @ c @ skipWhitespace s3" using v(1) c(1) by metis
    show "\<exists>ts v. s = v @ c_rbracket # r \<and> json_elements ts v \<and> elements_within k n m ts"
    proof (cases "consume_char c_rbracket (skipWhitespace s3)")
      case (Some q)
      with rest have "m = n2" "skipWhitespace s3 = c_rbracket # r" by simp_all
      with whole v(3) json_value_json_members_json_elements.last_element [OF v(2) c(2)]
      show ?thesis
        by (intro exI [of _ "[t]"] exI [of _ "v @ c"]) (auto simp: within_defs)
    next
      case None
      with rest obtain s4 where comma: "consume_char c_comma (skipWhitespace s3) = Some s4"
        and more: "parseElements ud k (skipWhitespace s4) n2 = Inr (r, m)"
        by (auto split: option.splits simp del: consume_char_Some)
      have "n2 \<le> 4096" using v(3) by (simp add: within_def)
      with "5.IH"(2) [OF count val refl None comma] more lim obtain ts u
        where u: "skipWhitespace s4 = u @ c_rbracket # r" "json_elements ts u"
          "elements_within k n2 m ts" by blast
      obtain d where d: "s4 = d @ skipWhitespace s4" "blank d" by (rule split_blank)
      have "skipWhitespace s3 = c_comma # d @ u @ c_rbracket # r"
        using comma d(1) u(1) by (metis consume_char_Some)
      with whole v(3) u(3)
        json_value_json_members_json_elements.more_elements [OF v(2) c(2) d(2) u(2)]
      show ?thesis
        by (intro exI [of _ "t # ts"] exI [of _ "v @ c @ [c_comma] @ d @ u"])
          (auto simp: within_defs)
    qed
  qed
qed

text \<open>
  C5.  The strict scanner accepts exactly the texts that are one JSON value between blanks, with
  unique member names in every object, at most 64 levels of nesting and at most 4096 members and
  elements in all.
\<close>

theorem strict_scan_iff: "strict_scan ud s = ScanValid \<longleftrightarrow> strict_json s"
proof
  assume "strict_scan ud s = ScanValid"
  then obtain r n where val: "parseValue ud 0 (skipWhitespace s) 0 = Inr (r, n)"
    and r: "skipWhitespace r = []"
    by (auto simp: strict_scan_def split: sum.splits if_splits)
  from val value_sound(1) [of ud 0 "skipWhitespace s" 0] obtain t v
    where v: "skipWhitespace s = v @ r" "json_value t v" "within 0 0 n t" by auto
  obtain a where a: "s = a @ skipWhitespace s" "blank a" by (rule split_blank)
  obtain b where b: "r = b @ skipWhitespace r" "blank b" by (rule split_blank)
  have "s = a @ v @ b" using a(1) b(1) v(1) r by simp
  with a(2) b(2) v(2,3) show "strict_json s" by (auto simp: strict_json_def within_def)
next
  assume "strict_json s"
  then obtain t a v b where s: "s = a @ v @ b" "blank a" "blank b" "json_value t v"
    and lim: "depth t \<le> 64" "entries t \<le> 4096" "names_unique t"
    by (auto simp: strict_json_def)
  have "value_end b" using s(3) by (cases b) auto
  with value_complete(1) [OF s(4), of ud] lim
  have "parseValue ud 0 (v @ b) 0 = Inr (b, entries t)" by simp
  moreover have "skipWhitespace b = []" using skip_blank [OF s(3), of "[]"] by simp
  ultimately show "strict_scan ud s = ScanValid"
    by (simp add: strict_scan_def s(1) skip_value [OF s(4,2)])
qed

end
