(* ===== verification/Json.thy ===== *)
theory Json
  imports Prelude Complex_Main "HOL-Library.Finite_Map"
begin

text \<open>
  Qt's JSON values as the sources use them: \<open>QJsonValue\<close> and \<open>QJsonObject\<close>.  An object is a finite
  map from names to values, so two objects are equal when they have the same members, as Qt's
  \<open>operator==\<close> has it.  A missing member is \<open>None\<close>, where Qt returns an undefined value: every
  \<open>is...\<close> test is false on it and every \<open>to...\<close> conversion returns its default.

  A number is the value \<open>toDouble\<close> returns: a rational, or \<open>None\<close> for an infinity or a NaN.
\<close>

datatype qjson =
    JNull
  | JBool bool
  | JDouble "rat option"
  | JString qstring
  | JArray "qjson list"
  | JObject "(qstring, qjson) fmap"

type_synonym json_object = "(qstring, qjson) fmap"

definition json_member :: "json_object \<Rightarrow> string \<Rightarrow> qjson option" where
  "json_member object name = fmlookup object (qstr name)"

definition json_contains :: "json_object \<Rightarrow> string \<Rightarrow> bool" where
  "json_contains object name \<longleftrightarrow> json_member object name \<noteq> None"

definition json_object_of :: "(string \<times> qjson) list \<Rightarrow> json_object" where
  "json_object_of members = fmap_of_list (map (map_prod qstr id) members)"

fun toString :: "qjson option \<Rightarrow> qstring" where
  "toString (Some (JString s)) = s"
| "toString _ = []"

fun isString :: "qjson option \<Rightarrow> bool" where
  "isString (Some (JString s)) = True"
| "isString _ = False"

fun isBool :: "qjson option \<Rightarrow> bool" where
  "isBool (Some (JBool b)) = True"
| "isBool _ = False"

fun toBool :: "qjson option \<Rightarrow> bool" where
  "toBool (Some (JBool b)) = b"
| "toBool _ = False"

fun isObject :: "qjson option \<Rightarrow> bool" where
  "isObject (Some (JObject m)) = True"
| "isObject _ = False"

fun toObject :: "qjson option \<Rightarrow> json_object" where
  "toObject (Some (JObject m)) = m"
| "toObject _ = fmempty"

text \<open>
  \<open>toInt\<close> is the integer the double is, or 0 when it is not one within the range of \<open>int\<close>.
\<close>

definition json_int_value :: "qjson option \<Rightarrow> int option" where
  "json_int_value v =
     (case v of Some (JDouble (Some q)) \<Rightarrow> if of_int \<lfloor>q\<rfloor> = q then Some \<lfloor>q\<rfloor> else None | _ \<Rightarrow> None)"

definition toInt :: "qjson option \<Rightarrow> int" where
  "toInt v =
     (case json_int_value v of
        None \<Rightarrow> 0
      | Some i \<Rightarrow> if - (2 ^ 31) \<le> i \<and> i < 2 ^ 31 then i else 0)"

definition json_number_of_int :: "int \<Rightarrow> qjson" where
  "json_number_of_int i = JDouble (Some (of_int i))"

text \<open>The helper several sources repeat: the object has these members and no others.\<close>

definition hasExactKeys :: "json_object \<Rightarrow> string list \<Rightarrow> bool" where
  "hasExactKeys object keys =
     (fcard (fmdom object) = length (remdups keys)
      \<and> fBall (fmdom object) (\<lambda>k. k \<in> qstr ` set keys))"

lemma hasExactKeys_iff: "hasExactKeys object keys \<longleftrightarrow> fset (fmdom object) = qstr ` set keys"
proof
  have inj: "inj qstr" by (simp add: inj_def)
  have card: "card (qstr ` set keys) = length (remdups keys)"
    by (simp add: card_image inj_on_subset [OF inj] length_remdups_card_conv)
  show "fset (fmdom object) = qstr ` set keys \<Longrightarrow> hasExactKeys object keys"
    using card by (simp add: hasExactKeys_def fcard.rep_eq Ball_def)
  assume "hasExactKeys object keys"
  then have "fset (fmdom object) \<subseteq> qstr ` set keys"
    and "card (fset (fmdom object)) = card (qstr ` set keys)"
    using card by (auto simp: hasExactKeys_def fcard.rep_eq)
  then show "fset (fmdom object) = qstr ` set keys" by (intro card_subset_eq) auto
qed

lemma json_member_of [simp]: "json_member (json_object_of ms) k = map_of ms k"
  by (induction ms) (auto simp: json_member_def json_object_of_def)

lemma json_contains_of [simp]: "json_contains (json_object_of ms) k \<longleftrightarrow> k \<in> fst ` set ms"
  by (simp add: json_contains_def map_of_eq_None_iff del: not_None_eq)

lemma hasExactKeys_of [simp]:
  "hasExactKeys (json_object_of ms) keys \<longleftrightarrow> fst ` set ms = set keys"
proof -
  have "fset (fmdom (json_object_of ms)) = qstr ` fst ` set ms"
    by (auto simp: json_object_of_def fset_of_list.rep_eq image_iff)
  then show ?thesis by (simp add: hasExactKeys_iff inj_image_eq_iff inj_def)
qed

lemma object_eqI:
  assumes "hasExactKeys object keys" and "fst ` set ms = set keys"
    and "\<And>k. k \<in> set keys \<Longrightarrow> json_member object k = map_of ms k"
  shows "object = json_object_of ms"
proof (rule fmap_ext)
  fix k
  show "fmlookup object k = fmlookup (json_object_of ms) k"
  proof (cases "k \<in> qstr ` set keys")
    case True
    then obtain n where "k = qstr n" "n \<in> set keys" by blast
    with assms(3) [of n] show ?thesis
      using json_member_of [of ms n] by (simp add: json_member_def)
  next
    case False
    with assms(1) have "k |\<notin>| fmdom object" by (simp add: hasExactKeys_iff)
    moreover have "hasExactKeys (json_object_of ms) keys" using assms(2) by simp
    with False have "k |\<notin>| fmdom (json_object_of ms)" by (simp add: hasExactKeys_iff)
    ultimately show ?thesis by (simp add: fmdom_notD)
  qed
qed


fun isDouble :: "qjson option \<Rightarrow> bool" where
  "isDouble (Some (JDouble d)) = True"
| "isDouble _ = False"

fun isArray :: "qjson option \<Rightarrow> bool" where
  "isArray (Some (JArray vs)) = True"
| "isArray _ = False"

fun toArray :: "qjson option \<Rightarrow> qjson list" where
  "toArray (Some (JArray vs)) = vs"
| "toArray _ = []"

end
