(* ===== verification/FrameCodec.thy ===== *)
theory FrameCodec
  imports JsonGrammar Json
begin

text \<open>
  The frame codec of the host/worker channel (\<open>runtime/ipc/FrameCodec.{h,cpp}\<close>): a four-byte
  big-endian length and a JSON object, at most 1 MiB, decoded incrementally from chunks of any size.
  A refused frame is final: the codec drops its queue and answers every later chunk with that error.

  Qt's UTF-8 decoder, JSON parser and JSON writer are parameters (\<open>json_services\<close>); the strict
  scanner between them is \<open>strict_scan\<close> of \<open>JsonScan\<close>.  The specification is the relation
  \<open>decodes\<close>, which cuts a whole byte stream into frames; the incremental codec is proved to compute
  it, whatever the chunks.
\<close>

section \<open>The codec\<close>

record json_services =
  decodeUtf8 :: "bytes \<Rightarrow> qstring option"
  unicode_digit :: "qchar \<Rightarrow> bool"
  fromJson :: "qstring \<Rightarrow> qjson option"
  toCompactJson :: "json_object \<Rightarrow> bytes"

datatype frame_status = NeedMoreData | FramesReady | FeedFailed

datatype frame_error = NoFrameError | ZeroLength | PayloadTooLarge | QueueLimitExceeded
  | InvalidUtf8 | InvalidJson | RootNotObject | DuplicateMember | JsonResourceLimit

record frame_feed_result =
  feed_status :: frame_status
  feed_frames :: "json_object list"
  feed_error :: frame_error
  feed_errorCode :: string

record frame_codec =
  queued :: bytes
  codec_error :: frame_error
  codec_errorCode :: string

definition new_codec :: frame_codec where
  "new_codec = \<lparr>queued = [], codec_error = NoFrameError, codec_errorCode = ''''\<rparr>"

definition maximumPayloadBytes :: "32 word" where "maximumPayloadBytes = 1024 * 1024"
definition maximumFramesPerFeed :: nat where "maximumFramesPerFeed = 256"
definition maximumQueuedBytes :: nat where "maximumQueuedBytes = unat maximumPayloadBytes + 4"

definition decodeLength :: "bytes \<Rightarrow> 32 word" where
  "decodeLength bs =
     or (push_bit 24 (ucast (bs ! 0))) (or (push_bit 16 (ucast (bs ! 1)))
       (or (push_bit 8 (ucast (bs ! 2))) (ucast (bs ! 3))))"

definition encodeLength :: "32 word \<Rightarrow> bytes" where
  "encodeLength n =
     [ucast (and (drop_bit 24 n) 0xff), ucast (and (drop_bit 16 n) 0xff),
      ucast (and (drop_bit 8 n) 0xff), ucast (and n 0xff)]"

definition encode :: "json_services \<Rightarrow> json_object \<Rightarrow> bytes" where
  "encode svc object =
     (let payload = toCompactJson svc object in
      if payload = [] \<or> unat maximumPayloadBytes < length payload then []
      else encodeLength (word_of_nat (length payload)) @ payload)"

definition isFailed :: "frame_codec \<Rightarrow> bool" where
  "isFailed c \<longleftrightarrow> codec_error c \<noteq> NoFrameError"

definition queuedBytes :: "frame_codec \<Rightarrow> nat" where
  "queuedBytes c = length (queued c)"

definition fail :: "frame_codec \<Rightarrow> frame_error \<Rightarrow> string \<Rightarrow> frame_codec \<times> frame_feed_result" where
  "fail c e code =
     (c\<lparr>codec_error := e, codec_errorCode := code, queued := []\<rparr>,
      \<lparr>feed_status = FeedFailed, feed_frames = [], feed_error = e, feed_errorCode = code\<rparr>)"

definition decodePayload :: "json_services \<Rightarrow> bytes \<Rightarrow> (frame_error \<times> string) + json_object" where
  "decodePayload svc payload =
     (case decodeUtf8 svc payload of
        None \<Rightarrow> Inl (InvalidUtf8, ''ipc.frame.invalid_utf8'')
      | Some decoded \<Rightarrow>
          (case strict_scan (unicode_digit svc) decoded of
             ScanDuplicateMember \<Rightarrow> Inl (DuplicateMember, ''ipc.frame.duplicate_member'')
           | ScanResourceLimit \<Rightarrow> Inl (JsonResourceLimit, ''ipc.frame.json_resource_limit'')
           | ScanInvalid \<Rightarrow> Inl (InvalidJson, ''ipc.frame.invalid_json'')
           | ScanValid \<Rightarrow>
               (case fromJson svc decoded of
                  None \<Rightarrow> Inl (InvalidJson, ''ipc.frame.invalid_json'')
                | Some (JObject object) \<Rightarrow> Inr object
                | Some _ \<Rightarrow> Inl (RootNotObject, ''ipc.frame.root_not_object''))))"

text \<open>Fill the queue from the input up to \<open>n\<close> bytes: the codec never queues more than it needs.\<close>

definition fill_queue :: "nat \<Rightarrow> bytes \<Rightarrow> bytes \<Rightarrow> bytes \<times> bytes" where
  "fill_queue n q input =
     (if length q < n \<and> input \<noteq> [] then
        let appended = min (n - length q) (length input)
        in (q @ take appended input, drop appended input)
      else (q, input))"

lemma fill_queue_append: "fill_queue n q input = (q', input') \<Longrightarrow> q' @ input' = q @ input"
  by (auto simp: fill_queue_def Let_def split: if_splits)

lemma fill_queue_rest: "fill_queue n q input = (q', input') \<Longrightarrow> length q' < n \<Longrightarrow> input' = []"
  by (auto simp: fill_queue_def Let_def min_def split: if_splits)

function feed_loop :: "json_services \<Rightarrow> bytes \<Rightarrow> bytes \<Rightarrow> json_object list \<Rightarrow>
    (frame_error \<times> string) + bytes \<times> json_object list" where
  "feed_loop svc q input frames =
     (let (q1, input1) = fill_queue 4 q input in
      if length q1 < 4 then Inr (q1, frames)
      else let payloadSize = decodeLength q1 in
      if payloadSize = 0 then Inl (ZeroLength, ''ipc.frame.zero_length'')
      else if maximumPayloadBytes < payloadSize
        then Inl (PayloadTooLarge, ''ipc.frame.payload_too_large'')
      else let frameSize = 4 + unat payloadSize; (q2, input2) = fill_queue frameSize q1 input1 in
      if length q2 < frameSize then Inr (q2, frames)
      else if maximumFramesPerFeed \<le> length frames
        then Inl (QueueLimitExceeded, ''ipc.frame.queue_limit'')
      else (case decodePayload svc (take (unat payloadSize) (drop 4 q2)) of
          Inl e \<Rightarrow> Inl e
        | Inr object \<Rightarrow>
            if input2 = [] \<and> drop frameSize q2 = []
            then Inr (drop frameSize q2, frames @ [object])
            else feed_loop svc (drop frameSize q2) input2 (frames @ [object])))"
  by pat_completeness auto
termination
proof (relation "measure (\<lambda>(svc, q, input, frames). length q + length input)", goal_cases)
  case (2 svc q input frames x q1 input1 n fs y q2 input2 object)
  have "q2 @ input2 = q @ input"
    using fill_queue_append [OF 2(1) [symmetric, folded 2(2)]]
      fill_queue_append [OF 2(8) [symmetric, folded 2(9)]] by simp
  then have "length q2 + length input2 = length q + length input" by (metis length_append)
  moreover have "4 \<le> fs" "fs \<le> length q2" using 2(7,10) by simp_all
  ultimately show ?case by simp
qed simp

declare feed_loop.simps [simp del]

definition feed :: "json_services \<Rightarrow> frame_codec \<Rightarrow> bytes \<Rightarrow> frame_codec \<times> frame_feed_result" where
  "feed svc c bytes =
     (if isFailed c then
        (c, \<lparr>feed_status = FeedFailed, feed_frames = [], feed_error = codec_error c,
             feed_errorCode = codec_errorCode c\<rparr>)
      else (case feed_loop svc (queued c) bytes [] of
          Inl (e, code) \<Rightarrow> fail c e code
        | Inr (q, frames) \<Rightarrow>
            (c\<lparr>queued := q\<rparr>,
             \<lparr>feed_status = if frames = [] then NeedMoreData else FramesReady,
              feed_frames = frames, feed_error = NoFrameError, feed_errorCode = ''''\<rparr>)))"

section \<open>Length prefixes\<close>

lemma length_encodeLength [simp]: "length (encodeLength n) = 4"
  by (simp add: encodeLength_def)

lemma decode_encodeLength [simp]: "decodeLength (encodeLength n @ bs) = n"
proof (rule bit_word_eqI)
  fix k :: nat
  assume k: "k < LENGTH(32)"
  have ff: "and x 0xff = take_bit 8 x" for x :: "32 word"
    by (simp add: take_bit_eq_mask mask_eq_exp_minus_1)
  consider "k < 8" | "8 \<le> k" "k < 16" | "16 \<le> k" "k < 24" | "24 \<le> k" "k < 32"
    using k by fastforce
  then show "bit (decodeLength (encodeLength n @ bs)) k \<longleftrightarrow> bit n k"
    by cases (auto simp: decodeLength_def encodeLength_def ff bit_simps)
qed

lemma decodeLength_append: "4 \<le> length q \<Longrightarrow> decodeLength (q @ bs) = decodeLength q"
  by (cases q) (auto simp: decodeLength_def nth_append)

section \<open>The specification: cutting a stream into frames\<close>

datatype ('b, 'e, 'f) cut = Incomplete | Refused 'e | Cut 'f "'b list"

inductive decodes :: "('b list \<Rightarrow> ('b, 'e, 'f) cut) \<Rightarrow> 'b list \<Rightarrow> 'f list \<Rightarrow> 'e + 'b list \<Rightarrow> bool"
  for next_cut where
  incomplete: "next_cut buf = Incomplete \<Longrightarrow> decodes next_cut buf [] (Inr buf)"
| refused: "next_cut buf = Refused e \<Longrightarrow> decodes next_cut buf [] (Inl e)"
| cut: "next_cut buf = Cut f rest \<Longrightarrow> decodes next_cut rest fs r \<Longrightarrow> decodes next_cut buf (f # fs) r"

inductive_cases decodes_cases: "decodes next_cut buf fs r"

locale stream_framing =
  fixes next_cut :: "'b list \<Rightarrow> ('b, 'e, 'f) cut"
  assumes cut_extends: "next_cut buf = Cut f rest \<Longrightarrow> next_cut (buf @ tail) = Cut f (rest @ tail)"
    and refused_extends: "next_cut buf = Refused e \<Longrightarrow> next_cut (buf @ tail) = Refused e"
    and cut_shrinks: "next_cut buf = Cut f rest \<Longrightarrow> length rest < length buf"
begin

lemma decodes_total: "\<exists>fs r. decodes next_cut buf fs r"
proof (induction "length buf" arbitrary: buf rule: less_induct)
  case less
  show ?case
  proof (cases "next_cut buf")
    case (Cut f rest)
    with less cut_shrinks obtain fs r where "decodes next_cut rest fs r" by blast
    with Cut show ?thesis by (blast intro: decodes.intros)
  qed (blast intro: decodes.intros)+
qed

lemma decodes_unique:
  "decodes next_cut buf fs r \<Longrightarrow> decodes next_cut buf gs s \<Longrightarrow> gs = fs \<and> s = r"
proof (induction arbitrary: gs s rule: decodes.induct)
  case (cut buf f rest fs r)
  from cut.prems obtain gs' where "gs = f # gs'" "decodes next_cut rest gs' s"
    by cases (use cut.hyps(1) in simp_all)
  with cut.IH show ?case by blast
next
  case (incomplete buf)
  from incomplete.prems incomplete.hyps show ?case by cases auto
next
  case (refused buf e)
  from refused.prems refused.hyps show ?case by cases auto
qed

lemma decodes_append:
  "decodes next_cut a fs r \<Longrightarrow>
    (\<forall>rest. r = Inr rest \<longrightarrow> decodes next_cut (rest @ b) gs s \<longrightarrow> decodes next_cut (a @ b) (fs @ gs) s)
    \<and> (\<forall>e. r = Inl e \<longrightarrow> decodes next_cut (a @ b) fs (Inl e))"
proof (induction rule: decodes.induct)
  case (cut buf f rest fs r)
  from cut_extends [OF cut.hyps(1)] cut.IH show ?case by (auto intro: decodes.cut)
qed (auto intro: decodes.refused refused_extends)

lemmas decodes_append_rest = decodes_append [THEN conjunct1, rule_format, OF _ refl]
lemmas decodes_append_refused = decodes_append [THEN conjunct2, rule_format, OF _ refl]

end

text \<open>One frame of a byte stream, given everything that follows.\<close>

definition next_frame :: "json_services \<Rightarrow> bytes \<Rightarrow> (byte, frame_error \<times> string, json_object) cut" where
  "next_frame svc buf =
     (if length buf < 4 then Incomplete
      else let n = decodeLength buf in
      if n = 0 then Refused (ZeroLength, ''ipc.frame.zero_length'')
      else if maximumPayloadBytes < n then Refused (PayloadTooLarge, ''ipc.frame.payload_too_large'')
      else if length buf < 4 + unat n then Incomplete
      else (case decodePayload svc (take (unat n) (drop 4 buf)) of
          Inl e \<Rightarrow> Refused e
        | Inr object \<Rightarrow> Cut object (drop (4 + unat n) buf)))"

lemma next_frame_Cut:
  "next_frame svc buf = Cut f rest \<longleftrightarrow>
    4 \<le> length buf \<and> decodeLength buf \<noteq> 0 \<and> decodeLength buf \<le> maximumPayloadBytes
    \<and> 4 + unat (decodeLength buf) \<le> length buf
    \<and> decodePayload svc (take (unat (decodeLength buf)) (drop 4 buf)) = Inr f
    \<and> rest = drop (4 + unat (decodeLength buf)) buf"
  by (cases "decodePayload svc (take (unat (decodeLength buf)) (drop 4 buf))")
    (auto simp: next_frame_def Let_def not_le not_less)

lemma next_frame_Refused:
  "next_frame svc buf = Refused e \<longleftrightarrow>
    4 \<le> length buf \<and>
    (if decodeLength buf = 0 then e = (ZeroLength, ''ipc.frame.zero_length'')
     else if maximumPayloadBytes < decodeLength buf
     then e = (PayloadTooLarge, ''ipc.frame.payload_too_large'')
     else 4 + unat (decodeLength buf) \<le> length buf
       \<and> decodePayload svc (take (unat (decodeLength buf)) (drop 4 buf)) = Inl e)"
  by (cases "decodePayload svc (take (unat (decodeLength buf)) (drop 4 buf))")
    (auto simp: next_frame_def Let_def not_le not_less)

interpretation frames: stream_framing "next_frame svc" for svc
proof unfold_locales
  fix buf f rest tail
  assume "next_frame svc buf = Cut f rest"
  then show "next_frame svc (buf @ tail) = Cut f (rest @ tail)"
    unfolding next_frame_Cut by (elim conjE) (simp add: decodeLength_append)
next
  fix buf e tail
  assume "next_frame svc buf = Refused e"
  then show "next_frame svc (buf @ tail) = Refused e"
    unfolding next_frame_Refused by (elim conjE) (simp add: decodeLength_append split: if_splits)
next
  fix buf f rest
  assume "next_frame svc buf = Cut f rest"
  then show "length rest < length buf"
    unfolding next_frame_Cut by (elim conjE) simp
qed

section \<open>The incremental loop computes it\<close>

lemma feed_loop_next:
  fixes svc q input frames
  defines "buf \<equiv> q @ input"
  shows "next_frame svc buf = Incomplete \<Longrightarrow> feed_loop svc q input frames = Inr (buf, frames)"
    and "next_frame svc buf = Refused e \<Longrightarrow> length frames < 256 \<Longrightarrow>
      feed_loop svc q input frames = Inl e"
    and "next_frame svc buf = Refused e \<Longrightarrow> \<exists>e. feed_loop svc q input frames = Inl e"
    and "next_frame svc buf = Cut f rest \<Longrightarrow> 256 \<le> length frames \<Longrightarrow>
      feed_loop svc q input frames = Inl (QueueLimitExceeded, ''ipc.frame.queue_limit'')"
    and "next_frame svc buf = Cut f rest \<Longrightarrow> length frames < 256 \<Longrightarrow>
      \<exists>p i. p @ i = rest \<and> feed_loop svc q input frames =
        (if rest = [] then Inr ([], frames @ [f]) else feed_loop svc p i (frames @ [f]))"
proof -
  obtain q1 input1 where f1: "fill_queue 4 q input = (q1, input1)" by fastforce
  let ?n = "decodeLength q1"
  obtain q2 input2 where f2: "fill_queue (4 + unat ?n) q1 input1 = (q2, input2)" by fastforce
  have b1: "q1 @ input1 = buf" using fill_queue_append [OF f1] by (simp add: buf_def)
  have b2: "q2 @ input2 = buf" using fill_queue_append [OF f2] b1 by simp
  let ?fs = "4 + unat ?n"
  note loop = feed_loop.simps [of svc q] f1 f2 Let_def maximumFramesPerFeed_def
  consider "length q1 < 4" "q1 = buf" | "4 \<le> length q1" "length q2 < ?fs" "q2 = buf"
      "decodeLength buf = ?n" "4 \<le> length buf"
    | "4 \<le> length q1" "?fs \<le> length q2" "decodeLength buf = ?n" "?fs \<le> length buf"
      "take (unat ?n) (drop 4 buf) = take (unat ?n) (drop 4 q2)"
      "drop ?fs buf = drop ?fs q2 @ input2"
  proof (cases "length q1 < 4")
    case True
    with fill_queue_rest [OF f1] b1 that(1) show ?thesis by simp
  next
    case long1: False
    then have n: "decodeLength buf = ?n" and "4 \<le> length buf"
      using b1 decodeLength_append [of q1 input1] by auto
    show ?thesis
    proof (cases "length q2 < ?fs")
      case True
      with fill_queue_rest [OF f2] b2 long1 n \<open>4 \<le> length buf\<close> that(2) show ?thesis by simp
    next
      case False
      then have "?fs \<le> length buf" "take (unat ?n) (drop 4 buf) = take (unat ?n) (drop 4 q2)"
        "drop ?fs buf = drop ?fs q2 @ input2"
        by (simp_all flip: b2)
      with False long1 n that(3) show ?thesis by simp
    qed
  qed
  note cs = this
  show "next_frame svc buf = Incomplete \<Longrightarrow> feed_loop svc q input frames = Inr (buf, frames)"
    using cs by cases (auto simp: loop next_frame_def split: if_splits sum.splits)
  show "next_frame svc buf = Refused e \<Longrightarrow> length frames < 256 \<Longrightarrow>
      feed_loop svc q input frames = Inl e"
    using cs by cases (auto simp: loop next_frame_Refused split: if_splits sum.splits)
  show "next_frame svc buf = Refused e \<Longrightarrow> \<exists>e. feed_loop svc q input frames = Inl e"
    using cs by cases (auto simp: loop next_frame_Refused split: if_splits sum.splits)
  show "next_frame svc buf = Cut f rest \<Longrightarrow> 256 \<le> length frames \<Longrightarrow>
      feed_loop svc q input frames = Inl (QueueLimitExceeded, ''ipc.frame.queue_limit'')"
    using cs by cases (auto simp: loop next_frame_Cut)
  show "next_frame svc buf = Cut f rest \<Longrightarrow> length frames < 256 \<Longrightarrow>
      \<exists>p i. p @ i = rest \<and> feed_loop svc q input frames =
        (if rest = [] then Inr ([], frames @ [f]) else feed_loop svc p i (frames @ [f]))"
    using cs
    apply cases
      apply (simp add: next_frame_Cut)
     apply (simp add: next_frame_Cut)
    apply (rule exI [of _ "drop ?fs q2"], rule exI [of _ input2])
    apply (auto simp: loop next_frame_Cut)
    done
qed

lemma feed_loop_refused:
  "decodes (next_frame svc) buf fs r \<Longrightarrow> r = Inl e \<Longrightarrow> q @ input = buf \<Longrightarrow>
    \<exists>e'. feed_loop svc q input frames = Inl e'"
proof (induction arbitrary: q input frames rule: decodes.induct)
  case (refused buf e)
  then show ?case using feed_loop_next(3) by auto
next
  case (cut buf f rest fs r)
  note next_frame = cut.hyps(1) [folded cut.prems(2)]
  have "rest \<noteq> []" using cut.hyps(2) cut.prems(1) by cases (auto simp: next_frame_def)
  show ?case
  proof (cases "length frames < 256")
    case True
    from feed_loop_next(5) [OF next_frame True] \<open>rest \<noteq> []\<close> obtain p i where "p @ i = rest"
      and "feed_loop svc q input frames = feed_loop svc p i (frames @ [f])" by auto
    with cut.IH [OF cut.prems(1)] show ?thesis by simp
  next
    case False
    with feed_loop_next(4) [OF next_frame] show ?thesis by auto
  qed
qed simp

lemma next_frame_Nil [simp]: "next_frame svc [] = Incomplete"
  by (simp add: next_frame_def)

lemma feed_loop_decodes:
  "decodes (next_frame svc) buf fs r \<Longrightarrow> q @ input = buf \<Longrightarrow>
    (\<forall>rest. r = Inr rest \<longrightarrow> length frames + length fs \<le> 256 \<longrightarrow>
       feed_loop svc q input frames = Inr (rest, frames @ fs))
    \<and> (\<forall>e. r = Inl e \<longrightarrow> length frames + length fs < 256 \<longrightarrow> feed_loop svc q input frames = Inl e)
    \<and> (length frames \<le> 256 \<longrightarrow> 256 < length frames + length fs \<longrightarrow>
       feed_loop svc q input frames = Inl (QueueLimitExceeded, ''ipc.frame.queue_limit''))"
proof (induction arbitrary: q input frames rule: decodes.induct)
  case (incomplete buf)
  then show ?case by (auto simp: feed_loop_next(1))
next
  case (refused buf e)
  then show ?case using feed_loop_next(2) by auto
next
  case (cut buf f rest fs r)
  note next_frame = cut.hyps(1) [folded cut.prems]
  show ?case
  proof (cases "length frames < 256")
    case True
    with feed_loop_next(5) [OF next_frame] obtain p i where pi: "p @ i = rest"
      and loop: "feed_loop svc q input frames =
        (if rest = [] then Inr ([], frames @ [f]) else feed_loop svc p i (frames @ [f]))" by blast
    show ?thesis
    proof (cases "rest = []")
      case True
      with cut.hyps(2) have "fs = []" "r = Inr []" by (auto elim: decodes_cases)
      with True loop \<open>length frames < 256\<close> show ?thesis by simp
    next
      case False
      with loop cut.IH [OF pi, of "frames @ [f]"] \<open>length frames < 256\<close> show ?thesis by auto
    qed
  next
    case False
    with feed_loop_next(4) [OF next_frame] show ?thesis by auto
  qed
qed

section \<open>The codec's state\<close>

definition codec_wf :: "json_services \<Rightarrow> frame_codec \<Rightarrow> bool" where
  "codec_wf svc c \<longleftrightarrow>
     (if isFailed c then queued c = [] else next_frame svc (queued c) = Incomplete)"

lemma Incomplete_bound: "next_frame svc buf = Incomplete \<Longrightarrow> length buf < maximumQueuedBytes"
  by (auto simp: next_frame_def Let_def maximumQueuedBytes_def maximumPayloadBytes_def not_less
      word_le_nat_alt split: if_splits sum.splits)

lemma decodePayload_error: "decodePayload svc p = Inl (e, code) \<Longrightarrow> e \<noteq> NoFrameError"
  by (auto simp: decodePayload_def split: option.splits strict_scan_result.splits qjson.splits)

lemma next_frame_error: "next_frame svc buf = Refused (e, code) \<Longrightarrow> e \<noteq> NoFrameError"
  by (auto simp: next_frame_Refused dest: decodePayload_error split: if_splits)

lemma decodes_error:
  "decodes (next_frame svc) buf fs r \<Longrightarrow> r = Inl (e, code) \<Longrightarrow> e \<noteq> NoFrameError"
  by (induction rule: decodes.induct) (auto dest: next_frame_error)

lemma decodes_rest:
  "decodes (next_frame svc) buf fs r \<Longrightarrow> r = Inr rest \<Longrightarrow> next_frame svc rest = Incomplete"
  by (induction rule: decodes.induct) auto

lemma feed_failed:
  assumes "isFailed c"
  shows "feed svc c bytes = (c, \<lparr>feed_status = FeedFailed, feed_frames = [],
    feed_error = codec_error c, feed_errorCode = codec_errorCode c\<rparr>)"
  using assms by (simp add: feed_def)

lemma feed_decodes:
  assumes "\<not> isFailed c" and "decodes (next_frame svc) (queued c @ bytes) fs r" and "length fs < 256"
  shows "r = Inr rest \<Longrightarrow> feed svc c bytes = (c\<lparr>queued := rest\<rparr>,
      \<lparr>feed_status = if fs = [] then NeedMoreData else FramesReady, feed_frames = fs,
       feed_error = NoFrameError, feed_errorCode = ''''\<rparr>)"
    and "r = Inl (e, code) \<Longrightarrow> feed svc c bytes = fail c e code"
  using feed_loop_decodes [OF assms(2) refl, of "[]"] assms by (auto simp: feed_def)

lemma feed_wf:
  assumes "codec_wf svc c"
  shows "codec_wf svc (fst (feed svc c bytes))"
proof (cases "isFailed c")
  case True
  with assms show ?thesis by (simp add: feed_failed)
next
  case False
  obtain fs r where d: "decodes (next_frame svc) (queued c @ bytes) fs r"
    using frames.decodes_total by blast
  note loop = feed_loop_decodes [OF d refl, of "[]"]
  show ?thesis
  proof (cases "feed_loop svc (queued c) bytes []")
    case (Inl e)
    with False show ?thesis by (cases e) (auto simp: feed_def fail_def codec_wf_def isFailed_def)
  next
    case (Inr b)
    obtain q gs where b: "b = (q, gs)" by fastforce
    have "next_frame svc q = Incomplete"
    proof (cases r)
      case r: (Inr rest)
      with loop Inr b decodes_rest [OF d r] show ?thesis by (cases "length fs \<le> 256") auto
    next
      case r: (Inl e)
      with Inr feed_loop_refused [OF d r refl, of "[]"] show ?thesis by auto
    qed
    with False Inr b show ?thesis by (simp add: feed_def codec_wf_def isFailed_def)
  qed
qed

interpretation codec: machine_invariant "feed svc" "codec_wf svc" "\<lambda>_. True" for svc
  by unfold_locales (rule feed_wf)

lemma new_codec_wf: "codec_wf svc new_codec" "\<not> isFailed new_codec" "queued new_codec = []"
  by (simp_all add: codec_wf_def new_codec_def isFailed_def)

text \<open>
   Whatever chunks arrive, the codec never holds more than one incomplete frame: its queue stays
  below 1 MiB plus the four length bytes.
\<close>

theorem codec_queue_bounded:
  "queuedBytes (final_state (feed svc) new_codec chunks) < maximumQueuedBytes"
proof -
  have "codec_wf svc (final_state (feed svc) new_codec chunks)"
    by (rule codec.run_inv) (simp_all add: new_codec_wf list_all_iff)
  then show ?thesis
    by (auto simp: codec_wf_def queuedBytes_def maximumQueuedBytes_def
        dest: Incomplete_bound [unfolded maximumQueuedBytes_def] split: if_splits)
qed

section \<open>Chunks\<close>

definition stream_outcome :: "(frame_error \<times> string) + bytes \<Rightarrow> frame_codec" where
  "stream_outcome r =
     (case r of Inl (e, code) \<Rightarrow> \<lparr>queued = [], codec_error = e, codec_errorCode = code\<rparr>
      | Inr rest \<Rightarrow> \<lparr>queued = rest, codec_error = NoFrameError, codec_errorCode = ''''\<rparr>)"

definition frames_of_run :: "frame_feed_result list \<Rightarrow> json_object list" where
  "frames_of_run results = concat (map feed_frames results)"

lemma failed_run:
  assumes "isFailed c"
  shows "final_state (feed svc) c chunks = c"
    and "frames_of_run (snd (run_machine (feed svc) c chunks)) = []"
  using assms by (induction chunks) (simp_all add: frames_of_run_def feed_failed)

lemma chunks_decode:
  assumes "codec_wf svc c" and "\<not> isFailed c"
    and "decodes (next_frame svc) (queued c @ concat chunks) fs r" and "length fs < 256"
  shows "(\<forall>rest. r = Inr rest \<longrightarrow> final_state (feed svc) c chunks = c\<lparr>queued := rest\<rparr>
      \<and> frames_of_run (snd (run_machine (feed svc) c chunks)) = fs)
    \<and> (\<forall>e code. r = Inl (e, code) \<longrightarrow> final_state (feed svc) c chunks =
        c\<lparr>codec_error := e, codec_errorCode := code, queued := []\<rparr>
      \<and> (\<exists>gs. fs = frames_of_run (snd (run_machine (feed svc) c chunks)) @ gs))"
  using assms
proof (induction chunks arbitrary: c fs)
  case Nil
  from Nil.prems have "next_frame svc (queued c) = Incomplete" by (simp add: codec_wf_def)
  with Nil.prems(3) have "fs = [] \<and> r = Inr (queued c)"
    by (metis append_Nil2 concat.simps(1) decodes.incomplete frames.decodes_unique)
  then show ?case by (simp add: frames_of_run_def)
next
  case (Cons x chunks)
  obtain gs s where x: "decodes (next_frame svc) (queued c @ x) gs s"
    using frames.decodes_total by blast
  show ?case
  proof (cases s)
    case (Inl e)
    obtain e1 code where e: "e = (e1, code)" by fastforce
    from frames.decodes_append_refused [OF x [unfolded Inl], of "concat chunks"] Cons.prems(3)
    have "fs = gs" "r = Inl (e1, code)"
      using frames.decodes_unique e by (metis append.assoc concat.simps(2))+
    moreover from this have "feed svc c x = fail c e1 code"
      using feed_decodes(2) [OF Cons.prems(2) x _ Inl [unfolded e]] Cons.prems(4) by simp
    moreover have "isFailed (fst (fail c e1 code))"
      using decodes_error [OF x Inl [unfolded e]] by (simp add: fail_def isFailed_def)
    ultimately show ?thesis
      by (simp add: failed_run(1)) (simp add: frames_of_run_def fail_def
          failed_run(2) [unfolded frames_of_run_def])
  next
    case (Inr rest)
    obtain hs t where rest: "decodes (next_frame svc) (rest @ concat chunks) hs t"
      using frames.decodes_total by blast
    from frames.decodes_append_rest [OF x [unfolded Inr] rest] Cons.prems(3)
    have fs: "fs = gs @ hs" "r = t"
      using frames.decodes_unique by (metis append.assoc concat.simps(2))+
    then have first: "feed svc c x = (c\<lparr>queued := rest\<rparr>,
        \<lparr>feed_status = if gs = [] then NeedMoreData else FramesReady, feed_frames = gs,
         feed_error = NoFrameError, feed_errorCode = ''''\<rparr>)"
      using feed_decodes(1) [OF Cons.prems(2) x _ Inr] Cons.prems(4) by simp
    let ?c = "c\<lparr>queued := rest\<rparr>"
    have "codec_wf svc ?c"
      using feed_wf [OF Cons.prems(1), of x] first by simp
    moreover have "\<not> isFailed ?c" using Cons.prems(2) by (simp add: isFailed_def)
    moreover have "decodes (next_frame svc) (queued ?c @ concat chunks) hs r" using rest fs by simp
    moreover have "length hs < 256" using fs Cons.prems(4) by simp
    ultimately show ?thesis
      using Cons.IH [of ?c hs] first fs by (auto simp: frames_of_run_def)
  qed
qed


definition sample_services :: json_services where
  "sample_services =
     \<lparr>decodeUtf8 = \<lambda>bs. if list_all (\<lambda>b. b < 0x80) bs then Some (map ucast bs) else None,
      unicode_digit = \<lambda>_. False,
      fromJson = \<lambda>s. if s = qstr ''{}'' then Some (JObject fmempty) else None,
      toCompactJson = \<lambda>object. map of_char ''{}''\<rparr>"

lemma sample_frame:
  "next_frame sample_services [0, 0, 0, 2, 0x7B, 0x7D] = Cut fmempty []"
  by (simp add: next_frame_def decodeLength_def maximumPayloadBytes_def decodePayload_def
      sample_services_def strict_scan_def parseValue.simps parseObject.simps skipWhitespace_def
      whitespace_def maximumJsonNesting_def qstr_def)

lemma sample_stream:
  "decodes (next_frame sample_services) [0, 0, 0, 2, 0x7B, 0x7D] [fmempty] (Inr [])"
  using sample_frame by (rule decodes.cut) (simp add: decodes.incomplete)


section \<open>What is accepted\<close>

lemma decodePayload_iff:
  "decodePayload svc p = Inr object \<longleftrightarrow>
    (\<exists>t. decodeUtf8 svc p = Some t \<and> strict_json t \<and> fromJson svc t = Some (JObject object))"
  by (auto simp: decodePayload_def strict_scan_iff [of "unicode_digit svc", symmetric]
      split: option.splits strict_scan_result.splits qjson.splits)

lemma length_word: "n \<le> unat maximumPayloadBytes \<Longrightarrow> unat (word_of_nat n :: 32 word) = n"
  by (simp add: maximumPayloadBytes_def unsigned_of_nat take_bit_nat_eq_self)

lemma next_frame_framed:
  assumes "p \<noteq> []" and "length p \<le> unat maximumPayloadBytes"
  shows "next_frame svc (encodeLength (word_of_nat (length p)) @ p @ rest) =
    (case decodePayload svc p of Inl e \<Rightarrow> Refused e | Inr object \<Rightarrow> Cut object rest)"
proof -
  have n: "unat (word_of_nat (length p) :: 32 word) = length p" by (rule length_word [OF assms(2)])
  with assms have "(word_of_nat (length p) :: 32 word) \<noteq> 0"
    and "\<not> maximumPayloadBytes < (word_of_nat (length p) :: 32 word)"
    by (auto simp: word_less_nat_alt unat_eq_0 [symmetric])
  with n show ?thesis by (simp add: next_frame_def Let_def split: sum.split)
qed

text \<open>
   A complete frame is handed out exactly when its payload is UTF-8, its text is strict JSON
  and Qt's parser reads an object from it; the frame is then that object.
\<close>

theorem frame_accepted_iff:
  assumes "p \<noteq> []" and "length p \<le> unat maximumPayloadBytes"
  shows "feed_frames (snd (feed svc new_codec (encodeLength (word_of_nat (length p)) @ p))) = [object]
    \<longleftrightarrow> (\<exists>t. decodeUtf8 svc p = Some t \<and> strict_json t \<and> fromJson svc t = Some (JObject object))"
proof (cases "decodePayload svc p")
  case (Inl e)
  with next_frame_framed [OF assms, of svc "[]"] have "decodes (next_frame svc)
      (queued new_codec @ encodeLength (word_of_nat (length p)) @ p) [] (Inl e)"
    by (simp add: new_codec_wf decodes.refused)
  from feed_decodes(2) [OF new_codec_wf(2) this] Inl show ?thesis
    by (cases e) (simp add: fail_def decodePayload_iff [symmetric])
next
  case (Inr x)
  with next_frame_framed [OF assms, of svc "[]"] have "decodes (next_frame svc)
      (queued new_codec @ encodeLength (word_of_nat (length p)) @ p) [x] (Inr [])"
    by (simp add: new_codec_wf decodes.cut decodes.incomplete)
  from feed_decodes(1) [OF new_codec_wf(2) this] Inr show ?thesis
    by (auto simp: decodePayload_iff [symmetric])
qed

theorem frame_accepted_iff_witness:
  "feed_frames (snd (feed sample_services new_codec
      (encodeLength (word_of_nat (length [0x7B, 0x7D :: byte])) @ [0x7B, 0x7D]))) = [fmempty]
    \<longleftrightarrow> (\<exists>t. decodeUtf8 sample_services [0x7B, 0x7D] = Some t \<and> strict_json t
      \<and> fromJson sample_services t = Some (JObject fmempty))"
  by (rule frame_accepted_iff) (simp_all add: maximumPayloadBytes_def)

text \<open>Qt's contract for one object: the compact text it writes is UTF-8 and reads back.\<close>

definition writes_back :: "json_services \<Rightarrow> json_object \<Rightarrow> bool" where
  "writes_back svc object \<longleftrightarrow>
     (\<exists>t. decodeUtf8 svc (toCompactJson svc object) = Some t \<and> fromJson svc t = Some (JObject object)
        \<and> strict_json t)"

definition frame_sized :: "json_services \<Rightarrow> json_object \<Rightarrow> bool" where
  "frame_sized svc object \<longleftrightarrow> toCompactJson svc object \<noteq> []
     \<and> length (toCompactJson svc object) \<le> unat maximumPayloadBytes"

lemma next_frame_encode:
  assumes "writes_back svc object" and "frame_sized svc object"
  shows "next_frame svc (encode svc object @ rest) = Cut object rest"
proof -
  have "decodePayload svc (toCompactJson svc object) = Inr object"
    using assms(1) by (auto simp: writes_back_def decodePayload_iff)
  with assms(2) show ?thesis
    by (simp add: encode_def Let_def frame_sized_def not_less next_frame_framed)
qed

lemma decodes_encoded:
  assumes "list_all (writes_back svc) objects" and "list_all (frame_sized svc) objects"
  shows "decodes (next_frame svc) (concat (map (encode svc) objects)) objects (Inr [])"
  using assms by (induction objects)
    (auto intro: decodes.incomplete decodes.cut simp: next_frame_encode)


lemma sample_writes_back: "writes_back sample_services fmempty" "frame_sized sample_services fmempty"
proof -
  have "decodePayload sample_services (toCompactJson sample_services fmempty) = Inr fmempty"
    by (simp add: decodePayload_def sample_services_def strict_scan_def parseValue.simps
        parseObject.simps skipWhitespace_def whitespace_def maximumJsonNesting_def qstr_def)
  then show "writes_back sample_services fmempty" by (auto simp: writes_back_def decodePayload_iff)
  show "frame_sized sample_services fmempty"
    by (simp add: frame_sized_def sample_services_def maximumPayloadBytes_def)
qed


end
