(* ===== verification/ProtocolMessage.thy ===== *)
theory ProtocolMessage
  imports Json
begin

text \<open>
  The messages of the host/worker protocol (\<open>runtime/ipc/ProtocolMessage.{h,cpp}\<close>): the envelope, the
  payload each type allows, the parser and the message factories.  Parsing is strict: a message has
  exactly the members of its type, and what is parsed is proved to be what \<open>toJson\<close> writes.

  Qt's character categories and its number parser are parameters (\<open>text_services\<close>).
\<close>

section \<open>Messages\<close>

record text_services =
  other_control :: "qchar \<Rightarrow> bool"
  toULongLong :: "qstring \<Rightarrow> nat option"

datatype protocol_type = Handshake | HandshakeAck | SurfaceReady | RouteLoad | NavigationRequest
  | PageMetadata | Ready | Request | Response | Heartbeat | VisibilityChanged | StructuredLog
  | Shutdown

datatype protocol_error = NoProtocolError | InvalidEnvelope | UnsupportedVersion | UnknownType
  | InvalidRequestId | UnexpectedRequestId | InvalidPayload

record protocol_message =
  message_type :: protocol_type
  message_requestId :: qstring
  message_payload :: json_object

definition currentVersion :: int where "currentVersion = 1"

definition maximumTokenCharacters :: nat where "maximumTokenCharacters = 256"
definition maximumPageTitleCodeUnits :: nat where "maximumPageTitleCodeUnits = 256"
definition maximumPageStatusBytes :: nat where "maximumPageStatusBytes = 32"

definition isBidiControl :: "qchar \<Rightarrow> bool" where
  "isBidiControl c \<longleftrightarrow> c = 0x061C \<or> (0x200E \<le> c \<and> c \<le> 0x200F) \<or> (0x202A \<le> c \<and> c \<le> 0x202E)
     \<or> (0x2066 \<le> c \<and> c \<le> 0x206F)"

fun typeName :: "protocol_type \<Rightarrow> qstring" where
  "typeName Handshake = qstr ''handshake''"
| "typeName HandshakeAck = qstr ''handshakeAck''"
| "typeName SurfaceReady = qstr ''surfaceReady''"
| "typeName RouteLoad = qstr ''routeLoad''"
| "typeName NavigationRequest = qstr ''navigationRequest''"
| "typeName PageMetadata = qstr ''pageMetadata''"
| "typeName Ready = qstr ''ready''"
| "typeName Request = qstr ''request''"
| "typeName Response = qstr ''response''"
| "typeName Heartbeat = qstr ''heartbeat''"
| "typeName VisibilityChanged = qstr ''visibilityChanged''"
| "typeName StructuredLog = qstr ''structuredLog''"
| "typeName Shutdown = qstr ''shutdown''"

definition parseType :: "qstring \<Rightarrow> protocol_type option" where
  "parseType name = find (\<lambda>t. name = typeName t)
     [Handshake, HandshakeAck, SurfaceReady, RouteLoad, NavigationRequest, PageMetadata, Ready,
      Request, Response, Heartbeat, VisibilityChanged, StructuredLog, Shutdown]"

section \<open>Payloads\<close>

definition token_char :: "qchar \<Rightarrow> bool" where
  "token_char c \<longleftrightarrow> \<not> (c < 0x21 \<or> 0x7E < c)"

definition validToken :: "qjson option \<Rightarrow> bool" where
  "validToken v \<longleftrightarrow> isString v \<and> toString v \<noteq> [] \<and> length (toString v) \<le> maximumTokenCharacters
     \<and> list_all token_char (toString v)"

definition validText :: "text_services \<Rightarrow> qjson option \<Rightarrow> nat \<Rightarrow> bool" where
  "validText svc v maximumCharacters \<longleftrightarrow> isString v \<and> toString v \<noteq> []
     \<and> length (toString v) \<le> maximumCharacters
     \<and> list_all (\<lambda>c. c \<noteq> 0 \<and> \<not> other_control svc c) (toString v)"

fun titleCharacters :: "text_services \<Rightarrow> qstring \<Rightarrow> bool" where
  "titleCharacters svc [] = True"
| "titleCharacters svc (c # cs) =
     (if isHighSurrogate c then
        (case cs of [] \<Rightarrow> False | d # ds \<Rightarrow> isLowSurrogate d \<and> titleCharacters svc ds)
      else if isLowSurrogate c \<or> other_control svc c \<or> isBidiControl c \<or> c = qchar_of CHR ''<''
          \<or> c = qchar_of CHR ''>''
        then False
      else titleCharacters svc cs)"

definition validPageTitle :: "text_services \<Rightarrow> qjson option \<Rightarrow> bool" where
  "validPageTitle svc v \<longleftrightarrow> isString v \<and> toString v \<noteq> []
     \<and> length (toString v) \<le> maximumPageTitleCodeUnits \<and> titleCharacters svc (toString v)"

definition validPageStatus :: "qjson option \<Rightarrow> bool" where
  "validPageStatus v \<longleftrightarrow> isString v \<and> toString v \<noteq> []
     \<and> length (toString v) \<le> maximumPageStatusBytes \<and> list_all (\<lambda>c. \<not> 0x7F < c) (toString v)
     \<and> (toString v = qstr ''loading'' \<or> toString v = qstr ''ready'')"

definition validWindowHandle :: "text_services \<Rightarrow> qstring \<Rightarrow> bool" where
  "validWindowHandle svc handle \<longleftrightarrow>
     (case toULongLong svc handle of None \<Rightarrow> False | Some n \<Rightarrow> n \<noteq> 0 \<and> decimal n = handle)"

definition validRoute :: "text_services \<Rightarrow> qjson option \<Rightarrow> bool" where
  "validRoute svc route \<longleftrightarrow> validText svc route 2048
     \<and> take 1 (toString route) = qstr ''/'' \<and> take 2 (toString route) \<noteq> qstr ''//''
     \<and> qchar_of CHR ''#'' \<notin> set (toString route)"

fun validPayload :: "text_services \<Rightarrow> protocol_type \<Rightarrow> json_object \<Rightarrow> bool" where
  "validPayload svc Handshake p =
     (hasExactKeys p [''nonce''] \<and> validToken (json_member p ''nonce''))"
| "validPayload svc HandshakeAck p =
     (hasExactKeys p [''nonce'', ''appIdentity''] \<and> validToken (json_member p ''nonce'')
      \<and> validToken (json_member p ''appIdentity''))"
| "validPayload svc SurfaceReady p =
     (hasExactKeys p [''windowHandle'']
      \<and> validWindowHandle svc (toString (json_member p ''windowHandle'')))"
| "validPayload svc Ready p = (fcard (fmdom p) = 0)"
| "validPayload svc Heartbeat p = (fcard (fmdom p) = 0)"
| "validPayload svc VisibilityChanged p =
     (hasExactKeys p [''active''] \<and> isBool (json_member p ''active''))"
| "validPayload svc RouteLoad p =
     (hasExactKeys p [''route''] \<and> validRoute svc (json_member p ''route''))"
| "validPayload svc NavigationRequest p =
     (hasExactKeys p [''route''] \<and> validRoute svc (json_member p ''route''))"
| "validPayload svc PageMetadata p =
     (let titleOnly = hasExactKeys p [''title''];
          withStatus = hasExactKeys p [''title'', ''status'']
      in (titleOnly \<or> withStatus) \<and> validPageTitle svc (json_member p ''title'')
        \<and> (\<not> withStatus \<or> validPageStatus (json_member p ''status'')))"
| "validPayload svc Request p =
     (hasExactKeys p [''capability'', ''operation'', ''payload'']
      \<and> validToken (json_member p ''capability'') \<and> validToken (json_member p ''operation'')
      \<and> isObject (json_member p ''payload''))"
| "validPayload svc Response p =
     (if \<not> isBool (json_member p ''ok'') then False
      else if toBool (json_member p ''ok'') then
        hasExactKeys p [''ok'', ''result''] \<and> isObject (json_member p ''result'')
      else if \<not> hasExactKeys p [''ok'', ''error''] then False
      else if \<not> isObject (json_member p ''error'') then False
      else let e = toObject (json_member p ''error'') in
        hasExactKeys e [''code'', ''message''] \<and> validToken (json_member e ''code'')
        \<and> isString (json_member e ''message'')
        \<and> length (toString (json_member e ''message'')) \<le> maximumTokenCharacters)"
| "validPayload svc Shutdown p =
     (hasExactKeys p [''reason''] \<and> validToken (json_member p ''reason''))"
| "validPayload svc StructuredLog p =
     (if \<not> hasExactKeys p [''level'', ''category'', ''message''] then False
      else let level = toString (json_member p ''level'') in
        (level = qstr ''debug'' \<or> level = qstr ''info'' \<or> level = qstr ''warning''
          \<or> level = qstr ''error'')
        \<and> validToken (json_member p ''category'')
        \<and> validText svc (json_member p ''message'') 4096)"

section \<open>The parser and the factories\<close>

definition needsRequestId :: "protocol_type \<Rightarrow> bool" where
  "needsRequestId t \<longleftrightarrow> t = Request \<or> t = Response \<or> t = RouteLoad \<or> t = NavigationRequest"

definition envelopeKeys :: "protocol_type \<Rightarrow> string list" where
  "envelopeKeys t =
     (if needsRequestId t then [''protocolVersion'', ''type'', ''requestId'', ''payload'']
      else [''protocolVersion'', ''type'', ''payload''])"

definition parsePayload ::
  "text_services \<Rightarrow> protocol_type \<Rightarrow> qstring \<Rightarrow> json_object \<Rightarrow>
    (protocol_error \<times> string) + protocol_message" where
  "parsePayload svc t requestId object =
     (let payloadValue = json_member object ''payload'' in
      if \<not> isObject payloadValue \<or> \<not> validPayload svc t (toObject payloadValue)
        then Inl (InvalidPayload, ''ipc.protocol.invalid_payload'')
      else Inr \<lparr>message_type = t, message_requestId = requestId,
                message_payload = toObject payloadValue\<rparr>)"

definition parseEnvelope ::
  "text_services \<Rightarrow> protocol_type \<Rightarrow> json_object \<Rightarrow>
    (protocol_error \<times> string) + protocol_message" where
  "parseEnvelope svc t object =
     (if needsRequestId t \<and> \<not> json_contains object ''requestId''
        then Inl (InvalidRequestId, ''ipc.protocol.invalid_request_id'')
      else if \<not> hasExactKeys object (envelopeKeys t) then
        (if \<not> needsRequestId t \<and> json_contains object ''requestId''
         then Inl (UnexpectedRequestId, ''ipc.protocol.unexpected_request_id'')
         else Inl (InvalidEnvelope, ''ipc.protocol.invalid_envelope''))
      else if needsRequestId t then
        (if \<not> validToken (json_member object ''requestId'')
         then Inl (InvalidRequestId, ''ipc.protocol.invalid_request_id'')
         else parsePayload svc t (toString (json_member object ''requestId'')) object)
      else parsePayload svc t [] object)"

definition parse ::
  "text_services \<Rightarrow> json_object \<Rightarrow> (protocol_error \<times> string) + protocol_message" where
  "parse svc object =
     (if json_int_value (json_member object ''protocolVersion'') = None
        then Inl (InvalidEnvelope, ''ipc.protocol.invalid_envelope'')
      else if toInt (json_member object ''protocolVersion'') \<noteq> currentVersion
        then Inl (UnsupportedVersion, ''ipc.protocol.unsupported_version'')
      else if \<not> isString (json_member object ''type'')
        then Inl (InvalidEnvelope, ''ipc.protocol.invalid_envelope'')
      else (case parseType (toString (json_member object ''type'')) of
          None \<Rightarrow> Inl (UnknownType, ''ipc.protocol.unknown_type'')
        | Some t \<Rightarrow> parseEnvelope svc t object))"

definition toJson :: "protocol_message \<Rightarrow> json_object" where
  "toJson m =
     (let object = json_object_of
        [(''protocolVersion'', json_number_of_int currentVersion),
         (''type'', JString (typeName (message_type m))),
         (''payload'', JObject (message_payload m))]
      in if message_requestId m \<noteq> []
         then fmupd (qstr ''requestId'') (JString (message_requestId m)) object else object)"

definition validated ::
  "text_services \<Rightarrow> protocol_type \<Rightarrow> qstring \<Rightarrow> json_object \<Rightarrow> protocol_message option" where
  "validated svc t requestId payload =
     (case parse svc (toJson \<lparr>message_type = t, message_requestId = requestId,
                             message_payload = payload\<rparr>) of
        Inl e \<Rightarrow> None | Inr m \<Rightarrow> Some m)"

definition handshake_message :: "text_services \<Rightarrow> qstring \<Rightarrow> protocol_message option" where
  "handshake_message svc nonce =
     validated svc Handshake [] (json_object_of [(''nonce'', JString nonce)])"

definition handshakeAck_message ::
  "text_services \<Rightarrow> qstring \<Rightarrow> qstring \<Rightarrow> protocol_message option" where
  "handshakeAck_message svc nonce appIdentity =
     validated svc HandshakeAck []
       (json_object_of [(''nonce'', JString nonce), (''appIdentity'', JString appIdentity)])"

definition surfaceReady_message :: "text_services \<Rightarrow> qstring \<Rightarrow> protocol_message option" where
  "surfaceReady_message svc windowHandle =
     validated svc SurfaceReady [] (json_object_of [(''windowHandle'', JString windowHandle)])"

definition routeLoad_message ::
  "text_services \<Rightarrow> qstring \<Rightarrow> qstring \<Rightarrow> protocol_message option" where
  "routeLoad_message svc requestId route =
     validated svc RouteLoad requestId (json_object_of [(''route'', JString route)])"

definition navigationRequest_message ::
  "text_services \<Rightarrow> qstring \<Rightarrow> qstring \<Rightarrow> protocol_message option" where
  "navigationRequest_message svc requestId route =
     validated svc NavigationRequest requestId (json_object_of [(''route'', JString route)])"

definition pageMetadata_message ::
  "text_services \<Rightarrow> qstring \<Rightarrow> qstring \<Rightarrow> protocol_message option" where
  "pageMetadata_message svc title status =
     validated svc PageMetadata []
       (let payload = json_object_of [(''title'', JString title)]
        in if status \<noteq> [] then fmupd (qstr ''status'') (JString status) payload else payload)"

definition ready_message :: protocol_message where
  "ready_message = \<lparr>message_type = Ready, message_requestId = [], message_payload = fmempty\<rparr>"

definition request_message ::
  "text_services \<Rightarrow> qstring \<Rightarrow> qstring \<Rightarrow> qstring \<Rightarrow> json_object \<Rightarrow> protocol_message option" where
  "request_message svc requestId capability operation payload =
     validated svc Request requestId
       (json_object_of [(''capability'', JString capability), (''operation'', JString operation),
                        (''payload'', JObject payload)])"

definition successResponse_message ::
  "text_services \<Rightarrow> qstring \<Rightarrow> json_object \<Rightarrow> protocol_message option" where
  "successResponse_message svc requestId result =
     validated svc Response requestId
       (json_object_of [(''ok'', JBool True), (''result'', JObject result)])"

definition errorResponse_message ::
  "text_services \<Rightarrow> qstring \<Rightarrow> qstring \<Rightarrow> qstring \<Rightarrow> protocol_message option" where
  "errorResponse_message svc requestId code text =
     validated svc Response requestId
       (json_object_of [(''ok'', JBool False),
         (''error'', JObject (json_object_of [(''code'', JString code), (''message'', JString text)]))])"

definition heartbeat_message :: protocol_message where
  "heartbeat_message = \<lparr>message_type = Heartbeat, message_requestId = [], message_payload = fmempty\<rparr>"

definition visibilityChanged_message :: "text_services \<Rightarrow> bool \<Rightarrow> protocol_message option" where
  "visibilityChanged_message svc active =
     validated svc VisibilityChanged [] (json_object_of [(''active'', JBool active)])"

definition structuredLog_message ::
  "text_services \<Rightarrow> qstring \<Rightarrow> qstring \<Rightarrow> qstring \<Rightarrow> protocol_message option" where
  "structuredLog_message svc level category text =
     validated svc StructuredLog []
       (json_object_of [(''level'', JString level), (''category'', JString category),
                        (''message'', JString text)])"

definition shutdown_message :: "text_services \<Rightarrow> qstring \<Rightarrow> protocol_message option" where
  "shutdown_message svc reason =
     validated svc Shutdown [] (json_object_of [(''reason'', JString reason)])"

section \<open>Parsing and writing\<close>

lemma fmupd_object_of [simp]:
  "fmupd (qstr k) v (json_object_of ms) = json_object_of ((k, v) # ms)"
  by (simp add: json_object_of_def)

definition envelope_members :: "protocol_message \<Rightarrow> (string \<times> qjson) list" where
  "envelope_members m =
     (if message_requestId m \<noteq> [] then [(''requestId'', JString (message_requestId m))] else [])
     @ [(''protocolVersion'', json_number_of_int 1), (''type'', JString (typeName (message_type m))),
        (''payload'', JObject (message_payload m))]"

lemma toJson_members: "toJson m = json_object_of (envelope_members m)"
  by (simp add: toJson_def envelope_members_def currentVersion_def Let_def)

lemma parseType_typeName [simp]: "parseType (typeName t) = Some t"
  by (cases t) (simp_all add: parseType_def)

lemma parseType_Some: "parseType n = Some t \<Longrightarrow> n = typeName t"
  by (auto simp: parseType_def split: if_splits)

lemma isString_iff: "isString v \<longleftrightarrow> (\<exists>s. v = Some (JString s))"
  by (cases v rule: isString.cases) auto

lemma isObject_iff: "isObject v \<longleftrightarrow> (\<exists>m. v = Some (JObject m))"
  by (cases v rule: isObject.cases) auto

lemma isBool_iff: "isBool v \<longleftrightarrow> (\<exists>b. v = Some (JBool b))"
  by (cases v rule: isBool.cases) auto

lemma json_int_value_number [simp]: "json_int_value (Some (json_number_of_int i)) = Some i"
  by (simp add: json_int_value_def json_number_of_int_def)

lemma json_int_value_Some: "json_int_value v = Some i \<Longrightarrow> v = Some (json_number_of_int i)"
  by (auto simp: json_int_value_def json_number_of_int_def split: option.splits qjson.splits if_splits)

lemma toInt_one: "json_int_value v = Some i \<Longrightarrow> toInt v = 1 \<longleftrightarrow> i = 1"
  by (auto simp: toInt_def)

definition well_formed_message :: "text_services \<Rightarrow> protocol_message \<Rightarrow> bool" where
  "well_formed_message svc m \<longleftrightarrow>
     (if needsRequestId (message_type m) then validToken (Some (JString (message_requestId m)))
      else message_requestId m = [])
     \<and> validPayload svc (message_type m) (message_payload m)"

lemma validToken_string: "validToken v \<Longrightarrow> \<exists>s. v = Some (JString s) \<and> s \<noteq> []"
  by (cases v rule: isString.cases) (simp_all add: validToken_def)

lemma validToken_nonempty: "validToken (Some (JString s)) \<Longrightarrow> s \<noteq> []"
  by (simp add: validToken_def)

lemma parsePayload_Inr:
  "parsePayload svc t rid object = Inr m \<longleftrightarrow>
    json_member object ''payload'' = Some (JObject (message_payload m))
    \<and> validPayload svc t (message_payload m) \<and> message_type m = t \<and> message_requestId m = rid"
  by (cases m) (auto simp: parsePayload_def Let_def isObject_iff)

lemma parse_toJson:
  assumes "well_formed_message svc m"
  shows "parse svc (toJson m) = Inr m"
proof -
  have "hasExactKeys (toJson m) (envelopeKeys (message_type m))"
    using assms validToken_nonempty [of "message_requestId m"]
    by (cases "needsRequestId (message_type m)")
      (auto simp: toJson_members envelope_members_def envelopeKeys_def well_formed_message_def)
  moreover have "parsePayload svc (message_type m) (message_requestId m) (toJson m) = Inr m"
    using assms unfolding parsePayload_Inr
    by (simp add: toJson_members envelope_members_def well_formed_message_def)
  ultimately show ?thesis
    using assms validToken_nonempty [of "message_requestId m"]
    by (cases "needsRequestId (message_type m)")
      (simp_all add: parse_def parseEnvelope_def toJson_members envelope_members_def
        well_formed_message_def toInt_one currentVersion_def envelopeKeys_def insert_commute)
qed

lemma parse_sound:
  assumes "parse svc object = Inr m"
  shows "object = toJson m \<and> well_formed_message svc m"
proof -
  obtain i where i: "json_int_value (json_member object ''protocolVersion'') = Some i"
    using assms by (cases "json_int_value (json_member object ''protocolVersion'')")
      (auto simp: parse_def)
  with assms have "i = 1" by (auto simp: parse_def currentVersion_def toInt_one split: if_splits)
  with i have version: "json_member object ''protocolVersion'' = Some (json_number_of_int 1)"
    by (auto dest: json_int_value_Some)
  from assms obtain t where t: "json_member object ''type'' = Some (JString (typeName t))"
    and env: "parseEnvelope svc t object = Inr m"
    by (auto simp: parse_def isString_iff split: if_splits option.splits dest!: parseType_Some)
  have keys: "hasExactKeys object (envelopeKeys t)"
    using env by (auto simp: parseEnvelope_def split: if_splits)
  obtain rid where payload: "parsePayload svc t rid object = Inr m"
    and rid: "if needsRequestId t then validToken (Some (JString rid))
        \<and> json_member object ''requestId'' = Some (JString rid) else rid = []"
  proof (cases "needsRequestId t")
    case True
    with env have valid: "validToken (json_member object ''requestId'')"
      and "parsePayload svc t (toString (json_member object ''requestId'')) object = Inr m"
      by (simp_all add: parseEnvelope_def split: if_splits)
    moreover obtain s where "json_member object ''requestId'' = Some (JString s)"
      using validToken_string [OF valid] by blast
    ultimately show thesis using True that [of s] by simp
  next
    case False
    with env that [of "[]"] show thesis by (simp add: parseEnvelope_def split: if_splits)
  qed
  have m: "message_type m = t" "message_requestId m = rid"
    and p: "json_member object ''payload'' = Some (JObject (message_payload m))"
    and valid: "validPayload svc t (message_payload m)"
    using payload by (simp_all add: parsePayload_Inr)
  have rid_nil: "rid = [] \<longleftrightarrow> \<not> needsRequestId t"
    using rid validToken_nonempty by (auto split: if_splits)
  have "object = json_object_of (envelope_members m)"
  proof (rule object_eqI [OF keys])
    show "fst ` set (envelope_members m) = set (envelopeKeys t)"
      using m rid_nil by (auto simp: envelope_members_def envelopeKeys_def)
    show "json_member object k = map_of (envelope_members m) k" if "k \<in> set (envelopeKeys t)" for k
      using that version t p m rid rid_nil
      by (auto simp: envelope_members_def envelopeKeys_def split: if_splits)
  qed
  moreover have "well_formed_message svc m"
    using rid m valid by (auto simp: well_formed_message_def split: if_splits)
  ultimately show ?thesis by (simp add: toJson_members)
qed

text \<open>
  C8.  The parser accepts a JSON object exactly when it is what \<open>toJson\<close> writes for a well-formed
  message (a request id exactly for the types that need one, a payload valid for the type), and then
  returns that message: parsing and writing are inverse, and no envelope has a second spelling.
\<close>

theorem parse_iff:
  "parse svc object = Inr m \<longleftrightarrow> object = toJson m \<and> well_formed_message svc m"
  using parse_sound parse_toJson by blast

lemma typeName_inject: "typeName t = typeName u \<Longrightarrow> t = u"
  by (metis option.inject parseType_typeName)

lemma toJson_inject: "toJson m = toJson n \<longleftrightarrow> m = n"
proof
  assume eq: "toJson m = toJson n"
  have k: "map_of (envelope_members m) k = map_of (envelope_members n) k" for k
    using arg_cong [OF eq, of "\<lambda>object. json_member object k"] by (simp add: toJson_members)
  from k [of "''type''"] have "message_type m = message_type n"
    by (auto simp: envelope_members_def split: if_splits dest: typeName_inject)
  moreover from k [of "''payload''"] have "message_payload m = message_payload n"
    by (simp add: envelope_members_def split: if_splits)
  moreover from k [of "''requestId''"] have "message_requestId m = message_requestId n"
    by (simp add: envelope_members_def split: if_splits)
  ultimately show "m = n" by (cases m; cases n) simp
qed simp

lemma validated_iff:
  "validated svc t rid payload = Some m \<longleftrightarrow>
    m = \<lparr>message_type = t, message_requestId = rid, message_payload = payload\<rparr>
    \<and> well_formed_message svc m"
proof -
  let ?m = "\<lparr>message_type = t, message_requestId = rid, message_payload = payload\<rparr>"
  have "validated svc t rid payload = Some m \<longleftrightarrow> parse svc (toJson ?m) = Inr m"
    by (simp add: validated_def split: sum.split)
  also have "\<dots> \<longleftrightarrow> m = ?m \<and> well_formed_message svc m"
    unfolding parse_iff toJson_inject by (rule conj_cong) (rule eq_commute, rule refl)
  finally show ?thesis .
qed

section \<open>Page titles and window handles\<close>

definition title_allowed :: "text_services \<Rightarrow> qchar \<Rightarrow> bool" where
  "title_allowed svc c \<longleftrightarrow> \<not> other_control svc c \<and> \<not> isBidiControl c
     \<and> c \<noteq> qchar_of CHR ''<'' \<and> c \<noteq> qchar_of CHR ''>''"

definition title_text :: "text_services \<Rightarrow> qstring \<Rightarrow> bool" where
  "title_text svc t \<longleftrightarrow> (\<forall>i < length t.
     (isHighSurrogate (t ! i) \<longrightarrow> i + 1 < length t \<and> isLowSurrogate (t ! (i + 1)))
     \<and> (isLowSurrogate (t ! i) \<longrightarrow> 0 < i \<and> isHighSurrogate (t ! (i - 1)))
     \<and> (\<not> isHighSurrogate (t ! i) \<longrightarrow> \<not> isLowSurrogate (t ! i) \<longrightarrow> title_allowed svc (t ! i)))"

lemma surrogates_disjoint: "isHighSurrogate c \<Longrightarrow> \<not> isLowSurrogate c"
  unfolding isHighSurrogate_def isLowSurrogate_def by unat_arith

definition title_after :: "text_services \<Rightarrow> qchar \<Rightarrow> qstring \<Rightarrow> bool" where
  "title_after svc c t \<longleftrightarrow> (\<forall>i < length t.
     (isHighSurrogate (t ! i) \<longrightarrow> i + 1 < length t \<and> isLowSurrogate (t ! (i + 1)))
     \<and> (isLowSurrogate (t ! i) \<longrightarrow> isHighSurrogate ((c # t) ! i))
     \<and> (\<not> isHighSurrogate (t ! i) \<longrightarrow> \<not> isLowSurrogate (t ! i) \<longrightarrow> title_allowed svc (t ! i)))"

lemma title_after_Nil [simp]: "title_after svc c []"
  by (simp add: title_after_def)

lemma title_after_Cons:
  "title_after svc c (d # ds) \<longleftrightarrow>
    (isHighSurrogate d \<longrightarrow> ds \<noteq> [] \<and> isLowSurrogate (hd ds))
    \<and> (isLowSurrogate d \<longrightarrow> isHighSurrogate c)
    \<and> (\<not> isHighSurrogate d \<longrightarrow> \<not> isLowSurrogate d \<longrightarrow> title_allowed svc d)
    \<and> title_after svc d ds"
  unfolding title_after_def length_Cons All_less_Suc2
  by (simp add: hd_conv_nth cong: conj_cong)

lemma title_text_after: "\<not> isHighSurrogate c \<Longrightarrow> title_text svc t \<longleftrightarrow> title_after svc c t"
proof -
  assume c: "\<not> isHighSurrogate c"
  have "isHighSurrogate ((c # t) ! i) \<longleftrightarrow> 0 < i \<and> isHighSurrogate (t ! (i - 1))" for i
    using c by (cases i) simp_all
  then show ?thesis by (simp add: title_text_def title_after_def)
qed

lemma not_surrogate_zero: "\<not> isHighSurrogate 0"
  by (simp add: isHighSurrogate_def)

lemma title_text_Cons:
  "title_text svc (c # cs) \<longleftrightarrow>
    (if isHighSurrogate c then
       (case cs of [] \<Rightarrow> False | d # ds \<Rightarrow> isLowSurrogate d \<and> title_text svc ds)
     else \<not> isLowSurrogate c \<and> title_allowed svc c \<and> title_text svc cs)"
proof (cases "isHighSurrogate c")
  case True
  note start = title_text_after [OF not_surrogate_zero, of svc "c # cs"]
  show ?thesis
  proof (cases cs)
    case Nil
    with True show ?thesis by (simp add: start [unfolded Nil] title_after_Cons)
  next
    case (Cons d ds)
    have "isLowSurrogate d \<Longrightarrow> \<not> isHighSurrogate d" using surrogates_disjoint by blast
    with True Cons show ?thesis
      using surrogates_disjoint [OF True]
      by (auto simp: start [unfolded Cons] title_after_Cons title_text_after [of d])
  qed
next
  case False
  then show ?thesis
    using title_text_after [OF not_surrogate_zero, of svc "c # cs"] title_text_after [OF False, of svc cs]
    by (auto simp: title_after_Cons not_surrogate_zero)
qed

lemma titleCharacters_iff: "titleCharacters svc t \<longleftrightarrow> title_text svc t"
proof (induction svc t rule: titleCharacters.induct)
  case (1 svc)
  then show ?case by (simp add: title_text_def)
next
  case (2 svc c cs)
  then show ?case
    by (cases cs) (auto simp: title_text_Cons title_allowed_def)
qed

text \<open>
  C14.  A page-metadata message can be built exactly for a title of 1 to 256 code units that is
  well-formed UTF-16 (every high surrogate is followed by a low one, every low one preceded by a
  high one) without control characters, bidirectional controls or angle brackets, and a status that
  is absent, \<open>loading\<close> or \<open>ready\<close>.
\<close>

theorem page_metadata_iff:
  "(\<exists>m. pageMetadata_message svc title status = Some m) \<longleftrightarrow>
    title \<noteq> [] \<and> length title \<le> 256 \<and> title_text svc title
    \<and> status \<in> {[], qstr ''loading'', qstr ''ready''}"
proof -
  have "validPageStatus (Some (JString status)) \<longleftrightarrow> status = qstr ''loading'' \<or> status = qstr ''ready''"
    by (auto simp: validPageStatus_def maximumPageStatusBytes_def qstr_def)
  then show ?thesis
    by (auto simp: pageMetadata_message_def validated_iff well_formed_message_def needsRequestId_def
        validPageTitle_def maximumPageTitleCodeUnits_def titleCharacters_iff Let_def)
qed

text \<open>
  C15.  A surface-ready message carries a window handle exactly when the text is the canonical
  decimal spelling (no sign, blank or leading zero) of a nonzero 64-bit number, given that Qt's
  \<open>toULongLong\<close> returns only 64-bit values and reads every canonical spelling.
\<close>

theorem surface_handle_iff:
  assumes "\<And>s n. toULongLong svc s = Some n \<Longrightarrow> n < 2 ^ 64"
    and "\<And>n. n < 2 ^ 64 \<Longrightarrow> toULongLong svc (decimal n) = Some n"
  shows "surfaceReady_message svc handle =
    (if \<exists>n. 0 < n \<and> n < 2 ^ 64 \<and> handle = decimal n
     then Some \<lparr>message_type = SurfaceReady, message_requestId = [],
       message_payload = json_object_of [(''windowHandle'', JString handle)]\<rparr>
     else None)"
proof -
  have handle: "validWindowHandle svc handle \<longleftrightarrow> (\<exists>n. 0 < n \<and> n < 2 ^ 64 \<and> handle = decimal n)"
  proof
    assume "validWindowHandle svc handle"
    then obtain n where "toULongLong svc handle = Some n" "n \<noteq> 0" "decimal n = handle"
      by (auto simp: validWindowHandle_def split: option.splits)
    with assms(1) show "\<exists>n. 0 < n \<and> n < 2 ^ 64 \<and> handle = decimal n" by auto
  next
    assume "\<exists>n. 0 < n \<and> n < 2 ^ 64 \<and> handle = decimal n"
    with assms(2) show "validWindowHandle svc handle" by (auto simp: validWindowHandle_def)
  qed
  let ?m = "\<lparr>message_type = SurfaceReady, message_requestId = [],
       message_payload = json_object_of [(''windowHandle'', JString handle)]\<rparr>"
  have "surfaceReady_message svc handle = Some m \<longleftrightarrow> m = ?m \<and> validWindowHandle svc handle" for m
    by (auto simp: surfaceReady_message_def validated_iff well_formed_message_def needsRequestId_def)
  with handle show ?thesis by (cases "surfaceReady_message svc handle") auto
qed

text \<open>A number parser with the documented behaviour: the value of a text of decimal digits.\<close>

definition digit_value :: "qchar \<Rightarrow> nat" where
  "digit_value c = unat (c - 0x30)"

definition ascii_number :: "qstring \<Rightarrow> nat option" where
  "ascii_number s =
     (let n = foldl (\<lambda>a c. 10 * a + digit_value c) 0 s
      in if s \<noteq> [] \<and> list_all (\<lambda>c. digit_value c < 10) s \<and> n < 2 ^ 64 then Some n else None)"

lemma digit_value_digit: "n < 10 \<Longrightarrow> digit_value (0x30 + word_of_nat n) = n"
  by (simp add: digit_value_def unsigned_of_nat take_bit_nat_eq_self)

lemma decimal_digits:
  "decimal n \<noteq> [] \<and> list_all (\<lambda>c. digit_value c < 10) (decimal n)
    \<and> foldl (\<lambda>a c. 10 * a + digit_value c) 0 (decimal n) = n"
proof (induction n rule: decimal.induct)
  case (1 n)
  then show ?case
    by (cases "n < 10") (auto simp: decimal.simps [of n] digit_value_digit)
qed

lemma ascii_number_decimal: "n < 2 ^ 64 \<Longrightarrow> ascii_number (decimal n) = Some n"
  using decimal_digits [of n] by (simp add: ascii_number_def)

lemma ascii_number_range: "ascii_number s = Some n \<Longrightarrow> n < 2 ^ 64"
  by (auto simp: ascii_number_def Let_def split: if_splits)

definition sample_text :: text_services where
  "sample_text = \<lparr>other_control = \<lambda>c. c < 0x20 \<or> 0x7F \<le> c \<and> c \<le> 0x9F, toULongLong = ascii_number\<rparr>"

lemma decimal_4096: "decimal 4096 = qstr ''4096''"
  by (subst decimal.simps, simp, subst decimal.simps, simp, subst decimal.simps, simp,
      subst decimal.simps, simp add: qstr_def)

theorem surface_handle_iff_witness:
  "surfaceReady_message sample_text (qstr ''4096'') =
     Some \<lparr>message_type = SurfaceReady, message_requestId = [],
       message_payload = json_object_of [(''windowHandle'', JString (qstr ''4096''))]\<rparr>"
proof -
  have "\<exists>n. 0 < n \<and> n < 2 ^ 64 \<and> qstr ''4096'' = decimal n"
    by (rule exI [of _ 4096]) (simp add: decimal_4096)
  moreover have "toULongLong sample_text s = Some n \<Longrightarrow> n < 2 ^ 64" for s n
    unfolding sample_text_def text_services.simps by (rule ascii_number_range)
  moreover have "n < 2 ^ 64 \<Longrightarrow> toULongLong sample_text (decimal n) = Some n" for n
    unfolding sample_text_def text_services.simps by (rule ascii_number_decimal)
  ultimately show ?thesis
    using surface_handle_iff [of sample_text "qstr ''4096''"] by presburger
qed

end
