(* ===== verification/IpcSession.thy ===== *)
theory IpcSession
  imports FrameCodec ProtocolMessage
begin

text \<open>
  One end of the host/worker channel (\<open>runtime/ipc/IpcSession.{h,cpp}\<close>): the handshake, the direction
  rules, the bookkeeping of requests and responses, and the receive loop over the frame codec.

  The pipe and the clocks are inputs: a write is a function from the frame and the timeout to a
  status, and a receive call is given the rounds of its loop (\<open>reading\<close>: the clocks it samples, what
  \<open>readSome\<close> answers to the timeout it is passed, and what the writer thread completed meanwhile).
  The shared reservation objects live in a store, so that a late completion of an old reservation
  does not touch a new one.  A page-metadata handler is a function that says what it does to the
  session (nothing, take itself off, or close); handlers that call \<open>receive\<close> are not modelled.

  \<open>accepted\<close>, \<open>sent\<close> and \<open>metadata_log\<close> are history variables that the code does not have: the
  messages \<open>processFrame\<close> let through, the messages handed to the pipe, and the handler's calls.
\<close>

section \<open>State\<close>

datatype ipc_role = Host | Worker

datatype pipe_io_status = PipeOk | PipeTimedOut | PipeCancelled | PipePeerClosed | PipeFailed

datatype session_status = MessageReady | SessionTimedOut | SessionPeerClosed | SessionFailed

record receive_result =
  result_status :: session_status
  result_message :: "protocol_message option"
  result_errorCode :: string

datatype request_phase = Reserved | Published | Terminal

record reservation =
  phase :: request_phase
  deadlineMonotonicMs :: int

datatype handler_effect = KeepHandler | ClearHandler | CloseSession

record queued_message =
  queued_body :: protocol_message
  pageMetadataDelivered :: bool

record ipc_session =
  transport_open :: bool
  role :: ipc_role
  context_nonce :: qstring
  context_appIdentity :: qstring
  codec :: frame_codec
  receivedMessages :: "queued_message list"
  reservations :: "reservation list"
  pendingRequests :: "(qstring \<times> nat) list"
  receivedRequestIds :: "qstring list"
  authenticated :: bool
  session_closed :: bool
  lastErrorCode :: string
  outboundNonce :: qstring
  peerAssignedIdentity :: qstring
  pageMetadataHandler :: "(qstring \<Rightarrow> qstring \<Rightarrow> handler_effect) option"
  deliveringPageMetadata :: bool
  lastPeerActivityMs :: int
  readySent :: bool
  peerReady :: bool
  accepted :: "protocol_message list"
  sent :: "protocol_message list"
  metadata_log :: "(qstring \<times> qstring) list"

record ipc_services =
  framing :: json_services
  texts :: text_services

definition outgoingTypeAllowed :: "ipc_role \<Rightarrow> protocol_type \<Rightarrow> bool" where
  "outgoingTypeAllowed r t \<longleftrightarrow>
     (if r = Host then
        t = HandshakeAck \<or> t = RouteLoad \<or> t = Response \<or> t = Heartbeat \<or> t = VisibilityChanged
        \<or> t = Shutdown
      else
        t = Handshake \<or> t = SurfaceReady \<or> t = Ready \<or> t = Request \<or> t = NavigationRequest
        \<or> t = PageMetadata \<or> t = Response \<or> t = Heartbeat \<or> t = StructuredLog \<or> t = Shutdown)"

definition incomingTypeAllowed :: "ipc_role \<Rightarrow> protocol_type \<Rightarrow> bool" where
  "incomingTypeAllowed r t =
     (if r = Host then outgoingTypeAllowed Worker t else outgoingTypeAllowed Host t)"

definition session_close :: "ipc_session \<Rightarrow> ipc_session" where
  "session_close s = s\<lparr>session_closed := True, transport_open := False, receivedMessages := [],
     pendingRequests := [], pageMetadataHandler := None\<rparr>"

definition session_fail :: "session_status \<Rightarrow> string \<Rightarrow> ipc_session \<Rightarrow> ipc_session \<times> receive_result" where
  "session_fail status code s =
     (session_close (s\<lparr>lastErrorCode := code\<rparr>),
      \<lparr>result_status = status, result_message = None, result_errorCode = code\<rparr>)"

definition new_session :: "bool \<Rightarrow> ipc_role \<Rightarrow> qstring \<Rightarrow> qstring \<Rightarrow> ipc_session" where
  "new_session transportValid r nonce appIdentity =
     (let s = \<lparr>transport_open = transportValid, role = r, context_nonce = nonce,
        context_appIdentity = appIdentity, codec = new_codec, receivedMessages = [],
        reservations = [], pendingRequests = [], receivedRequestIds = [], authenticated = False,
        session_closed = False, lastErrorCode = '''', outboundNonce = [], peerAssignedIdentity = [],
        pageMetadataHandler = None, deliveringPageMetadata = False, lastPeerActivityMs = 0,
        readySent = False, peerReady = False, accepted = [], sent = [], metadata_log = []\<rparr>
      in if \<not> transportValid \<or> r = Host \<and> (nonce = [] \<or> appIdentity = [])
         then s\<lparr>session_closed := True, lastErrorCode := ''ipc.session.invalid_context'',
                transport_open := False\<rparr>
         else s)"

section \<open>Sending\<close>

definition prepareSend ::
  "ipc_services \<Rightarrow> protocol_message \<Rightarrow> bool \<Rightarrow> ipc_session \<Rightarrow> ipc_session \<times> bytes option" where
  "prepareSend svc m allowTrackedMessage s =
     (let t = message_type m in
      if session_closed s then (s, None)
      else if \<not> allowTrackedMessage \<and> (t = Request \<or> t = RouteLoad \<or> t = NavigationRequest)
        then (s\<lparr>lastErrorCode := ''ipc.session.tracking_required''\<rparr>, None)
      else if \<not> authenticated s \<and> (role s \<noteq> Worker \<or> t \<noteq> Handshake \<or> outboundNonce s \<noteq> [])
        then (s\<lparr>lastErrorCode := ''ipc.session.authentication_required''\<rparr>, None)
      else if authenticated s \<and> \<not> outgoingTypeAllowed (role s) t
        then (s\<lparr>lastErrorCode := ''ipc.session.unexpected_message_direction''\<rparr>, None)
      else if role s = Worker \<and> t = PageMetadata \<and> \<not> readySent s
        then (s\<lparr>lastErrorCode := ''ipc.session.ready_required''\<rparr>, None)
      else (case parse (texts svc) (toJson m) of
          Inl (e, code) \<Rightarrow> (s\<lparr>lastErrorCode := code\<rparr>, None)
        | Inr _ \<Rightarrow>
            let frame = encode (framing svc) (toJson m)
            in if frame = [] then (s\<lparr>lastErrorCode := ''ipc.session.frame_encode_failed''\<rparr>, None)
               else (s, Some frame)))"

definition noteAcceptedSend :: "protocol_message \<Rightarrow> ipc_session \<Rightarrow> ipc_session" where
  "noteAcceptedSend m s =
     (let s = s\<lparr>sent := sent s @ [m]\<rparr> in
      if role s = Worker \<and> message_type m = Handshake
        then s\<lparr>outboundNonce := toString (json_member (message_payload m) ''nonce'')\<rparr>
      else if role s = Worker \<and> message_type m = Ready then s\<lparr>readySent := True\<rparr>
      else s)"

type_synonym pipe_write = "bytes \<Rightarrow> int \<Rightarrow> pipe_io_status"

definition sendInternal ::
  "ipc_services \<Rightarrow> protocol_message \<Rightarrow> int \<Rightarrow> bool \<Rightarrow> pipe_write \<Rightarrow> ipc_session \<Rightarrow> ipc_session \<times> bool"
  where
  "sendInternal svc m timeoutMs allowTrackedMessage writeAll s =
     (case prepareSend svc m allowTrackedMessage s of
        (s, None) \<Rightarrow> (s, False)
      | (s, Some frame) \<Rightarrow>
          (case writeAll frame timeoutMs of
             PipeOk \<Rightarrow> (noteAcceptedSend m s, True)
           | PipeTimedOut \<Rightarrow> (fst (session_fail SessionTimedOut ''ipc.session.timeout'' s), False)
           | PipePeerClosed \<Rightarrow>
               (fst (session_fail SessionPeerClosed ''ipc.session.peer_closed'' s), False)
           | _ \<Rightarrow> (fst (session_fail SessionFailed ''ipc.session.write_failed'' s), False)))"

definition send ::
  "ipc_services \<Rightarrow> protocol_message \<Rightarrow> int \<Rightarrow> pipe_write \<Rightarrow> ipc_session \<Rightarrow> ipc_session \<times> bool" where
  "send svc m timeoutMs writeAll s = sendInternal svc m timeoutMs False writeAll s"

definition sendVisibilityChanged ::
  "ipc_services \<Rightarrow> bool \<Rightarrow> int \<Rightarrow> pipe_write \<Rightarrow> ipc_session \<Rightarrow> ipc_session \<times> bool" where
  "sendVisibilityChanged svc active timeoutMs writeAll s =
     (case visibilityChanged_message (texts svc) active of
        None \<Rightarrow> (s\<lparr>lastErrorCode := ''ipc.protocol.invalid_payload''\<rparr>, False)
      | Some m \<Rightarrow> send svc m timeoutMs writeAll s)"

section \<open>Requests that await a response\<close>

definition maximumPendingRequests :: nat where "maximumPendingRequests = 1024"

definition request_phase :: "ipc_session \<Rightarrow> nat \<Rightarrow> request_phase" where
  "request_phase s address = phase (reservations s ! address)"

definition pruneTerminalPendingRequests :: "ipc_session \<Rightarrow> ipc_session" where
  "pruneTerminalPendingRequests s =
     s\<lparr>pendingRequests := filter (\<lambda>(_, a). request_phase s a \<noteq> Terminal) (pendingRequests s)\<rparr>"

definition reservePendingRequest :: "qstring \<Rightarrow> ipc_session \<Rightarrow> ipc_session \<times> nat option" where
  "reservePendingRequest requestId s =
     (let s = pruneTerminalPendingRequests s in
      if requestId \<in> fst ` set (pendingRequests s)
        then (s\<lparr>lastErrorCode := ''ipc.session.duplicate_request_id''\<rparr>, None)
      else if maximumPendingRequests \<le> length (pendingRequests s)
        then (s\<lparr>lastErrorCode := ''ipc.session.pending_request_limit''\<rparr>, None)
      else
        let address = length (reservations s) in
        (s\<lparr>reservations := reservations s @ [\<lparr>phase = Reserved, deadlineMonotonicMs = 0\<rparr>],
           pendingRequests := pendingRequests s @ [(requestId, address)]\<rparr>, Some address))"

definition removePendingRequest :: "qstring \<Rightarrow> nat \<Rightarrow> ipc_session \<Rightarrow> ipc_session" where
  "removePendingRequest requestId expected s =
     s\<lparr>pendingRequests := filter (\<lambda>p. p \<noteq> (requestId, expected)) (pendingRequests s)\<rparr>"

definition publish_reservation :: "nat \<Rightarrow> int \<Rightarrow> ipc_session \<Rightarrow> ipc_session" where
  "publish_reservation address deadline s =
     s\<lparr>reservations := (reservations s)[address :=
        \<lparr>phase = Published, deadlineMonotonicMs = deadline\<rparr>]\<rparr>"

definition end_reservation :: "nat \<Rightarrow> ipc_session \<Rightarrow> ipc_session" where
  "end_reservation address s =
     s\<lparr>reservations := (reservations s)[address := (reservations s ! address)\<lparr>phase := Terminal\<rparr>]\<rparr>"

definition sendTracked ::
  "ipc_services \<Rightarrow> qstring \<Rightarrow> protocol_message option \<Rightarrow> int \<Rightarrow> int \<Rightarrow> int \<Rightarrow> pipe_write \<Rightarrow> ipc_session \<Rightarrow>
    ipc_session \<times> bool" where
  "sendTracked svc requestId message writeTimeoutMs responseTimeoutMs now writeAll s =
     (if session_closed s then (s, False)
      else if writeTimeoutMs < 0 \<or> responseTimeoutMs < 0
        then (s\<lparr>lastErrorCode := ''ipc.session.invalid_timeout''\<rparr>, False)
      else (case reservePendingRequest requestId s of
          (s, None) \<Rightarrow> (s, False)
        | (s, Some address) \<Rightarrow>
            (case message of
               None \<Rightarrow> ((removePendingRequest requestId address s)
                   \<lparr>lastErrorCode := ''ipc.protocol.invalid_payload''\<rparr>, False)
             | Some m \<Rightarrow>
                 (case sendInternal svc m writeTimeoutMs True writeAll s of
                    (s, False) \<Rightarrow> (removePendingRequest requestId address s, False)
                  | (s, True) \<Rightarrow> (publish_reservation address (now + responseTimeoutMs) s, True)))))"

definition sendRequest where
  "sendRequest svc requestId capability operation payload writeTimeoutMs responseTimeoutMs =
     sendTracked svc requestId (request_message (texts svc) requestId capability operation payload)
       writeTimeoutMs responseTimeoutMs"

definition sendRouteLoad where
  "sendRouteLoad svc requestId route timeoutMs =
     sendTracked svc requestId (routeLoad_message (texts svc) requestId route) timeoutMs timeoutMs"

definition sendNavigationRequest where
  "sendNavigationRequest svc requestId route timeoutMs =
     sendTracked svc requestId (navigationRequest_message (texts svc) requestId route)
       timeoutMs timeoutMs"

section \<open>Asynchronous sends\<close>

text \<open>
  \<open>ArmableSendCompletion\<close>: the writer's result and the end of the session's bookkeeping may come in
  either order; the caller's callback runs when both have happened.  An operation returns the result
  it passes to the callback.
\<close>

record 'r armable =
  arm_result :: "'r option"
  armed :: bool
  delivered :: bool

definition new_armable :: "'r armable" where
  "new_armable = \<lparr>arm_result = None, armed = False, delivered = False\<rparr>"

datatype 'r armable_event = Complete 'r | Arm

fun armable_step :: "'r armable \<Rightarrow> 'r armable_event \<Rightarrow> 'r armable \<times> 'r option" where
  "armable_step a (Complete r) =
     (if delivered a then (a, None)
      else if \<not> armed a then (a\<lparr>arm_result := Some r\<rparr>, None)
      else (a\<lparr>delivered := True\<rparr>, Some r))"
| "armable_step a Arm =
     (if armed a then (a, None)
      else (case arm_result a of
          None \<Rightarrow> (a\<lparr>armed := True\<rparr>, None)
        | Some r \<Rightarrow> (a\<lparr>armed := True, delivered := True, arm_result := None\<rparr>, Some r)))"

type_synonym pipe_submit = "bytes \<Rightarrow> bool \<times> string"

definition reject_reservation :: "nat option \<Rightarrow> ipc_session \<Rightarrow> ipc_session" where
  "reject_reservation r s = (case r of None \<Rightarrow> s | Some address \<Rightarrow> end_reservation address s)"

definition submitInternal ::
  "ipc_services \<Rightarrow> protocol_message \<Rightarrow> bool \<Rightarrow> nat option \<Rightarrow> pipe_submit \<Rightarrow> ipc_session \<Rightarrow>
    ipc_session \<times> bool \<times> string" where
  "submitInternal svc m allowTrackedMessage r submitWrite s =
     (case prepareSend svc m allowTrackedMessage s of
        (s, None) \<Rightarrow> (reject_reservation r s, False, lastErrorCode s)
      | (s, Some frame) \<Rightarrow>
          let (was_accepted, code) = submitWrite frame in
          if \<not> was_accepted
            then ((reject_reservation r s)\<lparr>lastErrorCode := code\<rparr>, False, code)
          else (noteAcceptedSend m s, True, code))"

definition submitSend ::
  "ipc_services \<Rightarrow> protocol_message \<Rightarrow> pipe_submit \<Rightarrow> ipc_session \<Rightarrow> ipc_session \<times> bool \<times> string" where
  "submitSend svc m submitWrite s = submitInternal svc m False None submitWrite s"

definition submitRouteLoad ::
  "ipc_services \<Rightarrow> qstring \<Rightarrow> qstring \<Rightarrow> int \<Rightarrow> pipe_submit \<Rightarrow> ipc_session \<Rightarrow>
    ipc_session \<times> bool \<times> string" where
  "submitRouteLoad svc requestId route responseTimeoutMs submitWrite s =
     (if session_closed s then (s, False, lastErrorCode s)
      else if responseTimeoutMs < 0
        then (s\<lparr>lastErrorCode := ''ipc.session.invalid_timeout''\<rparr>, False,
              ''ipc.session.invalid_timeout'')
      else (case reservePendingRequest requestId s of
          (s, None) \<Rightarrow> (s, False, lastErrorCode s)
        | (s, Some address) \<Rightarrow>
            (case routeLoad_message (texts svc) requestId route of
               None \<Rightarrow> ((removePendingRequest requestId address s)
                   \<lparr>lastErrorCode := ''ipc.protocol.invalid_payload''\<rparr>, False,
                   ''ipc.protocol.invalid_payload'')
             | Some m \<Rightarrow> submitInternal svc m True (Some address) submitWrite s)))"

text \<open>The writer thread reports a submitted route load's write.\<close>

record write_report =
  report_address :: nat
  report_status :: pipe_io_status
  report_timeoutMs :: int
  report_now :: int

definition routeLoad_written :: "write_report \<Rightarrow> ipc_session \<Rightarrow> ipc_session" where
  "routeLoad_written w s =
     (if report_status w \<noteq> PipeOk then end_reservation (report_address w) s
      else publish_reservation (report_address w) (report_now w + report_timeoutMs w) s)"

section \<open>Receiving\<close>

definition published_deadlines :: "ipc_session \<Rightarrow> int list" where
  "published_deadlines s =
     [deadlineMonotonicMs (reservations s ! a). (_, a) \<leftarrow> pendingRequests s, request_phase s a = Published]"

definition pendingRequestExpired :: "int \<Rightarrow> ipc_session \<Rightarrow> ipc_session \<times> bool" where
  "pendingRequestExpired now s =
     (let s = pruneTerminalPendingRequests s
      in (s, list_ex (\<lambda>deadline. deadline \<le> now) (published_deadlines s)))"

definition nearestPendingDeadline :: "ipc_session \<Rightarrow> int option" where
  "nearestPendingDeadline s =
     (case published_deadlines s of [] \<Rightarrow> None | d # ds \<Rightarrow> Some (fold min ds d))"

definition publicationPending :: "ipc_session \<Rightarrow> bool" where
  "publicationPending s \<longleftrightarrow> list_ex (\<lambda>(_, a). request_phase s a = Reserved) (pendingRequests s)"

definition pendingRequestCount :: "ipc_session \<Rightarrow> nat" where
  "pendingRequestCount s =
     length (filter (\<lambda>(_, a). request_phase s a \<noteq> Terminal) (pendingRequests s))"

definition undelivered :: "queued_message \<Rightarrow> bool" where
  "undelivered q \<longleftrightarrow> message_type (queued_body q) = PageMetadata \<and> \<not> pageMetadataDelivered q"

fun mark_delivered :: "queued_message list \<Rightarrow> queued_message list" where
  "mark_delivered [] = []"
| "mark_delivered (q # qs) =
     (if undelivered q then q\<lparr>pageMetadataDelivered := True\<rparr> # qs else q # mark_delivered qs)"

lemma mark_delivered_decreases:
  "find undelivered qs = Some q \<Longrightarrow>
    length (filter undelivered (mark_delivered qs)) < length (filter undelivered qs)"
  by (induction qs) (auto simp: undelivered_def split: if_splits)

fun apply_handler_effect :: "handler_effect \<Rightarrow> ipc_session \<Rightarrow> ipc_session" where
  "apply_handler_effect KeepHandler s = s"
| "apply_handler_effect ClearHandler s = s\<lparr>pageMetadataHandler := None\<rparr>"
| "apply_handler_effect CloseSession s = session_close s"

function deliver_rounds :: "ipc_session \<Rightarrow> ipc_session" where
  "deliver_rounds s =
     (if session_closed s then s
      else (case pageMetadataHandler s of
          None \<Rightarrow> s
        | Some handler \<Rightarrow>
            (case find undelivered (receivedMessages s) of
               None \<Rightarrow> s
             | Some q \<Rightarrow>
                 let payload = message_payload (queued_body q);
                     title = toString (json_member payload ''title'');
                     status = toString (json_member payload ''status'')
                 in deliver_rounds (apply_handler_effect (handler title status)
                   (s\<lparr>receivedMessages := mark_delivered (receivedMessages s),
                      metadata_log := metadata_log s @ [(title, status)]\<rparr>)))))"
  by pat_completeness auto

lemma effect_receivedMessages:
  "receivedMessages (apply_handler_effect e s) = (if e = CloseSession then [] else receivedMessages s)"
  by (cases e) (simp_all add: session_close_def)

termination deliver_rounds
proof (relation "measure (\<lambda>s. length (filter undelivered (receivedMessages s)))", goal_cases)
  case (2 s handler q payload title status)
  then show ?case
    using mark_delivered_decreases [OF 2(3)] by (auto simp: effect_receivedMessages)
qed simp

declare deliver_rounds.simps [simp del]

definition deliverQueuedPageMetadata :: "ipc_session \<Rightarrow> ipc_session" where
  "deliverQueuedPageMetadata s =
     (if role s \<noteq> Host \<or> session_closed s \<or> deliveringPageMetadata s \<or> pageMetadataHandler s = None then s
      else (deliver_rounds (s\<lparr>deliveringPageMetadata := True\<rparr>))\<lparr>deliveringPageMetadata := False\<rparr>)"

definition setPageMetadataHandler ::
  "(qstring \<Rightarrow> qstring \<Rightarrow> handler_effect) option \<Rightarrow> ipc_session \<Rightarrow> ipc_session" where
  "setPageMetadataHandler handler s =
     deliverQueuedPageMetadata (s\<lparr>pageMetadataHandler := handler\<rparr>)"

text \<open>
  The stages of \<open>processFrame\<close>.  A stage ends the frame with a result or passes the session on.
\<close>

type_synonym stage = "ipc_session \<times> receive_result + ipc_session"

definition authenticateHost ::
  "ipc_services \<Rightarrow> protocol_message \<Rightarrow> pipe_write \<Rightarrow> ipc_session \<Rightarrow> stage" where
  "authenticateHost svc m writeAll s =
     (if message_type m \<noteq> Handshake
        then Inl (session_fail SessionFailed ''ipc.session.handshake_required'' s)
      else if toString (json_member (message_payload m) ''nonce'') \<noteq> context_nonce s
        then Inl (session_fail SessionFailed ''ipc.session.nonce_mismatch'' s)
      else let s = s\<lparr>authenticated := True\<rparr> in
        (case handshakeAck_message (texts svc) (context_nonce s) (context_appIdentity s) of
           None \<Rightarrow> Inl (session_fail SessionFailed
               (if lastErrorCode s = '''' then ''ipc.session.ack_failed'' else lastErrorCode s) s)
         | Some acknowledgement \<Rightarrow>
             (case send svc acknowledgement 1000 writeAll s of
                (s, False) \<Rightarrow> Inl (session_fail SessionFailed
                   (if lastErrorCode s = '''' then ''ipc.session.ack_failed'' else lastErrorCode s) s)
              | (s, True) \<Rightarrow> Inr s)))"

definition authenticateWorker :: "protocol_message \<Rightarrow> ipc_session \<Rightarrow> stage" where
  "authenticateWorker m s =
     (if message_type m \<noteq> HandshakeAck \<or> outboundNonce s = []
        then Inl (session_fail SessionFailed ''ipc.session.handshake_ack_required'' s)
      else if toString (json_member (message_payload m) ''nonce'') \<noteq> outboundNonce s
        then Inl (session_fail SessionFailed ''ipc.session.nonce_mismatch'' s)
      else Inr (s\<lparr>peerAssignedIdentity := toString (json_member (message_payload m) ''appIdentity''),
                  authenticated := True\<rparr>))"

definition maximumRememberedRequestIds :: nat where "maximumRememberedRequestIds = 4096"

definition trackMessage :: "protocol_message \<Rightarrow> ipc_session \<Rightarrow> stage" where
  "trackMessage m s =
     (let t = message_type m; requestId = message_requestId m in
      if t = Request \<or> t = RouteLoad \<or> t = NavigationRequest then
        (if requestId \<in> set (receivedRequestIds s)
           then Inl (session_fail SessionFailed ''ipc.session.duplicate_request_id'' s)
         else if maximumRememberedRequestIds \<le> length (receivedRequestIds s)
           then Inl (session_fail SessionFailed ''ipc.session.request_id_limit'' s)
         else Inr (s\<lparr>receivedRequestIds := requestId # receivedRequestIds s\<rparr>))
      else if t = Response then
        (let s = pruneTerminalPendingRequests s in
         if requestId \<notin> fst ` set (pendingRequests s)
           then Inl (session_fail SessionFailed ''ipc.session.unknown_response'' s)
         else Inr (s\<lparr>pendingRequests := filter (\<lambda>(k, _). k \<noteq> requestId) (pendingRequests s)\<rparr>))
      else Inr s)"

definition admitMessage :: "bool \<Rightarrow> protocol_message \<Rightarrow> int \<Rightarrow> ipc_session \<Rightarrow>
    ipc_session \<times> receive_result" where
  "admitMessage authenticationMessage m elapsed s =
     (if \<not> authenticationMessage \<and> \<not> incomingTypeAllowed (role s) (message_type m)
        then session_fail SessionFailed ''ipc.session.unexpected_message_direction'' s
      else if role s = Host \<and> message_type m = PageMetadata \<and> \<not> peerReady s
        then session_fail SessionFailed ''ipc.session.ready_required'' s
      else
        let s = (if role s = Host \<and> message_type m = Ready then s\<lparr>peerReady := True\<rparr> else s) in
        (case trackMessage m s of
           Inl r \<Rightarrow> r
         | Inr s \<Rightarrow>
             (s\<lparr>lastPeerActivityMs := max 1 elapsed, accepted := accepted s @ [m]\<rparr>,
              \<lparr>result_status = MessageReady, result_message = Some m, result_errorCode = ''''\<rparr>)))"

definition processFrame ::
  "ipc_services \<Rightarrow> json_object \<Rightarrow> pipe_write \<Rightarrow> int \<Rightarrow> ipc_session \<Rightarrow> ipc_session \<times> receive_result" where
  "processFrame svc object writeAll elapsed s =
     (case parse (texts svc) object of
        Inl (e, code) \<Rightarrow> session_fail SessionFailed code s
      | Inr m \<Rightarrow>
          if role s = Host \<and> \<not> authenticated s then
            (case authenticateHost svc m writeAll s of
               Inl r \<Rightarrow> r | Inr s \<Rightarrow> admitMessage True m elapsed s)
          else if role s = Worker \<and> \<not> authenticated s then
            (case authenticateWorker m s of
               Inl r \<Rightarrow> r | Inr s \<Rightarrow> admitMessage True m elapsed s)
          else if message_type m = Handshake \<or> message_type m = HandshakeAck
            then session_fail SessionFailed ''ipc.session.unexpected_handshake'' s
          else admitMessage False m elapsed s)"

text \<open>
  The loop over the frames of one read.  It ends the call with a result, or leaves the messages in
  the queue.
\<close>

fun processFrames ::
  "ipc_services \<Rightarrow> pipe_write \<Rightarrow> int \<Rightarrow> json_object list \<Rightarrow> ipc_session \<Rightarrow>
    ipc_session \<times> receive_result option" where
  "processFrames svc writeAll elapsed [] s = (s, None)"
| "processFrames svc writeAll elapsed (object # objects) s =
     (case processFrame svc object writeAll elapsed s of
        (s, r) \<Rightarrow>
          (case (result_status r, result_message r) of
             (MessageReady, Some m) \<Rightarrow>
               let s = deliverQueuedPageMetadata (s\<lparr>receivedMessages := receivedMessages s
                 @ [\<lparr>queued_body = m, pageMetadataDelivered = False\<rparr>]\<rparr>)
               in if session_closed s
                  then (s, Some \<lparr>result_status = SessionFailed, result_message = None,
                                 result_errorCode = lastErrorCode s\<rparr>)
                  else processFrames svc writeAll elapsed objects s
           | _ \<Rightarrow> (s, Some r)))"

definition dequeueMessage :: "ipc_session \<Rightarrow> ipc_session \<times> receive_result option" where
  "dequeueMessage s =
     (case receivedMessages s of
        [] \<Rightarrow> (s, None)
      | q # qs \<Rightarrow>
          (s\<lparr>receivedMessages := qs\<rparr>,
           Some \<lparr>result_status = MessageReady, result_message = Some (queued_body q),
                 result_errorCode = ''''\<rparr>))"

record reading =
  writes_done :: "write_report list"
  now_at_start :: int
  elapsed_at_start :: int
  readSome :: "int \<Rightarrow> pipe_io_status \<times> bytes"
  now_after_read :: int
  elapsed_after_read :: int
  ack_write :: pipe_write
  session_elapsed :: int

definition timeout_result :: "bool \<Rightarrow> ipc_session \<Rightarrow> ipc_session \<times> receive_result" where
  "timeout_result closeOnCallerTimeout s =
     (if closeOnCallerTimeout then session_fail SessionTimedOut ''ipc.session.timeout'' s
      else (s, \<lparr>result_status = SessionTimedOut, result_message = None,
                result_errorCode = ''ipc.session.timeout''\<rparr>))"

definition read_timeout :: "int \<Rightarrow> reading \<Rightarrow> ipc_session \<Rightarrow> int" where
  "read_timeout timeoutMs r s =
     (let remaining = max 0 (timeoutMs - elapsed_at_start r);
          remaining = (case nearestPendingDeadline s of None \<Rightarrow> remaining
            | Some d \<Rightarrow> min remaining (min (d - now_at_start r) (2 ^ 31 - 1)))
      in if publicationPending s then min remaining 5 else remaining)"

text \<open>One round of the loop: it ends the call with a result, or goes on in a new state.\<close>

definition receive_round ::
  "ipc_services \<Rightarrow> int \<Rightarrow> bool \<Rightarrow> reading \<Rightarrow> ipc_session \<Rightarrow> ipc_session \<times> receive_result + ipc_session"
  where
  "receive_round svc timeoutMs closeOnCallerTimeout r s =
     (let s = fold routeLoad_written (writes_done r) s in
      if (case nearestPendingDeadline s of None \<Rightarrow> False | Some d \<Rightarrow> d - now_at_start r \<le> 0)
        then Inl (session_fail SessionTimedOut ''ipc.session.request_timeout'' s)
      else let (status, bytes) = readSome r (read_timeout timeoutMs r s) in
      if status = PipeTimedOut then
        (let (s, expired) = pendingRequestExpired (now_after_read r) s in
         if expired then Inl (session_fail SessionTimedOut ''ipc.session.request_timeout'' s)
         else if elapsed_after_read r < timeoutMs then Inr s
         else Inl (timeout_result closeOnCallerTimeout s))
      else if status = PipePeerClosed
        then Inl (session_fail SessionPeerClosed ''ipc.session.peer_closed'' s)
      else if status \<noteq> PipeOk \<or> bytes = []
        then Inl (session_fail SessionFailed ''ipc.session.read_failed'' s)
      else let (c, frames) = feed (framing svc) (codec s) bytes; s = s\<lparr>codec := c\<rparr> in
      if feed_status frames = FeedFailed
        then Inl (session_fail SessionFailed (feed_errorCode frames) s)
      else (case processFrames svc (ack_write r) (session_elapsed r) (feed_frames frames) s of
          (s, Some result) \<Rightarrow> Inl (s, result)
        | (s, None) \<Rightarrow>
            (case dequeueMessage s of
               (s, Some result) \<Rightarrow> Inl (s, result)
             | (s, None) \<Rightarrow>
                 if timeoutMs \<le> elapsed_after_read r
                 then Inl (timeout_result closeOnCallerTimeout s) else Inr s)))"

fun receive_loop ::
  "ipc_services \<Rightarrow> int \<Rightarrow> bool \<Rightarrow> reading list \<Rightarrow> ipc_session \<Rightarrow> ipc_session \<times> receive_result option"
  where
  "receive_loop svc timeoutMs closeOnCallerTimeout [] s = (s, None)"
| "receive_loop svc timeoutMs closeOnCallerTimeout (r # rs) s =
     (case receive_round svc timeoutMs closeOnCallerTimeout r s of
        Inl (s, result) \<Rightarrow> (s, Some result)
      | Inr s \<Rightarrow> receive_loop svc timeoutMs closeOnCallerTimeout rs s)"

definition receiveImpl ::
  "ipc_services \<Rightarrow> int \<Rightarrow> bool \<Rightarrow> int \<Rightarrow> reading list \<Rightarrow> ipc_session \<Rightarrow>
    ipc_session \<times> receive_result option" where
  "receiveImpl svc timeoutMs closeOnCallerTimeout now readings s =
     (if session_closed s
        then (s, Some \<lparr>result_status = SessionFailed, result_message = None,
                       result_errorCode = lastErrorCode s\<rparr>)
      else if timeoutMs < 0
        then map_prod id Some (session_fail SessionFailed ''ipc.session.invalid_timeout'' s)
      else (case pendingRequestExpired now s of
          (s, True) \<Rightarrow>
            map_prod id Some (session_fail SessionTimedOut ''ipc.session.request_timeout'' s)
        | (s, False) \<Rightarrow>
            (case dequeueMessage s of
               (s, Some result) \<Rightarrow> (s, Some result)
             | (s, None) \<Rightarrow> receive_loop svc timeoutMs closeOnCallerTimeout readings s)))"

end
