(* ===== verification/IpcSessionProofs.thy ===== *)
theory IpcSessionProofs
  imports IpcSession
begin

text \<open>
  The session as a machine over all its public operations, and what holds in every run: the
  conversation it accepts and the one it sends follow the protocol, a closed session stays closed,
  and requests and responses pair up.

  Most operations leave the protocol state alone; they are \<open>quiet\<close>.  Only an accepted send and an
  accepted frame change it.
\<close>

section \<open>The machine\<close>

datatype ipc_event =
    EvSend protocol_message int pipe_write
  | EvSubmit protocol_message pipe_submit
  | EvRequest qstring qstring qstring json_object int int int pipe_write
  | EvRouteLoad qstring qstring int int pipe_write
  | EvNavigation qstring qstring int int pipe_write
  | EvSubmitRoute qstring qstring int pipe_submit
  | EvWritten write_report
  | EvVisibility bool int pipe_write
  | EvReceive int bool int "reading list"
  | EvHandler "(qstring \<Rightarrow> qstring \<Rightarrow> handler_effect) option"
  | EvClose

fun ipc_step :: "ipc_services \<Rightarrow> ipc_session \<Rightarrow> ipc_event \<Rightarrow> ipc_session \<times> receive_result option" where
  "ipc_step svc s (EvSend m timeoutMs w) = (fst (send svc m timeoutMs w s), None)"
| "ipc_step svc s (EvSubmit m w) = (fst (submitSend svc m w s), None)"
| "ipc_step svc s (EvRequest rid cap op payload wt rt now w) =
     (fst (sendRequest svc rid cap op payload wt rt now w s), None)"
| "ipc_step svc s (EvRouteLoad rid route timeoutMs now w) =
     (fst (sendRouteLoad svc rid route timeoutMs now w s), None)"
| "ipc_step svc s (EvNavigation rid route timeoutMs now w) =
     (fst (sendNavigationRequest svc rid route timeoutMs now w s), None)"
| "ipc_step svc s (EvSubmitRoute rid route timeoutMs w) =
     (fst (submitRouteLoad svc rid route timeoutMs w s), None)"
| "ipc_step svc s (EvWritten report) = (routeLoad_written report s, None)"
| "ipc_step svc s (EvVisibility active timeoutMs w) =
     (fst (sendVisibilityChanged svc active timeoutMs w s), None)"
| "ipc_step svc s (EvReceive timeoutMs closeOnTimeout now readings) =
     receiveImpl svc timeoutMs closeOnTimeout now readings s"
| "ipc_step svc s (EvHandler handler) = (setPageMetadataHandler handler s, None)"
| "ipc_step svc s EvClose = (session_close s, None)"

section \<open>Quiet operations\<close>

definition quiet :: "ipc_session \<Rightarrow> ipc_session \<Rightarrow> bool" where
  "quiet s t \<longleftrightarrow> role t = role s \<and> context_nonce t = context_nonce s
     \<and> context_appIdentity t = context_appIdentity s \<and> receivedRequestIds t = receivedRequestIds s
     \<and> authenticated t = authenticated s \<and> outboundNonce t = outboundNonce s
     \<and> readySent t = readySent s \<and> peerReady t = peerReady s \<and> accepted t = accepted s
     \<and> sent t = sent s \<and> (session_closed s \<longrightarrow> session_closed t)"

named_theorems quiet_intros

lemma quiet_refl [simp, quiet_intros]: "quiet s s"
  by (simp add: quiet_def)

lemma quiet_trans: "quiet s t \<Longrightarrow> quiet t u \<Longrightarrow> quiet s u"
  by (simp add: quiet_def)

lemma quiet_close [simp]: "quiet s (session_close t) \<longleftrightarrow> quiet s (t\<lparr>session_closed := True\<rparr>)"
  by (simp add: quiet_def session_close_def)

lemma quiet_fail [simp]:
  "quiet s (fst (session_fail status code t)) \<longleftrightarrow> quiet s (t\<lparr>session_closed := True\<rparr>)"
  by (simp add: quiet_def session_fail_def session_close_def)

lemma quiet_closed: "quiet s t \<Longrightarrow> quiet s (t\<lparr>session_closed := True\<rparr>)"
  by (simp add: quiet_def)

lemma quiet_simps [simp]:
  "quiet s (t\<lparr>lastErrorCode := c\<rparr>) \<longleftrightarrow> quiet s t"
  "quiet s (t\<lparr>pendingRequests := p\<rparr>) \<longleftrightarrow> quiet s t"
  "quiet s (t\<lparr>reservations := r\<rparr>) \<longleftrightarrow> quiet s t"
  "quiet s (t\<lparr>receivedMessages := q\<rparr>) \<longleftrightarrow> quiet s t"
  "quiet s (t\<lparr>codec := d\<rparr>) \<longleftrightarrow> quiet s t"
  "quiet s (t\<lparr>pageMetadataHandler := h\<rparr>) \<longleftrightarrow> quiet s t"
  "quiet s (t\<lparr>deliveringPageMetadata := b\<rparr>) \<longleftrightarrow> quiet s t"
  "quiet s (t\<lparr>metadata_log := l\<rparr>) \<longleftrightarrow> quiet s t"
  "quiet s (t\<lparr>lastPeerActivityMs := a\<rparr>) \<longleftrightarrow> quiet s t"
  by (simp_all add: quiet_def)

lemma quiet_prune [simp]: "quiet s (pruneTerminalPendingRequests t) \<longleftrightarrow> quiet s t"
  by (simp add: pruneTerminalPendingRequests_def)

lemma quiet_reserve [simp]: "quiet s (fst (reservePendingRequest rid t)) \<longleftrightarrow> quiet s t"
  by (simp add: reservePendingRequest_def Let_def)

lemma quiet_reservations [simp]:
  "quiet s (removePendingRequest rid a t) \<longleftrightarrow> quiet s t"
  "quiet s (publish_reservation a d t) \<longleftrightarrow> quiet s t"
  "quiet s (end_reservation a t) \<longleftrightarrow> quiet s t"
  "quiet s (reject_reservation r t) \<longleftrightarrow> quiet s t"
  "quiet s (routeLoad_written w t) \<longleftrightarrow> quiet s t"
  by (simp_all add: removePendingRequest_def publish_reservation_def end_reservation_def
      reject_reservation_def routeLoad_written_def split: option.split)

lemma quiet_fold_written: "quiet s t \<Longrightarrow> quiet s (fold routeLoad_written ws t)"
  by (induction ws arbitrary: t) simp_all

lemma quiet_expired [simp]: "quiet s (fst (pendingRequestExpired now t)) \<longleftrightarrow> quiet s t"
  by (simp add: pendingRequestExpired_def Let_def)

lemma quiet_effect: "quiet s t \<Longrightarrow> quiet s (apply_handler_effect e t)"
  by (cases e) (simp_all add: quiet_closed)

lemma quiet_rounds: "quiet s t \<Longrightarrow> quiet s (deliver_rounds t)"
proof (induction t rule: deliver_rounds.induct)
  case (1 t)
  show ?case
  proof (cases "session_closed t \<or> pageMetadataHandler t = None \<or> find undelivered (receivedMessages t) = None")
    case True
    with "1.prems" show ?thesis
      by (subst deliver_rounds.simps) (auto split: option.split)
  next
    case False
    then obtain h q where h: "\<not> session_closed t" "pageMetadataHandler t = Some h"
      "find undelivered (receivedMessages t) = Some q" by auto
    from "1.IH" [OF h refl refl refl] "1.prems" h show ?thesis
      by (subst deliver_rounds.simps) (simp add: Let_def quiet_effect)
  qed
qed

lemma quiet_deliver: "quiet s t \<Longrightarrow> quiet s (deliverQueuedPageMetadata t)"
  by (simp add: deliverQueuedPageMetadata_def quiet_rounds)

lemma quiet_dequeue [simp]: "quiet s (fst (dequeueMessage t)) \<longleftrightarrow> quiet s t"
  by (simp add: dequeueMessage_def split: list.split)

lemma quiet_timeout: "quiet s t \<Longrightarrow> quiet s (fst (timeout_result c t))"
  by (simp add: timeout_result_def quiet_closed)

section \<open>Sends\<close>

lemma prepareSend_None: "prepareSend svc m tracked s = (t, None) \<Longrightarrow> quiet s t"
  by (auto simp: prepareSend_def Let_def split: if_splits sum.splits prod.splits)

lemma prepareSend_Some:
  assumes "prepareSend svc m tracked s = (t, Some frame)"
  shows "t = s" and "\<not> session_closed s"
    and "\<not> authenticated s \<Longrightarrow> role s = Worker \<and> message_type m = Handshake \<and> outboundNonce s = []"
    and "authenticated s \<Longrightarrow> outgoingTypeAllowed (role s) (message_type m)"
    and "role s = Worker \<Longrightarrow> message_type m = PageMetadata \<Longrightarrow> readySent s"
    and "well_formed_message (texts svc) m"
proof -
  have "\<exists>x. parse (texts svc) (toJson m) = Inr x"
    using assms by (auto simp: prepareSend_def Let_def split: if_splits sum.splits prod.splits)
  then show "well_formed_message (texts svc) m" by (auto simp: parse_iff toJson_inject)
qed (use assms in \<open>auto simp: prepareSend_def Let_def split: if_splits sum.splits prod.splits\<close>)

text \<open>A send is quiet, or it is \<open>noteAcceptedSend\<close> in a session whose guards let the message out.\<close>

definition sends_of :: "ipc_services \<Rightarrow> ipc_session \<Rightarrow> protocol_message \<Rightarrow> bool" where
  "sends_of svc s m \<longleftrightarrow> (\<exists>tracked frame. prepareSend svc m tracked s = (s, Some frame))"

lemma sendInternal_cases:
  assumes "sendInternal svc m timeoutMs tracked w s = (t, b)"
  shows "\<not> b \<and> quiet s t \<or> b \<and> sends_of svc s m \<and> t = noteAcceptedSend m s"
proof (cases "prepareSend svc m tracked s")
  case (Pair u r)
  show ?thesis
  proof (cases r)
    case None
    with assms Pair prepareSend_None show ?thesis by (auto simp: sendInternal_def)
  next
    case (Some frame)
    with prepareSend_Some(1) Pair have u: "u = s" by blast
    have "quiet s (fst (session_fail st c s))" for st c by (simp add: quiet_closed)
    with assms Pair Some u show ?thesis
      by (cases "w frame timeoutMs") (auto simp: sendInternal_def sends_of_def)
  qed
qed

definition emits :: "ipc_services \<Rightarrow> ipc_session \<Rightarrow> ipc_session \<Rightarrow> bool" where
  "emits svc s t \<longleftrightarrow> (\<exists>m u. quiet s u \<and> sends_of svc u m \<and> quiet (noteAcceptedSend m u) t)"

lemma emitsI: "quiet s u \<Longrightarrow> sends_of svc u m \<Longrightarrow> quiet (noteAcceptedSend m u) t \<Longrightarrow> emits svc s t"
  unfolding emits_def by blast

lemma sendInternal_emits:
  "quiet s u \<Longrightarrow> quiet s (fst (sendInternal svc m timeoutMs tracked w u))
    \<or> emits svc s (fst (sendInternal svc m timeoutMs tracked w u))"
  using sendInternal_cases [of svc m timeoutMs tracked w u]
  by (cases "sendInternal svc m timeoutMs tracked w u") (auto intro: quiet_trans emitsI)

lemma emits_quiet: "emits svc s t \<Longrightarrow> quiet t u \<Longrightarrow> emits svc s u"
  unfolding emits_def by (blast intro: quiet_trans)

lemma send_emits: "quiet s (fst (send svc m timeoutMs w s)) \<or> emits svc s (fst (send svc m timeoutMs w s))"
  unfolding send_def by (rule sendInternal_emits) simp

lemma visibility_emits:
  "quiet s (fst (sendVisibilityChanged svc active timeoutMs w s))
    \<or> emits svc s (fst (sendVisibilityChanged svc active timeoutMs w s))"
  using send_emits by (auto simp: sendVisibilityChanged_def split: option.split)

lemma sendTracked_emits:
  "quiet s (fst (sendTracked svc rid m wt rt now w s))
    \<or> emits svc s (fst (sendTracked svc rid m wt rt now w s))"
proof (cases "reservePendingRequest rid s")
  case (Pair u r)
  have qu: "quiet s u" using quiet_reserve [of s rid s] Pair by simp
  show ?thesis
  proof (cases "session_closed s \<or> wt < 0 \<or> rt < 0 \<or> r = None \<or> m = None")
    case True
    with qu Pair show ?thesis by (auto simp: sendTracked_def split: option.split)
  next
    case False
    then obtain a x where ax: "r = Some a" "m = Some x" by auto
    obtain v b where v: "sendInternal svc x wt True w u = (v, b)" by fastforce
    have t: "fst (sendTracked svc rid m wt rt now w s) =
        (if b then publish_reservation a (now + rt) v else removePendingRequest rid a v)"
      using False Pair ax v by (auto simp: sendTracked_def split: bool.split)
    have "quiet v (if b then publish_reservation a (now + rt) v else removePendingRequest rid a v)"
      by simp
    with sendInternal_emits [OF qu, of svc x wt True w] v t show ?thesis
      by (auto intro: quiet_trans emits_quiet)
  qed
qed

lemma submitInternal_emits:
  assumes "quiet s u"
  shows "quiet s (fst (submitInternal svc m tracked r w u))
    \<or> emits svc s (fst (submitInternal svc m tracked r w u))"
proof (cases "prepareSend svc m tracked u")
  case (Pair v f)
  show ?thesis
  proof (cases f)
    case None
    with Pair have "quiet u v" by (simp add: prepareSend_None)
    with assms have "quiet s v" by (rule quiet_trans)
    with Pair None show ?thesis by (simp add: submitInternal_def)
  next
    case (Some frame)
    with Pair have "v = u" using prepareSend_Some(1) by blast
    with Pair Some have "sends_of svc u m" by (auto simp: sends_of_def)
    with assms have "emits svc s (noteAcceptedSend m u)" by (rule emitsI) simp
    with \<open>v = u\<close> Pair Some assms show ?thesis
      by (cases "w frame") (simp add: submitInternal_def)
  qed
qed

lemma submitRouteLoad_emits:
  "quiet s (fst (submitRouteLoad svc rid route timeoutMs w s))
    \<or> emits svc s (fst (submitRouteLoad svc rid route timeoutMs w s))"
proof (cases "reservePendingRequest rid s")
  case (Pair u r)
  have "quiet s u" using quiet_reserve [of s rid s] Pair by simp
  with Pair submitInternal_emits [of s u] show ?thesis
    by (auto simp: submitRouteLoad_def split: option.split)
qed

lemmas send_operations_emit = send_emits visibility_emits sendTracked_emits submitRouteLoad_emits
  submitInternal_emits [OF quiet_refl]

section \<open>The protocol invariant\<close>

definition tracked_type :: "protocol_type \<Rightarrow> bool" where
  "tracked_type t \<longleftrightarrow> t = Request \<or> t = RouteLoad \<or> t = NavigationRequest"

definition tracked_ids :: "protocol_message list \<Rightarrow> qstring list" where
  "tracked_ids ms = map message_requestId (filter (\<lambda>m. tracked_type (message_type m)) ms)"

definition metadata_after_ready :: "protocol_message list \<Rightarrow> bool" where
  "metadata_after_ready ms \<longleftrightarrow> (\<forall>i < length ms. message_type (ms ! i) = PageMetadata \<longrightarrow>
     Ready \<in> message_type ` set (take i ms))"

definition nonce_of :: "protocol_message \<Rightarrow> qstring" where
  "nonce_of m = toString (json_member (message_payload m) ''nonce'')"

text \<open>
  What an end may accept: the peer's half of the handshake first, with the nonce this end knows, then
  only messages of the peer's direction, no second handshake, no request id twice and at most 4096
  of them, and page metadata only after the worker's \<open>ready\<close>.
\<close>

definition legal_accepted :: "ipc_role \<Rightarrow> qstring \<Rightarrow> protocol_message list \<Rightarrow> bool" where
  "legal_accepted r nonce ms \<longleftrightarrow>
     (ms \<noteq> [] \<longrightarrow> message_type (hd ms) = (if r = Host then Handshake else HandshakeAck)
        \<and> (r = Host \<longrightarrow> nonce_of (hd ms) = nonce))
     \<and> list_all (\<lambda>m. incomingTypeAllowed r (message_type m)
          \<and> message_type m \<noteq> Handshake \<and> message_type m \<noteq> HandshakeAck) (tl ms)
     \<and> distinct (tracked_ids ms) \<and> length (tracked_ids ms) \<le> 4096
     \<and> (r = Host \<longrightarrow> metadata_after_ready ms)"

text \<open>
  What an end may send: its half of the handshake first (for the host the acknowledgement of the
  nonce with the app identity), then only messages of its direction, and for the worker page
  metadata only after \<open>ready\<close>.
\<close>

definition legal_sent :: "ipc_role \<Rightarrow> qstring \<Rightarrow> qstring \<Rightarrow> protocol_message list \<Rightarrow> bool" where
  "legal_sent r nonce appIdentity ms \<longleftrightarrow>
     (ms \<noteq> [] \<longrightarrow> (if r = Host
        then message_type (hd ms) = HandshakeAck \<and> nonce_of (hd ms) = nonce
          \<and> toString (json_member (message_payload (hd ms)) ''appIdentity'') = appIdentity
        else message_type (hd ms) = Handshake))
     \<and> list_all (\<lambda>m. outgoingTypeAllowed r (message_type m)) ms
     \<and> (r = Worker \<longrightarrow> metadata_after_ready ms)"

definition handshake_state :: "ipc_session \<Rightarrow> bool" where
  "handshake_state s \<longleftrightarrow>
     (accepted s \<noteq> [] \<longrightarrow> authenticated s) \<and> (authenticated s \<longrightarrow> accepted s \<noteq> [] \<or> session_closed s)
     \<and> (role s = Host \<longrightarrow> sent s \<noteq> [] \<longrightarrow> authenticated s)
     \<and> (role s = Host \<longrightarrow> authenticated s \<longrightarrow> sent s \<noteq> [] \<or> session_closed s)
     \<and> (role s = Worker \<longrightarrow> (outboundNonce s \<noteq> [] \<longleftrightarrow> sent s \<noteq> []))
     \<and> (role s = Worker \<longrightarrow> \<not> authenticated s \<longrightarrow> length (sent s) \<le> 1)
     \<and> (role s = Worker \<longrightarrow> authenticated s \<longrightarrow> sent s \<noteq> [])"

definition ready_state :: "ipc_session \<Rightarrow> bool" where
  "ready_state s \<longleftrightarrow> (peerReady s \<longrightarrow> Ready \<in> message_type ` set (accepted s))
     \<and> (readySent s \<longrightarrow> Ready \<in> message_type ` set (sent s))"

definition session_inv :: "ipc_session \<Rightarrow> bool" where
  "session_inv s \<longleftrightarrow> handshake_state s \<and> ready_state s
     \<and> receivedRequestIds s = rev (tracked_ids (accepted s))
     \<and> legal_accepted (role s) (context_nonce s) (accepted s)
     \<and> legal_sent (role s) (context_nonce s) (context_appIdentity s) (sent s)"

lemma session_inv_quiet:
  assumes "session_inv s" and "quiet s t"
  shows "session_inv t"
  using assms
  by (auto simp: session_inv_def handshake_state_def ready_state_def quiet_def)

lemma metadata_after_ready_snoc:
  "metadata_after_ready ms \<Longrightarrow>
    (message_type m = PageMetadata \<longrightarrow> Ready \<in> message_type ` set ms) \<Longrightarrow>
    metadata_after_ready (ms @ [m])"
  by (simp add: metadata_after_ready_def nth_append less_Suc_eq all_conj_distrib imp_conjL)

lemma legal_sent_snoc:
  assumes "legal_sent r nonce ident ms" and "ms \<noteq> []" and "outgoingTypeAllowed r (message_type m)"
    and "r = Worker \<longrightarrow> message_type m = PageMetadata \<longrightarrow> Ready \<in> message_type ` set ms"
  shows "legal_sent r nonce ident (ms @ [m])"
  using assms by (auto simp: legal_sent_def intro!: metadata_after_ready_snoc)

lemma nonce_nonempty:
  "well_formed_message tx m \<Longrightarrow> message_type m = Handshake \<Longrightarrow> nonce_of m \<noteq> []"
  by (auto simp: well_formed_message_def nonce_of_def validToken_def)

lemma session_inv_note:
  assumes inv: "session_inv s" and send: "sends_of svc s m"
  shows "session_inv (noteAcceptedSend m s)"
proof -
  obtain tracked frame where p: "prepareSend svc m tracked s = (s, Some frame)"
    using send by (auto simp: sends_of_def)
  note guards = prepareSend_Some(2-) [OF p]
  show ?thesis
  proof (cases "authenticated s")
    case False
    with guards have m: "role s = Worker" "message_type m = Handshake" "outboundNonce s = []"
      and wf: "well_formed_message (texts svc) m" by auto
    with inv have "sent s = []" by (auto simp: session_inv_def handshake_state_def)
    moreover have "nonce_of m \<noteq> []" using wf m by (simp add: nonce_nonempty)
    ultimately show ?thesis
      using inv m False
      by (auto simp: session_inv_def handshake_state_def ready_state_def noteAcceptedSend_def Let_def
          legal_sent_def metadata_after_ready_def outgoingTypeAllowed_def nonce_of_def)
  next
    case True
    with inv guards(1) have ne: "sent s \<noteq> []"
      by (cases "role s") (auto simp: session_inv_def handshake_state_def)
    have legal: "legal_sent (role s) (context_nonce s) (context_appIdentity s) (sent s @ [m])"
      using inv ne guards(3) [OF True] guards(4)
      by (intro legal_sent_snoc) (auto simp: session_inv_def ready_state_def)
    have nonce: "message_type m = Handshake \<Longrightarrow> nonce_of m \<noteq> []"
      using guards(5) by (rule nonce_nonempty)
    show ?thesis
      using inv ne legal True nonce
      by (auto simp: session_inv_def handshake_state_def ready_state_def noteAcceptedSend_def Let_def
          nonce_of_def)
  qed
qed

lemma session_inv_emits: "session_inv s \<Longrightarrow> quiet s t \<or> emits svc s t \<Longrightarrow> session_inv t"
  unfolding emits_def by (blast intro: session_inv_quiet session_inv_note)

section \<open>Accepted frames\<close>

lemma trackMessage_fail:
  "trackMessage m s = Inl r \<Longrightarrow> quiet (s\<lparr>session_closed := True\<rparr>) (fst r)"
  by (auto simp: trackMessage_def Let_def quiet_def session_fail_def session_close_def
      pruneTerminalPendingRequests_def split: if_splits)

lemma trackMessage_ok:
  assumes "trackMessage m s = Inr t"
  shows "quiet (s\<lparr>receivedRequestIds := receivedRequestIds t\<rparr>) t"
    and "if tracked_type (message_type m) then receivedRequestIds t = message_requestId m # receivedRequestIds s
        \<and> message_requestId m \<notin> set (receivedRequestIds s) \<and> length (receivedRequestIds s) < 4096
      else receivedRequestIds t = receivedRequestIds s"
  using assms
  by (auto simp: trackMessage_def Let_def quiet_def tracked_type_def maximumRememberedRequestIds_def
      pruneTerminalPendingRequests_def split: if_splits)

lemma tracked_ids_snoc:
  "tracked_ids (ms @ [m]) = tracked_ids ms
    @ (if tracked_type (message_type m) then [message_requestId m] else [])"
  by (simp add: tracked_ids_def)

definition admissible :: "bool \<Rightarrow> protocol_message \<Rightarrow> ipc_session \<Rightarrow> bool" where
  "admissible first m s \<longleftrightarrow> session_inv (s\<lparr>session_closed := True\<rparr>) \<and> authenticated s
     \<and> (role s = Host \<longrightarrow> sent s \<noteq> [])
     \<and> (if first then accepted s = [] \<and> message_type m = (if role s = Host then Handshake else HandshakeAck)
          \<and> (role s = Host \<longrightarrow> nonce_of m = context_nonce s)
        else accepted s \<noteq> [] \<and> message_type m \<noteq> Handshake \<and> message_type m \<noteq> HandshakeAck)"

lemma admit_fail:
  assumes "session_inv (s\<lparr>session_closed := True\<rparr>)" and "quiet (s\<lparr>session_closed := True\<rparr>) t"
  shows "session_inv t"
  using assms by (rule session_inv_quiet)

lemma legal_accepted_snoc:
  assumes "legal_accepted r nonce ms"
    and "if ms = [] then message_type m = (if r = Host then Handshake else HandshakeAck)
        \<and> (r = Host \<longrightarrow> nonce_of m = nonce)
      else incomingTypeAllowed r (message_type m) \<and> message_type m \<noteq> Handshake
        \<and> message_type m \<noteq> HandshakeAck"
    and "tracked_type (message_type m) \<Longrightarrow>
      message_requestId m \<notin> set (tracked_ids ms) \<and> length (tracked_ids ms) < 4096"
    and "r = Host \<Longrightarrow> message_type m = PageMetadata \<Longrightarrow> Ready \<in> message_type ` set ms"
  shows "legal_accepted r nonce (ms @ [m])"
proof -
  have "distinct (tracked_ids (ms @ [m]))" "length (tracked_ids (ms @ [m])) \<le> 4096"
    using assms(1,3) by (auto simp: legal_accepted_def tracked_ids_snoc)
  moreover have "r = Host \<Longrightarrow> metadata_after_ready (ms @ [m])"
    using assms(1,4) by (intro metadata_after_ready_snoc) (auto simp: legal_accepted_def)
  ultimately show ?thesis
    using assms(1,2) by (cases "ms = []") (auto simp: legal_accepted_def split: if_splits)
qed

lemma session_inv_admit:
  assumes adm: "admissible first m s"
  shows "session_inv (fst (admitMessage first m elapsed s))"
proof -
  have inv: "session_inv (s\<lparr>session_closed := True\<rparr>)" and auth: "authenticated s"
    and sent: "role s = Host \<longrightarrow> sent s \<noteq> []"
    using adm by (simp_all add: admissible_def)
  have failed: "session_inv (fst (session_fail st code u))" if "quiet s u" for st code u
    by (rule admit_fail [OF inv]) (use that in \<open>simp add: quiet_def session_fail_def session_close_def\<close>)
  let ?u = "if role s = Host \<and> message_type m = Ready then s\<lparr>peerReady := True\<rparr> else s"
  show ?thesis
  proof (cases "(\<not> first \<and> \<not> incomingTypeAllowed (role s) (message_type m))
      \<or> (role s = Host \<and> message_type m = PageMetadata \<and> \<not> peerReady s)")
    case True
    then show ?thesis using failed [of s] by (auto simp: admitMessage_def)
  next
    case False
    show ?thesis
    proof (cases "trackMessage m ?u")
      case (Inl r)
      have u: "session_inv (?u\<lparr>session_closed := True\<rparr>)" if "message_type m \<noteq> Ready \<or> role s \<noteq> Host"
        using inv that by auto
      have "message_type m \<noteq> Ready"
        using Inl by (auto simp: trackMessage_def Let_def split: if_splits)
      with False Inl u trackMessage_fail [OF Inl] show ?thesis
        by (auto simp: admitMessage_def Let_def intro: admit_fail)
    next
      case (Inr t)
      note t = trackMessage_ok [OF Inr]
      let ?t = "t\<lparr>lastPeerActivityMs := max 1 elapsed, accepted := accepted t @ [m]\<rparr>"
      have legal: "legal_accepted (role s) (context_nonce s) (accepted s @ [m])"
      proof (rule legal_accepted_snoc)
        show "legal_accepted (role s) (context_nonce s) (accepted s)"
          using inv by (simp add: session_inv_def)
        show "if accepted s = [] then message_type m = (if role s = Host then Handshake else HandshakeAck)
            \<and> (role s = Host \<longrightarrow> nonce_of m = context_nonce s)
          else incomingTypeAllowed (role s) (message_type m) \<and> message_type m \<noteq> Handshake
            \<and> message_type m \<noteq> HandshakeAck"
          using adm False by (auto simp: admissible_def split: if_splits)
        show "tracked_type (message_type m) \<Longrightarrow>
            message_requestId m \<notin> set (tracked_ids (accepted s)) \<and> length (tracked_ids (accepted s)) < 4096"
          using t(2) inv by (auto simp: session_inv_def split: if_splits)
        show "role s = Host \<Longrightarrow> message_type m = PageMetadata \<Longrightarrow>
            Ready \<in> message_type ` set (accepted s)"
          using False inv by (auto simp: session_inv_def ready_state_def)
      qed
      have eqs: "role t = role s" "context_nonce t = context_nonce s"
        "context_appIdentity t = context_appIdentity s" "authenticated t = authenticated s"
        "outboundNonce t = outboundNonce s" "readySent t = readySent s" "accepted t = accepted s"
        "sent t = sent s" "peerReady t \<longrightarrow> peerReady s \<or> message_type m = Ready"
        using t(1) by (auto simp: quiet_def split: if_splits)
      have ids: "receivedRequestIds t = rev (tracked_ids (accepted s @ [m]))"
        using t(2) inv by (auto simp: session_inv_def tracked_ids_snoc split: if_splits)
      have "handshake_state ?t"
        using inv auth sent eqs by (auto simp: session_inv_def handshake_state_def)
      moreover have "ready_state ?t"
        using inv eqs by (auto simp: session_inv_def ready_state_def)
      moreover have "legal_sent (role s) (context_nonce s) (context_appIdentity s) (sent s)"
        using inv by (simp add: session_inv_def)
      ultimately have "session_inv ?t"
        using legal ids eqs by (simp add: session_inv_def)
      with False Inr show ?thesis by (auto simp: admitMessage_def Let_def)
    qed
  qed
qed

lemma unauthenticated_host:
  assumes "session_inv s" and "role s = Host" and "\<not> authenticated s"
  shows "session_inv (s\<lparr>authenticated := True, session_closed := True\<rparr>)"
    and "accepted s = []" and "sent s = []"
  using assms by (auto simp: session_inv_def handshake_state_def ready_state_def)

lemma authenticateHost_fail:
  assumes inv: "session_inv s" "role s = Host" "\<not> authenticated s"
    and "authenticateHost svc m w s = Inl r"
  shows "session_inv (fst r)"
proof -
  let ?s = "s\<lparr>authenticated := True\<rparr>"
  have plain: "session_inv (fst (session_fail st code s))" for st code
    by (rule session_inv_quiet [OF inv(1)]) (simp add: quiet_closed)
  have greeted: "session_inv (fst (session_fail st code t))" if "quiet ?s t" for st code t
    by (rule session_inv_quiet [OF unauthenticated_host(1) [OF inv]])
      (use that in \<open>simp add: quiet_def session_fail_def session_close_def\<close>)
  have "quiet ?s (fst (send svc a 1000 w ?s))" if "\<not> snd (send svc a 1000 w ?s)" for a
    using sendInternal_cases [of svc a 1000 False w ?s] that
    by (cases "sendInternal svc a 1000 False w ?s") (auto simp: send_def)
  with plain greeted greeted [of ?s] assms(4) show ?thesis
    by (auto simp: authenticateHost_def Let_def split: if_splits option.splits prod.splits bool.splits)
      (metis fst_conv snd_conv)+
qed

lemma authenticateHost_ok:
  assumes inv: "session_inv s" "role s = Host" "\<not> authenticated s"
    and "authenticateHost svc m w s = Inr t"
  shows "admissible True m t"
proof -
  let ?s = "s\<lparr>authenticated := True\<rparr>"
  from assms(4) obtain a where m: "message_type m = Handshake" "nonce_of m = context_nonce s"
    and a: "handshakeAck_message (texts svc) (context_nonce s) (context_appIdentity s) = Some a"
    and send: "send svc a 1000 w ?s = (t, True)"
    by (auto simp: authenticateHost_def Let_def nonce_of_def
        split: if_splits option.splits prod.splits bool.splits)
  have t: "t = noteAcceptedSend a ?s"
    using sendInternal_cases [of svc a 1000 False w ?s] send by (auto simp: send_def)
  have "a = \<lparr>message_type = HandshakeAck, message_requestId = [], message_payload =
      json_object_of [(''nonce'', JString (context_nonce s)),
        (''appIdentity'', JString (context_appIdentity s))]\<rparr>"
    using a by (simp add: handshakeAck_message_def validated_iff)
  then have "legal_sent Host (context_nonce s) (context_appIdentity s) [a]"
    by (simp add: legal_sent_def nonce_of_def outgoingTypeAllowed_def)
  with unauthenticated_host [OF inv] inv m show ?thesis
    by (auto simp: admissible_def t noteAcceptedSend_def Let_def session_inv_def handshake_state_def
        ready_state_def)
qed

lemma authenticateWorker_fail:
  "session_inv s \<Longrightarrow> authenticateWorker m s = Inl r \<Longrightarrow> session_inv (fst r)"
  by (auto simp: authenticateWorker_def split: if_splits intro!: session_inv_quiet [of s] quiet_closed)

lemma authenticateWorker_ok:
  assumes "session_inv s" "role s = Worker" "\<not> authenticated s"
    and "authenticateWorker m s = Inr t"
  shows "admissible True m t"
  using assms
  by (auto simp: authenticateWorker_def admissible_def session_inv_def handshake_state_def
      ready_state_def split: if_splits)

lemma session_inv_processFrame:
  assumes inv: "session_inv s" and "\<not> session_closed s"
  shows "session_inv (fst (processFrame svc object w elapsed s))"
proof -
  have failed: "session_inv (fst (session_fail st code s))" for st code
    by (rule session_inv_quiet [OF inv]) (simp add: quiet_closed)
  show ?thesis
  proof (cases "parse (texts svc) object")
    case (Inl e)
    with failed show ?thesis by (cases e) (simp add: processFrame_def)
  next
    case (Inr m)
    show ?thesis
    proof (cases "authenticated s")
      case False
      then show ?thesis
        using Inr inv authenticateHost_fail authenticateHost_ok authenticateWorker_fail
          authenticateWorker_ok session_inv_admit
        by (cases "role s") (simp add: processFrame_def split: sum.split)+
    next
      case True
      have "accepted s \<noteq> []" using inv assms(2) True by (auto simp: session_inv_def handshake_state_def)
      moreover have "session_inv (s\<lparr>session_closed := True\<rparr>)"
        by (rule session_inv_quiet [OF inv]) (simp add: quiet_closed)
      moreover have "role s = Host \<Longrightarrow> sent s \<noteq> []"
        using inv assms(2) True by (auto simp: session_inv_def handshake_state_def)
      ultimately have "message_type m \<noteq> Handshake \<Longrightarrow> message_type m \<noteq> HandshakeAck \<Longrightarrow>
          admissible False m s"
        using True by (simp add: admissible_def)
      with True Inr failed show ?thesis
        by (auto simp: processFrame_def session_inv_admit)
    qed
  qed
qed

lemma session_inv_processFrames:
  "session_inv s \<Longrightarrow> \<not> session_closed s \<Longrightarrow> session_inv (fst (processFrames svc w elapsed objects s))"
proof (induction objects arbitrary: s)
  case Nil
  then show ?case by simp
next
  case (Cons object objects)
  obtain t r where p: "processFrame svc object w elapsed s = (t, r)" by fastforce
  have t: "session_inv t" using session_inv_processFrame [OF Cons.prems, of svc object w elapsed] p by simp
  show ?case
  proof (cases "result_status r = MessageReady \<and> result_message r \<noteq> None")
    case False
    with p t show ?thesis by (auto split: session_status.split option.split)
  next
    case True
    then obtain m where m: "result_message r = Some m" by auto
    let ?u = "deliverQueuedPageMetadata (t\<lparr>receivedMessages := receivedMessages t
      @ [\<lparr>queued_body = m, pageMetadataDelivered = False\<rparr>]\<rparr>)"
    have "session_inv ?u" by (rule session_inv_quiet [OF t]) (simp add: quiet_deliver)
    with Cons.IH [of ?u] p True m show ?thesis by (simp add: Let_def)
  qed
qed

lemma session_closed_simps [simp]:
  "session_closed (routeLoad_written w s) = session_closed s"
  "session_closed (fst (pendingRequestExpired now s)) = session_closed s"
  "session_closed (fst (dequeueMessage s)) = session_closed s"
  by (simp_all add: routeLoad_written_def end_reservation_def publish_reservation_def
      pendingRequestExpired_def pruneTerminalPendingRequests_def dequeueMessage_def Let_def
      split: list.split)

lemma session_closed_written [simp]:
  "session_closed (fold routeLoad_written ws s) = session_closed s"
  by (induction ws arbitrary: s) simp_all

lemma processFrames_open:
  "processFrames svc w elapsed objects s = (t, None) \<Longrightarrow> \<not> session_closed s \<Longrightarrow> \<not> session_closed t"
  by (induction objects arbitrary: s)
    (auto simp: Let_def split: prod.splits session_status.splits option.splits if_splits)

text \<open>A round reads from the codec, admits frames, and is otherwise quiet.\<close>

definition round_state :: "ipc_session \<times> receive_result + ipc_session \<Rightarrow> ipc_session" where
  "round_state x = (case x of Inl r \<Rightarrow> fst r | Inr t \<Rightarrow> t)"

lemma round_state_simps [simp]: "round_state (Inl r) = fst r" "round_state (Inr t) = t"
  by (simp_all add: round_state_def)

definition frames_round :: "ipc_services \<Rightarrow> reading \<Rightarrow> ipc_session \<Rightarrow> ipc_session \<Rightarrow> bool" where
  "frames_round svc r s t \<longleftrightarrow> (\<exists>u objects. quiet s u \<and> \<not> session_closed u
     \<and> quiet (fst (processFrames svc (ack_write r) (session_elapsed r) objects u)) t)"

lemma receive_round_cases:
  assumes "\<not> session_closed s"
  shows "quiet s (round_state (receive_round svc timeoutMs c r s))
    \<or> frames_round svc r s (round_state (receive_round svc timeoutMs c r s))"
    and "receive_round svc timeoutMs c r s = Inr t \<Longrightarrow> \<not> session_closed t"
proof -
  define u where "u = fold routeLoad_written (writes_done r) s"
  have u: "quiet s u" "\<not> session_closed u"
    using assms by (simp_all add: u_def quiet_fold_written)
  obtain status bytes where read: "readSome r (read_timeout timeoutMs r u) = (status, bytes)"
    by fastforce
  obtain v expired where v: "pendingRequestExpired (now_after_read r) u = (v, expired)" by fastforce
  have qv: "quiet s v" "\<not> session_closed v"
    using u quiet_expired [of s "now_after_read r" u] session_closed_simps(2) [of "now_after_read r" u]
    by (simp_all add: v)
  obtain d frames where d: "feed (framing svc) (codec u) bytes = (d, frames)" by fastforce
  let ?u = "u\<lparr>codec := d\<rparr>"
  have qu: "quiet s ?u" "\<not> session_closed ?u" using u by simp_all
  obtain x res where x: "processFrames svc (ack_write r) (session_elapsed r) (feed_frames frames) ?u
    = (x, res)" by fastforce
  obtain y res2 where y: "dequeueMessage x = (y, res2)" by fastforce
  have qy: "quiet x y" "session_closed y = session_closed x"
    using quiet_dequeue [of x x] session_closed_simps(3) [of x] by (simp_all add: y)
  have open_x: "res = None \<Longrightarrow> \<not> session_closed x" using processFrames_open x qu by blast
  have frames: "frames_round svc r s t" if "quiet x t" for t
    unfolding frames_round_def using qu x that
    by (intro exI [of _ ?u] exI [of _ "feed_frames frames"]) simp
  note eq = receive_round_def [of svc timeoutMs c r s, folded u_def, unfolded Let_def read v d x prod.case]
  show "quiet s (round_state (receive_round svc timeoutMs c r s))
    \<or> frames_round svc r s (round_state (receive_round svc timeoutMs c r s))"
    unfolding eq Let_def
    using u qv qu frames [of x] frames [OF qy(1)] frames [OF quiet_timeout [OF qy(1)]]
    by (auto simp: read v d x y Let_def quiet_closed quiet_timeout split: option.split)
  show "receive_round svc timeoutMs c r s = Inr t \<Longrightarrow> \<not> session_closed t"
    unfolding eq Let_def
    using qv qy(2) open_x
    by (auto simp: read v d x y Let_def split: option.splits if_splits)
qed

lemma session_inv_frames_round:
  "session_inv s \<Longrightarrow> frames_round svc r s t \<Longrightarrow> session_inv t"
  unfolding frames_round_def by (blast intro: session_inv_quiet session_inv_processFrames)

lemma session_inv_loop:
  "session_inv s \<Longrightarrow> \<not> session_closed s \<Longrightarrow>
    session_inv (fst (receive_loop svc timeoutMs c readings s))"
proof (induction readings arbitrary: s)
  case Nil
  then show ?case by simp
next
  case (Cons r rs)
  from receive_round_cases [OF Cons.prems(2), of svc timeoutMs c r] Cons.prems(1)
  have "session_inv (round_state (receive_round svc timeoutMs c r s))"
    by (blast intro: session_inv_quiet session_inv_frames_round)
  with Cons.IH receive_round_cases(2) [OF Cons.prems(2), of svc timeoutMs c r] show ?case
    by (auto split: sum.split)
qed

lemma session_inv_receive:
  assumes "session_inv s"
  shows "session_inv (fst (receiveImpl svc timeoutMs c now readings s))"
proof (cases "session_closed s \<or> timeoutMs < 0")
  case True
  with session_inv_quiet [OF assms] show ?thesis by (auto simp: receiveImpl_def quiet_closed)
next
  case False
  obtain v expired where v: "pendingRequestExpired now s = (v, expired)" by fastforce
  have qv: "quiet s v" "\<not> session_closed v"
    using False quiet_expired [of s now s] session_closed_simps(2) [of now s] by (simp_all add: v)
  obtain y res where y: "dequeueMessage v = (y, res)" by fastforce
  have qy: "quiet s y" "\<not> session_closed y"
    using qv quiet_dequeue [of s v] session_closed_simps(3) [of v] by (simp_all add: y)
  have "session_inv y" by (rule session_inv_quiet [OF assms qy(1)])
  with session_inv_loop [of y] qy session_inv_quiet [OF assms quiet_closed [OF qv(1)]]
    session_inv_quiet [OF assms] show ?thesis
    using False by (auto simp: receiveImpl_def v y quiet_closed qv split: bool.split option.split)
qed

lemma ipc_step_emits:
  assumes "\<And>timeoutMs c now readings. e \<noteq> EvReceive timeoutMs c now readings"
  shows "quiet s (fst (ipc_step svc s e)) \<or> emits svc s (fst (ipc_step svc s e))"
proof (cases e)
  case (EvReceive timeoutMs c now readings)
  with assms show ?thesis by blast
qed (simp_all add: send_operations_emit submitSend_def sendRequest_def sendRouteLoad_def
    sendNavigationRequest_def setPageMetadataHandler_def quiet_deliver quiet_closed)

lemma session_inv_step: "session_inv s \<Longrightarrow> session_inv (fst (ipc_step svc s e))"
proof (cases "\<exists>timeoutMs c now readings. e = EvReceive timeoutMs c now readings")
  case True
  then show "session_inv s \<Longrightarrow> ?thesis" by (auto simp: session_inv_receive)
next
  case False
  then show "session_inv s \<Longrightarrow> ?thesis" using ipc_step_emits session_inv_emits by blast
qed

interpretation protocol: machine_invariant "ipc_step svc" session_inv "\<lambda>_. True" for svc
  by unfold_locales (rule session_inv_step)

lemma session_inv_new: "session_inv (new_session valid r nonce ident)"
  by (simp add: session_inv_def new_session_def Let_def handshake_state_def ready_state_def
      tracked_ids_def legal_accepted_def legal_sent_def metadata_after_ready_def)

section \<open>The context never changes\<close>

definition session_context :: "ipc_session \<Rightarrow> ipc_role \<times> qstring \<times> qstring" where
  "session_context s = (role s, context_nonce s, context_appIdentity s)"

lemma context_quiet: "quiet s t \<Longrightarrow> session_context t = session_context s"
  by (simp add: quiet_def session_context_def)

lemma context_fail [simp]: "session_context (fst (session_fail st code s)) = session_context s"
  by (simp add: session_context_def session_fail_def session_close_def)

lemma context_note [simp]: "session_context (noteAcceptedSend m s) = session_context s"
  by (simp add: session_context_def noteAcceptedSend_def Let_def)

lemma context_emits: "quiet s t \<or> emits svc s t \<Longrightarrow> session_context t = session_context s"
  by (auto simp: emits_def dest!: context_quiet)

lemma context_admit: "session_context (fst (admitMessage first m elapsed s)) = session_context s"
proof -
  let ?u = "if role s = Host \<and> message_type m = Ready then s\<lparr>peerReady := True\<rparr> else s"
  have u: "session_context ?u = session_context s" by (simp add: session_context_def)
  show ?thesis
  proof (cases "trackMessage m ?u")
    case (Inl r)
    with context_quiet [OF trackMessage_fail [OF Inl]] show ?thesis
      by (auto simp: admitMessage_def Let_def session_context_def session_fail_def session_close_def
          split: if_splits)
  next
    case (Inr t)
    with context_quiet [OF trackMessage_ok(1) [OF Inr]] show ?thesis
      by (auto simp: admitMessage_def Let_def session_context_def session_fail_def session_close_def
          split: if_splits)
  qed
qed

lemma context_authenticate:
  "authenticateHost svc m w s = Inl r \<Longrightarrow> session_context (fst r) = session_context s"
  "authenticateHost svc m w s = Inr t \<Longrightarrow> session_context t = session_context s"
  "authenticateWorker m s = Inl r \<Longrightarrow> session_context (fst r) = session_context s"
  "authenticateWorker m s = Inr t \<Longrightarrow> session_context t = session_context s"
proof -
  let ?s = "s\<lparr>authenticated := True\<rparr>"
  have c: "session_context (fst (send svc a 1000 w ?s)) = session_context s" for a
    using context_emits [OF send_emits, of svc a 1000 w ?s] by (simp add: session_context_def)
  have fail: "session_context (fst (session_fail st code ?s)) = session_context s" for st code
    by (simp add: session_context_def session_fail_def session_close_def)
  show "authenticateHost svc m w s = Inl r \<Longrightarrow> session_context (fst r) = session_context s"
    using c fail
    by (auto simp: authenticateHost_def Let_def split: if_splits option.splits prod.splits bool.splits)
      (metis fst_conv)+
  show "authenticateHost svc m w s = Inr t \<Longrightarrow> session_context t = session_context s"
    using c
    by (auto simp: authenticateHost_def Let_def split: if_splits option.splits prod.splits bool.splits)
      (metis fst_conv)+
qed (auto simp: authenticateWorker_def session_context_def session_fail_def session_close_def
    split: if_splits)

lemma context_processFrame:
  "session_context (fst (processFrame svc object w elapsed s)) = session_context s"
proof -
  have "admitMessage first m elapsed t = (a, b) \<Longrightarrow> session_context a = session_context t"
    for first m t a b
    using context_admit [of first m elapsed t] by simp
  then show ?thesis
    using context_authenticate
    by (auto simp: processFrame_def context_admit split: sum.split)
qed

lemma context_processFrames:
  "session_context (fst (processFrames svc w elapsed objects s)) = session_context s"
proof (induction objects arbitrary: s)
  case Nil
  then show ?case by simp
next
  case (Cons object objects)
  obtain t r where p: "processFrame svc object w elapsed s = (t, r)" by fastforce
  have t: "session_context t = session_context s"
    using context_processFrame [of svc object w elapsed s] p by simp
  have u: "session_context (deliverQueuedPageMetadata (t\<lparr>receivedMessages := q\<rparr>)) = session_context t" for q
    by (rule context_quiet) (simp add: quiet_deliver)
  show ?case
    using p t u Cons.IH by (auto simp: Let_def split: session_status.split option.split)
qed

lemma context_loop:
  "\<not> session_closed s \<Longrightarrow> session_context (fst (receive_loop svc timeoutMs c readings s)) = session_context s"
proof (induction readings arbitrary: s)
  case Nil
  then show ?case by simp
next
  case (Cons r rs)
  from receive_round_cases(1) [OF Cons.prems, of svc timeoutMs c r]
  have "session_context (round_state (receive_round svc timeoutMs c r s)) = session_context s"
    unfolding frames_round_def by (metis context_processFrames context_quiet)
  with Cons.IH receive_round_cases(2) [OF Cons.prems, of svc timeoutMs c r] show ?case
    by (auto split: sum.split)
qed

lemma context_receive: "session_context (fst (receiveImpl svc timeoutMs c now readings s)) = session_context s"
proof (cases "session_closed s \<or> timeoutMs < 0")
  case True
  then show ?thesis by (auto simp: receiveImpl_def)
next
  case False
  obtain v expired where v: "pendingRequestExpired now s = (v, expired)" by fastforce
  have qv: "quiet s v" "\<not> session_closed v"
    using False quiet_expired [of s now s] session_closed_simps(2) [of now s] by (simp_all add: v)
  obtain y res where y: "dequeueMessage v = (y, res)" by fastforce
  have qy: "quiet s y" "\<not> session_closed y"
    using qv quiet_dequeue [of s v] session_closed_simps(3) [of v] by (simp_all add: y)
  then show ?thesis
    using False context_loop [of y] context_quiet [OF qv(1)] context_quiet [OF qy(1)]
    by (auto simp: receiveImpl_def v y split: bool.split option.split)
qed

lemma context_step: "session_context (fst (ipc_step svc s e)) = session_context s"
proof (cases "\<exists>timeoutMs c now readings. e = EvReceive timeoutMs c now readings")
  case True
  then show ?thesis by (auto simp: context_receive)
next
  case False
  then show ?thesis using ipc_step_emits context_emits by blast
qed

lemma run_inv_context:
  fixes es svc valid r nonce ident
  defines "s \<equiv> final_state (ipc_step svc) (new_session valid r nonce ident) es"
  shows "session_inv s" and "role s = r" "context_nonce s = nonce" "context_appIdentity s = ident"
proof -
  show "session_inv s"
    unfolding s_def by (rule protocol.run_inv) (simp_all add: session_inv_new list_all_iff)
  have "session_context s = session_context (new_session valid r nonce ident)"
    unfolding s_def by (rule protocol.run_frame)
      (simp_all add: session_inv_new context_step list_all_iff)
  then show "role s = r" "context_nonce s = nonce" "context_appIdentity s = ident"
    by (simp_all add: session_context_def new_session_def Let_def)
qed

section \<open>What every run of a session satisfies\<close>

text \<open>
  C9.  In every run of a session, whatever the peer sends and the caller does, the messages the
  session lets through are a legal conversation: the peer's half of the handshake comes first (on
  the host with the launch nonce), later messages have the peer's direction and are no handshakes,
  no request id occurs twice and at most 4096 occur, and the host lets page metadata through only
  after the worker's \<open>ready\<close>.
\<close>

theorem accepted_conversation_legal:
  "legal_accepted r nonce
    (accepted (final_state (ipc_step svc) (new_session valid r nonce appIdentity) es))"
  using run_inv_context [of svc valid r nonce appIdentity es] by (auto simp: session_inv_def)

text \<open>
  C10.  In every run, the messages a session hands to the pipe are a legal conversation of its side:
  a host sends nothing before its acknowledgement of the launch nonce, a worker nothing before its
  handshake (and no second message before it is acknowledged), all of them have the side's
  direction, and a worker sends page metadata only after \<open>ready\<close>.
\<close>

theorem sent_conversation_legal:
  "case final_state (ipc_step svc) (new_session valid r nonce appIdentity) es of s \<Rightarrow>
    legal_sent r nonce appIdentity (sent s)
    \<and> (authenticated s \<or> length (sent s) \<le> (if r = Worker then 1 else 0))"
  using run_inv_context [of svc valid r nonce appIdentity es]
  by (cases r) (auto simp: session_inv_def handshake_state_def)

lemma closed_quiet_send:
  assumes "session_closed s"
  shows "prepareSend svc m tracked s = (s, None)" and "\<not> sends_of svc s m"
  using assms by (auto simp: prepareSend_def sends_of_def Let_def)

lemma closed_not_emits: "session_closed s \<Longrightarrow> \<not> emits svc s t"
  using closed_quiet_send(2) by (auto simp: emits_def quiet_def)

lemma closed_step:
  assumes "session_closed s"
  shows "quiet s (fst (ipc_step svc s e))"
    and "snd (ipc_step svc s e) = Some r \<Longrightarrow> result_message r = None \<and> result_status r = SessionFailed"
proof -
  show "quiet s (fst (ipc_step svc s e))"
  proof (cases "\<exists>timeoutMs c now readings. e = EvReceive timeoutMs c now readings")
    case True
    with assms show ?thesis by (auto simp: receiveImpl_def)
  next
    case False
    then show ?thesis using ipc_step_emits closed_not_emits [OF assms] by blast
  qed
  show "snd (ipc_step svc s e) = Some r \<Longrightarrow> result_message r = None \<and> result_status r = SessionFailed"
    by (cases e) (use assms in \<open>auto simp: receiveImpl_def\<close>)
qed

text \<open>
   A closed session stays closed: whatever is called afterwards, it lets no message through,
  sends nothing, and every receive call answers a failure without a message.
\<close>

theorem closed_is_final:
  assumes "session_closed s"
  shows "session_closed (final_state (ipc_step svc) s es)
    \<and> accepted (final_state (ipc_step svc) s es) = accepted s
    \<and> sent (final_state (ipc_step svc) s es) = sent s
    \<and> list_all (\<lambda>r. case r of None \<Rightarrow> True
        | Some r \<Rightarrow> result_status r = SessionFailed \<and> result_message r = None)
      (snd (run_machine (ipc_step svc) s es))"
  using assms
proof (induction es arbitrary: s)
  case Nil
  then show ?case by simp
next
  case (Cons e es)
  from closed_step(1) [OF Cons.prems, of svc e] Cons.prems
  have "session_closed (fst (ipc_step svc s e))" "accepted (fst (ipc_step svc s e)) = accepted s"
    "sent (fst (ipc_step svc s e)) = sent s" by (simp_all add: quiet_def)
  with Cons.IH [of "fst (ipc_step svc s e)"] closed_step(2) [OF Cons.prems, of svc e]
  show ?case by (auto split: option.split)
qed

definition sample_ipc :: ipc_services where
  "sample_ipc = \<lparr>framing = sample_services, texts = sample_text\<rparr>"

theorem closed_is_final_witness:
  "session_closed (final_state (ipc_step sample_ipc)
     (session_close (new_session True Host (qstr ''n'') (qstr ''app'')))
     [EvSend heartbeat_message 5 (\<lambda>_ _. PipeOk), EvReceive 10 True 0 []])"
  using closed_is_final [of "session_close (new_session True Host (qstr ''n'') (qstr ''app''))"
      sample_ipc "[EvSend heartbeat_message 5 (\<lambda>_ _. PipeOk), EvReceive 10 True 0 []]"]
  by (simp add: session_close_def)

lemma unknown_response:
  assumes "parse (texts svc) object = Inr m" and "message_type m = Response" and "authenticated s"
    and "\<forall>a. (message_requestId m, a) \<in> set (pendingRequests s) \<longrightarrow> request_phase s a = Terminal"
  shows "snd (processFrame svc object w elapsed s) = \<lparr>result_status = SessionFailed,
    result_message = None, result_errorCode = ''ipc.session.unknown_response''\<rparr>"
proof -
  have "message_requestId m \<notin> fst ` set (pendingRequests (pruneTerminalPendingRequests s))"
    using assms(4) by (auto simp: pruneTerminalPendingRequests_def)
  moreover have "incomingTypeAllowed (role s) Response"
    by (cases "role s") (simp_all add: incomingTypeAllowed_def outgoingTypeAllowed_def)
  ultimately show ?thesis
    using assms(1-3) by (simp add: processFrame_def admitMessage_def trackMessage_def Let_def
        session_fail_def)
qed

text \<open>
  C11.  An authenticated session lets a response through exactly when a request with its id is still
  pending, and the response uses the request up: the same frame a second time fails the session
  with \<open>ipc.session.unknown_response\<close>.
\<close>

theorem response_answers_pending_request:
  assumes m: "parse (texts svc) object = Inr m" "message_type m = Response" and auth: "authenticated s"
  shows "(result_status (snd (processFrame svc object w elapsed s)) = MessageReady
      \<longleftrightarrow> (\<exists>a. (message_requestId m, a) \<in> set (pendingRequests s) \<and> request_phase s a \<noteq> Terminal))
    \<and> result_errorCode (snd (processFrame svc object w' elapsed'
        (fst (processFrame svc object w elapsed s)))) = ''ipc.session.unknown_response''"
  (is "(_ \<longleftrightarrow> _) \<and> result_errorCode (snd (processFrame svc object w' elapsed' ?t)) = _")
proof (cases "\<exists>a. (message_requestId m, a) \<in> set (pendingRequests s) \<and> request_phase s a \<noteq> Terminal")
  case True
  have allowed: "incomingTypeAllowed (role s) Response"
    by (cases "role s") (simp_all add: incomingTypeAllowed_def outgoingTypeAllowed_def)
  have found: "message_requestId m \<in> fst ` set (pendingRequests (pruneTerminalPendingRequests s))"
    using True by (force simp: pruneTerminalPendingRequests_def)
  have "snd (processFrame svc object w elapsed s) = \<lparr>result_status = MessageReady,
      result_message = Some m, result_errorCode = ''''\<rparr>"
    using m auth allowed found
    by (simp add: processFrame_def admitMessage_def trackMessage_def Let_def)
  moreover have "authenticated ?t" "\<forall>a. (message_requestId m, a) \<notin> set (pendingRequests ?t)"
    using m auth allowed found
    by (auto simp: processFrame_def admitMessage_def trackMessage_def Let_def
        pruneTerminalPendingRequests_def)
  ultimately show ?thesis
    using True unknown_response [OF m, of ?t] by simp
next
  case False
  then have none: "\<forall>a. (message_requestId m, a) \<in> set (pendingRequests s) \<longrightarrow> request_phase s a = Terminal"
    by blast
  have "message_requestId m \<notin> fst ` set (pendingRequests (pruneTerminalPendingRequests s))"
    using none by (auto simp: pruneTerminalPendingRequests_def)
  then have "?t = fst (session_fail SessionFailed ''ipc.session.unknown_response''
      (pruneTerminalPendingRequests s))"
    using m auth by (cases "role s") (simp_all add: processFrame_def admitMessage_def
        trackMessage_def Let_def incomingTypeAllowed_def outgoingTypeAllowed_def)
  then have "authenticated ?t" "pendingRequests ?t = []"
    using auth by (simp_all add: session_fail_def session_close_def pruneTerminalPendingRequests_def)
  then show ?thesis
    using False unknown_response [OF m auth none] unknown_response [OF m, of ?t] by simp
qed

definition sample_response :: protocol_message where
  "sample_response = \<lparr>message_type = Response, message_requestId = qstr ''r1'',
     message_payload = json_object_of [(''ok'', JBool True), (''result'', JObject fmempty)]\<rparr>"

definition sample_waiting :: ipc_session where
  "sample_waiting = (new_session True Host (qstr ''n'') (qstr ''app''))
     \<lparr>authenticated := True, reservations := [\<lparr>phase = Published, deadlineMonotonicMs = 50\<rparr>],
      pendingRequests := [(qstr ''r1'', 0)]\<rparr>"

lemma sample_response_parses: "parse (texts sample_ipc) (toJson sample_response) = Inr sample_response"
  by (simp add: parse_iff sample_response_def well_formed_message_def needsRequestId_def
      validToken_def maximumTokenCharacters_def qstr_def token_char_def)

theorem response_answers_pending_request_witness:
  "result_status (snd (processFrame sample_ipc (toJson sample_response) (\<lambda>_ _. PipeOk) 7
      sample_waiting)) = MessageReady"
proof -
  have "(message_requestId sample_response, 0) \<in> set (pendingRequests sample_waiting)"
    and "request_phase sample_waiting 0 \<noteq> Terminal" and "authenticated sample_waiting"
    and "message_type sample_response = Response"
    by (simp_all add: sample_response_def sample_waiting_def request_phase_def)
  with response_answers_pending_request [OF sample_response_parses] show ?thesis by blast
qed

definition callbacks :: "'r option list \<Rightarrow> 'r list" where
  "callbacks outs = map the (filter (\<lambda>r. r \<noteq> None) outs)"

lemma delivered_callbacks:
  "delivered a \<Longrightarrow> armed a \<Longrightarrow> callbacks (snd (run_machine armable_step a es)) = []"
proof (induction es arbitrary: a)
  case (Cons e es)
  then show ?case by (cases e) (simp_all add: callbacks_def)
qed (simp add: callbacks_def)

lemma armed_callbacks:
  "armed a \<Longrightarrow> \<not> delivered a \<Longrightarrow> length (callbacks (snd (run_machine armable_step a es))) =
    (if \<exists>r. Complete r \<in> set es then 1 else 0)"
proof (induction es arbitrary: a)
  case (Cons e es)
  then show ?case
    using delivered_callbacks [of "a\<lparr>delivered := True\<rparr>" es]
    by (cases e) (auto simp: callbacks_def)
qed (simp add: callbacks_def)

lemma unarmed_callbacks:
  "\<not> armed a \<Longrightarrow> \<not> delivered a \<Longrightarrow> length (callbacks (snd (run_machine armable_step a es))) =
    (if Arm \<in> set es \<and> (arm_result a \<noteq> None \<or> (\<exists>r. Complete r \<in> set es)) then 1 else 0)"
proof (induction es arbitrary: a)
  case (Cons e es)
  show ?case
  proof (cases e)
    case (Complete r)
    with Cons.IH [of "a\<lparr>arm_result := Some r\<rparr>"] Cons.prems show ?thesis
      by (auto simp: callbacks_def)
  next
    case Arm
    show ?thesis
    proof (cases "arm_result a")
      case None
      with Arm Cons.prems armed_callbacks [of "a\<lparr>armed := True\<rparr>" es] show ?thesis
        by (auto simp: callbacks_def)
    next
      case (Some r)
      with Arm Cons.prems delivered_callbacks
        [of "a\<lparr>armed := True, delivered := True, arm_result := None\<rparr>" es] show ?thesis
        by (auto simp: callbacks_def)
    qed
  qed
qed (simp add: callbacks_def)

text \<open>
   The caller's completion callback of an asynchronous send runs at most once, and it runs
  exactly when the write has completed and the session has finished its bookkeeping, in whichever
  order the two threads get there.
\<close>

theorem completion_runs_once:
  "length (callbacks (snd (run_machine armable_step new_armable es))) =
    (if Arm \<in> set es \<and> (\<exists>r. Complete r \<in> set es) then 1 else 0)"
  using unarmed_callbacks [of new_armable es] by (simp add: new_armable_def)

end
