(* ===== verification/TabModel.thy ===== *)
theory TabModel
  imports Prelude
begin

text \<open>
  The tab model of the host (\<open>apps/host/BrowserTabModel.{h,cpp}\<close>): the open tabs in order, the active
  index, each tab's history, the recently closed tabs, and the signals every operation emits.

  Indices are \<open>int\<close> as in the code (-1 for none).  Signals are returned in emission order; a slot
  that calls a mutating operation finds \<open>mutationInProgress_\<close> set and is refused, so it cannot
  change the model; deleting the model from a slot is not modelled.  \<open>generateId\<close> draws UUIDs until
  one is fresh: the draws of a call are an input list, and running out of draws is \<open>None\<close>.
  \<open>QChar::category\<close> is the parameter \<open>cc\<close> (is the character a control).
\<close>

section \<open>State\<close>

datatype tab_kind = HostTab | AppTab | WebTab | TrustedErrorTab

datatype tab_lifecycle = Dormant | Starting | Loading | Active | Background | LifecycleError | Closing
  | LifecycleRetired

datatype content_identity = QBrowser | SignedApplication | RestrictedWeb

datatype visual_state = Normal | Recovering | CrashedView | ErrorView

record tab_snapshot =
  tab_id :: qstring
  tab_kind :: tab_kind
  tab_title :: qstring
  tab_address :: qstring
  tab_history :: "qstring list"
  historyIndex :: int

record tab_presentation =
  shown_loading :: bool
  shown_progress :: int
  contentIdentity :: content_identity
  shown_visualState :: visual_state

record accessible_presentation =
  accessible_name :: qstring
  accessible_description :: qstring

record tab_state =
  snapshot :: tab_snapshot
  lifecycle :: tab_lifecycle
  tab_loading :: bool
  tab_progress :: int
  visualState :: visual_state

record tab_model =
  tabs :: "tab_state list"
  recentlyClosed :: "tab_snapshot list"
  activeIndex :: int
  mutationInProgress :: bool

datatype tab_signal =
    TabInserted int qstring
  | TabRemoved int qstring
  | TabMoved int int
  | TabChanged int
  | ActiveTabChanged int int
  | PersistenceNeeded

definition new_model :: tab_model where
  "new_model = \<lparr>tabs = [], recentlyClosed = [], activeIndex = -1, mutationInProgress = False\<rparr>"

definition MaxOpenTabs :: int where "MaxOpenTabs = 16"
definition MaxRecentlyClosed :: int where "MaxRecentlyClosed = 16"
definition MaxHistoryEntries :: int where "MaxHistoryEntries = 256"
definition MaxRawTitleCodeUnits :: nat where "MaxRawTitleCodeUnits = 4096"
definition MaxTitleCodeUnits :: nat where "MaxTitleCodeUnits = 256"

section \<open>Titles\<close>

definition isBidiControl :: "qchar \<Rightarrow> bool" where
  "isBidiControl c \<longleftrightarrow> c = 0x061C \<or> c = 0x200E \<or> c = 0x200F \<or> (0x202A \<le> c \<and> c \<le> 0x202E)
     \<or> (0x2066 \<le> c \<and> c \<le> 0x206F)"

text \<open>The loop over the title with \<open>result\<close> and \<open>prefixComplete\<close>.\<close>

fun title_loop :: "(qchar \<Rightarrow> bool) \<Rightarrow> qstring \<Rightarrow> bool \<Rightarrow> qstring \<Rightarrow> qstring option" where
  "title_loop cc result complete [] = Some result"
| "title_loop cc result complete (c # cs) =
     (if isHighSurrogate c then
        (case cs of
           [] \<Rightarrow> None
         | d # ds \<Rightarrow>
             if \<not> isLowSurrogate d then None
             else if \<not> complete \<and> length result + 2 \<le> MaxTitleCodeUnits then
               title_loop cc (result @ [c, d]) (length (result @ [c, d]) = MaxTitleCodeUnits) ds
             else title_loop cc result True ds)
      else if isLowSurrogate c then None
      else if cc c \<or> isBidiControl c then title_loop cc result complete cs
      else if \<not> complete then
        title_loop cc (result @ [c]) (length (result @ [c]) = MaxTitleCodeUnits) cs
      else title_loop cc result complete cs)"

definition canonicalTitle :: "(qchar \<Rightarrow> bool) \<Rightarrow> qstring \<Rightarrow> qstring option" where
  "canonicalTitle cc untrustedTitle =
     (if MaxRawTitleCodeUnits < length untrustedTitle then None
      else title_loop cc [] False untrustedTitle)"

section \<open>Helpers\<close>

fun isValidKind :: "tab_kind \<Rightarrow> bool" where
  "isValidKind HostTab = True"
| "isValidKind AppTab = True"
| "isValidKind WebTab = True"
| "isValidKind TrustedErrorTab = True"

fun isValidLifecycle :: "tab_lifecycle \<Rightarrow> bool" where
  "isValidLifecycle Dormant = True"
| "isValidLifecycle Starting = True"
| "isValidLifecycle Loading = True"
| "isValidLifecycle Active = True"
| "isValidLifecycle Background = True"
| "isValidLifecycle LifecycleError = True"
| "isValidLifecycle Closing = True"
| "isValidLifecycle LifecycleRetired = True"

fun isValidVisualState :: "visual_state \<Rightarrow> bool" where
  "isValidVisualState Normal = True"
| "isValidVisualState Recovering = True"
| "isValidVisualState CrashedView = True"
| "isValidVisualState ErrorView = True"

fun contentIdentityFor :: "tab_kind \<Rightarrow> content_identity" where
  "contentIdentityFor HostTab = QBrowser"
| "contentIdentityFor TrustedErrorTab = QBrowser"
| "contentIdentityFor AppTab = SignedApplication"
| "contentIdentityFor WebTab = RestrictedWeb"

fun identityText :: "content_identity \<Rightarrow> qstring" where
  "identityText QBrowser = qstr ''Q-Browser''"
| "identityText SignedApplication = qstr ''Signed application''"
| "identityText RestrictedWeb = qstr ''Restricted web''"

fun fallbackTitle :: "tab_kind \<Rightarrow> qstring" where
  "fallbackTitle HostTab = qstr ''New tab''"
| "fallbackTitle AppTab = qstr ''Application''"
| "fallbackTitle WebTab = qstr ''Restricted web''"
| "fallbackTitle TrustedErrorTab = qstr ''Error''"

definition defaultVisualStateFor :: "tab_kind \<Rightarrow> visual_state" where
  "defaultVisualStateFor k = (if k = TrustedErrorTab then ErrorView else Normal)"

definition applyValidatedKind :: "tab_state \<Rightarrow> tab_kind \<Rightarrow> tab_state" where
  "applyValidatedKind t k =
     (if tab_kind (snapshot t) = k then t
      else t\<lparr>snapshot := (snapshot t)\<lparr>tab_kind := k\<rparr>, lifecycle := Dormant, tab_loading := False,
             tab_progress := 0, visualState := defaultVisualStateFor k\<rparr>)"

definition dormantState :: "tab_snapshot \<Rightarrow> tab_state" where
  "dormantState s = \<lparr>snapshot = s, lifecycle = Dormant, tab_loading = False, tab_progress = 0,
     visualState = defaultVisualStateFor (tab_kind s)\<rparr>"

definition isValidId :: "qstring \<Rightarrow> bool" where
  "isValidId i \<longleftrightarrow> length i = 32
     \<and> list_all (\<lambda>c. (0x30 \<le> c \<and> c \<le> 0x39) \<or> (0x61 \<le> c \<and> c \<le> 0x66)) i"

definition isValidRestoredSnapshot :: "(qchar \<Rightarrow> bool) \<Rightarrow> tab_snapshot \<Rightarrow> bool" where
  "isValidRestoredSnapshot cc s =
     (if \<not> isValidId (tab_id s) \<or> \<not> isValidKind (tab_kind s) \<or> tab_address s = []
         \<or> tab_history s = [] \<or> MaxHistoryEntries < int (length (tab_history s))
         \<or> historyIndex s < 0 \<or> int (length (tab_history s)) \<le> historyIndex s
         \<or> tab_history s ! nat (historyIndex s) \<noteq> tab_address s
        then False
      else if list_ex (\<lambda>entry. entry = []) (tab_history s) then False
      else (case canonicalTitle cc (tab_title s) of None \<Rightarrow> False | Some t \<Rightarrow> t = tab_title s))"

definition tab_count :: "tab_model \<Rightarrow> int" where
  "tab_count m = int (length (tabs m))"

definition isValidIndex :: "tab_model \<Rightarrow> int \<Rightarrow> bool" where
  "isValidIndex m i \<longleftrightarrow> 0 \<le> i \<and> i < tab_count m"

fun index_from :: "int \<Rightarrow> qstring \<Rightarrow> tab_state list \<Rightarrow> int" where
  "index_from i x [] = -1"
| "index_from i x (t # ts) = (if tab_id (snapshot t) = x then i else index_from (i + 1) x ts)"

definition indexOfId :: "tab_model \<Rightarrow> qstring \<Rightarrow> int" where
  "indexOfId m x = index_from 0 x (tabs m)"

definition activeId :: "tab_model \<Rightarrow> qstring" where
  "activeId m = (if isValidIndex m (activeIndex m)
     then tab_id (snapshot (tabs m ! nat (activeIndex m))) else [])"

definition snapshots :: "tab_model \<Rightarrow> tab_snapshot list" where
  "snapshots m = map snapshot (tabs m)"

definition presentationAt :: "tab_model \<Rightarrow> int \<Rightarrow> tab_presentation" where
  "presentationAt m i =
     (let t = tabs m ! nat i in
      \<lparr>shown_loading = tab_loading t, shown_progress = tab_progress t,
       contentIdentity = contentIdentityFor (tab_kind (snapshot t)),
       shown_visualState = visualState t\<rparr>)"

definition accessiblePresentationAt :: "tab_model \<Rightarrow> int \<Rightarrow> accessible_presentation" where
  "accessiblePresentationAt m i =
     (let t = tabs m ! nat i;
          p = presentationAt m i;
          stateText = (case shown_visualState p of
              Recovering \<Rightarrow> qstr ''Recovering''
            | CrashedView \<Rightarrow> qstr ''Crashed''
            | ErrorView \<Rightarrow> qstr ''Error''
            | Normal \<Rightarrow>
                if shown_loading p
                then qstr ''Loading '' @ decimal (nat (shown_progress p)) @ qstr ''%''
                else qstr ''Ready'')
      in \<lparr>accessible_name = if tab_title (snapshot t) = [] then fallbackTitle (tab_kind (snapshot t))
            else tab_title (snapshot t),
          accessible_description = identityText (contentIdentity p) @ qstr '', '' @ stateText\<rparr>)"

text \<open>The UUIDs drawn by a call of \<open>generateId\<close>: the first one no open or closed tab has.\<close>

definition generateId :: "tab_model \<Rightarrow> qstring list \<Rightarrow> qstring option" where
  "generateId m draws =
     find (\<lambda>i. \<not> (0 \<le> indexOfId m i
       \<or> list_ex (\<lambda>s. tab_id s = i) (recentlyClosed m))) draws"

section \<open>Operations\<close>

text \<open>
  \<open>mutationInProgress_\<close> is set for the duration of an operation and restored at its end, so the state
  an operation returns has it as it found it.
\<close>

definition active_changed :: "int \<Rightarrow> int \<Rightarrow> tab_signal list" where
  "active_changed old new = (if new \<noteq> old then [ActiveTabChanged old new] else [])"

definition append_tab :: "tab_snapshot \<Rightarrow> bool \<Rightarrow> tab_model \<Rightarrow> tab_model \<times> tab_signal list" where
  "append_tab s makeActive m =
     (let oldActive = activeIndex m;
          insertedIndex = tab_count m;
          m = m\<lparr>tabs := tabs m @ [dormantState s]\<rparr>;
          m = (if makeActive \<or> activeIndex m < 0 then m\<lparr>activeIndex := insertedIndex\<rparr> else m)
      in (m, [TabInserted insertedIndex (tab_id s)] @ active_changed oldActive (activeIndex m)
             @ [PersistenceNeeded]))"

definition createTab ::
  "(qchar \<Rightarrow> bool) \<Rightarrow> qstring list \<Rightarrow> tab_kind \<Rightarrow> qstring \<Rightarrow> qstring \<Rightarrow> bool \<Rightarrow> tab_model \<Rightarrow>
    (tab_model \<times> tab_signal list \<times> qstring) option" where
  "createTab cc draws kind title canonicalAddress makeActive m =
     (if mutationInProgress m then Some (m, [], [])
      else if MaxOpenTabs \<le> tab_count m \<or> \<not> isValidKind kind \<or> canonicalAddress = []
        then Some (m, [], [])
      else (case canonicalTitle cc title of
          None \<Rightarrow> Some (m, [], [])
        | Some safeTitle \<Rightarrow>
            (case generateId m draws of
               None \<Rightarrow> None
             | Some i \<Rightarrow>
                 let (m, signals) = append_tab \<lparr>tab_id = i, tab_kind = kind, tab_title = safeTitle,
                   tab_address = canonicalAddress, tab_history = [canonicalAddress],
                   historyIndex = 0\<rparr> makeActive m
                 in Some (m, signals, i))))"

definition activateTab :: "int \<Rightarrow> tab_model \<Rightarrow> tab_model \<times> tab_signal list \<times> bool" where
  "activateTab i m =
     (if mutationInProgress m then (m, [], False)
      else if \<not> isValidIndex m i then (m, [], False)
      else if i = activeIndex m then (m, [], True)
      else (m\<lparr>activeIndex := i\<rparr>, [ActiveTabChanged (activeIndex m) i, PersistenceNeeded], True))"

definition list_move :: "nat \<Rightarrow> nat \<Rightarrow> 'a list \<Rightarrow> 'a list" where
  "list_move from to xs =
     (let rest = take from xs @ drop (Suc from) xs
      in take to rest @ [xs ! from] @ drop to rest)"

definition moveTab :: "int \<Rightarrow> int \<Rightarrow> tab_model \<Rightarrow> tab_model \<times> tab_signal list \<times> bool" where
  "moveTab from to m =
     (if mutationInProgress m then (m, [], False)
      else if \<not> isValidIndex m from \<or> \<not> isValidIndex m to then (m, [], False)
      else if from = to then (m, [], True)
      else
        let oldActive = activeIndex m;
            selectedId = activeId m;
            m = m\<lparr>tabs := list_move (nat from) (nat to) (tabs m)\<rparr>;
            m = m\<lparr>activeIndex := indexOfId m selectedId\<rparr>
        in (m, [TabMoved from to] @ active_changed oldActive (activeIndex m) @ [PersistenceNeeded],
            True))"

definition closeTab :: "int \<Rightarrow> tab_model \<Rightarrow> tab_model \<times> tab_signal list \<times> bool" where
  "closeTab i m =
     (if mutationInProgress m then (m, [], False)
      else if \<not> isValidIndex m i then (m, [], False)
      else
        let oldActive = activeIndex m;
            oldActiveId = activeId m;
            closed_tab = snapshot (tabs m ! nat i);
            remembered = recentlyClosed m @ [closed_tab];
            m = m\<lparr>recentlyClosed := drop (length remembered - nat MaxRecentlyClosed) remembered,
                  tabs := take (nat i) (tabs m) @ drop (Suc (nat i)) (tabs m)\<rparr>;
            m = (if tabs m = [] then m\<lparr>activeIndex := -1\<rparr>
                 else if i = oldActive then m\<lparr>activeIndex := min i (tab_count m - 1)\<rparr>
                 else m\<lparr>activeIndex := indexOfId m oldActiveId\<rparr>)
        in (m, [TabRemoved i (tab_id closed_tab)]
              @ (if oldActive \<noteq> activeIndex m \<or> oldActiveId \<noteq> activeId m
                 then [ActiveTabChanged oldActive (activeIndex m)] else [])
              @ [PersistenceNeeded], True))"

definition reopenMostRecentlyClosed ::
  "qstring list \<Rightarrow> bool \<Rightarrow> tab_model \<Rightarrow> (tab_model \<times> tab_signal list \<times> qstring) option" where
  "reopenMostRecentlyClosed draws makeActive m =
     (if mutationInProgress m then Some (m, [], [])
      else if recentlyClosed m = [] \<or> MaxOpenTabs \<le> tab_count m then Some (m, [], [])
      else (case generateId m draws of
          None \<Rightarrow> None
        | Some i \<Rightarrow>
            let s = (last (recentlyClosed m))\<lparr>tab_id := i\<rparr>;
                (m, signals) = append_tab s makeActive
                  (m\<lparr>recentlyClosed := butlast (recentlyClosed m)\<rparr>)
            in Some (m, signals, i)))"

definition update_tab :: "int \<Rightarrow> (tab_state \<Rightarrow> tab_state) \<Rightarrow> tab_model \<Rightarrow> tab_model" where
  "update_tab i f m = m\<lparr>tabs := (tabs m)[nat i := f (tabs m ! nat i)]\<rparr>"

definition truncate_history :: "tab_snapshot \<Rightarrow> qstring list" where
  "truncate_history s =
     (if historyIndex s + 1 < int (length (tab_history s))
      then take (nat (historyIndex s + 1)) (tab_history s) else tab_history s)"

definition visit_address :: "qstring \<Rightarrow> tab_snapshot \<Rightarrow> tab_snapshot" where
  "visit_address address s =
     (let entries = truncate_history s @ [address];
          entries = drop (length entries - nat MaxHistoryEntries) entries
      in s\<lparr>tab_history := entries, historyIndex := int (length entries) - 1, tab_address := address\<rparr>)"

definition navigateTab ::
  "qstring \<Rightarrow> tab_kind \<Rightarrow> qstring \<Rightarrow> tab_model \<Rightarrow> tab_model \<times> tab_signal list \<times> bool" where
  "navigateTab x validatedKind canonicalAddress m =
     (if mutationInProgress m then (m, [], False)
      else let i = indexOfId m x in
      if i < 0 \<or> \<not> isValidKind validatedKind \<or> canonicalAddress = [] then (m, [], False)
      else let s = snapshot (tabs m ! nat i) in
      if 0 \<le> historyIndex s \<and> historyIndex s < int (length (tab_history s))
         \<and> tab_history s ! nat (historyIndex s) = canonicalAddress then
        (if tab_kind s = validatedKind then (m, [], True)
         else (update_tab i (\<lambda>t. applyValidatedKind t validatedKind) m,
               [TabChanged i, PersistenceNeeded], True))
      else (update_tab i (\<lambda>t. applyValidatedKind
              (t\<lparr>snapshot := visit_address canonicalAddress (snapshot t)\<rparr>) validatedKind) m,
            [TabChanged i, PersistenceNeeded], True))"

definition canGoBack :: "tab_model \<Rightarrow> qstring \<Rightarrow> bool" where
  "canGoBack m x \<longleftrightarrow> (let i = indexOfId m x in
     0 \<le> i \<and> 0 < historyIndex (snapshot (tabs m ! nat i)))"

definition canGoForward :: "tab_model \<Rightarrow> qstring \<Rightarrow> bool" where
  "canGoForward m x \<longleftrightarrow> (let i = indexOfId m x; s = snapshot (tabs m ! nat i) in
     0 \<le> i \<and> 0 \<le> historyIndex s \<and> historyIndex s + 1 < int (length (tab_history s)))"

definition step_history :: "int \<Rightarrow> tab_snapshot \<Rightarrow> tab_snapshot" where
  "step_history d s =
     (let i = historyIndex s + d
      in s\<lparr>historyIndex := i, tab_address := tab_history s ! nat i\<rparr>)"

definition goBack :: "qstring \<Rightarrow> tab_kind \<Rightarrow> tab_model \<Rightarrow> tab_model \<times> tab_signal list \<times> bool" where
  "goBack x validatedTargetKind m =
     (if mutationInProgress m then (m, [], False)
      else let i = indexOfId m x in
      if i < 0 \<or> \<not> isValidKind validatedTargetKind \<or> \<not> canGoBack m x then (m, [], False)
      else (update_tab i (\<lambda>t. applyValidatedKind
              (t\<lparr>snapshot := step_history (-1) (snapshot t)\<rparr>) validatedTargetKind) m,
            [TabChanged i, PersistenceNeeded], True))"

definition goForward :: "qstring \<Rightarrow> tab_kind \<Rightarrow> tab_model \<Rightarrow> tab_model \<times> tab_signal list \<times> bool" where
  "goForward x validatedTargetKind m =
     (if mutationInProgress m then (m, [], False)
      else let i = indexOfId m x in
      if i < 0 \<or> \<not> isValidKind validatedTargetKind \<or> \<not> canGoForward m x then (m, [], False)
      else (update_tab i (\<lambda>t. applyValidatedKind
              (t\<lparr>snapshot := step_history 1 (snapshot t)\<rparr>) validatedTargetKind) m,
            [TabChanged i, PersistenceNeeded], True))"

definition setTitle ::
  "(qchar \<Rightarrow> bool) \<Rightarrow> qstring \<Rightarrow> qstring \<Rightarrow> tab_model \<Rightarrow> tab_model \<times> tab_signal list \<times> bool" where
  "setTitle cc x untrustedTitle m =
     (if mutationInProgress m then (m, [], False)
      else let i = indexOfId m x in
      if i < 0 then (m, [], False)
      else (case canonicalTitle cc untrustedTitle of
          None \<Rightarrow> (m, [], False)
        | Some safeTitle \<Rightarrow>
            if tab_title (snapshot (tabs m ! nat i)) = safeTitle then (m, [], True)
            else (update_tab i (\<lambda>t. t\<lparr>snapshot := (snapshot t)\<lparr>tab_title := safeTitle\<rparr>\<rparr>) m,
                  [TabChanged i, PersistenceNeeded], True)))"

definition setLifecycle ::
  "qstring \<Rightarrow> tab_lifecycle \<Rightarrow> tab_model \<Rightarrow> tab_model \<times> tab_signal list \<times> bool" where
  "setLifecycle x l m =
     (if mutationInProgress m then (m, [], False)
      else let i = indexOfId m x in
      if i < 0 \<or> \<not> isValidLifecycle l then (m, [], False)
      else if lifecycle (tabs m ! nat i) = l then (m, [], True)
      else (update_tab i (\<lambda>t. t\<lparr>lifecycle := l\<rparr>) m, [TabChanged i], True))"

definition setLoadState ::
  "qstring \<Rightarrow> bool \<Rightarrow> int \<Rightarrow> tab_model \<Rightarrow> tab_model \<times> tab_signal list \<times> bool" where
  "setLoadState x is_loading progress m =
     (if mutationInProgress m then (m, [], False)
      else let i = indexOfId m x in
      if i < 0 then (m, [], False)
      else let boundedProgress = max 0 (min progress 100); t = tabs m ! nat i in
      if tab_loading t = is_loading \<and> tab_progress t = boundedProgress then (m, [], True)
      else (update_tab i (\<lambda>t. t\<lparr>tab_loading := is_loading, tab_progress := boundedProgress\<rparr>) m,
            [TabChanged i], True))"

definition setVisualState ::
  "qstring \<Rightarrow> visual_state \<Rightarrow> tab_model \<Rightarrow> tab_model \<times> tab_signal list \<times> bool" where
  "setVisualState x v m =
     (if mutationInProgress m then (m, [], False)
      else let i = indexOfId m x in
      if i < 0 \<or> \<not> isValidVisualState v then (m, [], False)
      else if visualState (tabs m ! nat i) = v then (m, [], True)
      else (update_tab i (\<lambda>t. t\<lparr>visualState := v\<rparr>) m, [TabChanged i], True))"

definition alreadyRestored :: "tab_snapshot list \<Rightarrow> int \<Rightarrow> tab_model \<Rightarrow> bool" where
  "alreadyRestored ss active m \<longleftrightarrow>
     activeIndex m = active \<and> recentlyClosed m = [] \<and> length (tabs m) = length ss
     \<and> list_all2 (\<lambda>t s. \<not> (snapshot t \<noteq> s \<or> lifecycle t \<noteq> Dormant \<or> tab_loading t
         \<or> tab_progress t \<noteq> 0 \<or> visualState t \<noteq> defaultVisualStateFor (tab_kind (snapshot t))))
       (tabs m) ss"

definition removal_signals :: "qstring list \<Rightarrow> tab_signal list" where
  "removal_signals oldIds = map (\<lambda>i. TabRemoved (int i) (oldIds ! i)) (rev [0 ..< length oldIds])"

definition insertion_signals :: "qstring list \<Rightarrow> tab_signal list" where
  "insertion_signals ids = map (\<lambda>i. TabInserted (int i) (ids ! i)) [0 ..< length ids]"

definition replaceFromValidatedSnapshot ::
  "(qchar \<Rightarrow> bool) \<Rightarrow> tab_snapshot list \<Rightarrow> int \<Rightarrow> tab_model \<Rightarrow> tab_model \<times> tab_signal list \<times> bool"
  where
  "replaceFromValidatedSnapshot cc ss active m =
     (let restoredCount = int (length ss) in
      if mutationInProgress m then (m, [], False)
      else if MaxOpenTabs < restoredCount \<or> (restoredCount = 0 \<and> active \<noteq> -1)
              \<or> (0 < restoredCount \<and> (active < 0 \<or> restoredCount \<le> active))
        then (m, [], False)
      else if \<not> list_all (isValidRestoredSnapshot cc) ss \<or> \<not> distinct (map tab_id ss)
        then (m, [], False)
      else if alreadyRestored ss active m then (m, [], True)
      else
        (m\<lparr>tabs := map dormantState ss, recentlyClosed := [], activeIndex := active\<rparr>,
         removal_signals (map (tab_id \<circ> snapshot) (tabs m)) @ insertion_signals (map tab_id ss)
         @ (if 0 < restoredCount \<or> activeIndex m \<noteq> -1
            then [ActiveTabChanged (activeIndex m) active] else []), True))"

section \<open>The public slots as one machine\<close>

datatype tab_event =
    CreateTab "qstring list" tab_kind qstring qstring bool
  | ReopenTab "qstring list" bool
  | ActivateTab int
  | MoveTab int int
  | CloseTab int
  | NavigateTab qstring tab_kind qstring
  | GoBack qstring tab_kind
  | GoForward qstring tab_kind
  | SetTitle qstring qstring
  | SetLifecycle qstring tab_lifecycle
  | SetLoadState qstring bool int
  | SetVisualState qstring visual_state
  | ReplaceTabs "tab_snapshot list" int

text \<open>A call whose draws are used up has not returned; it has changed nothing and emitted nothing.\<close>

definition started :: "tab_model \<Rightarrow> (tab_model \<times> tab_signal list \<times> qstring) option \<Rightarrow>
    tab_model \<times> tab_signal list" where
  "started m r = (case r of None \<Rightarrow> (m, []) | Some (m', signals, _) \<Rightarrow> (m', signals))"

abbreviation (input) answered :: "tab_model \<times> tab_signal list \<times> bool \<Rightarrow> tab_model \<times> tab_signal list"
  where "answered r \<equiv> (fst r, fst (snd r))"

fun tab_step :: "(qchar \<Rightarrow> bool) \<Rightarrow> tab_model \<Rightarrow> tab_event \<Rightarrow> tab_model \<times> tab_signal list" where
  "tab_step cc m (CreateTab draws k t a makeActive) = started m (createTab cc draws k t a makeActive m)"
| "tab_step cc m (ReopenTab draws makeActive) = started m (reopenMostRecentlyClosed draws makeActive m)"
| "tab_step cc m (ActivateTab i) = answered (activateTab i m)"
| "tab_step cc m (MoveTab from to) = answered (moveTab from to m)"
| "tab_step cc m (CloseTab i) = answered (closeTab i m)"
| "tab_step cc m (NavigateTab x k a) = answered (navigateTab x k a m)"
| "tab_step cc m (GoBack x k) = answered (goBack x k m)"
| "tab_step cc m (GoForward x k) = answered (goForward x k m)"
| "tab_step cc m (SetTitle x t) = answered (setTitle cc x t m)"
| "tab_step cc m (SetLifecycle x l) = answered (setLifecycle x l m)"
| "tab_step cc m (SetLoadState x b p) = answered (setLoadState x b p m)"
| "tab_step cc m (SetVisualState x v) = answered (setVisualState x v m)"
| "tab_step cc m (ReplaceTabs ss active) = answered (replaceFromValidatedSnapshot cc ss active m)"

text \<open>UUIDs come from \<open>QUuid::createUuid().toString(Id128)\<close>: 32 lower-case hexadecimal digits.\<close>

fun uuid_draws :: "tab_event \<Rightarrow> bool" where
  "uuid_draws (CreateTab draws _ _ _ _) = list_all isValidId draws"
| "uuid_draws (ReopenTab draws _) = list_all isValidId draws"
| "uuid_draws _ = True"

text \<open>An observer that only sees the signals: the ids in order and the active index.\<close>

fun tab_notice :: "qstring list \<times> int \<Rightarrow> tab_signal \<Rightarrow> qstring list \<times> int" where
  "tab_notice (xs, a) (TabInserted i x) = (take (nat i) xs @ [x] @ drop (nat i) xs, a)"
| "tab_notice (xs, a) (TabRemoved i x) = (take (nat i) xs @ drop (Suc (nat i)) xs, a)"
| "tab_notice (xs, a) (TabMoved from to) = (list_move (nat from) (nat to) xs, a)"
| "tab_notice (xs, a) (ActiveTabChanged old new) = (xs, new)"
| "tab_notice (xs, a) (TabChanged i) = (xs, a)"
| "tab_notice (xs, a) PersistenceNeeded = (xs, a)"

end
