(* ===== verification/TabModelProofs.thy ===== *)
theory TabModelProofs
  imports TabModel
begin

text \<open>
  What holds of the tab model in every run: well-formed tabs, an observer of the signals that always
  knows the tab order and the active tab, histories that are zippers, and sessions that can be
  saved and restored.
\<close>

section \<open>Titles\<close>

fun clean_title :: "(qchar \<Rightarrow> bool) \<Rightarrow> qstring \<Rightarrow> bool" where
  "clean_title cc [] = True"
| "clean_title cc (c # cs) =
     (if isHighSurrogate c then
        (case cs of [] \<Rightarrow> False | d # ds \<Rightarrow> isLowSurrogate d \<and> clean_title cc ds)
      else \<not> isLowSurrogate c \<and> \<not> cc c \<and> \<not> isBidiControl c \<and> clean_title cc cs)"

lemma clean_title_append:
  "clean_title cc s \<Longrightarrow> clean_title cc t \<Longrightarrow> clean_title cc (s @ t)"
  by (induction cc s rule: clean_title.induct) (auto split: if_splits list.splits)

lemma title_loop_clean:
  "title_loop cc r complete t = Some u \<Longrightarrow> clean_title cc r \<Longrightarrow> length r \<le> 256 \<Longrightarrow>
    (length r = 256 \<longrightarrow> complete) \<Longrightarrow> clean_title cc u \<and> length u \<le> 256"
proof (induction cc r complete t rule: title_loop.induct)
  case (2 cc r complete c cs)
  show ?case
  proof (cases "isHighSurrogate c")
    case True
    with "2.prems"(1) obtain d ds where cs: "cs = d # ds" "isLowSurrogate d"
      by (auto split: list.splits if_splits)
    have "clean_title cc [c, d]" using True cs by simp
    with "2.prems" have "clean_title cc (r @ [c, d])" by (intro clean_title_append)
    with "2.IH"(1,2) [OF True cs(1)] "2.prems" True cs show ?thesis
      by (auto simp: MaxTitleCodeUnits_def split: if_splits)
  next
    case False
    show ?thesis
    proof (cases "isLowSurrogate c \<or> cc c \<or> isBidiControl c \<or> complete")
      case True
      with "2.IH"(3,5) "2.prems" False show ?thesis by (auto split: if_splits)
    next
      case ok: False
      then have "clean_title cc (r @ [c])" using "2.prems"(2) False by (intro clean_title_append) auto
      with "2.IH"(4) "2.prems" False ok show ?thesis
        by (auto simp: MaxTitleCodeUnits_def)
    qed
  qed
qed simp

lemma title_loop_id:
  "clean_title cc t \<Longrightarrow> length r + length t \<le> 256 \<Longrightarrow> complete = (length r = 256) \<Longrightarrow>
    title_loop cc r complete t = Some (r @ t)"
proof (induction cc r complete t rule: title_loop.induct)
  case (2 cc r complete c cs)
  then show ?case by (cases cs) (auto simp: MaxTitleCodeUnits_def split: if_splits)
qed simp

lemma canonicalTitle_clean:
  "canonicalTitle cc raw = Some t \<Longrightarrow> clean_title cc t \<and> length t \<le> 256"
  using title_loop_clean [of cc "[]" False raw t] by (auto simp: canonicalTitle_def split: if_splits)

lemma canonicalTitle_id:
  "clean_title cc t \<Longrightarrow> length t \<le> 256 \<Longrightarrow> canonicalTitle cc t = Some t"
  using title_loop_id [of cc t "[]" False]
  by (simp add: canonicalTitle_def MaxRawTitleCodeUnits_def)

lemma canonicalTitle_fixed [simp]: "canonicalTitle cc raw = Some t \<Longrightarrow> canonicalTitle cc t = Some t"
  using canonicalTitle_clean canonicalTitle_id by blast

section \<open>Tab ids and indices\<close>

definition ids :: "tab_model \<Rightarrow> qstring list" where
  "ids m = map (tab_id \<circ> snapshot) (tabs m)"

lemma index_from_cases:
  "index_from k x ts = -1 \<and> x \<notin> set (map (tab_id \<circ> snapshot) ts)
    \<or> (\<exists>n < length ts. index_from k x ts = k + int n \<and> tab_id (snapshot (ts ! n)) = x)"
proof (induction ts arbitrary: k)
  case Nil
  then show ?case by simp
next
  case (Cons t ts)
  show ?case
  proof (cases "tab_id (snapshot t) = x")
    case True
    then show ?thesis by (intro disjI2 exI [of _ 0]) simp
  next
    case False
    from Cons [of "k + 1"] show ?thesis
    proof (elim disjE exE conjE)
      fix n assume "n < length ts" "index_from (k + 1) x ts = k + 1 + int n"
        "tab_id (snapshot (ts ! n)) = x"
      with False show ?thesis by (intro disjI2 exI [of _ "Suc n"]) simp
    qed (use False in simp)
  qed
qed

lemma indexOfId_found:
  assumes "0 \<le> indexOfId m x"
  shows "nat (indexOfId m x) < length (tabs m)" and "ids m ! nat (indexOfId m x) = x"
    and "tab_id (snapshot (tabs m ! nat (indexOfId m x))) = x"
  using index_from_cases [of 0 x "tabs m"] assms by (auto simp: indexOfId_def ids_def)

lemma indexOfId_iff: "0 \<le> indexOfId m x \<longleftrightarrow> x \<in> set (ids m)"
  using index_from_cases [of 0 x "tabs m"] by (auto simp: indexOfId_def ids_def)

lemma indexOfId_none: "indexOfId m x < 0 \<longleftrightarrow> x \<notin> set (ids m)"
  using indexOfId_iff [of m x] by linarith

lemma indexOfId_eq:
  assumes "distinct (ids m)" and "n < length (tabs m)"
  shows "indexOfId m (ids m ! n) = int n"
proof -
  have mem: "ids m ! n \<in> set (ids m)" using assms(2) by (simp add: ids_def)
  then have found: "0 \<le> indexOfId m (ids m ! n)" by (simp add: indexOfId_iff)
  note at = indexOfId_found [OF found]
  have "nat (indexOfId m (ids m ! n)) = n"
    using at(1,2) assms nth_eq_iff_index_eq [OF assms(1)] by (simp add: ids_def)
  with found show ?thesis by simp
qed

lemma generateId_fresh:
  assumes "generateId m draws = Some i"
  shows "i \<notin> set (ids m)" and "i \<in> set draws"
proof -
  from assms obtain n where "n < length draws" "i = draws ! n"
    "\<not> (0 \<le> indexOfId m i \<or> list_ex (\<lambda>s. tab_id s = i) (recentlyClosed m))"
    by (auto simp: generateId_def find_Some_iff)
  then show "i \<notin> set (ids m)" "i \<in> set draws" by (auto simp: indexOfId_iff)
qed

section \<open>The invariant\<close>

lemma valid_snapshot_iff:
  "isValidRestoredSnapshot cc s \<longleftrightarrow>
    isValidId (tab_id s) \<and> tab_address s \<noteq> [] \<and> length (tab_history s) \<le> 256
    \<and> 0 \<le> historyIndex s \<and> historyIndex s < int (length (tab_history s))
    \<and> tab_history s ! nat (historyIndex s) = tab_address s
    \<and> list_all (\<lambda>entry. entry \<noteq> []) (tab_history s)
    \<and> canonicalTitle cc (tab_title s) = Some (tab_title s)"
proof -
  have k: "isValidKind k" for k by (cases k) simp_all
  show ?thesis
    by (auto simp: isValidRestoredSnapshot_def k MaxHistoryEntries_def list_ex_iff list_all_iff
        split: option.splits)
qed

definition tab_ok :: "(qchar \<Rightarrow> bool) \<Rightarrow> tab_state \<Rightarrow> bool" where
  "tab_ok cc t \<longleftrightarrow> isValidRestoredSnapshot cc (snapshot t) \<and> 0 \<le> tab_progress t \<and> tab_progress t \<le> 100"

definition tab_inv :: "(qchar \<Rightarrow> bool) \<Rightarrow> tab_model \<Rightarrow> bool" where
  "tab_inv cc m \<longleftrightarrow> list_all (tab_ok cc) (tabs m)
     \<and> list_all (isValidRestoredSnapshot cc) (recentlyClosed m)
     \<and> distinct (ids m) \<and> length (tabs m) \<le> 16 \<and> length (recentlyClosed m) \<le> 16
     \<and> (if tabs m = [] then activeIndex m = -1 else isValidIndex m (activeIndex m))
     \<and> \<not> mutationInProgress m"

lemma tab_inv_new: "tab_inv cc new_model"
  by (simp add: tab_inv_def new_model_def ids_def)

lemma kinds_valid [simp]: "isValidKind k" "isValidLifecycle l" "isValidVisualState v"
proof -
  show "isValidKind k" by (cases k) simp_all
  show "isValidLifecycle l" by (cases l) simp_all
  show "isValidVisualState v" by (cases v) simp_all
qed

lemma dormant_ok: "isValidRestoredSnapshot cc s \<Longrightarrow> tab_ok cc (dormantState s)"
  by (simp add: tab_ok_def dormantState_def)

lemma snapshot_dormant [simp]: "snapshot (dormantState s) = s"
  by (simp add: dormantState_def)

lemma kind_ok: "tab_ok cc t \<Longrightarrow> tab_ok cc (applyValidatedKind t k)"
  by (simp add: tab_ok_def applyValidatedKind_def valid_snapshot_iff)

lemma kind_snapshot [simp]:
  "tab_id (snapshot (applyValidatedKind t k)) = tab_id (snapshot t)"
  "tab_history (snapshot (applyValidatedKind t k)) = tab_history (snapshot t)"
  "historyIndex (snapshot (applyValidatedKind t k)) = historyIndex (snapshot t)"
  "tab_address (snapshot (applyValidatedKind t k)) = tab_address (snapshot t)"
  by (simp_all add: applyValidatedKind_def)

lemma tab_inv_update:
  assumes inv: "tab_inv cc m" and i: "0 \<le> i" "nat i < length (tabs m)"
    and "tab_ok cc (tabs m ! nat i) \<Longrightarrow> tab_ok cc (f (tabs m ! nat i))"
    and "tab_id (snapshot (f (tabs m ! nat i))) = tab_id (snapshot (tabs m ! nat i))"
  shows "tab_inv cc (update_tab i f m)" and "ids (update_tab i f m) = ids m"
    and "activeIndex (update_tab i f m) = activeIndex m"
proof -
  have ok: "tab_ok cc (f (tabs m ! nat i))"
    using assms by (simp add: tab_inv_def list_all_length)
  show ids: "ids (update_tab i f m) = ids m"
    using assms(5) i by (simp add: ids_def update_tab_def map_update list_update_same_conv)
  show "activeIndex (update_tab i f m) = activeIndex m" by (simp add: update_tab_def)
  have "list_all (tab_ok cc) ((tabs m)[nat i := f (tabs m ! nat i)])"
    using inv ok by (auto simp: tab_inv_def list_all_iff dest!: subsetD [OF set_update_subset_insert])
  with inv ids show "tab_inv cc (update_tab i f m)"
    by (auto simp: tab_inv_def update_tab_def isValidIndex_def tab_count_def)
qed
lemma tab_inv_count: "tab_inv cc m \<Longrightarrow> tab_count m \<le> 16 \<and> 0 \<le> tab_count m"
  by (simp add: tab_inv_def tab_count_def)

lemma append_tab_inv:
  assumes inv: "tab_inv cc m" and "tab_count m < 16" and "isValidRestoredSnapshot cc s"
    and "tab_id s \<notin> set (ids m)"
  shows "tab_inv cc (fst (append_tab s makeActive m))"
    and "ids (fst (append_tab s makeActive m)) = ids m @ [tab_id s]"
  using assms by (auto simp: append_tab_def Let_def tab_inv_def ids_def dormant_ok isValidIndex_def
      tab_count_def split: if_splits)

lemma generated_valid:
  "generateId m draws = Some i \<Longrightarrow> list_all isValidId draws \<Longrightarrow> isValidId i"
  using generateId_fresh(2) by (auto simp: list_all_iff)

lemma createTab_inv:
  assumes inv: "tab_inv cc m" and draws: "list_all isValidId draws"
    and res: "createTab cc draws kind title address makeActive m = Some (m', signals, i)"
  shows "tab_inv cc m'"
proof (cases "mutationInProgress m \<or> MaxOpenTabs \<le> tab_count m \<or> address = [] \<or> canonicalTitle cc title = None")
  case True
  with res inv show ?thesis by (auto simp: createTab_def split: if_splits)
next
  case False
  then obtain t where t: "canonicalTitle cc title = Some t" by auto
  with False res obtain x where x: "generateId m draws = Some x" and
    m': "m' = fst (append_tab \<lparr>tab_id = x, tab_kind = kind, tab_title = t, tab_address = address,
      tab_history = [address], historyIndex = 0\<rparr> makeActive m)"
    by (auto simp: createTab_def split: option.splits prod.splits)
  show ?thesis
    unfolding m' using False t generated_valid [OF x draws] generateId_fresh(1) [OF x]
    by (intro append_tab_inv [OF inv]) (simp_all add: MaxOpenTabs_def valid_snapshot_iff)
qed

lemma reopen_inv:
  assumes inv: "tab_inv cc m" and draws: "list_all isValidId draws"
    and res: "reopenMostRecentlyClosed draws makeActive m = Some (m', signals, i)"
  shows "tab_inv cc m'"
proof (cases "mutationInProgress m \<or> recentlyClosed m = [] \<or> MaxOpenTabs \<le> tab_count m")
  case True
  with res inv show ?thesis by (auto simp: reopenMostRecentlyClosed_def split: if_splits)
next
  case False
  let ?m = "m\<lparr>recentlyClosed := butlast (recentlyClosed m)\<rparr>"
  let ?s = "\<lambda>x. (last (recentlyClosed m))\<lparr>tab_id := x\<rparr>"
  from False res obtain x where x: "generateId m draws = Some x"
    and m': "m' = fst (append_tab (?s x) makeActive ?m)"
    by (auto simp: reopenMostRecentlyClosed_def Let_def split: option.splits prod.splits)
  have "isValidRestoredSnapshot cc (last (recentlyClosed m))"
    using inv False by (simp add: tab_inv_def list_all_iff)
  then have "isValidRestoredSnapshot cc (?s x)"
    using generated_valid [OF x draws] by (simp add: valid_snapshot_iff)
  moreover have "tab_inv cc ?m"
    using inv by (auto simp: tab_inv_def ids_def list_all_iff isValidIndex_def tab_count_def
        dest: in_set_butlastD)
  moreover have "ids ?m = ids m" by (simp add: ids_def)
  ultimately show ?thesis
    unfolding m' using False generateId_fresh(1) [OF x]
    by (intro append_tab_inv(1)) (simp_all add: MaxOpenTabs_def tab_count_def)
qed

lemma activeId_member:
  assumes "tab_inv cc m" and "tabs m \<noteq> []"
  shows "activeId m \<in> set (ids m)" and "activeId m = ids m ! nat (activeIndex m)"
  using assms by (auto simp: tab_inv_def activeId_def isValidIndex_def tab_count_def ids_def)

lemma set_list_move: "from < length xs \<Longrightarrow> set (list_move from to xs) = set xs"
proof -
  assume "from < length xs"
  define ys where "ys = take from xs @ drop (Suc from) xs"
  have xs: "xs = take from xs @ [xs ! from] @ drop (Suc from) xs"
    using \<open>from < length xs\<close> by (simp add: id_take_nth_drop)
  have "set xs = insert (xs ! from) (set ys)"
    unfolding ys_def by (subst xs) auto
  moreover have "list_move from to xs = take to ys @ [xs ! from] @ drop to ys"
    by (simp add: list_move_def Let_def ys_def)
  moreover have "set (take to ys @ drop to ys) = set ys" by simp
  ultimately show ?thesis by (simp del: append_take_drop_id)
qed

lemma length_list_move [simp]:
  "from < length xs \<Longrightarrow> to < length xs \<Longrightarrow> length (list_move from to xs) = length xs"
  by (simp add: list_move_def Let_def)

lemma map_list_move: "from < length xs \<Longrightarrow> map f (list_move from to xs) = list_move from to (map f xs)"
  by (simp add: list_move_def Let_def take_map drop_map)

lemma distinct_list_move:
  assumes "from < length xs" "to < length xs" "distinct xs"
  shows "distinct (list_move from to xs)"
  using assms set_list_move [OF assms(1), of to] by (simp add: card_distinct distinct_card)

lemma moveTab_inv:
  assumes inv: "tab_inv cc m"
  shows "tab_inv cc (fst (moveTab from to m))"
proof (cases "mutationInProgress m \<or> \<not> isValidIndex m from \<or> \<not> isValidIndex m to \<or> from = to")
  case True
  with inv show ?thesis by (auto simp: moveTab_def)
next
  case False
  then have i: "nat from < length (tabs m)" "nat to < length (tabs m)"
    by (auto simp: isValidIndex_def tab_count_def)
  let ?m = "m\<lparr>tabs := list_move (nat from) (nat to) (tabs m)\<rparr>"
  have ids: "ids ?m = list_move (nat from) (nat to) (ids m)"
    using i by (simp add: ids_def map_list_move)
  have "distinct (ids ?m)" "set (ids ?m) = set (ids m)"
    unfolding ids using inv i
    by (simp_all add: tab_inv_def ids_def distinct_list_move set_list_move)
  moreover have "activeId m \<in> set (ids m)"
    using i inv by (intro activeId_member) auto
  ultimately have found: "0 \<le> indexOfId ?m (activeId m)" by (simp add: indexOfId_iff)
  have ne: "list_move (nat from) (nat to) (tabs m) \<noteq> []"
    using length_list_move [OF i] i by (auto simp del: length_list_move)
  have "list_all (tab_ok cc) (tabs ?m)"
    using inv i set_list_move [OF i(1)] by (simp add: tab_inv_def list_all_iff)
  with inv \<open>distinct (ids ?m)\<close> found indexOfId_found(1) [OF found] i ne False show ?thesis
    by (auto simp: moveTab_def Let_def tab_inv_def ids_def isValidIndex_def tab_count_def)
qed

definition remove_nth :: "nat \<Rightarrow> 'a list \<Rightarrow> 'a list" where
  "remove_nth n xs = take n xs @ drop (Suc n) xs"

lemma set_remove_nth:
  assumes "distinct xs" and "n < length xs"
  shows "set (remove_nth n xs) = set xs - {xs ! n}"
proof -
  have xs: "xs = take n xs @ [xs ! n] @ drop (Suc n) xs" using assms by (simp add: id_take_nth_drop)
  then have "distinct (take n xs @ [xs ! n] @ drop (Suc n) xs)" using assms(1) by simp
  moreover have "set xs = set (take n xs @ [xs ! n] @ drop (Suc n) xs)" using xs by simp
  ultimately show ?thesis by (auto simp: remove_nth_def)
qed

lemma remove_nth_simps [simp]:
  "n < length xs \<Longrightarrow> length (remove_nth n xs) = length xs - 1"
  "map f (remove_nth n xs) = remove_nth n (map f xs)"
  "distinct xs \<Longrightarrow> distinct (remove_nth n xs)"
proof -
  show "n < length xs \<Longrightarrow> length (remove_nth n xs) = length xs - 1"
    by (simp add: remove_nth_def)
  show "map f (remove_nth n xs) = remove_nth n (map f xs)"
    by (simp add: remove_nth_def take_map drop_map)
  show "distinct xs \<Longrightarrow> distinct (remove_nth n xs)"
    by (auto simp: remove_nth_def distinct_take distinct_drop set_take_disj_set_drop_if_distinct)
qed

lemma set_remove_nth_subset: "set (remove_nth n xs) \<subseteq> set xs"
  using set_take_subset [of n xs] set_drop_subset [of "Suc n" xs] by (auto simp: remove_nth_def)

lemma closeTab_inv:
  assumes inv: "tab_inv cc m"
  shows "tab_inv cc (fst (closeTab i m))"
proof (cases "mutationInProgress m \<or> \<not> isValidIndex m i")
  case True
  with inv show ?thesis by (auto simp: closeTab_def)
next
  case False
  then have i: "0 \<le> i" "nat i < length (tabs m)" by (auto simp: isValidIndex_def tab_count_def)
  define r where "r = recentlyClosed m @ [snapshot (tabs m ! nat i)]"
  let ?m = "m\<lparr>recentlyClosed := drop (length r - nat MaxRecentlyClosed) r,
    tabs := remove_nth (nat i) (tabs m)\<rparr>"
  have ids: "ids ?m = remove_nth (nat i) (ids m)" by (simp add: ids_def)
  have ok: "tab_ok cc (tabs m ! nat i)" using inv i by (simp add: tab_inv_def list_all_length)
  have "list_all (isValidRestoredSnapshot cc) r"
    using inv ok by (auto simp: r_def tab_inv_def tab_ok_def)
  then have closed: "list_all (isValidRestoredSnapshot cc) (recentlyClosed ?m)"
    "length (recentlyClosed ?m) \<le> 16"
    using set_drop_subset [of _ r] by (auto simp: list_all_iff MaxRecentlyClosed_def)
  have tabs: "list_all (tab_ok cc) (tabs ?m)" "distinct (ids ?m)" "length (tabs ?m) \<le> 16"
    using inv i set_remove_nth_subset [of "nat i" "tabs m"] unfolding ids
    by (auto simp: tab_inv_def list_all_iff)
  have active: "0 \<le> indexOfId ?m (activeId m) \<and> indexOfId ?m (activeId m) < int (length (tabs ?m))"
    if "i \<noteq> activeIndex m"
  proof -
    have ne: "tabs m \<noteq> []" using i by auto
    have "nat i < length (ids m)" "distinct (ids m)" using i inv by (simp_all add: ids_def tab_inv_def)
    moreover have "activeId m \<noteq> ids m ! nat i"
      using activeId_member(2) [OF inv ne] nth_eq_iff_index_eq [of "ids m" "nat i" "nat (activeIndex m)"]
        calculation that inv ne i
      by (auto simp: tab_inv_def isValidIndex_def tab_count_def ids_def)
    ultimately have "activeId m \<in> set (ids ?m)"
      unfolding ids using activeId_member(1) [OF inv ne] by (simp add: set_remove_nth)
    then have "0 \<le> indexOfId ?m (activeId m)" by (simp add: indexOfId_iff)
    with indexOfId_found(1) [of ?m "activeId m"] show ?thesis by linarith
  qed
  have eq: "fst (closeTab i m) = (if tabs ?m = [] then ?m\<lparr>activeIndex := -1\<rparr>
      else if i = activeIndex m then ?m\<lparr>activeIndex := min i (tab_count ?m - 1)\<rparr>
      else ?m\<lparr>activeIndex := indexOfId ?m (activeId m)\<rparr>)"
    using False by (simp add: closeTab_def Let_def r_def remove_nth_def)
  show ?thesis
  proof (cases "tabs ?m = []")
    case True
    with eq closed tabs inv show ?thesis by (simp add: tab_inv_def ids_def)
  next
    case ne: False
    then have "0 < length (remove_nth (nat i) (tabs m))" by simp
    then have two: "2 \<le> length (tabs m)" using i by simp
    show ?thesis
    proof (cases "i = activeIndex m")
      case True
      with two eq ne closed tabs inv i show ?thesis
        by (auto simp: tab_inv_def ids_def isValidIndex_def tab_count_def min_def)
    next
      case False
      with eq ne closed tabs inv active show ?thesis
        by (auto simp: tab_inv_def ids_def isValidIndex_def tab_count_def)
    qed
  qed
qed

section \<open>Histories\<close>

lemma truncate_history_take:
  "0 \<le> historyIndex s \<Longrightarrow> truncate_history s = take (nat (historyIndex s) + 1) (tab_history s)"
  by (auto simp: truncate_history_def nat_add_distrib)

lemma last_drop_snoc: "n < Suc (length xs) \<Longrightarrow> drop n (xs @ [a]) = drop n xs @ [a]"
  by simp

lemma visit_valid:
  assumes "isValidRestoredSnapshot cc s" and "address \<noteq> []"
  shows "isValidRestoredSnapshot cc (visit_address address s)"
proof -
  define es where "es = truncate_history s @ [address]"
  define k where "k = length es - 256"
  have h: "list_all (\<lambda>entry. entry \<noteq> []) (truncate_history s)"
    using assms(1) by (auto simp: valid_snapshot_iff truncate_history_def list_all_iff dest: in_set_takeD)
  have es: "drop k es = drop k (truncate_history s) @ [address]"
    by (simp add: es_def k_def)
  have "list_all (\<lambda>entry. entry \<noteq> []) (drop k es)"
    using h assms(2) set_drop_subset [of k "truncate_history s"] by (auto simp: es list_all_iff)
  moreover have "length (drop k es) \<le> 256" "0 < length (drop k es)"
    by (simp_all add: k_def es_def)
  moreover have "drop k es ! (length (drop k es) - 1) = address"
    unfolding es by (simp add: nth_append)
  moreover have "visit_address address s = s\<lparr>tab_history := drop k es,
      historyIndex := int (length (drop k es)) - 1, tab_address := address\<rparr>"
    by (simp add: visit_address_def Let_def es_def k_def MaxHistoryEntries_def)
  ultimately show ?thesis
    using assms by (auto simp: valid_snapshot_iff nat_diff_distrib)
qed

lemma step_history_valid:
  assumes "isValidRestoredSnapshot cc s" and "0 \<le> historyIndex s + d"
    and "historyIndex s + d < int (length (tab_history s))"
  shows "isValidRestoredSnapshot cc (step_history d s)"
  using assms by (auto simp: valid_snapshot_iff step_history_def Let_def list_all_length)

lemma ok_with_snapshot:
  "tab_ok cc t \<Longrightarrow> isValidRestoredSnapshot cc s \<Longrightarrow> tab_ok cc (t\<lparr>snapshot := s\<rparr>)"
  by (simp add: tab_ok_def)

lemma visit_id [simp]: "tab_id (visit_address a s) = tab_id s" "tab_id (step_history d s) = tab_id s"
  by (simp_all add: visit_address_def step_history_def Let_def)

lemma navigateTab_inv: "tab_inv cc m \<Longrightarrow> tab_inv cc (fst (navigateTab x k a m))"
  using indexOfId_found(1) [of m x]
  by (auto simp: navigateTab_def Let_def not_less intro!: tab_inv_update(1) kind_ok ok_with_snapshot visit_valid)
    (auto simp: tab_ok_def)

lemma goBack_inv: "tab_inv cc m \<Longrightarrow> tab_inv cc (fst (goBack x k m))"
  using indexOfId_found(1) [of m x]
  by (auto simp: goBack_def Let_def not_less canGoBack_def intro!: tab_inv_update(1) kind_ok
      ok_with_snapshot step_history_valid)
    (auto simp: tab_ok_def valid_snapshot_iff)

lemma goForward_inv: "tab_inv cc m \<Longrightarrow> tab_inv cc (fst (goForward x k m))"
  using indexOfId_found(1) [of m x]
  by (auto simp: goForward_def Let_def not_less canGoForward_def intro!: tab_inv_update(1) kind_ok
      ok_with_snapshot step_history_valid)
    (auto simp: tab_ok_def)

lemma setTitle_inv: "tab_inv cc m \<Longrightarrow> tab_inv cc (fst (setTitle cc x t m))"
  using indexOfId_found(1) [of m x]
  by (auto simp: setTitle_def Let_def not_less split: option.split intro!: tab_inv_update(1))
    (auto simp: tab_ok_def valid_snapshot_iff)

lemma set_state_inv:
  "tab_inv cc m \<Longrightarrow> tab_inv cc (fst (setLifecycle x l m))"
  "tab_inv cc m \<Longrightarrow> tab_inv cc (fst (setLoadState x b p m))"
  "tab_inv cc m \<Longrightarrow> tab_inv cc (fst (setVisualState x v m))"
  using indexOfId_found(1) [of m x]
  by (auto simp: setLifecycle_def setLoadState_def setVisualState_def Let_def not_less
      intro!: tab_inv_update(1)) (auto simp: tab_ok_def)

lemma replace_inv: "tab_inv cc m \<Longrightarrow> tab_inv cc (fst (replaceFromValidatedSnapshot cc ss active m))"
  by (auto simp: replaceFromValidatedSnapshot_def Let_def tab_inv_def ids_def MaxOpenTabs_def
      isValidIndex_def tab_count_def list_all_iff comp_def dormant_ok)

lemma activateTab_inv: "tab_inv cc m \<Longrightarrow> tab_inv cc (fst (activateTab i m))"
  by (auto simp: activateTab_def tab_inv_def ids_def isValidIndex_def tab_count_def)

section \<open>Runs\<close>

lemma tab_step_inv:
  "tab_inv cc m \<Longrightarrow> uuid_draws e \<Longrightarrow> tab_inv cc (fst (tab_step cc m e))"
  by (cases e) (auto simp: started_def activateTab_inv moveTab_inv closeTab_inv navigateTab_inv
      goBack_inv goForward_inv setTitle_inv set_state_inv replace_inv split: option.split
      dest: createTab_inv reopen_inv)

definition tab_view :: "tab_model \<Rightarrow> qstring list \<times> int" where
  "tab_view m = (ids m, activeIndex m)"

lemma append_tab_seen:
  "length (tabs m) = length (ids m) \<Longrightarrow>
    foldl tab_notice (tab_view m) (snd (append_tab s makeActive m)) = tab_view (fst (append_tab s makeActive m))"
  by (auto simp: append_tab_def Let_def tab_view_def ids_def tab_count_def active_changed_def)

lemma remove_signals_seen:
  "foldl tab_notice (xs, a) (removal_signals xs) = ([], a)"
proof -
  have "foldl tab_notice (take n xs, a) (map (\<lambda>i. TabRemoved (int i) (xs ! i)) (rev [0 ..< n])) = ([], a)"
    if "n \<le> length xs" for n
    using that
  proof (induction n)
    case (Suc n)
    then have "take n (take (Suc n) xs) @ drop (Suc n) (take (Suc n) xs) = take n xs" by (simp add: min_def)
    with Suc show ?case by (simp add: min_def)
  qed simp
  from this [of "length xs"] show ?thesis by (simp add: removal_signals_def)
qed

lemma insert_signals_seen:
  "foldl tab_notice ([], a) (insertion_signals xs) = (xs, a)"
proof -
  have "foldl tab_notice ([], a) (map (\<lambda>i. TabInserted (int i) (xs ! i)) [0 ..< n]) = (take n xs, a)"
    if "n \<le> length xs" for n
    using that by (induction n) (simp_all add: take_Suc_conv_app_nth)
  from this [of "length xs"] show ?thesis by (simp add: insertion_signals_def)
qed

lemma update_seen:
  assumes "tab_id (snapshot (f (tabs m ! nat i))) = tab_id (snapshot (tabs m ! nat i))"
    and "nat i < length (tabs m)"
  shows "tab_view (update_tab i f m) = tab_view m"
  using assms by (simp add: tab_view_def ids_def update_tab_def map_update list_update_same_conv)

lemma unseen [simp]: "tab_notice v (TabChanged i) = v" "tab_notice v PersistenceNeeded = v"
  by (cases v; simp)+

lemma closeTab_seen:
  "foldl tab_notice (tab_view m) (fst (snd (closeTab i m))) = tab_view (fst (closeTab i m))"
proof (cases "mutationInProgress m \<or> \<not> isValidIndex m i")
  case False
  define r where "r = recentlyClosed m @ [snapshot (tabs m ! nat i)]"
  define m1 where "m1 = m\<lparr>recentlyClosed := drop (length r - nat MaxRecentlyClosed) r,
    tabs := remove_nth (nat i) (tabs m)\<rparr>"
  define b where "b = (if tabs m1 = [] then -1 else if i = activeIndex m then min i (tab_count m1 - 1)
    else indexOfId m1 (activeId m))"
  have upd: "(if tabs m1 = [] then m1\<lparr>activeIndex := -1\<rparr>
      else if i = activeIndex m then m1\<lparr>activeIndex := min i (tab_count m1 - 1)\<rparr>
      else m1\<lparr>activeIndex := indexOfId m1 (activeId m)\<rparr>) = m1\<lparr>activeIndex := b\<rparr>"
    by (simp add: b_def)
  have closed: "closeTab i m = (m1\<lparr>activeIndex := b\<rparr>, [TabRemoved i (tab_id (snapshot (tabs m ! nat i)))]
      @ (if activeIndex m \<noteq> b \<or> activeId m \<noteq> activeId (m1\<lparr>activeIndex := b\<rparr>)
         then [ActiveTabChanged (activeIndex m) b] else []) @ [PersistenceNeeded], True)"
    unfolding closeTab_def Let_def r_def [symmetric] remove_nth_def [symmetric] m1_def [symmetric] upd
    using False by simp
  have "ids m1 = remove_nth (nat i) (ids m)" by (simp add: m1_def ids_def)
  then show ?thesis
    unfolding closed by (simp add: tab_view_def ids_def remove_nth_def)
qed (auto simp: closeTab_def)

lemma moveTab_seen:
  "foldl tab_notice (tab_view m) (fst (snd (moveTab from to m))) = tab_view (fst (moveTab from to m))"
proof (cases "isValidIndex m from")
  case True
  then have "nat from < length (tabs m)" by (auto simp: isValidIndex_def tab_count_def)
  note move = map_list_move [OF this]
  show ?thesis
    by (simp add: moveTab_def Let_def tab_view_def ids_def active_changed_def move)
qed (simp add: moveTab_def tab_view_def)

lemma setters_seen:
  "foldl tab_notice (tab_view m) (fst (snd (navigateTab x k a m))) = tab_view (fst (navigateTab x k a m))"
  "foldl tab_notice (tab_view m) (fst (snd (goBack x k m))) = tab_view (fst (goBack x k m))"
  "foldl tab_notice (tab_view m) (fst (snd (goForward x k m))) = tab_view (fst (goForward x k m))"
  "foldl tab_notice (tab_view m) (fst (snd (setTitle cc x t m))) = tab_view (fst (setTitle cc x t m))"
  "foldl tab_notice (tab_view m) (fst (snd (setLifecycle x l m))) = tab_view (fst (setLifecycle x l m))"
  "foldl tab_notice (tab_view m) (fst (snd (setLoadState x b p m))) = tab_view (fst (setLoadState x b p m))"
  "foldl tab_notice (tab_view m) (fst (snd (setVisualState x v m))) = tab_view (fst (setVisualState x v m))"
  using indexOfId_found(1) [of m x]
  by (simp_all add: navigateTab_def goBack_def goForward_def setTitle_def setLifecycle_def
      setLoadState_def setVisualState_def Let_def not_less update_seen split: option.split)

lemma tab_step_seen:
  "foldl tab_notice (tab_view m) (snd (tab_step cc m e)) = tab_view (fst (tab_step cc m e))"
proof (cases e)
  case (CreateTab draws k t a makeActive)
  have "foldl tab_notice (tab_view m) sg = tab_view m'"
    if "createTab cc draws k t a makeActive m = Some (m', sg, i)" for m' sg i
  proof -
    from that have "(m' = m \<and> sg = []) \<or> (\<exists>s. m' = fst (append_tab s makeActive m) \<and> sg = snd (append_tab s makeActive m))"
      by (auto simp: createTab_def split_beta split: if_splits option.splits)
    then show ?thesis by (auto simp: append_tab_seen ids_def)
  qed
  with CreateTab show ?thesis by (auto simp: started_def split: option.split)
next
  case (ReopenTab draws makeActive)
  have "foldl tab_notice (tab_view m) sg = tab_view m'"
    if "reopenMostRecentlyClosed draws makeActive m = Some (m', sg, i)" for m' sg i
  proof -
    let ?m = "m\<lparr>recentlyClosed := butlast (recentlyClosed m)\<rparr>"
    from that have "(m' = m \<and> sg = []) \<or> (\<exists>s. m' = fst (append_tab s makeActive ?m) \<and> sg = snd (append_tab s makeActive ?m))"
      by (auto simp: reopenMostRecentlyClosed_def Let_def split_beta split: if_splits option.splits)
    moreover have "tab_view ?m = tab_view m" by (simp add: tab_view_def ids_def)
    ultimately show ?thesis using append_tab_seen [of ?m] by (auto simp: ids_def)
  qed
  with ReopenTab show ?thesis by (auto simp: started_def split: option.split)
next
  case (ActivateTab i)
  then show ?thesis by (simp add: activateTab_def tab_view_def ids_def)
next
  case (ReplaceTabs ss active)
  have view: "tab_view m = (map (tab_id \<circ> snapshot) (tabs m), activeIndex m)"
    by (simp add: tab_view_def ids_def)
  have "foldl tab_notice (tab_view m) (removal_signals (map (tab_id \<circ> snapshot) (tabs m))
      @ insertion_signals (map tab_id ss)) = (map tab_id ss, activeIndex m)"
    by (simp add: view remove_signals_seen insert_signals_seen)
  with ReplaceTabs show ?thesis
    by (auto simp: replaceFromValidatedSnapshot_def Let_def) (auto simp: tab_view_def ids_def comp_def)
qed (simp_all add: closeTab_seen moveTab_seen setters_seen)

interpretation tab_run: machine_observer "tab_step cc" "tab_inv cc" uuid_draws tab_view tab_notice for cc
  by unfold_locales (auto simp: tab_step_inv tab_step_seen)

abbreviation tab_run_state :: "(qchar \<Rightarrow> bool) \<Rightarrow> tab_event list \<Rightarrow> tab_model" where
  "tab_run_state cc es \<equiv> final_state (tab_step cc) new_model es"

lemmas tab_run_inv = tab_run.run_inv [OF tab_inv_new]

section \<open>Reference definitions\<close>

text \<open>A title as the sequence of its characters: single code units and surrogate pairs.\<close>

fun title_units :: "qstring \<Rightarrow> qstring list option" where
  "title_units [] = Some []"
| "title_units (c # cs) =
     (if isHighSurrogate c then
        (case cs of [] \<Rightarrow> None
         | d # ds \<Rightarrow> if isLowSurrogate d then map_option ((#) [c, d]) (title_units ds) else None)
      else if isLowSurrogate c then None else map_option ((#) [c]) (title_units cs))"

definition shown_unit :: "(qchar \<Rightarrow> bool) \<Rightarrow> qstring \<Rightarrow> bool" where
  "shown_unit cc u \<longleftrightarrow> length u = 2 \<or> \<not> (cc (hd u) \<or> isBidiControl (hd u))"

fun units_within :: "nat \<Rightarrow> qstring list \<Rightarrow> qstring" where
  "units_within n [] = []"
| "units_within n (u # us) = (if length u \<le> n then u @ units_within (n - length u) us else [])"

lemma units_full: "title_units t = Some us \<Longrightarrow> units_within 0 (filter P us) = []"
proof -
  assume "title_units t = Some us"
  then have "list_all (\<lambda>u. u \<noteq> []) us"
    by (induction t arbitrary: us rule: title_units.induct) (auto split: if_splits list.splits)
  then show ?thesis by (induction us) auto
qed

lemma title_loop_spec:
  "length r \<le> 256 \<Longrightarrow> (length r = 256 \<longrightarrow> complete) \<Longrightarrow>
    title_loop cc r complete t = map_option (\<lambda>us. if complete then r
      else r @ units_within (256 - length r) (filter (shown_unit cc) us)) (title_units t)"
proof (induction cc r complete t rule: title_loop.induct)
  case (1 cc r complete)
  then show ?case by simp
next
  case (2 cc r complete c cs)
  show ?case
  proof (cases "isHighSurrogate c")
    case True
    show ?thesis
    proof (cases cs)
      case (Cons d ds)
      with "2.IH"(1,2) [OF True Cons] "2.prems" True show ?thesis
        by (auto simp: MaxTitleCodeUnits_def shown_unit_def option.map_comp comp_def units_full
            intro!: option.map_cong)
    qed (use True in simp)
  next
    case False
    show ?thesis
      using "2.IH"(3) [OF False] "2.IH"(4) [OF False] "2.IH"(5) [OF False] "2.prems" False
      by (auto simp: MaxTitleCodeUnits_def shown_unit_def option.map_comp comp_def units_full
          intro!: option.map_cong) linarith
  qed
qed

section \<open>Histories as zippers\<close>

type_synonym history_zipper = "qstring list \<times> qstring \<times> qstring list"

definition zipper :: "tab_snapshot \<Rightarrow> history_zipper" where
  "zipper s = (let i = nat (historyIndex s)
     in (take i (tab_history s), tab_history s ! i, drop (Suc i) (tab_history s)))"

definition history_of :: "tab_model \<Rightarrow> qstring \<Rightarrow> history_zipper" where
  "history_of m x = zipper (snapshot (tabs m ! nat (indexOfId m x)))"

fun zip_visit :: "qstring \<Rightarrow> history_zipper \<Rightarrow> history_zipper" where
  "zip_visit a (back, current, forward) =
     (if a = current then (back, current, forward)
      else (drop (length back - 254) (back @ [current]), a, []))"

fun zip_back :: "history_zipper \<Rightarrow> history_zipper" where
  "zip_back (back, current, forward) =
     (if back = [] then (back, current, forward) else (butlast back, last back, current # forward))"

fun zip_forward :: "history_zipper \<Rightarrow> history_zipper" where
  "zip_forward (back, current, []) = (back, current, [])"
| "zip_forward (back, current, next_entry # forward) = (back @ [current], next_entry, forward)"

lemma zipper_visit:
  assumes "isValidRestoredSnapshot cc s" and "a \<noteq> tab_history s ! nat (historyIndex s)"
  shows "zipper (visit_address a s) = zip_visit a (zipper s)"
proof -
  define i where "i = nat (historyIndex s)"
  have i: "historyIndex s = int i" "i < length (tab_history s)"
    using assms(1) by (auto simp: valid_snapshot_iff i_def)
  have es: "truncate_history s = take i (tab_history s) @ [tab_history s ! i]"
    using i by (simp add: truncate_history_take take_Suc_conv_app_nth nat_add_distrib)
  have n: "length (truncate_history s) = Suc i" using i by (simp add: es)
  define k where "k = i + 2 - 256"
  have kept: "drop k (truncate_history s @ [a]) = drop k (truncate_history s) @ [a]"
    using n by (simp add: k_def)
  have visit: "tab_history (visit_address a s) = drop k (truncate_history s) @ [a]"
    "nat (historyIndex (visit_address a s)) = length (drop k (truncate_history s))"
    using n by (simp_all add: visit_address_def Let_def MaxHistoryEntries_def k_def nat_diff_distrib)
  have "zipper (visit_address a s) = (drop k (truncate_history s), a, [])"
    by (simp add: zipper_def Let_def visit nth_append)
  moreover have "k = i - 254" by (simp add: k_def)
  ultimately show ?thesis using assms(2) i by (simp add: zipper_def Let_def es)
qed

lemma zipper_back:
  assumes "isValidRestoredSnapshot cc s" and "0 < historyIndex s"
  shows "zipper (step_history (-1) s) = zip_back (zipper s)"
proof -
  define i where "i = nat (historyIndex s) - 1"
  have i: "historyIndex s = int (Suc i)" "Suc i < length (tab_history s)"
    using assms by (auto simp: valid_snapshot_iff i_def)
  then have "nat (historyIndex s) = Suc i" "tab_history s \<noteq> []" by auto
  with i show ?thesis
    by (simp add: zipper_def Let_def step_history_def take_Suc_conv_app_nth Cons_nth_drop_Suc)
qed

lemma zipper_forward:
  assumes "isValidRestoredSnapshot cc s" and "historyIndex s + 1 < int (length (tab_history s))"
  shows "zipper (step_history 1 s) = zip_forward (zipper s)"
proof -
  define i where "i = nat (historyIndex s)"
  have i: "historyIndex s = int i" "Suc i < length (tab_history s)"
    using assms by (auto simp: valid_snapshot_iff i_def)
  then have "drop (Suc i) (tab_history s) = tab_history s ! Suc i # drop (Suc (Suc i)) (tab_history s)"
    by (simp add: Cons_nth_drop_Suc)
  with i show ?thesis
    by (simp add: zipper_def Let_def step_history_def take_Suc_conv_app_nth nat_add_distrib)
qed

lemma zipper_kind [simp]: "zipper (snapshot (applyValidatedKind t k)) = zipper (snapshot t)"
  by (simp add: zipper_def)

lemma index_from_cong:
  "map (tab_id \<circ> snapshot) ts = map (tab_id \<circ> snapshot) us \<Longrightarrow> index_from k x ts = index_from k x us"
proof (induction ts arbitrary: us k)
  case (Cons t ts)
  then show ?case by (cases us) auto
qed simp

lemma indexOfId_cong: "ids m = ids n \<Longrightarrow> indexOfId m x = indexOfId n x"
  unfolding indexOfId_def ids_def by (rule index_from_cong)

lemma history_of_update:
  assumes x: "x \<in> set (ids m)"
    and same: "tab_id (snapshot (f (tabs m ! nat (indexOfId m x)))) = x"
  shows "history_of (update_tab (indexOfId m x) f m) x
      = zipper (snapshot (f (tabs m ! nat (indexOfId m x))))"
    and "y \<noteq> x \<Longrightarrow> y \<in> set (ids m) \<Longrightarrow> history_of (update_tab (indexOfId m x) f m) y = history_of m y"
proof -
  let ?i = "indexOfId m x" let ?m = "update_tab ?i f m"
  have at: "0 \<le> ?i" "nat ?i < length (tabs m)" "tab_id (snapshot (tabs m ! nat ?i)) = x"
    using x indexOfId_found [of m x] by (simp_all add: indexOfId_iff)
  have "ids ?m = ids m"
    using at same by (simp add: ids_def update_tab_def map_update list_update_same_conv)
  then have idx: "indexOfId ?m z = indexOfId m z" for z by (rule indexOfId_cong)
  show "history_of ?m x = zipper (snapshot (f (tabs m ! nat ?i)))"
    unfolding history_of_def idx using at by (simp add: update_tab_def)
  show "history_of ?m y = history_of m y" if "y \<noteq> x" "y \<in> set (ids m)"
    unfolding history_of_def idx using that at indexOfId_found(3) [of m y]
    by (auto simp: update_tab_def nth_list_update indexOfId_iff)
qed

lemma snapshot_at:
  assumes "tab_inv cc m" and "x \<in> set (ids m)"
  shows "isValidRestoredSnapshot cc (snapshot (tabs m ! nat (indexOfId m x)))"
    and "tab_id (snapshot (tabs m ! nat (indexOfId m x))) = x" and "0 \<le> indexOfId m x"
  using assms indexOfId_found [of m x]
  by (auto simp: tab_inv_def list_all_length tab_ok_def indexOfId_iff)

lemma navigate_zipper:
  assumes inv: "tab_inv cc m" and x: "x \<in> set (ids m)" and "a \<noteq> []"
  shows "history_of (fst (navigateTab x k a m)) x = zip_visit a (history_of m x)"
proof -
  note at = snapshot_at [OF inv x]
  let ?s = "snapshot (tabs m ! nat (indexOfId m x))"
  have h: "0 \<le> historyIndex ?s" "historyIndex ?s < int (length (tab_history ?s))"
    using at(1) by (simp_all add: valid_snapshot_iff)
  show ?thesis
  proof (cases "a = tab_history ?s ! nat (historyIndex ?s)")
    case True
    then have "zip_visit a (history_of m x) = history_of m x"
      by (simp add: history_of_def zipper_def Let_def)
    with True h at inv \<open>a \<noteq> []\<close> x show ?thesis
      by (auto simp: navigateTab_def Let_def tab_inv_def history_of_update)
        (simp add: history_of_def)
  next
    case False
    with zipper_visit [OF at(1) False] at inv \<open>a \<noteq> []\<close> x show ?thesis
      by (auto simp: navigateTab_def Let_def tab_inv_def history_of_update)
        (simp_all add: history_of_def)
  qed
qed

lemma history_moves_zipper:
  assumes inv: "tab_inv cc m" and x: "x \<in> set (ids m)"
  shows "history_of (fst (goBack x k m)) x = zip_back (history_of m x)"
    and "history_of (fst (goForward x k m)) x = zip_forward (history_of m x)"
    and "canGoBack m x = (fst (history_of m x) \<noteq> [])"
    and "canGoForward m x = (snd (snd (history_of m x)) \<noteq> [])"
proof -
  note at = snapshot_at [OF inv x]
  let ?s = "snapshot (tabs m ! nat (indexOfId m x))"
  have h: "0 \<le> historyIndex ?s" "historyIndex ?s < int (length (tab_history ?s))"
    using at(1) by (simp_all add: valid_snapshot_iff)
  show can: "canGoBack m x = (fst (history_of m x) \<noteq> [])"
    "canGoForward m x = (snd (snd (history_of m x)) \<noteq> [])"
    using h at(3) by (auto simp: canGoBack_def canGoForward_def history_of_def zipper_def Let_def)
  show "history_of (fst (goBack x k m)) x = zip_back (history_of m x)"
  proof (cases "canGoBack m x")
    case True
    then have "0 < historyIndex ?s" by (simp add: canGoBack_def Let_def)
    from zipper_back [OF at(1) this] True at inv x show ?thesis
      by (simp add: goBack_def Let_def tab_inv_def history_of_update) (simp add: history_of_def)
  next
    case False
    with can(1) show ?thesis by (cases "history_of m x") (simp add: goBack_def Let_def)
  qed
  show "history_of (fst (goForward x k m)) x = zip_forward (history_of m x)"
  proof (cases "canGoForward m x")
    case True
    then have "historyIndex ?s + 1 < int (length (tab_history ?s))" by (simp add: canGoForward_def Let_def)
    from zipper_forward [OF at(1) this] True at inv x show ?thesis
      by (simp add: goForward_def Let_def tab_inv_def history_of_update) (simp add: history_of_def)
  next
    case False
    with can(2) show ?thesis by (cases "history_of m x") (simp add: goForward_def Let_def)
  qed
qed

section \<open>Fresh ids are found\<close>

lemma generateId_returns:
  assumes "tab_inv cc m" and "distinct draws" and "33 \<le> length draws"
  shows "generateId m draws \<noteq> None"
proof
  assume none: "generateId m draws = None"
  let ?taken = "ids m @ map tab_id (recentlyClosed m)"
  have "set draws \<subseteq> set ?taken"
    using none by (force simp: generateId_def find_None_iff indexOfId_iff list_ex_iff)
  then have "card (set draws) \<le> card (set ?taken)" by (intro card_mono) auto
  also have "\<dots> \<le> 32"
    using card_length [of ?taken] assms(1) by (simp add: tab_inv_def ids_def)
  finally show False using assms(2,3) by (simp add: distinct_card)
qed

section \<open>Properties\<close>

text \<open>
  C12. In every sequence of calls of the tab model's slots, starting from a new model, the open tabs
  are valid snapshots (a 32-digit id, a nonempty address equal to the current entry of a nonempty
  history of at most 256 entries, a canonical title) with distinct ids and progress in 0..100, there
  are at most 16 open and 16 remembered closed tabs, and the active index is -1 exactly when no tab is
  open and otherwise denotes an open tab.
\<close>
theorem tabs_always_consistent:
  fixes es :: "tab_event list"
  assumes "list_all uuid_draws es"
  shows "case tab_run_state cc es of m \<Rightarrow>
    list_all (isValidRestoredSnapshot cc) (snapshots m) \<and> distinct (map tab_id (snapshots m))
    \<and> list_all (\<lambda>t. 0 \<le> tab_progress t \<and> tab_progress t \<le> 100) (tabs m)
    \<and> list_all (isValidRestoredSnapshot cc) (recentlyClosed m)
    \<and> length (tabs m) \<le> 16 \<and> length (recentlyClosed m) \<le> 16
    \<and> (if tabs m = [] then activeIndex m = -1 else isValidIndex m (activeIndex m))
    \<and> \<not> mutationInProgress m"
  using tab_run_inv [OF assms] unfolding tab_inv_def tab_ok_def snapshots_def ids_def
  by (auto simp: list_all_iff split: if_splits)

definition sample_ids :: "qstring list" where
  "sample_ids = [replicate 32 0x30, replicate 32 0x31, replicate 32 0x32]"

definition sample_tab_events :: "tab_event list" where
  "sample_tab_events =
     [CreateTab sample_ids HostTab (qstr ''New tab'') (qstr ''qbrowser:newtab'') True,
      CreateTab sample_ids WebTab (qstr ''Docs'') (qstr ''https://a.example/'') False,
      NavigateTab (sample_ids ! 1) WebTab (qstr ''https://b.example/''),
      MoveTab 1 0, CloseTab 1]"

lemma sample_draws: "list_all uuid_draws sample_tab_events"
  by (simp add: sample_tab_events_def sample_ids_def isValidId_def list_all_iff)

theorem tabs_always_consistent_witness:
  "list_all uuid_draws sample_tab_events
    \<and> length (tabs (tab_run_state (\<lambda>c. c < 0x20) sample_tab_events)) \<le> 16"
  using sample_draws tabs_always_consistent [OF sample_draws, of "\<lambda>c. c < 0x20"] by simp

text \<open>
  C13. An observer that sees nothing but the emitted signals, and applies each to its own list of tab
  ids and its own active index, has after every sequence of calls exactly the model's tab order and
  active index: no operation changes either without the signals that say so, and the signals come
  in an order in which they can be applied.
\<close>
theorem signals_mirror_tabs:
  assumes "list_all uuid_draws es"
  shows "foldl tab_notice ([], -1) (concat (snd (run_machine (tab_step cc) new_model es)))
    = (map tab_id (snapshots (tab_run_state cc es)), activeIndex (tab_run_state cc es))"
proof -
  have "tab_view new_model = ([], -1)" by (simp add: tab_view_def ids_def new_model_def)
  with tab_run.run_observes [OF tab_inv_new assms, of cc] show ?thesis
    by (simp add: tab_view_def ids_def snapshots_def)
qed

theorem signals_mirror_tabs_witness:
  "foldl tab_notice ([], -1) (concat (snd (run_machine (tab_step (\<lambda>c. c < 0x20)) new_model sample_tab_events)))
    = (map tab_id (snapshots (tab_run_state (\<lambda>c. c < 0x20) sample_tab_events)),
       activeIndex (tab_run_state (\<lambda>c. c < 0x20) sample_tab_events))"
  using signals_mirror_tabs [OF sample_draws, of "\<lambda>c. c < 0x20"] .

text \<open>
  C14. Navigation refines a zipper of addresses (entries behind, current entry, entries ahead).  For
  every open tab of a reachable model, navigating to an address pushes the current entry behind
  (keeping the 255 nearest) and drops the entries ahead, unless the address is the current one; going
  back and forward move one entry across and do nothing at the ends, and the buttons' guards are
  exactly whether there are entries behind and ahead.
\<close>
theorem navigation_is_zipper:
  assumes "list_all uuid_draws es" and "m = tab_run_state cc es"
    and "x \<in> set (map tab_id (snapshots m))" and "a \<noteq> []"
  shows "history_of (fst (navigateTab x k a m)) x = zip_visit a (history_of m x)
    \<and> history_of (fst (goBack x k m)) x = zip_back (history_of m x)
    \<and> history_of (fst (goForward x k m)) x = zip_forward (history_of m x)
    \<and> canGoBack m x = (fst (history_of m x) \<noteq> [])
    \<and> canGoForward m x = (snd (snd (history_of m x)) \<noteq> [])"
proof -
  have inv: "tab_inv cc m" using tab_run_inv [OF assms(1)] assms(2) by simp
  have x: "x \<in> set (ids m)" using assms(3) by (simp add: ids_def snapshots_def)
  show ?thesis using navigate_zipper [OF inv x assms(4)] history_moves_zipper [OF inv x] by simp
qed

definition one_tab :: "tab_event list" where
  "one_tab = [CreateTab sample_ids HostTab [] [0x41] True]"

lemma one_tab_ids:
  "list_all uuid_draws one_tab \<and> hd sample_ids \<in> set (map tab_id (snapshots (tab_run_state (\<lambda>c. False) one_tab)))"
  by (simp add: one_tab_def sample_ids_def isValidId_def list_all_iff started_def
      createTab_def new_model_def MaxOpenTabs_def tab_count_def canonicalTitle_def generateId_def
      indexOfId_def append_tab_def snapshots_def dormantState_def Let_def MaxRawTitleCodeUnits_def)

theorem navigation_is_zipper_witness:
  "history_of (fst (navigateTab (hd sample_ids) WebTab [0x42] (tab_run_state (\<lambda>c. False) one_tab))) (hd sample_ids)
    = zip_visit [0x42] (history_of (tab_run_state (\<lambda>c. False) one_tab) (hd sample_ids))"
  using navigation_is_zipper [of one_tab, OF _ refl, of "hd sample_ids" "\<lambda>c. False" "[0x42]"] one_tab_ids
  by simp

text \<open>
  C15. A saved session can always be restored: the snapshots and the active index of any reachable model
  are accepted by \<open>replaceFromValidatedSnapshot\<close> of a new model, which then shows the same snapshots
  in the same order with the same active tab, every tab dormant and nothing remembered as closed.
\<close>
theorem session_round_trip:
  assumes "list_all uuid_draws es"
  shows "case tab_run_state cc es of m \<Rightarrow>
    (case replaceFromValidatedSnapshot cc (snapshots m) (activeIndex m) new_model of (m', signals, ok) \<Rightarrow>
       ok \<and> snapshots m' = snapshots m \<and> activeIndex m' = activeIndex m
       \<and> tabs m' = map dormantState (snapshots m) \<and> recentlyClosed m' = [])"
proof -
  define m where "m = tab_run_state cc es"
  have inv: "tab_inv cc m" using tab_run_inv [OF assms] by (simp add: m_def)
  then have "list_all (isValidRestoredSnapshot cc) (snapshots m)" "distinct (map tab_id (snapshots m))"
    by (auto simp: tab_inv_def snapshots_def ids_def list_all_iff tab_ok_def)
  moreover have "length (snapshots m) \<le> 16"
    "if snapshots m = [] then activeIndex m = -1 else 0 \<le> activeIndex m \<and> activeIndex m < int (length (snapshots m))"
    using inv by (auto simp: tab_inv_def snapshots_def isValidIndex_def tab_count_def)
  ultimately show ?thesis
    unfolding m_def [symmetric]
    by (auto simp: replaceFromValidatedSnapshot_def Let_def new_model_def MaxOpenTabs_def
        alreadyRestored_def snapshots_def comp_def split: if_splits)
qed

theorem session_round_trip_witness:
  "snd (snd (replaceFromValidatedSnapshot (\<lambda>c. c < 0x20) (snapshots (tab_run_state (\<lambda>c. c < 0x20) sample_tab_events))
      (activeIndex (tab_run_state (\<lambda>c. c < 0x20) sample_tab_events)) new_model))"
  using session_round_trip [OF sample_draws, of "\<lambda>c. c < 0x20"] by (simp split: prod.splits)

text \<open>
  Drawing an id for a new or reopened tab ends: with 33 different UUIDs drawn, in any reachable
  model, creating a tab and reopening a closed one return (the open and the remembered tabs hold at
  most 32 ids).
\<close>
theorem tab_creation_returns:
  assumes "list_all uuid_draws es" and "distinct draws" and "33 \<le> length draws"
  shows "createTab cc draws k t a makeActive (tab_run_state cc es) \<noteq> None
    \<and> reopenMostRecentlyClosed draws makeActive (tab_run_state cc es) \<noteq> None"
  using generateId_returns [OF tab_run_inv [OF assms(1)] assms(2,3), of cc]
  by (auto simp: createTab_def reopenMostRecentlyClosed_def Let_def split_beta split: option.split)

definition uuid_of :: "nat \<Rightarrow> qstring" where
  "uuid_of n = [word_of_nat n]"

theorem tab_creation_returns_witness:
  "createTab (\<lambda>c. False) (map uuid_of [0 ..< 33]) HostTab [] [0x41] True (tab_run_state (\<lambda>c. False) []) \<noteq> None"
proof -
  have "distinct (map uuid_of [0 ..< 33])"
    by (simp add: uuid_of_def upt_rec)
  from tab_creation_returns [OF _ this, of "[]" "\<lambda>c. False"] show ?thesis by simp
qed

text \<open>
  C25. \<open>canonicalTitle\<close> is the reference definition: titles of more than 4096 code units and titles with
  an unpaired surrogate are refused; of any other, the control and bidirectional control characters
  are dropped and the longest prefix of whole characters of at most 256 code units is kept.
\<close>
theorem canonicalTitle_reference:
  "canonicalTitle cc raw = (if 4096 < length raw then None
     else map_option (\<lambda>us. units_within 256 (filter (shown_unit cc) us)) (title_units raw))"
  by (simp add: canonicalTitle_def MaxRawTitleCodeUnits_def title_loop_spec)

end
