(* ===== verification/QtStrings.thy ===== *)
theory QtStrings
  imports Prelude
begin

text \<open>
  The operations of \<open>QString\<close> the components share: prefixes and suffixes, searching, splitting at a
  separator, slices, hexadecimal digits, and the predicates on ASCII characters that several files of
  the source declare alike.  Positions are as in the code: -1 for not found.
\<close>

section \<open>Searching and slicing\<close>

definition startsWith :: "qstring \<Rightarrow> qstring \<Rightarrow> bool" where
  "startsWith prefix s \<longleftrightarrow> take (length prefix) s = prefix"

definition endsWith :: "qstring \<Rightarrow> qstring \<Rightarrow> bool" where
  "endsWith suffix s \<longleftrightarrow> length suffix \<le> length s \<and> drop (length s - length suffix) s = suffix"

definition indexOf_from :: "qchar \<Rightarrow> nat \<Rightarrow> qstring \<Rightarrow> int" where
  "indexOf_from c from s = (case find (\<lambda>i. s ! i = c) [from ..< length s] of
     None \<Rightarrow> -1 | Some i \<Rightarrow> int i)"

abbreviation indexOf :: "qchar \<Rightarrow> qstring \<Rightarrow> int" where
  "indexOf c s \<equiv> indexOf_from c 0 s"

fun has_infix :: "qstring \<Rightarrow> qstring \<Rightarrow> bool" where
  "has_infix p [] = (p = [])"
| "has_infix p (c # cs) = (startsWith p (c # cs) \<or> has_infix p cs)"

fun indexOf_infix :: "qstring \<Rightarrow> qstring \<Rightarrow> int" where
  "indexOf_infix p [] = (if p = [] then 0 else -1)"
| "indexOf_infix p (c # cs) =
     (if startsWith p (c # cs) then 0
      else let i = indexOf_infix p cs in if i < 0 then -1 else i + 1)"

definition mid :: "int \<Rightarrow> int \<Rightarrow> qstring \<Rightarrow> qstring" where
  "mid position n s = take (nat n) (drop (nat position) s)"

text \<open>Also for byte arrays.\<close>

fun split_at :: "'a \<Rightarrow> 'a list \<Rightarrow> 'a list list" where
  "split_at sep [] = [[]]"
| "split_at sep (c # cs) =
     (if c = sep then [] # split_at sep cs
      else case split_at sep cs of [] \<Rightarrow> [[c]] | p # ps \<Rightarrow> (c # p) # ps)"

section \<open>Characters\<close>

definition ascii_lower :: "qchar \<Rightarrow> bool" where "ascii_lower c \<longleftrightarrow> 0x61 \<le> c \<and> c \<le> 0x7A"
definition ascii_upper :: "qchar \<Rightarrow> bool" where "ascii_upper c \<longleftrightarrow> 0x41 \<le> c \<and> c \<le> 0x5A"
definition digit_char :: "qchar \<Rightarrow> bool" where "digit_char c \<longleftrightarrow> 0x30 \<le> c \<and> c \<le> 0x39"
definition ascii_letter :: "qchar \<Rightarrow> bool" where "ascii_letter c \<longleftrightarrow> ascii_upper c \<or> ascii_lower c"

section \<open>Facts\<close>

lemma startsWith_iff: "startsWith p s \<longleftrightarrow> (\<exists>t. s = p @ t)"
  unfolding startsWith_def by (metis append_eq_conv_conj append_take_drop_id)

lemma endsWith_iff: "endsWith p s \<longleftrightarrow> (\<exists>t. s = t @ p)"
proof
  assume "endsWith p s"
  then show "\<exists>t. s = t @ p"
    unfolding endsWith_def by (metis append_take_drop_id)
qed (auto simp: endsWith_def)

lemma startsWith_single [simp]: "startsWith [c] s \<longleftrightarrow> s \<noteq> [] \<and> hd s = c"
  by (cases s) (auto simp: startsWith_def)

lemma endsWith_single [simp]: "endsWith [c] s \<longleftrightarrow> s \<noteq> [] \<and> last s = c"
  by (auto simp: endsWith_iff) (metis append_butlast_last_id)

lemma has_infix_iff: "has_infix p s \<longleftrightarrow> (\<exists>l r. s = l @ p @ r)"
proof (induction s)
  case (Cons c cs)
  have "(\<exists>l r. c # cs = l @ p @ r) \<longleftrightarrow> startsWith p (c # cs) \<or> (\<exists>l r. cs = l @ p @ r)"
    unfolding startsWith_iff by (metis append_Cons append_Nil append_eq_Cons_conv)
  with Cons show ?case by simp
qed auto

lemma indexOf_from_bounds:
  "indexOf_from c k s = -1 \<or> int k \<le> indexOf_from c k s \<and> indexOf_from c k s < int (length s)
     \<and> s ! nat (indexOf_from c k s) = c"
  by (auto simp: indexOf_from_def find_Some_iff split: option.split)

lemma set_drop_nth: "set (drop k s) = (!) s ` {k ..< length s}"
proof -
  have "drop k s = map ((!) s) [k ..< length s]" by (simp add: list_eq_iff_nth_eq)
  then show ?thesis by simp
qed

lemma indexOf_from_none: "indexOf_from c k s = -1 \<longleftrightarrow> c \<notin> set (drop k s)"
  by (force simp: indexOf_from_def find_None_iff find_Some_iff set_drop_nth split: option.split)

lemma find_append: "find P (xs @ ys) = (case find P xs of None \<Rightarrow> find P ys | Some x \<Rightarrow> Some x)"
  by (induction xs) auto

lemma indexOf_from_app:
  assumes "c \<notin> set (drop k s)" and "k \<le> length s"
  shows "indexOf_from c k (s @ c # t) = int (length s)"
proof -
  have "[k ..< length s + Suc (length t)] = [k ..< length s] @ [length s ..< length s + Suc (length t)]"
    using assms(2) by (rule upt_add_eq_append)
  also have "[length s ..< length s + Suc (length t)] = length s # [Suc (length s) ..< length s + Suc (length t)]"
    by (simp add: upt_conv_Cons del: upt_Suc)
  finally have split: "[k ..< length s + Suc (length t)] =
    [k ..< length s] @ length s # [Suc (length s) ..< length s + Suc (length t)]" .
  have "find (\<lambda>i. (s @ c # t) ! i = c) [k ..< length s] = None"
    using assms(1) by (auto simp: find_None_iff nth_append set_drop_nth image_iff)
  moreover have len: "length (s @ c # t) = length s + Suc (length t)" by simp
  ultimately show ?thesis unfolding indexOf_from_def len split find_append by simp
qed

lemma split_at_nonempty [simp]: "split_at sep s \<noteq> []"
  by (cases s) (auto split: list.split)

lemma split_at_no_sep: "p \<in> set (split_at sep s) \<Longrightarrow> sep \<notin> set p"
proof (induction s arbitrary: p)
  case (Cons c cs)
  then show ?case by (cases "split_at sep cs") (auto split: if_splits)
qed simp

lemma split_at_id: "sep \<notin> set s \<Longrightarrow> split_at sep s = [s]"
  by (induction s) auto

lemma split_at_app: "sep \<notin> set s \<Longrightarrow> split_at sep (s @ sep # t) = s # split_at sep t"
  by (induction s) auto

fun joined :: "'a \<Rightarrow> 'a list list \<Rightarrow> 'a list" where
  "joined sep [] = []"
| "joined sep [p] = p"
| "joined sep (p # q # ps) = p @ sep # joined sep (q # ps)"

lemma joined_split [simp]: "joined sep (split_at sep s) = s"
proof (induction s)
  case (Cons c cs)
  obtain p ps where p: "split_at sep cs = p # ps" by (cases "split_at sep cs") simp_all
  with Cons show ?case by (cases ps) auto
qed simp

lemma split_joined: "ps \<noteq> [] \<Longrightarrow> list_all (\<lambda>p. sep \<notin> set p) ps \<Longrightarrow> split_at sep (joined sep ps) = ps"
  by (induction sep ps rule: joined.induct) (auto simp: split_at_id split_at_app)

lemma split_at_inj: "split_at sep s = split_at sep t \<Longrightarrow> s = t"
  by (metis joined_split)

lemma split_at_in: "p \<in> set (split_at sep s) \<Longrightarrow> set p \<subseteq> set s"
proof (induction s arbitrary: p)
  case (Cons c cs)
  then show ?case by (cases "split_at sep cs") (fastforce split: if_splits)+
qed simp

end
