(* ===== verification/Paths.thy ===== *)
theory Paths
  imports QtStrings
begin

unbundle bit_operations_syntax

text \<open>
  The address grammar of the browser: normalised paths (\<open>runtime/router/NormalizedPath.{h,cpp}\<close>),
  application URLs (\<open>runtime/router/AppUrl.{h,cpp}\<close>) and browser addresses
  (\<open>runtime/router/BrowserAddress.{h,cpp}\<close>).

  The services of Qt they rely on are parameters: the strict URL parser, the stateless UTF-8 decoder
  (\<open>None\<close> is its error), the Unicode categories, \<open>toUcs4\<close> and the size of \<open>toUtf8\<close>.
\<close>

section \<open>Services\<close>

record qurl =
  url_valid :: bool
  url_scheme :: qstring
  url_host :: qstring
  url_userInfo :: qstring
  url_port :: int
  url_hasFragment :: bool
  url_hasQuery :: bool
  url_path :: qstring
  url_encoded :: qstring

record url_services =
  strictUrl :: "qstring \<Rightarrow> qurl"
  statelessUtf8 :: "bytes \<Rightarrow> qstring option"
  control_category :: "qchar \<Rightarrow> bool"
  isSpace :: "qchar \<Rightarrow> bool"
  toUcs4 :: "qstring \<Rightarrow> nat list"
  utf8_size :: "qstring \<Rightarrow> nat"

section \<open>Normalised paths\<close>

datatype normalized_path_error = P_None | P_NotAbsolute | P_MalformedPercentEncoding
  | P_NonCanonicalEncoding | P_InvalidUtf8 | P_ControlCharacter | P_PathTraversal
  | P_DecodedSeparator | P_DuplicateSlash | P_TrailingSlash

record normalized_path =
  path_error :: normalized_path_error
  path_encoded :: qstring
  decodedSegments :: "qstring list"

definition path_failure :: "normalized_path_error \<Rightarrow> normalized_path" where
  "path_failure e = \<lparr>path_error = e, path_encoded = [], decodedSegments = []\<rparr>"

definition path_isValid :: "normalized_path \<Rightarrow> bool" where
  "path_isValid p \<longleftrightarrow> path_error p = P_None"

definition hexValue :: "qchar \<Rightarrow> int" where
  "hexValue c =
     (if 0x30 \<le> c \<and> c \<le> 0x39 then uint c - 0x30
      else if 0x41 \<le> c \<and> c \<le> 0x46 then uint c - 0x41 + 10
      else if 0x61 \<le> c \<and> c \<le> 0x66 then uint c - 0x61 + 10
      else -1)"

definition isUnreservedAscii :: "int \<Rightarrow> bool" where
  "isUnreservedAscii v \<longleftrightarrow> (0x41 \<le> v \<and> v \<le> 0x5A) \<or> (0x61 \<le> v \<and> v \<le> 0x7A)
     \<or> (0x30 \<le> v \<and> v \<le> 0x39) \<or> v = 0x2D \<or> v = 0x2E \<or> v = 0x5F \<or> v = 0x7E"

definition isAllowedLiteralPathCharacter :: "qchar \<Rightarrow> bool" where
  "isAllowedLiteralPathCharacter c \<longleftrightarrow>
     (if 0x7F < c then False
      else if isUnreservedAscii (uint c) \<or> c = qchar_of CHR '':'' \<or> c = qchar_of CHR ''@'' then True
      else c \<in> set (qstr ''!$&'' @ [0x27] @ qstr ''()*+,;=''))"

fun segment_loop ::
  "url_services \<Rightarrow> qstring \<Rightarrow> bytes \<Rightarrow> bool \<Rightarrow> normalized_path_error + bytes \<times> bool" where
  "segment_loop svc [] bs nonCanonical = Inr (bs, nonCanonical)"
| "segment_loop svc (c # cs) bs nonCanonical =
     (if c = qchar_of CHR ''%'' then
        (case cs of
           high # low # rest \<Rightarrow>
             (let highValue = hexValue high; lowValue = hexValue low in
              if highValue < 0 \<or> lowValue < 0 then Inl P_MalformedPercentEncoding
              else let byteValue = push_bit 4 highValue OR lowValue in
                segment_loop svc rest (bs @ [word_of_int byteValue])
                  (nonCanonical \<or> (0x61 \<le> high \<and> high \<le> 0x66) \<or> (0x61 \<le> low \<and> low \<le> 0x66)
                   \<or> isUnreservedAscii byteValue))
         | _ \<Rightarrow> Inl P_MalformedPercentEncoding)
      else if c = 0x5C then Inl P_DecodedSeparator
      else if control_category svc c then Inl P_ControlCharacter
      else if \<not> isAllowedLiteralPathCharacter c then Inl P_NonCanonicalEncoding
      else segment_loop svc cs (bs @ [ucast c]) nonCanonical)"

definition decodeSegment :: "url_services \<Rightarrow> qstring \<Rightarrow> normalized_path_error + qstring" where
  "decodeSegment svc encoded =
     (case segment_loop svc encoded [] False of
        Inl e \<Rightarrow> Inl e
      | Inr (bs, hasNonCanonicalEscape) \<Rightarrow>
          (case statelessUtf8 svc bs of
             None \<Rightarrow> Inl P_InvalidUtf8
           | Some decoded \<Rightarrow>
               if 0x2F \<in> set decoded \<or> 0x5C \<in> set decoded then Inl P_DecodedSeparator
               else if list_ex (control_category svc) decoded then Inl P_ControlCharacter
               else if decoded = qstr ''.'' \<or> decoded = qstr ''..'' then Inl P_PathTraversal
               else if hasNonCanonicalEscape then Inl P_NonCanonicalEncoding
               else Inr decoded))"

fun decodeSegments ::
  "url_services \<Rightarrow> qstring list \<Rightarrow> qstring list \<Rightarrow> normalized_path_error + qstring list" where
  "decodeSegments svc [] decoded = Inr decoded"
| "decodeSegments svc (raw # raws) decoded =
     (case decodeSegment svc raw of
        Inl e \<Rightarrow> Inl e
      | Inr segment \<Rightarrow> decodeSegments svc raws (decoded @ [segment]))"

definition parsePath :: "url_services \<Rightarrow> qstring \<Rightarrow> normalized_path" where
  "parsePath svc encodedPath =
     (if \<not> startsWith (qstr ''/'') encodedPath then path_failure P_NotAbsolute
      else if has_infix (qstr ''//'') encodedPath then path_failure P_DuplicateSlash
      else if 1 < length encodedPath \<and> endsWith (qstr ''/'') encodedPath
        then path_failure P_TrailingSlash
      else if encodedPath = qstr ''/''
        then \<lparr>path_error = P_None, path_encoded = encodedPath, decodedSegments = []\<rparr>
      else (case decodeSegments svc (split_at 0x2F (drop 1 encodedPath)) [] of
          Inl e \<Rightarrow> path_failure e
        | Inr segments \<Rightarrow> \<lparr>path_error = P_None, path_encoded = encodedPath,
            decodedSegments = segments\<rparr>))"

section \<open>Application URLs\<close>

datatype app_url_error = U_None | U_InvalidUrl | U_InvalidExpectedAuthority | U_WrongScheme
  | U_WrongAuthority | U_MalformedPercentEncoding | U_PathNotAbsolute | U_PathTraversal
  | U_DuplicateSlash | U_FragmentNotAllowed | U_NonNormalizedPath

record app_url =
  app_error :: app_url_error
  app_path :: qstring
  app_query :: qstring

definition app_failure :: "app_url_error \<Rightarrow> app_url" where
  "app_failure e = \<lparr>app_error = e, app_path = [], app_query = []\<rparr>"

definition app_isValid :: "app_url \<Rightarrow> bool" where
  "app_isValid u \<longleftrightarrow> app_error u = U_None"

definition validLabel :: "qstring \<Rightarrow> bool" where
  "validLabel label \<longleftrightarrow>
     \<not> (label = [] \<or> 63 < length label \<or> startsWith (qstr ''-'') label \<or> endsWith (qstr ''-'') label)
     \<and> list_all (\<lambda>c. \<not> (\<not> ascii_lower c \<and> \<not> digit_char c \<and> c \<noteq> qchar_of CHR ''-'')) label"

definition isValidExpectedAuthority :: "qstring \<Rightarrow> bool" where
  "isValidExpectedAuthority authority \<longleftrightarrow>
     \<not> (authority = [] \<or> 253 < length authority \<or> startsWith (qstr ''.'') authority
        \<or> endsWith (qstr ''.'') authority)
     \<and> list_all validLabel (split_at (qchar_of CHR ''.'') authority)"

definition isHexDigit :: "qchar \<Rightarrow> bool" where
  "isHexDigit c \<longleftrightarrow> digit_char c \<or> (0x41 \<le> c \<and> c \<le> 0x46) \<or> (0x61 \<le> c \<and> c \<le> 0x66)"

fun hasValidPercentEncoding :: "qstring \<Rightarrow> bool" where
  "hasValidPercentEncoding [] = True"
| "hasValidPercentEncoding (c # cs) =
     (if c \<noteq> qchar_of CHR ''%'' then hasValidPercentEncoding cs
      else case cs of
        high # low # rest \<Rightarrow> isHexDigit high \<and> isHexDigit low \<and> hasValidPercentEncoding rest
      | _ \<Rightarrow> False)"

definition rawPath :: "qstring \<Rightarrow> qstring" where
  "rawPath input =
     (let authorityMarker = indexOf_infix (qstr ''://'') input in
      if authorityMarker < 0 then []
      else
        let authorityStart = nat (authorityMarker + 3);
            queryStart = indexOf_from (qchar_of CHR ''?'') authorityStart input;
            fragmentStart = indexOf_from (qchar_of CHR ''#'') authorityStart input;
            end_pos = (if 0 \<le> queryStart then queryStart else int (length input));
            end_pos = (if 0 \<le> fragmentStart \<and> fragmentStart < end_pos then fragmentStart else end_pos);
            pathStart = indexOf_from (qchar_of CHR ''/'') authorityStart input
        in if pathStart < 0 \<or> end_pos \<le> pathStart then []
           else mid pathStart (end_pos - pathStart) input)"

definition rawQuery :: "qstring \<Rightarrow> qstring" where
  "rawQuery input =
     (let queryStart = indexOf (qchar_of CHR ''?'') input in
      if queryStart < 0 then []
      else
        let fragmentStart = indexOf_from (qchar_of CHR ''#'') (nat (queryStart + 1)) input;
            end_pos = (if fragmentStart < 0 then int (length input) else fragmentStart)
        in mid (queryStart + 1) (end_pos - queryStart - 1) input)"

fun appUrlError :: "normalized_path_error \<Rightarrow> app_url_error" where
  "appUrlError P_None = U_None"
| "appUrlError P_NotAbsolute = U_PathNotAbsolute"
| "appUrlError P_MalformedPercentEncoding = U_MalformedPercentEncoding"
| "appUrlError P_PathTraversal = U_PathTraversal"
| "appUrlError P_DuplicateSlash = U_DuplicateSlash"
| "appUrlError P_NonCanonicalEncoding = U_NonNormalizedPath"
| "appUrlError P_InvalidUtf8 = U_NonNormalizedPath"
| "appUrlError P_ControlCharacter = U_NonNormalizedPath"
| "appUrlError P_DecodedSeparator = U_NonNormalizedPath"
| "appUrlError P_TrailingSlash = U_NonNormalizedPath"

definition parseAppUrl :: "url_services \<Rightarrow> qstring \<Rightarrow> qstring \<Rightarrow> app_url" where
  "parseAppUrl svc input expectedAuthority =
     (if \<not> isValidExpectedAuthority expectedAuthority then app_failure U_InvalidExpectedAuthority
      else let url = strictUrl svc input in
      if url_scheme url \<noteq> qstr ''app'' then app_failure U_WrongScheme
      else if url_valid url \<and> (url_host url \<noteq> expectedAuthority \<or> url_userInfo url \<noteq> []
              \<or> url_port url \<noteq> -1) then app_failure U_WrongAuthority
      else if url_valid url \<and> url_hasFragment url then app_failure U_FragmentNotAllowed
      else let path = parsePath svc (rawPath input) in
      if \<not> path_isValid path then app_failure (appUrlError (path_error path))
      else let query = rawQuery input in
      if \<not> hasValidPercentEncoding query then app_failure U_MalformedPercentEncoding
      else if \<not> url_valid url then app_failure U_InvalidUrl
      else \<lparr>app_error = U_None, app_path = path_encoded path, app_query = query\<rparr>)"

section \<open>Browser addresses\<close>

datatype browser_address_kind = InvalidAddress | NewTab | AppAddress

datatype browser_address_error = B_None | B_InvalidUrl | B_WrongScheme | B_WrongAuthority
  | B_UnknownHostPage | B_AppUrlInvalid | B_TooLong

record browser_address =
  address_error :: browser_address_error
  address_kind :: browser_address_kind
  canonical :: qstring
  appPath :: qstring
  appQuery :: qstring

definition address_failure :: "browser_address_error \<Rightarrow> browser_address" where
  "address_failure e = \<lparr>address_error = e, address_kind = InvalidAddress, canonical = [],
     appPath = [], appQuery = []\<rparr>"

definition address_isValid :: "browser_address \<Rightarrow> bool" where
  "address_isValid a \<longleftrightarrow> address_error a = B_None"

definition MaximumAddressBytes :: nat where "MaximumAddressBytes = 2048"

definition uppercaseHexValue :: "qchar \<Rightarrow> int" where
  "uppercaseHexValue c =
     (if 0x30 \<le> c \<and> c \<le> 0x39 then uint c - 0x30
      else if 0x41 \<le> c \<and> c \<le> 0x46 then uint c - 0x41 + 10
      else -1)"

definition isAllowedLiteralQueryCharacter :: "qchar \<Rightarrow> bool" where
  "isAllowedLiteralQueryCharacter c \<longleftrightarrow>
     (if 0x7F < c \<or> c = qchar_of CHR ''%'' then False
      else if isUnreservedAscii (uint c) then True
      else c \<in> set (qstr ''!$&'' @ [0x27] @ qstr ''()*+,;=:@/?''))"

definition isReservedAscii :: "int \<Rightarrow> bool" where
  "isReservedAscii v \<longleftrightarrow> v \<in> set (map uint (qstr '':/?#[]@!$&'' @ [0x27] @ qstr ''()*+,;=''))"

definition isBidiCodePoint :: "nat \<Rightarrow> bool" where
  "isBidiCodePoint p \<longleftrightarrow> p = 0x061C \<or> (0x200E \<le> p \<and> p \<le> 0x200F) \<or> (0x202A \<le> p \<and> p \<le> 0x202E)
     \<or> (0x2066 \<le> p \<and> p \<le> 0x2069)"

definition isSafeDecodedUnicode :: "url_services \<Rightarrow> qstring \<Rightarrow> bool" where
  "isSafeDecodedUnicode svc decoded \<longleftrightarrow>
     list_all (\<lambda>c. \<not> (control_category svc c \<or> isSpace svc c)) decoded
     \<and> list_all (\<lambda>p. \<not> isBidiCodePoint p) (toUcs4 svc decoded)"

text \<open>The inner loop: the bytes of the escapes from here on, and what follows them.\<close>

fun escaped_run :: "qstring \<Rightarrow> bytes \<Rightarrow> (bytes \<times> qstring) option" where
  "escaped_run (c # high # low # rest) bs =
     (if c = qchar_of CHR ''%'' then
        (let h = uppercaseHexValue high; l = uppercaseHexValue low in
         if h < 0 \<or> l < 0 then None
         else let b = push_bit 4 h OR l in
           if b < 0x80 then Some (bs, c # high # low # rest)
           else escaped_run rest (bs @ [word_of_int b]))
      else Some (bs, c # high # low # rest))"
| "escaped_run s bs = Some (bs, s)"

lemma escaped_run_shorter: "escaped_run s bs = Some (bs', rest) \<Longrightarrow> length rest \<le> length s"
  by (induction s bs rule: escaped_run.induct) (force simp: Let_def split: if_splits intro: le_SucI)+

text \<open>
  The loop over the query.  An escape of a byte above 0x7F starts the inner loop, which consumes at
  least that escape.
\<close>

function query_loop :: "url_services \<Rightarrow> qstring \<Rightarrow> bool" where
  "query_loop svc [] = True"
| "query_loop svc (c # cs) =
     (if c \<noteq> qchar_of CHR ''%'' then isAllowedLiteralQueryCharacter c \<and> query_loop svc cs
      else case cs of
        high # low # rest \<Rightarrow>
          (let h = uppercaseHexValue high; l = uppercaseHexValue low in
           if h < 0 \<or> l < 0 then False
           else let byteValue = push_bit 4 h OR l in
             if byteValue < 0x80 then
               (if \<not> isReservedAscii byteValue \<and> byteValue \<noteq> 0x25 then False
                else query_loop svc rest)
             else (case escaped_run rest [word_of_int byteValue] of
                 None \<Rightarrow> False
               | Some (encodedBytes, rest') \<Rightarrow>
                   (case statelessUtf8 svc encodedBytes of
                      None \<Rightarrow> False
                    | Some decoded \<Rightarrow> isSafeDecodedUnicode svc decoded \<and> query_loop svc rest')))
      | _ \<Rightarrow> False)"
  by pat_completeness auto
termination
  by (relation "measure (\<lambda>(svc, s). length s)") (auto dest: escaped_run_shorter)

definition hasCanonicalQuery :: "url_services \<Rightarrow> qstring \<Rightarrow> bool" where
  "hasCanonicalQuery svc query \<longleftrightarrow> (if query = [] then False else query_loop svc query)"

definition rawAuthority :: "qstring \<Rightarrow> qstring" where
  "rawAuthority input =
     (if \<not> startsWith (qstr ''app://'') input then []
      else takeWhile (\<lambda>c. \<not> (c = qchar_of CHR ''/'' \<or> c = qchar_of CHR ''?'' \<or> c = qchar_of CHR ''#''))
        (drop 6 input))"

fun browserError :: "app_url_error \<Rightarrow> browser_address_error" where
  "browserError U_None = B_None"
| "browserError U_WrongScheme = B_WrongScheme"
| "browserError U_InvalidExpectedAuthority = B_WrongAuthority"
| "browserError U_WrongAuthority = B_WrongAuthority"
| "browserError _ = B_AppUrlInvalid"

definition parseBrowserAddress :: "url_services \<Rightarrow> qstring \<Rightarrow> qstring \<Rightarrow> browser_address" where
  "parseBrowserAddress svc input appAuthority =
     (if MaximumAddressBytes < length input \<or> MaximumAddressBytes < utf8_size svc input
        then address_failure B_TooLong
      else let schemeEnd = indexOf (qchar_of CHR '':'') input in
      if schemeEnd \<le> 0 then address_failure B_InvalidUrl
      else let scheme = take (nat schemeEnd) input in
      if scheme = qstr ''http'' \<or> scheme = qstr ''https'' then
        (let url = strictUrl svc input in
         if \<not> url_valid url \<or> url_host url = [] \<or> url_userInfo url \<noteq> [] \<or> url_hasFragment url
            \<or> url_hasQuery url \<or> url_port url = 0 \<or> url_encoded url \<noteq> input
           then address_failure B_InvalidUrl
         else let path = url_path url;
                  route = parseAppUrl svc (qstr ''app://pilot'' @ path) (qstr ''pilot'') in
         if \<not> app_isValid route then address_failure B_AppUrlInvalid
         else \<lparr>address_error = B_None, address_kind = AppAddress, canonical = input, appPath = path,
                appQuery = []\<rparr>)
      else if scheme = qstr ''qbrowser'' then
        (if input \<noteq> qstr ''qbrowser://newtab'' then address_failure B_UnknownHostPage
         else \<lparr>address_error = B_None, address_kind = NewTab, canonical = qstr ''qbrowser://newtab'',
                appPath = [], appQuery = []\<rparr>)
      else if scheme \<noteq> qstr ''app'' then address_failure B_WrongScheme
      else let appUrl = parseAppUrl svc input appAuthority in
      if app_error appUrl = U_InvalidExpectedAuthority then address_failure B_WrongAuthority
      else if rawAuthority input \<noteq> appAuthority then address_failure B_WrongAuthority
      else if \<not> app_isValid appUrl then address_failure (browserError (app_error appUrl))
      else let hasQuery = 0 \<le> indexOf (qchar_of CHR ''?'') input; query = app_query appUrl in
      if hasQuery \<and> \<not> hasCanonicalQuery svc query then address_failure B_AppUrlInvalid
      else let text_form = qstr ''app://'' @ appAuthority @ app_path appUrl
                 @ (if hasQuery then qstr ''?'' @ query else []) in
      if input \<noteq> text_form then address_failure B_AppUrlInvalid
      else \<lparr>address_error = B_None, address_kind = AppAddress, canonical = text_form,
             appPath = app_path appUrl, appQuery = query\<rparr>)"

end
