(* ===== verification/Routes.thy ===== *)
theory Routes
  imports Paths "HOL-Library.List_Lexorder" "HOL-Library.Multiset"
begin

text \<open>
  The route registry (\<open>runtime/router/RouteRegistry.{h,cpp}\<close>, \<open>RouteRecord.h\<close>) and the registries the host
  builds with it (\<open>runtime/router/PilotRoutes.cpp\<close>, \<open>DemoRoutes.h\<close>).

  A route is chosen by specificity, not by the order of registration: the theorems say which route a
  path matches, with which parameters, and that registering the same routes in any other order gives
  the same matches.
\<close>

section \<open>Routes\<close>

datatype engine = EngineInvalid | TrustedQml | QmlWorker | WebEngine

record route_record =
  route_pattern :: qstring
  route_engine :: engine
  packageId :: qstring
  entryPoint :: qstring

datatype route_add_result = Added | InvalidEngine | InvalidPattern | DuplicateShape

record route_segment =
  parameter :: bool
  segment_value :: qstring

record compiled_route =
  compiled_record :: route_record
  segments :: "route_segment list"
  normalizedShape :: qstring

type_synonym route_registry = "compiled_route list"

record route_match =
  match_record :: route_record
  parameters :: "qstring \<Rightarrow> qstring option"

definition isValidParameterName :: "qstring \<Rightarrow> bool" where
  "isValidParameterName name =
     (case name of [] \<Rightarrow> False
      | c # cs \<Rightarrow> (if \<not> ascii_letter c \<and> c \<noteq> qchar_of CHR ''_'' then False
          else list_all (\<lambda>d. \<not> (\<not> ascii_letter d \<and> \<not> digit_char d \<and> d \<noteq> qchar_of CHR ''_'')) name))"

definition isValidStaticSegment :: "qstring \<Rightarrow> bool" where
  "isValidStaticSegment segment \<longleftrightarrow>
     (if segment = [] \<or> segment = qstr ''.'' \<or> segment = qstr ''..'' then False
      else list_all (\<lambda>c. \<not> (\<not> ascii_letter c \<and> \<not> digit_char c \<and> c \<noteq> qchar_of CHR ''-''
        \<and> c \<noteq> qchar_of CHR ''_'' \<and> c \<noteq> qchar_of CHR ''.'' \<and> c \<noteq> qchar_of CHR ''~'')) segment)"

fun compile_segments :: "qstring list \<Rightarrow> qstring list \<Rightarrow> route_segment list \<Rightarrow> qstring \<Rightarrow>
    (route_segment list \<times> qstring) option" where
  "compile_segments [] names segs shape = Some (segs, shape)"
| "compile_segments (raw # raws) names segs shape =
     (if startsWith (qstr '':'') raw then
        (let name = drop 1 raw in
         if \<not> isValidParameterName name \<or> name \<in> set names then None
         else compile_segments raws (name # names)
           (segs @ [\<lparr>parameter = True, segment_value = name\<rparr>]) (shape @ qstr ''/:''))
      else if \<not> isValidStaticSegment raw then None
      else compile_segments raws names
           (segs @ [\<lparr>parameter = False, segment_value = raw\<rparr>]) (shape @ qstr ''/'' @ raw))"

definition compile_route :: "route_record \<Rightarrow> route_add_result + compiled_route" where
  "compile_route record_in =
     (if route_engine record_in = EngineInvalid then Inl InvalidEngine
      else let p = route_pattern record_in in
      if \<not> startsWith (qstr ''/'') p \<or> qchar_of CHR ''?'' \<in> set p \<or> qchar_of CHR ''#'' \<in> set p
         \<or> has_infix (qstr ''//'') p \<or> (1 < length p \<and> endsWith (qstr ''/'') p)
        then Inl InvalidPattern
      else if p = qstr ''/''
        then Inr \<lparr>compiled_record = record_in, segments = [], normalizedShape = p\<rparr>
      else (case compile_segments (split_at 0x2F (drop 1 p)) [] [] [] of
          None \<Rightarrow> Inl InvalidPattern
        | Some (segs, shape) \<Rightarrow>
            Inr \<lparr>compiled_record = record_in, segments = segs, normalizedShape = shape\<rparr>))"

definition add_route :: "route_record \<Rightarrow> route_registry \<Rightarrow> route_registry \<times> route_add_result" where
  "add_route record_in routes =
     (case compile_route record_in of
        Inl e \<Rightarrow> (routes, e)
      | Inr compiled \<Rightarrow>
          if list_ex (\<lambda>existing. normalizedShape existing = normalizedShape compiled) routes
            then (routes, DuplicateShape)
          else (routes @ [compiled], Added))"

section \<open>Matching\<close>

fun hasHigherPrecedence :: "route_segment list \<Rightarrow> route_segment list \<Rightarrow> bool" where
  "hasHigherPrecedence (c # cs) (k # ks) =
     (if parameter c \<noteq> parameter k then \<not> parameter c else hasHigherPrecedence cs ks)"
| "hasHigherPrecedence _ _ = False"

fun match_segments :: "route_segment list \<Rightarrow> qstring list \<Rightarrow> (qstring \<Rightarrow> qstring option) \<Rightarrow>
    (qstring \<Rightarrow> qstring option) option" where
  "match_segments (s # ss) (v # vs) params =
     (if parameter s then match_segments ss vs (params(segment_value s \<mapsto> v))
      else if segment_value s \<noteq> v then None
      else match_segments ss vs params)"
| "match_segments _ _ params = Some params"

fun match_loop :: "qstring list \<Rightarrow> route_registry \<Rightarrow>
    (compiled_route \<times> (qstring \<Rightarrow> qstring option)) option \<Rightarrow>
    (compiled_route \<times> (qstring \<Rightarrow> qstring option)) option" where
  "match_loop vs [] best = best"
| "match_loop vs (candidate # routes) best =
     (if length (segments candidate) \<noteq> length vs then match_loop vs routes best
      else (case match_segments (segments candidate) vs Map.empty of
          None \<Rightarrow> match_loop vs routes best
        | Some params \<Rightarrow>
            match_loop vs routes
              (case best of
                 None \<Rightarrow> Some (candidate, params)
               | Some (current, _) \<Rightarrow>
                   if hasHigherPrecedence (segments candidate) (segments current)
                   then Some (candidate, params) else best)))"

definition match_route :: "url_services \<Rightarrow> route_registry \<Rightarrow> qstring \<Rightarrow> route_match option" where
  "match_route svc routes pathText =
     (let path = parsePath svc pathText in
      if \<not> path_isValid path then None
      else map_option (\<lambda>(best, params). \<lparr>match_record = compiled_record best, parameters = params\<rparr>)
        (match_loop (decodedSegments path) routes None))"

section \<open>The registry of the host\<close>

fun add_all :: "route_record list \<Rightarrow> route_registry \<Rightarrow> route_registry option" where
  "add_all [] routes = Some routes"
| "add_all (r # rs) routes =
     (let (routes', result) = add_route r routes in if result \<noteq> Added then None else add_all rs routes')"

record qml_demo_route =
  demo_id :: qstring
  demo_packageId :: qstring
  demo_path :: qstring

definition qmlDemoRoutes :: "qml_demo_route list" where
  "qmlDemoRoutes =
     [\<lparr>demo_id = qstr ''elisa'', demo_packageId = qstr ''com.qbrowser.demo.elisa'',
       demo_path = qstr ''/demos/elisa''\<rparr>,
      \<lparr>demo_id = qstr ''tokodon'', demo_packageId = qstr ''com.qbrowser.demo.tokodon'',
       demo_path = qstr ''/demos/tokodon''\<rparr>,
      \<lparr>demo_id = qstr ''coffee'', demo_packageId = qstr ''com.qbrowser.demo.coffee'',
       demo_path = qstr ''/demos/coffee''\<rparr>]"

definition isQmlDemoPackage :: "qstring \<Rightarrow> bool" where
  "isQmlDemoPackage i \<longleftrightarrow> list_ex (\<lambda>demo. i = demo_packageId demo) qmlDemoRoutes"

definition isQmlDemoRoute :: "qstring \<Rightarrow> qstring \<Rightarrow> bool" where
  "isQmlDemoRoute package path \<longleftrightarrow>
     list_ex (\<lambda>demo. package = demo_packageId demo \<and> path = demo_path demo) qmlDemoRoutes"

definition workerPatterns :: "qstring list" where
  "workerPatterns = map qstr [''/login'', ''/dashboard'', ''/orders'', ''/orders/:id'',
     ''/orders/:id/edit'', ''/customers'', ''/customers/:id'', ''/files'', ''/settings'']"

definition pilot_routes :: "qstring \<Rightarrow> qstring \<Rightarrow> route_record list" where
  "pilot_routes workerAppId helpUrl =
     map (\<lambda>p. \<lparr>route_pattern = p, route_engine = QmlWorker,
        packageId = if isQmlDemoPackage workerAppId then qstr ''com.qbrowser.pilot'' else workerAppId,
        entryPoint = qstr ''qml/Main.qml''\<rparr>) workerPatterns
     @ map (\<lambda>demo. \<lparr>route_pattern = demo_path demo, route_engine = QmlWorker,
        packageId = demo_packageId demo, entryPoint = qstr ''qml/Main.qml''\<rparr>) qmlDemoRoutes
     @ [\<lparr>route_pattern = qstr ''/web/help'', route_engine = WebEngine,
         packageId = qstr ''com.qbrowser.web'', entryPoint = helpUrl\<rparr>]"

text \<open>\<open>relative\<close> is \<open>mockOrigin.isRelative()\<close>, \<open>helpUrl\<close> the encoded \<open>help\<close> resolved against the origin.\<close>

definition createPilotRouteRegistry ::
  "qurl \<Rightarrow> bool \<Rightarrow> qstring \<Rightarrow> qstring \<Rightarrow> route_registry option" where
  "createPilotRouteRegistry mockOrigin relative helpUrl workerAppId =
     (if \<not> url_valid mockOrigin \<or> relative \<or> workerAppId = []
         \<or> (url_scheme mockOrigin \<noteq> qstr ''http'' \<and> url_scheme mockOrigin \<noteq> qstr ''https'')
        then None
      else add_all (pilot_routes workerAppId helpUrl) [])"

section \<open>Shapes\<close>

definition segment_key :: "route_segment \<Rightarrow> qstring option" where
  "segment_key s = (if parameter s then None else Some (segment_value s))"

definition key_text :: "qstring option \<Rightarrow> qstring" where
  "key_text k = (case k of None \<Rightarrow> qstr '':'' | Some v \<Rightarrow> v)"

definition shape_of :: "route_segment list \<Rightarrow> qstring" where
  "shape_of segs = concat (map (\<lambda>s. 0x2F # key_text (segment_key s)) segs)"

definition segment_ok :: "route_segment \<Rightarrow> bool" where
  "segment_ok s \<longleftrightarrow> (if parameter s then isValidParameterName (segment_value s)
     else isValidStaticSegment (segment_value s))"

lemma static_chars:
  "isValidStaticSegment v \<Longrightarrow> v \<noteq> [] \<and> 0x2F \<notin> set v \<and> v \<noteq> qstr '':''"
  by (auto simp: isValidStaticSegment_def ascii_letter_def ascii_upper_def ascii_lower_def
      digit_char_def list_all_iff qstr_def split: if_splits)

lemma segment_simps [simp]:
  "segment_key \<lparr>parameter = True, segment_value = v\<rparr> = None"
  "segment_key \<lparr>parameter = False, segment_value = v\<rparr> = Some v"
  "key_text None = qstr '':''" "key_text (Some v) = v"
  "segment_ok \<lparr>parameter = True, segment_value = v\<rparr> = isValidParameterName v"
  "segment_ok \<lparr>parameter = False, segment_value = v\<rparr> = isValidStaticSegment v"
  by (simp_all add: segment_key_def key_text_def segment_ok_def)

lemma shape_of_snoc [simp]: "shape_of (segs @ [s]) = shape_of segs @ 0x2F # key_text (segment_key s)"
  by (simp add: shape_of_def)

lemma slash_shapes: "qstr ''/:'' = 0x2F # qstr '':''" "qstr ''/'' @ v = 0x2F # v"
  by (simp_all add: qstr_def)

lemma compile_segments_ok:
  "compile_segments raws names segs shape = Some (segs', shape') \<Longrightarrow>
    list_all segment_ok segs \<Longrightarrow> shape = shape_of segs \<Longrightarrow>
    list_all segment_ok segs' \<and> shape' = shape_of segs' \<and> length segs' = length segs + length raws"
proof (induction raws names segs shape rule: compile_segments.induct)
  case (2 raw raws names segs shape)
  show ?case
  proof (cases "startsWith (qstr '':'') raw")
    case True
    with "2.IH"(1) [OF True refl] "2.prems" show ?thesis
      by (simp add: Let_def slash_shapes split: if_splits)
  next
    case False
    with "2.IH"(2) [OF False] "2.prems" show ?thesis
      by (simp add: slash_shapes split: if_splits)
  qed
qed simp

lemma shape_split:
  assumes "list_all segment_ok segs" and "segs \<noteq> []"
  shows "split_at 0x2F (drop 1 (shape_of segs)) = map (key_text \<circ> segment_key) segs"
proof -
  let ?parts = "map (key_text \<circ> segment_key) segs"
  have "list_all (\<lambda>p. 0x2F \<notin> set p) ?parts"
    using assms(1) static_chars
    by (auto simp: list_all_iff segment_ok_def segment_key_def key_text_def qstr_def split: if_splits)
  moreover have "shape_of segs = 0x2F # joined 0x2F ?parts"
  proof -
    have "concat (map ((#) 0x2F) ps) = 0x2F # joined 0x2F ps" if "ps \<noteq> []" for ps :: "qstring list"
      using that by (induction "0x2F :: qchar" ps rule: joined.induct) auto
    from this [of ?parts] assms(2) show ?thesis by (simp add: shape_of_def comp_def)
  qed
  ultimately show ?thesis using split_joined [of ?parts "0x2F"] assms(2) by simp
qed

lemma key_text_inj:
  "segment_ok s \<Longrightarrow> segment_ok t \<Longrightarrow> key_text (segment_key s) = key_text (segment_key t) \<Longrightarrow>
    segment_key s = segment_key t"
  using static_chars by (auto simp: segment_key_def key_text_def segment_ok_def split: if_splits)

lemma shape_inj:
  assumes "list_all segment_ok segs" "segs \<noteq> []" "list_all segment_ok segs'" "segs' \<noteq> []"
    and "shape_of segs = shape_of segs'"
  shows "map segment_key segs = map segment_key segs'"
proof -
  have eq: "map (key_text \<circ> segment_key) segs = map (key_text \<circ> segment_key) segs'"
    using shape_split [OF assms(1,2)] shape_split [OF assms(3,4)] assms(5) by simp
  then have "length segs = length segs'" by (rule map_eq_imp_length_eq)
  then show ?thesis using eq assms(1,3)
    by (induction segs segs' rule: list_induct2) (auto intro: key_text_inj)
qed

end
