(* ===== verification/PathGrammar.thy ===== *)
theory PathGrammar
  imports Paths
begin

unbundle bit_operations_syntax

text \<open>
  The paths the parser accepts, as a grammar: a path is \<open>/\<close> or a sequence of nonempty segments, each
  spelled in its only canonical way and decoding to text without separators, control characters
  and dot segments.  The browser's addresses are fixed points of their own parser.
\<close>

section \<open>Hexadecimal digits\<close>

definition hex_digit :: "nat \<Rightarrow> qchar" where
  "hex_digit n = word_of_nat (if n < 10 then 0x30 + n else 0x37 + n)"

lemma unat_hex_digit: "n < 16 \<Longrightarrow> unat (hex_digit n) = (if n < 10 then 0x30 + n else 0x37 + n)"
  by (simp add: hex_digit_def unat_of_nat)

lemma hexValue_unat:
  "hexValue c = (if 0x30 \<le> unat c \<and> unat c \<le> 0x39 then int (unat c) - 0x30
     else if 0x41 \<le> unat c \<and> unat c \<le> 0x46 then int (unat c) - 0x37
     else if 0x61 \<le> unat c \<and> unat c \<le> 0x66 then int (unat c) - 0x57 else -1)"
  by (simp add: hexValue_def word_le_nat_alt uint_nat del: of_nat_unat)

lemma hexValue_hex_digit:
  assumes "n < 16"
  shows "hexValue (hex_digit n) = int n" and "\<not> (0x61 \<le> hex_digit n \<and> hex_digit n \<le> 0x66)"
  using assms by (auto simp: hexValue_unat unat_hex_digit word_le_nat_alt)

lemma hexValue_less: "hexValue c < 16"
  by (auto simp: hexValue_unat simp del: of_nat_unat)

lemma upper_hex:
  assumes "0 \<le> hexValue c" and "\<not> (0x61 \<le> c \<and> c \<le> 0x66)"
  shows "c = hex_digit (nat (hexValue c))"
proof -
  have "unat c = unat (hex_digit (nat (hexValue c)))"
    using assms by (subst unat_hex_digit) (auto simp: hexValue_unat word_le_nat_alt simp del: of_nat_unat
        split: if_splits)
  then show ?thesis by (simp add: word_unat_eq_iff)
qed

lemma byte_of_hex:
  assumes "0 \<le> l" "l < 16"
  shows "push_bit 4 h OR l = 16 * h + (l :: int)"
proof -
  have l: "l = take_bit 4 l" using assms by (simp add: take_bit_int_eq_self)
  have "push_bit 4 h AND take_bit 4 l = 0" by (rule bit_eqI) (auto simp: bit_simps)
  then have "push_bit 4 h AND l = 0" using l by simp
  from disjunctive_add_eq_or [OF this] show ?thesis by (simp add: push_bit_eq_mult)
qed

section \<open>Segments\<close>

text \<open>\<open>spells svc s bs\<close>: the segment text \<open>s\<close> is the canonical spelling of the bytes \<open>bs\<close>.\<close>

inductive spells :: "url_services \<Rightarrow> qstring \<Rightarrow> bytes \<Rightarrow> bool" for svc where
  end_of_segment: "spells svc [] []"
| literal: "isAllowedLiteralPathCharacter c \<Longrightarrow> \<not> control_category svc c \<Longrightarrow> spells svc s bs
    \<Longrightarrow> spells svc (c # s) (ucast c # bs)"
| escape: "\<not> isUnreservedAscii (uint b) \<Longrightarrow> spells svc s bs
    \<Longrightarrow> spells svc (qchar_of CHR ''%'' # hex_digit (unat b div 16) # hex_digit (unat b mod 16) # s) (b # bs)"

inductive_cases spells_NilE: "spells svc [] bs"

definition plain_text :: "url_services \<Rightarrow> qstring \<Rightarrow> bool" where
  "plain_text svc d \<longleftrightarrow> 0x2F \<notin> set d \<and> 0x5C \<notin> set d \<and> list_all (\<lambda>c. \<not> control_category svc c) d
     \<and> d \<noteq> qstr ''.'' \<and> d \<noteq> qstr ''..''"

lemma literal_not_special:
  "isAllowedLiteralPathCharacter c \<Longrightarrow> c \<noteq> qchar_of CHR ''%'' \<and> c \<noteq> 0x5C \<and> c \<noteq> 0x2F"
  by (auto simp: isAllowedLiteralPathCharacter_def isUnreservedAscii_def qstr_def split: if_splits)

lemma segment_loop_flag: "segment_loop svc s acc True \<noteq> Inr (bs, False)"
proof (induction svc s acc True rule: segment_loop.induct)
  case (2 svc c cs acc)
  then show ?case by (auto simp: Let_def split: list.splits)
qed simp

lemma byte_of_digits:
  assumes "0 \<le> h" "h < 16" "0 \<le> l" "l < 16" and b: "b = (word_of_int (push_bit 4 h OR l) :: byte)"
  shows "uint b = 16 * h + l" and "unat b div 16 = nat h" and "unat b mod 16 = nat l"
proof -
  have mod: "uint (word_of_int v :: byte) = v mod 2 ^ LENGTH(8)" for v by (rule uint_word_of_int)
  show u: "uint b = 16 * h + l"
    unfolding b byte_of_hex [OF assms(3,4)] mod using assms(1-4) by simp
  then have n: "unat b = 16 * nat h + nat l" using assms by (simp add: unat_eq_nat_uint nat_add_distrib)
  then show "unat b div 16 = nat h" "unat b mod 16 = nat l" using assms by simp_all
qed

lemma segment_loop_sound:
  "segment_loop svc s acc False = Inr (bs, False) \<Longrightarrow> \<exists>t. spells svc s t \<and> bs = acc @ t"
proof (induction svc s acc False rule: segment_loop.induct)
  case (1 svc acc)
  then show ?case by (auto intro: spells.intros)
next
  case (2 svc c cs acc)
  show ?case
  proof (cases "c = qchar_of CHR ''%''")
    case True
    with "2.prems" obtain high low rest where cs: "cs = high # low # rest"
      by (auto split: list.splits)
    let ?h = "hexValue high" let ?l = "hexValue low" let ?v = "push_bit 4 ?h OR ?l"
    from "2.prems" True cs have ok: "\<not> (?h < 0 \<or> ?l < 0)" and
      rest: "segment_loop svc rest (acc @ [word_of_int ?v]) ((0x61 \<le> high \<and> high \<le> 0x66)
        \<or> (0x61 \<le> low \<and> low \<le> 0x66) \<or> isUnreservedAscii ?v) = Inr (bs, False)"
      by (auto simp: Let_def split: if_splits)
    then have flag: "\<not> (0x61 \<le> high \<and> high \<le> 0x66)" "\<not> (0x61 \<le> low \<and> low \<le> 0x66)"
        "\<not> isUnreservedAscii ?v"
      using segment_loop_flag [of svc rest] by (metis (full_types))+
    with rest have rest': "segment_loop svc rest (acc @ [word_of_int ?v]) False = Inr (bs, False)"
      by simp
    have "\<exists>t. spells svc rest t \<and> bs = (acc @ [word_of_int ?v]) @ t"
      using flag by (intro "2.hyps"(1) [OF True cs refl refl refl ok refl _ rest']) simp
    then obtain t where t: "spells svc rest t" "bs = (acc @ [word_of_int ?v]) @ t" by blast
    define b where "b = (word_of_int ?v :: byte)"
    note digits = byte_of_digits [OF _ hexValue_less _ hexValue_less b_def]
    have eqs: "high = hex_digit (unat b div 16)" "low = hex_digit (unat b mod 16)" "uint b = ?v"
      using ok flag upper_hex [of high] upper_hex [of low] digits
      by (simp_all add: byte_of_hex hexValue_less)
    then have "\<not> isUnreservedAscii (uint b)" using flag(3) by simp
    from escape [OF this t(1)] have "spells svc (c # cs) (b # t)"
      unfolding eqs(1,2) [symmetric] True cs .
    moreover have "bs = acc @ (b # t)" using t(2) by (simp add: b_def)
    ultimately show ?thesis by blast
  next
    case False
    with "2.prems" have "isAllowedLiteralPathCharacter c" "\<not> control_category svc c"
      and rest: "segment_loop svc cs (acc @ [ucast c]) False = Inr (bs, False)" and "c \<noteq> 0x5C"
      by (auto split: if_splits)
    with "2.hyps"(2) False obtain t where "spells svc cs t" "bs = (acc @ [ucast c]) @ t" by blast
    with \<open>isAllowedLiteralPathCharacter c\<close> \<open>\<not> control_category svc c\<close> show ?thesis
      by (intro exI [of _ "ucast c # t"]) (auto intro: literal)
  qed
qed

lemma segment_loop_complete:
  "spells svc s t \<Longrightarrow> segment_loop svc s acc False = Inr (acc @ t, False)"
proof (induction s t arbitrary: acc rule: spells.induct)
  case end_of_segment
  then show ?case by simp
next
  case (literal c s bs)
  then show ?case using literal_not_special [of c] by simp
next
  case (escape b s bs)
  have "unat b < 2 ^ LENGTH(8)" by (rule unsigned_less)
  then have n: "unat b div 16 < 16" "unat b mod 16 < 16" by auto
  note digits = hexValue_hex_digit [OF n(1)] hexValue_hex_digit [OF n(2)]
  have v: "push_bit 4 (int (unat b div 16)) OR int (unat b mod 16) = uint b"
    using byte_of_hex [of "int (unat b mod 16)" "int (unat b div 16)"] n
    by (simp add: zdiv_int zmod_int) 
  show ?case
    using escape by (simp add: Let_def v digits del: of_nat_unat of_nat_div of_nat_mod)
qed

lemma decodeSegment_iff:
  "decodeSegment svc s = Inr d \<longleftrightarrow>
    (\<exists>bs. spells svc s bs \<and> statelessUtf8 svc bs = Some d) \<and> plain_text svc d"
proof (cases "segment_loop svc s [] False")
  case (Inl e)
  then show ?thesis using segment_loop_complete [of svc s _ "[]"] by (auto simp: decodeSegment_def)
next
  case (Inr r)
  obtain bs flag where r: "r = (bs, flag)" by (cases r)
  show ?thesis
  proof (cases flag)
    case True
    then have "\<not> spells svc s t" for t
      using segment_loop_complete [of svc s t "[]"] Inr r by auto
    then show ?thesis using Inr r True by (simp add: decodeSegment_def split: option.split)
  next
    case False
    then have "spells svc s t \<longleftrightarrow> t = bs" for t
      using segment_loop_sound [of svc s "[]" bs] segment_loop_complete [of svc s t "[]"] Inr r by auto
    then show ?thesis
      using Inr r False
      by (cases "statelessUtf8 svc bs") (auto simp: decodeSegment_def plain_text_def list_ex_iff list_all_iff)
  qed
qed

section \<open>Paths\<close>

lemma decodeSegments_iff:
  "decodeSegments svc raws acc = Inr ds \<longleftrightarrow>
    (\<exists>es. ds = acc @ es \<and> list_all2 (\<lambda>r d. decodeSegment svc r = Inr d) raws es)"
proof (induction svc raws acc rule: decodeSegments.induct)
  case (2 svc raw raws acc)
  show ?case
  proof (cases "decodeSegment svc raw")
    case (Inr s)
    with "2.IH" [OF Inr] show ?thesis by (auto simp: list_all2_Cons1)
  qed (simp add: list_all2_Cons1)
qed auto

lemma hd_split_at: "hd (split_at sep s) = takeWhile (\<lambda>c. c \<noteq> sep) s"
proof (induction s)
  case (Cons c cs)
  then show ?case by (cases "split_at sep cs") (use split_at_nonempty in auto)
qed simp

lemma empty_part_later:
  "[] \<in> set (tl (split_at 0x2F s)) \<longleftrightarrow> has_infix (qstr ''//'') s \<or> (s \<noteq> [] \<and> last s = 0x2F)"
proof (induction s)
  case Nil
  then show ?case by (simp add: qstr_def)
next
  case (Cons c cs)
  obtain p ps where p: "split_at 0x2F cs = p # ps" by (cases "split_at 0x2F cs") simp_all
  have first: "p = [] \<longleftrightarrow> cs = [] \<or> hd cs = 0x2F"
    using hd_split_at [of "0x2F" cs] p by (cases cs) auto
  have slashes: "startsWith (qstr ''//'') (c # cs) \<longleftrightarrow> c = 0x2F \<and> cs \<noteq> [] \<and> hd cs = 0x2F"
    by (cases cs) (auto simp: startsWith_def qstr_def)
  show ?case
    using Cons p first slashes by auto
qed

lemma empty_part_iff:
  "list_all (\<lambda>r. r \<noteq> []) (split_at 0x2F s) \<longleftrightarrow>
    \<not> has_infix (qstr ''//'') (0x2F # s) \<and> last (0x2F # s) \<noteq> (0x2F :: qchar)"
proof -
  obtain p ps where p: "split_at 0x2F s = p # ps" by (cases "split_at 0x2F s") simp_all
  have "p = [] \<longleftrightarrow> s = [] \<or> hd s = 0x2F" using hd_split_at [of "0x2F" s] p by (cases s) auto
  moreover have "startsWith (qstr ''//'') (0x2F # s) \<longleftrightarrow> s \<noteq> [] \<and> hd s = 0x2F"
    by (cases s) (auto simp: startsWith_def qstr_def)
  ultimately show ?thesis using empty_part_later [of s] p by (auto simp: list_all_iff)
qed

lemma slash_joined: "raws \<noteq> [] \<Longrightarrow> c # joined c raws = concat (map ((#) c) raws)"
  by (induction c raws rule: joined.induct) auto

lemma spells_no_slash: "spells svc s bs \<Longrightarrow> 0x2F \<notin> set s"
proof (induction rule: spells.induct)
  case (literal c s bs)
  then show ?case using literal_not_special by auto
next
  case (escape b s bs)
  have "unat b < 2 ^ LENGTH(8)" by (rule unsigned_less)
  then have n: "unat b div 16 < 16" "unat b mod 16 < 16" by auto
  have "hex_digit n \<noteq> 0x2F" if "n < 16" for n
    using unat_hex_digit [OF that] by (auto split: if_splits)
  with n escape show ?case by auto
qed simp

definition canonical_segment :: "url_services \<Rightarrow> qstring \<Rightarrow> qstring \<Rightarrow> bool" where
  "canonical_segment svc r d \<longleftrightarrow> r \<noteq> [] \<and> (\<exists>bs. spells svc r bs \<and> statelessUtf8 svc bs = Some d)
     \<and> plain_text svc d"

lemma decodeSegments_error: "decodeSegments svc raws acc \<noteq> Inl P_None"
proof (induction svc raws acc rule: decodeSegments.induct)
  case (2 svc raw raws acc)
  have "segment_loop svc raw bs f \<noteq> Inl P_None" for bs f
    by (induction svc raw bs f rule: segment_loop.induct) (auto simp: Let_def split: list.splits)
  then have "decodeSegment svc raw \<noteq> Inl P_None"
    by (auto simp: decodeSegment_def split: sum.split option.split)
  with 2 show ?case by (auto split: sum.split)
qed simp

lemma parsePath_slash:
  "path_isValid (parsePath svc (0x2F # s)) \<and> decodedSegments (parsePath svc (0x2F # s)) = ds \<longleftrightarrow>
    (s = [] \<and> ds = []) \<or> (s \<noteq> [] \<and> list_all (\<lambda>r. r \<noteq> []) (split_at 0x2F s)
      \<and> list_all2 (\<lambda>r d. decodeSegment svc r = Inr d) (split_at 0x2F s) ds)"
proof -
  have slash: "qstr ''/'' = [0x2F]" by (simp add: qstr_def)
  have parse: "parsePath svc (0x2F # s) =
     (if \<not> (list_all (\<lambda>r. r \<noteq> []) (split_at 0x2F s) \<or> s = [])
        then path_failure (if has_infix (qstr ''//'') (0x2F # s) then P_DuplicateSlash else P_TrailingSlash)
      else if s = [] then \<lparr>path_error = P_None, path_encoded = 0x2F # s, decodedSegments = []\<rparr>
      else case decodeSegments svc (split_at 0x2F s) [] of
          Inl e \<Rightarrow> path_failure e
        | Inr segments \<Rightarrow> \<lparr>path_error = P_None, path_encoded = 0x2F # s, decodedSegments = segments\<rparr>)"
    unfolding empty_part_iff parsePath_def slash by (cases "s = []") (auto simp: startsWith_def qstr_def)
  have inl: "path_isValid (path_failure e) \<longleftrightarrow> e = P_None" for e
    by (simp add: path_isValid_def path_failure_def)
  note never = decodeSegments_error
  show ?thesis
  proof (cases "decodeSegments svc (split_at 0x2F s) []")
    case (Inl e)
    then have "\<not> list_all2 (\<lambda>r d. decodeSegment svc r = Inr d) (split_at 0x2F s) ds"
      using decodeSegments_iff [of svc "split_at 0x2F s" "[]" ds] by auto
    with Inl never [of svc "split_at 0x2F s" "[]"] show ?thesis
      by (auto simp: parse inl) (auto simp: path_isValid_def)
  next
    case (Inr r)
    then have "list_all2 (\<lambda>r d. decodeSegment svc r = Inr d) (split_at 0x2F s) ds \<longleftrightarrow> ds = r"
      using decodeSegments_iff [of svc "split_at 0x2F s" "[]" ds] by auto
    with Inr show ?thesis by (auto simp: parse inl) (auto simp: path_isValid_def)
  qed
qed

text \<open>
  C16. The normalised-path parser accepts exactly the path grammar: \<open>/\<close> with no segments, or a sequence
  of nonempty segments, each the canonical spelling (allowed characters literally, every other byte as
  an upper-case escape, no escape of an unreserved character) of bytes that decode to text without
  slash, backslash and control characters that is no dot segment; and it returns those texts.
\<close>
theorem path_grammar:
  "path_isValid (parsePath svc p) \<and> decodedSegments (parsePath svc p) = ds \<longleftrightarrow>
     (p = qstr ''/'' \<and> ds = []) \<or>
     (\<exists>raws. raws \<noteq> [] \<and> p = concat (map ((#) 0x2F) raws) \<and> list_all2 (canonical_segment svc) raws ds)"
proof (cases p)
  case Nil
  then show ?thesis
    by (auto simp: parsePath_def path_failure_def path_isValid_def startsWith_def qstr_def)
next
  case (Cons c s)
  show ?thesis
  proof (cases "c = 0x2F")
    case False
    then have "\<not> path_isValid (parsePath svc p)"
      using Cons by (simp add: parsePath_def path_failure_def path_isValid_def startsWith_def qstr_def)
    moreover have "p \<noteq> concat (map ((#) 0x2F) raws)" if "raws \<noteq> []" for raws
      using that False Cons by (cases raws) auto
    ultimately show ?thesis using Cons False by (auto simp: qstr_def)
  next
    case True
    let ?raws = "split_at 0x2F s"
    have segs: "canonical_segment svc = (\<lambda>r d. r \<noteq> [] \<and> decodeSegment svc r = Inr d)"
      by (simp add: fun_eq_iff canonical_segment_def decodeSegment_iff)
    have both: "list_all2 (canonical_segment svc) raws ds \<longleftrightarrow>
        list_all (\<lambda>r. r \<noteq> []) raws \<and> list_all2 (\<lambda>r d. decodeSegment svc r = Inr d) raws ds" for raws
      unfolding segs by (induction raws arbitrary: ds) (auto simp: list_all2_Cons1)
    have unique: "raws = ?raws"
      if "raws \<noteq> []" "p = concat (map ((#) 0x2F) raws)" "list_all2 (canonical_segment svc) raws ds" for raws
    proof -
      have "list_all (\<lambda>r. 0x2F \<notin> set r) raws"
        using that(3) spells_no_slash
        by (force simp: list_all2_conv_all_nth list_all_length canonical_segment_def)
      moreover have "s = joined 0x2F raws" using slash_joined [OF that(1), of "0x2F"] that(2) Cons True by (metis list.inject)
      ultimately show ?thesis using split_joined [OF that(1)] by simp
    qed
    have spelled: "p = concat (map ((#) 0x2F) ?raws)"
      using slash_joined [of ?raws "0x2F"] Cons True by simp
    have "\<not> list_all2 (canonical_segment svc) ?raws ds" if "s = []"
      using that by (simp add: list_all2_Cons1 canonical_segment_def)
    then have "path_isValid (parsePath svc p) \<and> decodedSegments (parsePath svc p) = ds \<longleftrightarrow>
        (s = [] \<and> ds = []) \<or> list_all2 (canonical_segment svc) ?raws ds"
      unfolding Cons True parsePath_slash both by blast
    moreover have "(\<exists>raws. raws \<noteq> [] \<and> p = concat (map ((#) 0x2F) raws)
        \<and> list_all2 (canonical_segment svc) raws ds) \<longleftrightarrow> list_all2 (canonical_segment svc) ?raws ds"
    proof
      assume "list_all2 (canonical_segment svc) ?raws ds"
      with spelled show "\<exists>raws. raws \<noteq> [] \<and> p = concat (map ((#) 0x2F) raws)
        \<and> list_all2 (canonical_segment svc) raws ds"
        by (intro exI [of _ ?raws]) simp
    qed (use unique in blast)
    moreover have "p = qstr ''/'' \<longleftrightarrow> s = []" using Cons True by (simp add: qstr_def)
    ultimately show ?thesis by simp
  qed
qed

section \<open>Addresses\<close>

text \<open>
  What the browser relies on of \<open>QUrl\<close>: the fully encoded path of a parsed URL is empty or starts with
  a slash, and holds no query or fragment mark.
\<close>

definition plain_url_paths :: "url_services \<Rightarrow> bool" where
  "plain_url_paths svc \<longleftrightarrow> (\<forall>u. case url_path (strictUrl svc u) of [] \<Rightarrow> True
     | c # s \<Rightarrow> c = 0x2F \<and> qchar_of CHR ''?'' \<notin> set s \<and> qchar_of CHR ''#'' \<notin> set s)"

lemma path_encoded_valid: "path_isValid (parsePath svc p) \<Longrightarrow> path_encoded (parsePath svc p) = p"
  using decodeSegments_error [of svc]
  by (auto simp: parsePath_def path_failure_def path_isValid_def split: sum.splits if_splits)

lemma appUrlError_None [simp]: "appUrlError e = U_None \<longleftrightarrow> e = P_None"
  by (cases e) simp_all

lemma appUrl_path:
  assumes "app_isValid (parseAppUrl svc input authority)"
  shows "app_path (parseAppUrl svc input authority) = rawPath input"
    and "path_isValid (parsePath svc (rawPath input))"
proof -
  have "path_isValid (parsePath svc (rawPath input)) \<and> app_path (parseAppUrl svc input authority)
      = path_encoded (parsePath svc (rawPath input))"
    using assms
    by (auto simp: parseAppUrl_def Let_def app_failure_def app_isValid_def path_isValid_def
        split: if_splits)
  then show "app_path (parseAppUrl svc input authority) = rawPath input"
    and "path_isValid (parsePath svc (rawPath input))"
    using path_encoded_valid [of svc "rawPath input"] by auto
qed

lemma indexOf_from_absent: "c \<notin> set s \<Longrightarrow> indexOf_from c k s = -1"
  using indexOf_from_none [of c k s] by (auto dest: in_set_dropD)

lemma rawPath_of_path:
  assumes "p = [] \<or> hd p = 0x2F" and "qchar_of CHR ''?'' \<notin> set p" and "qchar_of CHR ''#'' \<notin> set p"
  shows "rawPath (qstr ''app://pilot'' @ p) = p"
proof -
  let ?s = "qstr ''app://pilot''"
  have marker: "indexOf_infix (qstr ''://'') (?s @ p) = 3"
    by (simp add: qstr_def startsWith_def)
  have q: "indexOf_from (qchar_of CHR ''?'') 6 (?s @ p) = -1"
    "indexOf_from (qchar_of CHR ''#'') 6 (?s @ p) = -1"
    using assms by (auto simp: qstr_def intro!: indexOf_from_absent)
  show ?thesis
  proof (cases p)
    case Nil
    have "indexOf_from (qchar_of CHR ''/'') 6 ?s = -1"
      by (simp add: indexOf_from_none qstr_def)
    with marker q Nil show ?thesis by (simp add: rawPath_def)
  next
    case (Cons c t)
    then have "p = 0x2F # t" using assms(1) by simp
    then have "indexOf_from (qchar_of CHR ''/'') 6 (?s @ p) = 11"
      using indexOf_from_app [of "0x2F" 6 ?s t] by (simp add: qstr_def)
    with marker q Cons show ?thesis by (simp add: rawPath_def Let_def mid_def qstr_def)
  qed
qed


definition sample_url_services :: url_services where
  "sample_url_services = \<lparr>strictUrl = \<lambda>u. \<lparr>url_valid = True, url_scheme = [], url_host = [], url_userInfo = [],
      url_port = -1, url_hasFragment = False, url_hasQuery = False, url_path = [], url_encoded = u\<rparr>,
    statelessUtf8 = \<lambda>bs. Some (map ucast bs), control_category = \<lambda>c. c < 0x20, isSpace = \<lambda>c. c = 0x20,
    toUcs4 = map unat, utf8_size = length\<rparr>"


end
