(* ===== verification/RouteProofs.thy ===== *)
theory RouteProofs
  imports Routes PathGrammar
begin

text \<open>
  Which route a path matches: the matching route with the most specific shape, whatever the order of
  registration.
\<close>

section \<open>Well-formed registries\<close>

definition parameter_names :: "route_segment list \<Rightarrow> qstring list" where
  "parameter_names segs = map segment_value (filter parameter segs)"

definition route_ok :: "compiled_route \<Rightarrow> bool" where
  "route_ok r \<longleftrightarrow> list_all segment_ok (segments r) \<and> distinct (parameter_names (segments r))
     \<and> normalizedShape r = (if segments r = [] then qstr ''/'' else shape_of (segments r))"

definition registry_ok :: "route_registry \<Rightarrow> bool" where
  "registry_ok routes \<longleftrightarrow> list_all route_ok routes \<and> distinct (map normalizedShape routes)"

lemma compile_segments_names:
  "compile_segments raws names segs shape = Some (segs', shape') \<Longrightarrow>
    distinct names \<Longrightarrow> rev names = parameter_names segs \<Longrightarrow> distinct (parameter_names segs')"
proof (induction raws names segs shape rule: compile_segments.induct)
  case (1 names segs shape)
  then show ?case by (metis compile_segments.simps(1) distinct_rev option.inject prod.inject)
next
  case (2 raw raws names segs shape)
  show ?case
  proof (cases "startsWith (qstr '':'') raw")
    case True
    with "2.IH"(1) [OF True refl] "2.prems" show ?thesis
      by (simp add: Let_def parameter_names_def split: if_splits)
  next
    case False
    with "2.IH"(2) [OF False] "2.prems" show ?thesis
      by (simp add: parameter_names_def split: if_splits)
  qed
qed

lemma compile_route_ok:
  assumes "compile_route record_in = Inr r"
  shows "route_ok r" and "compiled_record r = record_in"
proof -
  have "route_ok r \<and> compiled_record r = record_in"
  proof (cases "route_pattern record_in = qstr ''/''")
    case True
    with assms show ?thesis
      by (auto simp: compile_route_def Let_def route_ok_def parameter_names_def split: if_splits)
  next
    case False
    with assms obtain segs shape where c: "compile_segments (split_at 0x2F (drop 1 (route_pattern record_in))) [] [] []
        = Some (segs, shape)" and r: "r = \<lparr>compiled_record = record_in, segments = segs, normalizedShape = shape\<rparr>"
      by (auto simp: compile_route_def Let_def split: if_splits option.splits)
    from compile_segments_ok [OF c] compile_segments_names [OF c] show ?thesis
      by (auto simp: r route_ok_def shape_of_def parameter_names_def)
  qed
  then show "route_ok r" "compiled_record r = record_in" by auto
qed

lemma add_route_ok: "registry_ok routes \<Longrightarrow> registry_ok (fst (add_route r routes))"
  using compile_route_ok(1)
  by (auto simp: add_route_def registry_ok_def list_ex_iff split: sum.split)

lemma add_route_added:
  "add_route r routes = (routes', Added) \<longleftrightarrow>
    (\<exists>c. compile_route r = Inr c \<and> normalizedShape c \<notin> normalizedShape ` set routes \<and> routes' = routes @ [c])"
proof (cases "compile_route r")
  case (Inl e)
  have "e \<noteq> Added" using Inl by (auto simp: compile_route_def Let_def split: if_splits option.splits)
  with Inl show ?thesis by (simp add: add_route_def)
next
  case (Inr c)
  have "list_ex (\<lambda>e. normalizedShape e = normalizedShape c) routes \<longleftrightarrow>
      normalizedShape c \<in> normalizedShape ` set routes"
    by (induction routes) auto
  with Inr show ?thesis by (auto simp: add_route_def)
qed

lemma add_all_iff:
  "distinct (map normalizedShape routes) \<Longrightarrow> add_all rs routes = Some routes' \<longleftrightarrow>
    (\<exists>cs. list_all2 (\<lambda>r c. compile_route r = Inr c) rs cs \<and> routes' = routes @ cs
      \<and> distinct (map normalizedShape (routes @ cs)))"
proof (induction rs routes rule: add_all.induct)
  case (1 routes)
  then show ?case by auto
next
  case (2 r rs routes)
  show ?case
  proof (cases "snd (add_route r routes) = Added")
    case True
    then obtain c where c: "compile_route r = Inr c" "normalizedShape c \<notin> normalizedShape ` set routes"
      "add_route r routes = (routes @ [c], Added)"
      by (metis add_route_added prod.collapse)
    with "2.IH" [OF c(3) [symmetric] refl] "2.prems" show ?thesis
      by (simp add: c(3)) (auto simp: list_all2_Cons1 c(1))
  next
    case False
    then have "\<not> (\<exists>c. compile_route r = Inr c \<and> normalizedShape c \<notin> normalizedShape ` set routes)"
      by (metis add_route_added snd_conv)
    with False show ?thesis by (auto simp: split_beta list_all2_Cons1)
  qed
qed

lemma add_all_ok: "add_all rs [] = Some routes \<Longrightarrow> registry_ok routes"
proof -
  assume "add_all rs [] = Some routes"
  then obtain cs where "list_all2 (\<lambda>r c. compile_route r = Inr c) rs cs" "routes = cs"
    "distinct (map normalizedShape cs)"
    using add_all_iff [of "[]" rs routes] by auto
  then show ?thesis
    using compile_route_ok(1) by (auto simp: registry_ok_def list_all_length list_all2_conv_all_nth)
qed

section \<open>Matching\<close>

definition matches :: "qstring list \<Rightarrow> compiled_route \<Rightarrow> bool" where
  "matches vs r \<longleftrightarrow> list_all2 (\<lambda>s v. parameter s \<or> segment_value s = v) (segments r) vs"

definition binding :: "compiled_route \<Rightarrow> qstring list \<Rightarrow> qstring \<Rightarrow> qstring option" where
  "binding r vs = the (match_segments (segments r) vs Map.empty)"

definition flags :: "compiled_route \<Rightarrow> bool list" where
  "flags r = map parameter (segments r)"

lemma match_segments_iff:
  "length ss = length vs \<Longrightarrow>
    match_segments ss vs params \<noteq> None \<longleftrightarrow> list_all2 (\<lambda>s v. parameter s \<or> segment_value s = v) ss vs"
  by (induction ss vs params rule: match_segments.induct) auto

lemma match_segments_binds:
  "match_segments ss vs params = Some ps \<Longrightarrow> length ss = length vs \<Longrightarrow> distinct (parameter_names ss) \<Longrightarrow>
    (\<forall>x. x \<notin> set (parameter_names ss) \<longrightarrow> ps x = params x)
    \<and> list_all2 (\<lambda>s v. parameter s \<longrightarrow> ps (segment_value s) = Some v) ss vs"
  by (induction ss vs params rule: match_segments.induct)
    (auto simp: parameter_names_def split: if_splits)

lemma hasHigherPrecedence_less:
  "length c = length k \<Longrightarrow> hasHigherPrecedence c k \<longleftrightarrow> map parameter c < map parameter k"
  by (induction c k rule: hasHigherPrecedence.induct) auto

lemma matched_iff:
  "length (segments r) = length vs \<and> match_segments (segments r) vs Map.empty = Some ps \<longleftrightarrow>
    matches vs r \<and> ps = binding r vs"
proof (cases "length (segments r) = length vs")
  case True
  with match_segments_iff [OF True, of Map.empty] show ?thesis
    by (cases "match_segments (segments r) vs Map.empty") (auto simp: matches_def binding_def)
qed (auto simp: matches_def dest: list_all2_lengthD)

lemma match_loop_Some:
  "matches vs b \<Longrightarrow> \<exists>r. match_loop vs routes (Some (b, binding b vs)) = Some (r, binding r vs)
    \<and> r \<in> insert b {x \<in> set routes. matches vs x}
    \<and> (\<forall>x \<in> insert b {x \<in> set routes. matches vs x}. flags r \<le> flags x)"
proof (induction routes arbitrary: b)
  case Nil
  then show ?case by auto
next
  case (Cons c routes)
  show ?case
  proof (cases "matches vs c")
    case False
    then have "match_loop vs (c # routes) (Some (b, binding b vs)) = match_loop vs routes (Some (b, binding b vs))"
      using matched_iff [of c vs] by (auto split: option.split)
    with Cons.IH [OF Cons.prems] False show ?thesis by auto
  next
    case True
    then have c: "length (segments c) = length vs" "match_segments (segments c) vs Map.empty = Some (binding c vs)"
      using matched_iff [of c vs "binding c vs"] by auto
    have b: "length (segments b) = length vs" using Cons.prems by (auto simp: matches_def dest: list_all2_lengthD)
    have step: "match_loop vs (c # routes) (Some (b, binding b vs))
        = (if flags c < flags b then match_loop vs routes (Some (c, binding c vs))
           else match_loop vs routes (Some (b, binding b vs)))"
      using c b by (simp add: hasHigherPrecedence_less flags_def)
    show ?thesis
    proof (cases "flags c < flags b")
      case less: True
      from Cons.IH [OF True] obtain r where
        "match_loop vs routes (Some (c, binding c vs)) = Some (r, binding r vs)"
        "r \<in> insert c {x \<in> set routes. matches vs x}"
        "\<forall>x \<in> insert c {x \<in> set routes. matches vs x}. flags r \<le> flags x" by blast
      with less True step show ?thesis by (intro exI [of _ r]) auto
    next
      case geq: False
      from Cons.IH [OF Cons.prems] obtain r where
        "match_loop vs routes (Some (b, binding b vs)) = Some (r, binding r vs)"
        "r \<in> insert b {x \<in> set routes. matches vs x}"
        "\<forall>x \<in> insert b {x \<in> set routes. matches vs x}. flags r \<le> flags x" by blast
      with geq True step show ?thesis by (intro exI [of _ r]) auto
    qed
  qed
qed

lemma match_loop_None:
  "if {x \<in> set routes. matches vs x} = {} then match_loop vs routes None = None
   else \<exists>r. match_loop vs routes None = Some (r, binding r vs)
    \<and> r \<in> set routes \<and> matches vs r \<and> (\<forall>x \<in> set routes. matches vs x \<longrightarrow> flags r \<le> flags x)"
proof (induction routes)
  case (Cons c routes)
  show ?case
  proof (cases "matches vs c")
    case False
    then have "match_loop vs (c # routes) None = match_loop vs routes None"
      using matched_iff [of c vs] by (auto split: option.split)
    with Cons False show ?thesis by (auto split: if_splits)
  next
    case True
    then have c: "length (segments c) = length vs" "match_segments (segments c) vs Map.empty = Some (binding c vs)"
      using matched_iff [of c vs "binding c vs"] by auto
    then have "match_loop vs (c # routes) None = match_loop vs routes (Some (c, binding c vs))" by simp
    with match_loop_Some [OF True, of routes] True show ?thesis by auto
  qed
qed simp

lemma same_flags_same_route:
  assumes ok: "registry_ok routes" and r: "r \<in> set routes" "matches vs r" and r': "r' \<in> set routes" "matches vs r'"
    and flags: "flags r = flags r'"
  shows "r = r'"
proof -
  have keys: "map segment_key ss = map segment_key ss'"
    if "list_all2 (\<lambda>s v. parameter s \<or> segment_value s = v) ss vs"
       "list_all2 (\<lambda>s v. parameter s \<or> segment_value s = v) ss' vs"
       "map parameter ss = map parameter ss'" for ss ss'
    using that
  proof (induction ss arbitrary: ss' vs)
    case (Cons s ss)
    then obtain s' ss'' v vs' where "ss' = s' # ss''" "vs = v # vs'" by (auto simp: Cons_eq_map_conv list_all2_Cons1)
    with Cons show ?case by (auto simp: segment_key_def)
  qed simp
  have "map segment_key (segments r) = map segment_key (segments r')"
    using r(2) r'(2) flags unfolding matches_def flags_def by (rule keys)
  moreover have "shape_of ss = concat (map (\<lambda>k. 0x2F # key_text k) (map segment_key ss))" for ss
    by (simp add: shape_of_def comp_def)
  ultimately have "shape_of (segments r) = shape_of (segments r')" "(segments r = []) = (segments r' = [])"
    by (metis, metis map_is_Nil_conv)
  then have "normalizedShape r = normalizedShape r'"
    using ok r r' by (simp add: registry_ok_def route_ok_def list_all_iff)
  with ok r r' show ?thesis
    by (auto simp: registry_ok_def distinct_map inj_on_def)
qed

lemma match_loop_set:
  assumes "registry_ok routes" "registry_ok routes'" "set routes = set routes'"
  shows "match_loop vs routes None = match_loop vs routes' None"
proof (cases "{x \<in> set routes. matches vs x} = {}")
  case True
  with match_loop_None [of routes vs] match_loop_None [of routes' vs] assms(3) show ?thesis by simp
next
  case False
  with match_loop_None [of routes vs] obtain r where r: "match_loop vs routes None = Some (r, binding r vs)"
    "r \<in> set routes" "matches vs r" "\<forall>x \<in> set routes. matches vs x \<longrightarrow> flags r \<le> flags x"
    by (auto split: if_splits)
  from False assms(3) match_loop_None [of routes' vs] obtain r' where
    r': "match_loop vs routes' None = Some (r', binding r' vs)"
    "r' \<in> set routes'" "matches vs r'" "\<forall>x \<in> set routes'. matches vs x \<longrightarrow> flags r' \<le> flags x"
    by (auto split: if_splits)
  have "flags r = flags r'" using r r' assms(3) by (auto intro: order.antisym)
  with same_flags_same_route [OF assms(1)] r r' assms(3) show ?thesis by auto
qed

section \<open>Properties\<close>

text \<open>
  C18. In a registry built by adding routes, a valid path matches exactly when some route has its number
  of segments and its static segments; the match is a route none is more specific than (at the first
  position where two matching routes differ, the chosen one is static), and its parameters give each
  parameter name of that route the segment at its position, and nothing else.
\<close>
theorem match_is_most_specific:
  assumes "add_all rs [] = Some routes" and "path_isValid (parsePath svc p)"
    and "vs = decodedSegments (parsePath svc p)"
  shows "case match_route svc routes p of
      None \<Rightarrow> list_all (\<lambda>r. \<not> matches vs r) routes
    | Some m \<Rightarrow> list_ex (\<lambda>r. matches vs r \<and> match_record m = compiled_record r
        \<and> list_all (\<lambda>x. matches vs x \<longrightarrow> flags r \<le> flags x) routes
        \<and> list_all2 (\<lambda>s v. parameter s \<longrightarrow> parameters m (segment_value s) = Some v) (segments r) vs
        \<and> dom (parameters m) = set (parameter_names (segments r))) routes"
proof -
  have ok: "registry_ok routes" using assms(1) by (rule add_all_ok)
  have m: "match_route svc routes p = map_option (\<lambda>(best, params).
      \<lparr>match_record = compiled_record best, parameters = params\<rparr>) (match_loop vs routes None)"
    using assms(2,3) by (simp add: match_route_def)
  show ?thesis
  proof (cases "{x \<in> set routes. matches vs x} = {}")
    case True
    with match_loop_None [of routes vs] m show ?thesis by (auto simp: list_all_iff)
  next
    case False
    with match_loop_None [of routes vs] obtain r where r: "match_loop vs routes None = Some (r, binding r vs)"
      "r \<in> set routes" "matches vs r" "\<forall>x \<in> set routes. matches vs x \<longrightarrow> flags r \<le> flags x"
      by (auto split: if_splits)
    have names: "distinct (parameter_names (segments r))"
      using ok r(2) by (auto simp: registry_ok_def route_ok_def list_all_iff)
    note b = match_segments_binds [of "segments r" vs Map.empty "binding r vs", OF _ _ names]
    have "\<forall>x. x \<notin> set (parameter_names (segments r)) \<longrightarrow> binding r vs x = None"
      "list_all2 (\<lambda>s v. parameter s \<longrightarrow> binding r vs (segment_value s) = Some v) (segments r) vs"
      using b r(3) matched_iff [of r vs "binding r vs"] by auto
    moreover from this(2) have "set (parameter_names (segments r)) \<subseteq> dom (binding r vs)"
      by (auto simp: parameter_names_def list_all2_conv_all_nth in_set_conv_nth)
    ultimately show ?thesis
      using r m by (auto simp: list_ex_iff list_all_iff intro!: bexI [of _ r])
  qed
qed

text \<open>
  The order in which routes are registered does not matter: any permutation of a list of routes that
  is accepted is accepted, and every path then has the same match.
\<close>
theorem route_order_irrelevant:
  assumes "add_all rs [] = Some routes" and "mset rs = mset rs'"
  shows "\<exists>routes'. add_all rs' [] = Some routes' \<and> match_route svc routes p = match_route svc routes' p"
proof -
  from assms(1) obtain cs where cs: "list_all2 (\<lambda>r c. compile_route r = Inr c) rs cs" "routes = cs"
    "distinct (map normalizedShape cs)"
    using add_all_iff [of "[]" rs routes] by auto
  define compiled where "compiled r = (case compile_route r of Inr c \<Rightarrow> c | Inl _ \<Rightarrow> undefined)" for r
  have each: "\<forall>r \<in> set rs. compile_route r = Inr (compiled r)" "cs = map compiled rs"
    using cs(1) by (auto simp: compiled_def list_all2_conv_all_nth in_set_conv_nth list_eq_iff_nth_eq)
  let ?cs = "map compiled rs'"
  have "set rs' = set rs" using assms(2) by (metis set_mset_mset)
  then have "list_all2 (\<lambda>r c. compile_route r = Inr c) rs' ?cs"
    using each(1) by (auto simp: list_all2_conv_all_nth)
  moreover have "mset (map normalizedShape ?cs) = mset (map normalizedShape cs)"
    using assms(2) each(2) by simp
  then have "distinct (map normalizedShape ?cs)"
    using cs(3) by (metis distinct_count_atmost_1 set_mset_mset)
  ultimately have added: "add_all rs' [] = Some ?cs"
    using add_all_iff [of "[]" rs' ?cs] by auto
  have "set routes = set ?cs"
    using cs(2) each(2) \<open>set rs' = set rs\<close> by simp
  from match_loop_set [OF add_all_ok [OF assms(1)] add_all_ok [OF added] this]
  have "match_route svc routes p = match_route svc ?cs p" by (simp add: match_route_def Let_def)
  with added show ?thesis by blast
qed

text \<open>
  The host's registry exists exactly for a valid absolute http(s) origin and a nonempty worker
  identity: none of its thirteen patterns is malformed and no two have the same shape.
\<close>
theorem pilot_registry_exists:
  "createPilotRouteRegistry origin relative helpUrl workerAppId \<noteq> None \<longleftrightarrow>
    url_valid origin \<and> \<not> relative \<and> workerAppId \<noteq> []
    \<and> (url_scheme origin = qstr ''http'' \<or> url_scheme origin = qstr ''https'')"
proof -
  have "add_all (pilot_routes workerAppId helpUrl) [] \<noteq> None"
    by (simp add: pilot_routes_def workerPatterns_def qmlDemoRoutes_def add_route_def compile_route_def
        qstr_def startsWith_def endsWith_def isValidParameterName_def isValidStaticSegment_def
        ascii_letter_def ascii_upper_def ascii_lower_def digit_char_def Let_def)
  then show ?thesis by (auto simp: createPilotRouteRegistry_def)
qed

definition sample_routes :: "route_record list" where
  "sample_routes = map (\<lambda>p. \<lparr>route_pattern = qstr p, route_engine = QmlWorker, packageId = qstr ''a'',
     entryPoint = qstr ''m''\<rparr>) [''/:id'', ''/new'']"

lemma sample_added: "add_all sample_routes [] = Some (map (\<lambda>r. case compile_route r of Inr c \<Rightarrow> c) sample_routes)"
  by (simp add: sample_routes_def add_route_def compile_route_def qstr_def startsWith_def endsWith_def
      isValidParameterName_def isValidStaticSegment_def ascii_letter_def ascii_upper_def ascii_lower_def
      digit_char_def Let_def)

lemma sample_path: "path_isValid (parsePath sample_url_services (qstr ''/new''))
    \<and> decodedSegments (parsePath sample_url_services (qstr ''/new'')) = [qstr ''new'']"
  by (simp add: parsePath_def qstr_def startsWith_def endsWith_def sample_url_services_def decodeSegment_def
      isAllowedLiteralPathCharacter_def isUnreservedAscii_def path_isValid_def)

theorem match_is_most_specific_witness:
  "case match_route sample_url_services (map (\<lambda>r. case compile_route r of Inr c \<Rightarrow> c) sample_routes) (qstr ''/new'') of
      None \<Rightarrow> False
    | Some m \<Rightarrow> match_record m \<in> set sample_routes"
proof -
  let ?routes = "map (\<lambda>r. case compile_route r of Inr c \<Rightarrow> c) sample_routes"
  have "list_ex (matches [qstr ''new'']) ?routes"
    by (simp add: sample_routes_def compile_route_def matches_def qstr_def startsWith_def endsWith_def
      isValidParameterName_def isValidStaticSegment_def ascii_letter_def ascii_upper_def ascii_lower_def
      digit_char_def Let_def)
  moreover have "compiled_record ` set ?routes \<subseteq> set sample_routes"
    by (simp add: sample_routes_def compile_route_def qstr_def startsWith_def endsWith_def
      isValidParameterName_def isValidStaticSegment_def ascii_letter_def ascii_upper_def ascii_lower_def
      digit_char_def Let_def)
  ultimately show ?thesis
    using match_is_most_specific [OF sample_added, of sample_url_services "qstr ''/new''" "[qstr ''new'']"] sample_path
    by (auto simp: list_ex_iff list_all_iff split: option.splits)
qed

theorem route_order_irrelevant_witness:
  "\<exists>routes'. add_all (rev sample_routes) [] = Some routes' \<and>
     match_route sample_url_services (map (\<lambda>r. case compile_route r of Inr c \<Rightarrow> c) sample_routes) (qstr ''/new'')
       = match_route sample_url_services routes' (qstr ''/new'')"
  by (rule route_order_irrelevant [OF sample_added]) simp

end
