(* ===== verification/Patterns.thy ===== *)
theory Patterns
  imports QtStrings
begin

text \<open>
  The regular expressions of the source, as terms that are matched by derivatives.  A pattern
  \<open>^r$\<close> of \<open>QRegularExpression\<close> without \<open>DollarEndOnlyOption\<close> also matches before a final line
  feed: that is \<open>anchored r\<close>.
\<close>

datatype pattern =
    Nothing
  | Eps
  | Chars "(qchar \<times> qchar) list"
  | Then pattern pattern
  | Or pattern pattern
  | Many pattern

definition in_ranges :: "(qchar \<times> qchar) list \<Rightarrow> qchar \<Rightarrow> bool" where
  "in_ranges cs c \<longleftrightarrow> list_ex (\<lambda>(a, b). a \<le> c \<and> c \<le> b) cs"

abbreviation Lit :: "qchar \<Rightarrow> pattern" where "Lit c \<equiv> Chars [(c, c)]"
abbreviation Opt :: "pattern \<Rightarrow> pattern" where "Opt r \<equiv> Or Eps r"
abbreviation Some_of :: "pattern \<Rightarrow> pattern" where "Some_of r \<equiv> Then r (Many r)"

fun Seq :: "pattern list \<Rightarrow> pattern" where
  "Seq [] = Eps"
| "Seq [r] = r"
| "Seq (r # rs) = Then r (Seq rs)"

definition Text :: "string \<Rightarrow> pattern" where
  "Text s = Seq (map (\<lambda>c. Lit (qchar_of c)) s)"

fun UpTo :: "nat \<Rightarrow> pattern \<Rightarrow> pattern" where
  "UpTo 0 r = Eps"
| "UpTo (Suc n) r = Opt (Then r (UpTo n r))"

fun nullable :: "pattern \<Rightarrow> bool" where
  "nullable Nothing = False"
| "nullable Eps = True"
| "nullable (Chars cs) = False"
| "nullable (Then r q) = (nullable r \<and> nullable q)"
| "nullable (Or r q) = (nullable r \<or> nullable q)"
| "nullable (Many r) = True"

fun deriv :: "qchar \<Rightarrow> pattern \<Rightarrow> pattern" where
  "deriv c Nothing = Nothing"
| "deriv c Eps = Nothing"
| "deriv c (Chars cs) = (if in_ranges cs c then Eps else Nothing)"
| "deriv c (Then r q) =
     (if nullable r then Or (Then (deriv c r) q) (deriv c q) else Then (deriv c r) q)"
| "deriv c (Or r q) = Or (deriv c r) (deriv c q)"
| "deriv c (Many r) = Then (deriv c r) (Many r)"

fun full_match :: "pattern \<Rightarrow> qstring \<Rightarrow> bool" where
  "full_match r [] = nullable r"
| "full_match r (c # cs) = full_match (deriv c r) cs"

definition anchored :: "pattern \<Rightarrow> qstring \<Rightarrow> bool" where
  "anchored r s \<longleftrightarrow> full_match r s \<or> (s \<noteq> [] \<and> last s = 0x0A \<and> full_match r (butlast s))"

section \<open>Patterns several components share\<close>

text \<open>
  Reverse-DNS application identifiers and strict semantic versions: telemetry events and manifests use
  the same expressions.
\<close>

abbreviation lower :: "qchar \<times> qchar" where "lower \<equiv> (0x61, 0x7A)"
abbreviation upper :: "qchar \<times> qchar" where "upper \<equiv> (0x41, 0x5A)"
abbreviation digit :: "qchar \<times> qchar" where "digit \<equiv> (0x30, 0x39)"
abbreviation hyphen :: "qchar \<times> qchar" where "hyphen \<equiv> (0x2D, 0x2D)"

definition app_label_pattern :: pattern where
  "app_label_pattern = Then (Chars [lower]) (Then (Many (Chars [lower, digit]))
     (Many (Then (Lit 0x2D) (Some_of (Chars [lower, digit])))))"

definition appId_pattern :: pattern where
  "appId_pattern = Then app_label_pattern (Some_of (Then (Lit 0x2E) app_label_pattern))"

definition number_pattern :: pattern where
  "number_pattern = Or (Lit 0x30) (Then (Chars [(0x31, 0x39)]) (Many (Chars [digit])))"

definition prerelease_pattern :: pattern where
  "prerelease_pattern = Or number_pattern
     (Then (Many (Chars [digit])) (Then (Chars [upper, lower, hyphen]) (Many (Chars [digit, upper, lower, hyphen]))))"

definition version_pattern :: pattern where
  "version_pattern = Seq [number_pattern, Lit 0x2E, number_pattern, Lit 0x2E, number_pattern,
     Opt (Then (Lit 0x2D) (Then prerelease_pattern (Many (Then (Lit 0x2E) prerelease_pattern)))),
     Opt (Then (Lit 0x2B) (Then (Some_of (Chars [digit, upper, lower, hyphen]))
       (Many (Then (Lit 0x2E) (Some_of (Chars [digit, upper, lower, hyphen]))))))]"

section \<open>What a pattern matches\<close>

inductive generates :: "pattern \<Rightarrow> qstring \<Rightarrow> bool" where
  gen_eps: "generates Eps []"
| gen_char: "in_ranges cs c \<Longrightarrow> generates (Chars cs) [c]"
| gen_then: "generates r s \<Longrightarrow> generates q t \<Longrightarrow> generates (Then r q) (s @ t)"
| gen_left: "generates r s \<Longrightarrow> generates (Or r q) s"
| gen_right: "generates q s \<Longrightarrow> generates (Or r q) s"
| gen_none: "generates (Many r) []"
| gen_more: "generates r s \<Longrightarrow> generates (Many r) t \<Longrightarrow> generates (Many r) (s @ t)"

inductive_simps generates_simps [simp]:
  "generates Nothing s" "generates Eps s" "generates (Chars cs) s" "generates (Or r q) s"
inductive_cases generates_thenE: "generates (Then r q) s"
inductive_cases generates_manyE: "generates (Many r) s"

lemma generates_then: "generates (Then r q) s \<longleftrightarrow> (\<exists>u v. s = u @ v \<and> generates r u \<and> generates q v)"
  by (blast elim: generates_thenE intro: gen_then)

lemma nullable_iff: "nullable r \<longleftrightarrow> generates r []"
  by (induction r) (auto simp: generates_then intro: gen_none)

lemma many_Cons: "generates (Many r) (c # s) \<longleftrightarrow> (\<exists>u v. s = u @ v \<and> generates r (c # u) \<and> generates (Many r) v)"
proof
  have "generates p w \<Longrightarrow> p = Many r \<Longrightarrow> w = c # s \<Longrightarrow>
      \<exists>u v. s = u @ v \<and> generates r (c # u) \<and> generates (Many r) v" for p w
    by (induction arbitrary: s rule: generates.induct) (auto simp: append_eq_Cons_conv)
  then show "generates (Many r) (c # s) \<Longrightarrow> \<exists>u v. s = u @ v \<and> generates r (c # u) \<and> generates (Many r) v"
    by blast
qed (metis append_Cons gen_more)

lemma deriv_iff: "generates (deriv c r) s \<longleftrightarrow> generates r (c # s)"
proof (induction r arbitrary: s)
  case (Then r q)
  have "generates (Then r q) (c # s) \<longleftrightarrow>
      (\<exists>u v. s = u @ v \<and> generates r (c # u) \<and> generates q v) \<or> (generates r [] \<and> generates q (c # s))"
    unfolding generates_then by (auto simp: Cons_eq_append_conv)
  then show ?case by (auto simp: generates_then Then nullable_iff)
next
  case (Many r)
  then show ?case by (simp add: generates_then many_Cons)
qed auto

lemma full_match_iff: "full_match r s \<longleftrightarrow> generates r s"
  by (induction s arbitrary: r) (simp_all add: nullable_iff deriv_iff)

lemma anchored_iff: "anchored r s \<longleftrightarrow> generates r s \<or> (\<exists>t. s = t @ [0x0A] \<and> generates r t)"
  by (cases s rule: rev_cases) (auto simp: anchored_def full_match_iff)

text \<open>The characters a pattern can match.\<close>

fun alphabet :: "pattern \<Rightarrow> (qchar \<times> qchar) list" where
  "alphabet Nothing = []"
| "alphabet Eps = []"
| "alphabet (Chars cs) = cs"
| "alphabet (Then r q) = alphabet r @ alphabet q"
| "alphabet (Or r q) = alphabet r @ alphabet q"
| "alphabet (Many r) = alphabet r"

lemma in_ranges_append [simp]: "in_ranges (as @ bs) c \<longleftrightarrow> in_ranges as c \<or> in_ranges bs c"
  by (simp add: in_ranges_def)

lemma generates_alphabet: "generates r s \<Longrightarrow> c \<in> set s \<Longrightarrow> in_ranges (alphabet r) c"
  by (induction rule: generates.induct) auto

end
