(* ===== verification/Policy.thy ===== *)
theory Policy
  imports Patterns
begin

text \<open>
  The permissions of an application: what the host allows (\<open>runtime/policy/HostPolicy.{h,cpp}\<close>), what the
  manifest declares (\<open>ManifestPermissions\<close> of \<open>runtime/package/Manifest.h\<close>) and the policy in force
  (\<open>EffectivePolicy.h\<close>), computed by \<open>PolicyEngine::intersect\<close>.

  \<open>QUrl::toAce\<close> and \<open>QString::toLower\<close> are parameters.  Limits are \<open>int\<close> (\<open>qint64\<close>, all compared with
  small constants and never added); a port is a 16-bit word.
\<close>

section \<open>Data\<close>

datatype http_method = Get | Post | Put | Patch

datatype network_scheme = Http | Https

datatype network_address_class = PublicAddress | Loopback | PrivateAddress | LinkLocal

record network_allow_rule =
  rule_scheme :: network_scheme
  rule_host :: qstring
  rule_port :: "16 word"
  pathPrefix :: qstring
  rule_methods :: "http_method set"
  addressClasses :: "network_address_class set"

record host_network_policy =
  network_rules :: "network_allow_rule list"
  maximumRequestBytes :: int
  maximumResponseBytes :: int
  timeoutMs :: int

record host_storage_policy =
  quotaBytes :: int

record host_clipboard_policy =
  clip_write :: bool
  clip_readWithUserGesture :: bool

record host_file_policy =
  file_open :: bool
  maximumBytes :: int

record host_policy =
  host_network :: "host_network_policy option"
  host_storage :: "host_storage_policy option"
  host_clipboard :: "host_clipboard_policy option"
  host_file :: "host_file_policy option"
  host_audioPlayback :: bool

type_synonym effective_network_policy = host_network_policy
type_synonym effective_storage_policy = host_storage_policy
type_synonym effective_clipboard_policy = host_clipboard_policy
type_synonym effective_file_policy = host_file_policy

record effective_policy =
  eff_network :: "effective_network_policy option"
  eff_storage :: "effective_storage_policy option"
  eff_clipboard :: "effective_clipboard_policy option"
  eff_file :: "effective_file_policy option"
  eff_audioPlayback :: bool

record network_permission =
  hosts :: "qstring list"
  methods :: "qstring list"

datatype storage_permission = StorageDisabled | AppPrivate

datatype clipboard_read_permission = ClipboardReadDisabled | UserGesture

datatype file_open_permission = FileOpenDisabled | UserBrokered

record manifest_permissions =
  perm_network :: network_permission
  perm_storage :: storage_permission
  perm_clipboardWrite :: bool
  perm_clipboardRead :: clipboard_read_permission
  perm_fileOpen :: file_open_permission
  perm_audioPlayback :: bool

record host_name_services =
  toAce :: "qstring \<Rightarrow> bytes"
  toLower :: "qstring \<Rightarrow> qstring"

definition maximumBrokerBytes :: int where "maximumBrokerBytes = 1024 * 1024"
definition maximumStorageBytes :: int where "maximumStorageBytes = 16 * 1024 * 1024"

section \<open>Host names\<close>

text \<open>\<open>QString::toInt\<close> on a text of digits: \<open>None\<close> when it does not fit an \<open>int\<close>.\<close>

definition digits_value :: "qstring \<Rightarrow> int" where
  "digits_value s = foldl (\<lambda>n c. 10 * n + (uint c - 0x30)) 0 s"

definition digits_toInt :: "qstring \<Rightarrow> int option" where
  "digits_toInt s = (if digits_value s \<le> 2147483647 then Some (digits_value s) else None)"

definition canonical_octet :: "qstring \<Rightarrow> bool" where
  "canonical_octet part \<longleftrightarrow>
     \<not> (part = [] \<or> (1 < length part \<and> startsWith (qstr ''0'') part) \<or> \<not> list_all digit_char part)
     \<and> (case digits_toInt part of None \<Rightarrow> False | Some octet \<Rightarrow> \<not> 255 < octet)"

definition isCanonicalIpv4 :: "qstring \<Rightarrow> bool" where
  "isCanonicalIpv4 host \<longleftrightarrow> (let parts = split_at (qchar_of CHR ''.'') host in
     length parts = 4 \<and> list_all canonical_octet parts)"

definition label_pattern :: pattern where
  "label_pattern = Then (Chars [(0x61, 0x7A), (0x30, 0x39)])
     (Opt (Then (Many (Chars [(0x61, 0x7A), (0x30, 0x39), (0x2D, 0x2D)]))
        (Chars [(0x61, 0x7A), (0x30, 0x39)])))"

definition hostname_pattern :: pattern where
  "hostname_pattern = Then label_pattern (Many (Then (Lit 0x2E) label_pattern))"

definition isCanonicalHostname :: "qstring \<Rightarrow> bool" where
  "isCanonicalHostname host \<longleftrightarrow>
     (if 253 < length host \<or> \<not> anchored hostname_pattern host then False
      else list_all (\<lambda>label. length label \<le> 63) (split_at (qchar_of CHR ''.'') host))"

definition numericComponent :: pattern where
  "numericComponent = Or (Some_of (Chars [(0x30, 0x39)]))
     (Then (Lit 0x30) (Then (Chars [(0x78, 0x78), (0x58, 0x58)])
        (Some_of (Chars [(0x30, 0x39), (0x41, 0x46), (0x61, 0x66)]))))"

definition isLegacyIpv4Alias :: "qstring \<Rightarrow> bool" where
  "isLegacyIpv4Alias host \<longleftrightarrow> (let parts = split_at (qchar_of CHR ''.'') host in
     if parts = [] \<or> 4 < length parts then False
     else list_all (anchored numericComponent) parts)"

definition isDotSegment :: "qstring \<Rightarrow> bool" where
  "isDotSegment segment \<longleftrightarrow> segment = qstr ''.'' \<or> segment = qstr ''..''"

definition validPathPrefix :: "qstring \<Rightarrow> bool" where
  "validPathPrefix path \<longleftrightarrow>
     (if path = [] \<or> 2048 < length path \<or> \<not> startsWith (qstr ''/'') path \<or> 0x5C \<in> set path
         \<or> qchar_of CHR ''?'' \<in> set path \<or> qchar_of CHR ''#'' \<in> set path then False
      else \<not> list_ex isDotSegment (split_at 0x2F path))"

definition canonicalNetworkHost :: "host_name_services \<Rightarrow> qstring \<Rightarrow> qstring option" where
  "canonicalNetworkHost svc host =
     (if host = [] \<or> endsWith (qstr ''.'') host \<or> 0 \<in> set host then None
      else if isCanonicalIpv4 host then Some host
      else if isLegacyIpv4Alias host then None
      else let aceBytes = toAce svc host in
      if aceBytes = [] then None
      else let ace = toLower svc (map ucast aceBytes) in
      if \<not> isCanonicalHostname ace then None else Some ace)"

fun httpMethodName :: "http_method \<Rightarrow> qstring" where
  "httpMethodName Get = qstr ''GET''"
| "httpMethodName Post = qstr ''POST''"
| "httpMethodName Put = qstr ''PUT''"
| "httpMethodName Patch = qstr ''PATCH''"

definition parseHttpMethod :: "qstring \<Rightarrow> http_method option" where
  "parseHttpMethod method =
     (if method = qstr ''GET'' then Some Get
      else if method = qstr ''POST'' then Some Post
      else if method = qstr ''PUT'' then Some Put
      else if method = qstr ''PATCH'' then Some Patch
      else None)"

fun networkSchemeName :: "network_scheme \<Rightarrow> qstring" where
  "networkSchemeName Http = qstr ''http''"
| "networkSchemeName Https = qstr ''https''"

section \<open>Validation of the host's policy\<close>

definition rule_key :: "network_allow_rule \<Rightarrow> qstring" where
  "rule_key rule = networkSchemeName (rule_scheme rule) @ [0x0A] @ rule_host rule @ [0x0A]
     @ decimal (unat (rule_port rule)) @ [0x0A] @ pathPrefix rule"

fun validated_rules :: "host_name_services \<Rightarrow> network_allow_rule list \<Rightarrow> qstring list \<Rightarrow>
    network_allow_rule list option" where
  "validated_rules svc [] uniqueRules = Some []"
| "validated_rules svc (rule # rules) uniqueRules =
     (case canonicalNetworkHost svc (rule_host rule) of
        None \<Rightarrow> None
      | Some canonicalHost \<Rightarrow>
          if rule_port rule = 0 \<or> \<not> validPathPrefix (pathPrefix rule) \<or> rule_methods rule = {}
             \<or> addressClasses rule = {} then None
          else
            let rule' = rule\<lparr>rule_host := canonicalHost\<rparr>; key = rule_key rule' in
            if key \<in> set uniqueRules then None
            else map_option ((#) rule') (validated_rules svc rules (key # uniqueRules)))"

definition validatedNetwork ::
  "host_name_services \<Rightarrow> host_network_policy \<Rightarrow> host_network_policy option" where
  "validatedNetwork svc candidate =
     (if network_rules candidate = [] \<or> maximumRequestBytes candidate \<le> 0
         \<or> maximumBrokerBytes < maximumRequestBytes candidate
         \<or> maximumResponseBytes candidate \<le> 0
         \<or> maximumBrokerBytes < maximumResponseBytes candidate
         \<or> timeoutMs candidate \<le> 0 \<or> 60000 < timeoutMs candidate
        then None
      else map_option (\<lambda>rules. candidate\<lparr>network_rules := rules\<rparr>)
        (validated_rules svc (network_rules candidate) []))"

definition validatedStorage :: "host_storage_policy \<Rightarrow> host_storage_policy option" where
  "validatedStorage candidate =
     (if quotaBytes candidate \<le> 0 \<or> maximumStorageBytes < quotaBytes candidate then None
      else Some candidate)"

definition validatedFile :: "host_file_policy \<Rightarrow> host_file_policy option" where
  "validatedFile candidate =
     (if \<not> file_open candidate \<or> maximumBytes candidate \<le> 0
         \<or> maximumBrokerBytes < maximumBytes candidate then None
      else Some candidate)"

section \<open>The policy in force\<close>

definition declared_methods :: "qstring list \<Rightarrow> http_method set" where
  "declared_methods names = set (List.map_filter parseHttpMethod names)"

fun intersect_rules ::
  "qstring list \<Rightarrow> http_method set \<Rightarrow> network_allow_rule list \<Rightarrow> network_allow_rule list" where
  "intersect_rules declaredHosts declaredMethods [] = []"
| "intersect_rules declaredHosts declaredMethods (rule # rules) =
     (if rule_host rule \<notin> set declaredHosts then intersect_rules declaredHosts declaredMethods rules
      else
        let intersected = rule\<lparr>rule_methods := rule_methods rule \<inter> declaredMethods\<rparr> in
        if rule_methods intersected \<noteq> {}
        then intersected # intersect_rules declaredHosts declaredMethods rules
        else intersect_rules declaredHosts declaredMethods rules)"

definition intersect_network :: "host_name_services \<Rightarrow> network_permission \<Rightarrow>
    host_network_policy option \<Rightarrow> effective_network_policy option" where
  "intersect_network svc permission host =
     (if hosts permission \<noteq> [] \<and> methods permission \<noteq> [] then
        (case host of
           None \<Rightarrow> None
         | Some candidate \<Rightarrow>
             (case validatedNetwork svc candidate of
                None \<Rightarrow> None
              | Some validated \<Rightarrow>
                  let rules = intersect_rules (hosts permission)
                        (declared_methods (methods permission)) (network_rules validated)
                  in if rules \<noteq> [] then Some (validated\<lparr>network_rules := rules\<rparr>) else None))
      else None)"

definition intersect :: "host_name_services \<Rightarrow> manifest_permissions \<Rightarrow> host_policy \<Rightarrow> effective_policy" where
  "intersect svc manifest host =
     \<lparr>eff_network = intersect_network svc (perm_network manifest) (host_network host),
      eff_storage =
        (if perm_storage manifest = AppPrivate then
           (case host_storage host of None \<Rightarrow> None | Some s \<Rightarrow> validatedStorage s)
         else None),
      eff_clipboard =
        (case host_clipboard host of
           None \<Rightarrow> None
         | Some c \<Rightarrow>
             let write = perm_clipboardWrite manifest \<and> clip_write c;
                 read = perm_clipboardRead manifest = UserGesture \<and> clip_readWithUserGesture c
             in if write \<or> read then Some \<lparr>clip_write = write, clip_readWithUserGesture = read\<rparr>
                else None),
      eff_file =
        (if perm_fileOpen manifest = UserBrokered then
           (case host_file host of
              None \<Rightarrow> None
            | Some f \<Rightarrow> (case validatedFile f of
                  None \<Rightarrow> None
                | Some v \<Rightarrow> Some \<lparr>file_open = True, maximumBytes = maximumBytes v\<rparr>))
         else None),
      eff_audioPlayback = perm_audioPlayback manifest \<and> host_audioPlayback host\<rparr>"

section \<open>Which requests a network policy permits\<close>

definition pathMatches :: "qstring \<Rightarrow> qstring \<Rightarrow> bool" where
  "pathMatches path prefix =
     (if prefix = qstr ''/'' then startsWith (qstr ''/'') path
      else path = prefix
        \<or> (if endsWith (qstr ''/'') prefix then startsWith prefix path
           else startsWith (prefix @ qstr ''/'') path))"

definition rule_permits ::
  "network_allow_rule \<Rightarrow> network_scheme \<Rightarrow> qstring \<Rightarrow> int \<Rightarrow> http_method \<Rightarrow> qstring \<Rightarrow> bool" where
  "rule_permits rule scheme host port method path \<longleftrightarrow>
     rule_scheme rule = scheme \<and> rule_host rule = host \<and> uint (rule_port rule) = port
     \<and> method \<in> rule_methods rule \<and> pathMatches path (pathPrefix rule)"

lemma intersect_rules_iff:
  "r \<in> set (intersect_rules hs ms rules) \<longleftrightarrow>
    (\<exists>rule \<in> set rules. rule_host rule \<in> set hs \<and> rule_methods rule \<inter> ms \<noteq> {}
       \<and> r = rule\<lparr>rule_methods := rule_methods rule \<inter> ms\<rparr>)"
  by (induction hs ms rules rule: intersect_rules.induct) (auto simp: Let_def)

lemma parseHttpMethod_iff: "parseHttpMethod n = Some m \<longleftrightarrow> n = httpMethodName m"
  by (cases m) (auto simp: parseHttpMethod_def)

lemma declared_methods_iff: "m \<in> declared_methods names \<longleftrightarrow> httpMethodName m \<in> set names"
proof -
  have "m \<in> set (List.map_filter parseHttpMethod names) \<longleftrightarrow> (\<exists>n \<in> set names. parseHttpMethod n = Some m)"
    by (induction names) (auto simp: map_filter_simps split: option.split)
  then show ?thesis by (auto simp: declared_methods_def parseHttpMethod_iff)
qed

lemma rules_permit_iff:
  "list_ex (\<lambda>r. rule_permits r scheme host port m path \<and> c \<in> addressClasses r)
      (intersect_rules hs (declared_methods ms) rules) \<longleftrightarrow>
   host \<in> set hs \<and> httpMethodName m \<in> set ms
     \<and> list_ex (\<lambda>r. rule_permits r scheme host port m path \<and> c \<in> addressClasses r) rules"
proof -
  let ?ms = "declared_methods ms"
  have kept: "rule_permits (r\<lparr>rule_methods := rule_methods r \<inter> ?ms\<rparr>) scheme host port m path \<longleftrightarrow>
      rule_permits r scheme host port m path \<and> httpMethodName m \<in> set ms" for r
    by (auto simp: rule_permits_def declared_methods_iff)
  have some: "rule_methods r \<inter> ?ms \<noteq> {}" if "rule_permits r scheme host port m path" "httpMethodName m \<in> set ms" for r
    using that by (auto simp: rule_permits_def declared_methods_iff)
  have host: "rule_host r = host" if "rule_permits r scheme host port m path" for r
    using that by (simp add: rule_permits_def)
  show ?thesis
  proof
    assume "host \<in> set hs \<and> httpMethodName m \<in> set ms
      \<and> list_ex (\<lambda>r. rule_permits r scheme host port m path \<and> c \<in> addressClasses r) rules"
    then obtain r where "r \<in> set rules" "rule_permits r scheme host port m path" "c \<in> addressClasses r"
      "host \<in> set hs" "httpMethodName m \<in> set ms" by (auto simp: list_ex_iff)
    then have "r\<lparr>rule_methods := rule_methods r \<inter> ?ms\<rparr> \<in> set (intersect_rules hs ?ms rules)"
        "rule_permits (r\<lparr>rule_methods := rule_methods r \<inter> ?ms\<rparr>) scheme host port m path"
        "c \<in> addressClasses (r\<lparr>rule_methods := rule_methods r \<inter> ?ms\<rparr>)"
      unfolding intersect_rules_iff using kept [of r] some [of r] host [of r] by auto
    then show "list_ex (\<lambda>r. rule_permits r scheme host port m path \<and> c \<in> addressClasses r)
        (intersect_rules hs ?ms rules)"
      unfolding list_ex_iff by blast
  next
    assume "list_ex (\<lambda>r. rule_permits r scheme host port m path \<and> c \<in> addressClasses r)
        (intersect_rules hs ?ms rules)"
    then obtain r where "r \<in> set rules" "rule_host r \<in> set hs" "c \<in> addressClasses r"
      "rule_permits (r\<lparr>rule_methods := rule_methods r \<inter> ?ms\<rparr>) scheme host port m path"
      by (auto simp: list_ex_iff intersect_rules_iff)
    then show "host \<in> set hs \<and> httpMethodName m \<in> set ms
      \<and> list_ex (\<lambda>r. rule_permits r scheme host port m path \<and> c \<in> addressClasses r) rules"
      using kept [of r] host [of r] by (auto simp: list_ex_iff)
  qed
qed

definition network_permits :: "effective_network_policy option \<Rightarrow> network_scheme \<Rightarrow> qstring \<Rightarrow> int \<Rightarrow>
    http_method \<Rightarrow> qstring \<Rightarrow> network_address_class \<Rightarrow> bool" where
  "network_permits policy scheme host port m path c =
     (case policy of None \<Rightarrow> False
      | Some p \<Rightarrow> list_ex (\<lambda>r. rule_permits r scheme host port m path \<and> c \<in> addressClasses r) (network_rules p))"

lemma network_permits_intersect:
  "network_permits (eff_network (intersect svc manifest host)) scheme h port m path c \<longleftrightarrow>
      network_permits (case host_network host of None \<Rightarrow> None | Some n \<Rightarrow> validatedNetwork svc n) scheme h port m path c
      \<and> h \<in> set (hosts (perm_network manifest)) \<and> httpMethodName m \<in> set (methods (perm_network manifest))"
proof -
  let ?permission = "perm_network manifest"
  show "network_permits (eff_network (intersect svc manifest host)) scheme h port m path c \<longleftrightarrow>
      network_permits (case host_network host of None \<Rightarrow> None | Some n \<Rightarrow> validatedNetwork svc n) scheme h port m path c
      \<and> h \<in> set (hosts ?permission) \<and> httpMethodName m \<in> set (methods ?permission)"
  proof (cases "case host_network host of None \<Rightarrow> None | Some n \<Rightarrow> validatedNetwork svc n")
    case None
    then show ?thesis
      by (auto simp: network_permits_def intersect_def intersect_network_def split: option.splits)
  next
    case (Some v)
    then obtain n where n: "host_network host = Some n" "validatedNetwork svc n = Some v"
      by (auto split: option.splits)
    then have "eff_network (intersect svc manifest host) =
        (if hosts ?permission \<noteq> [] \<and> methods ?permission \<noteq> []
            \<and> intersect_rules (hosts ?permission) (declared_methods (methods ?permission)) (network_rules v) \<noteq> []
         then Some (v\<lparr>network_rules := intersect_rules (hosts ?permission)
           (declared_methods (methods ?permission)) (network_rules v)\<rparr>) else None)"
      by (simp add: intersect_def intersect_network_def Let_def)
    with Some rules_permit_iff [of scheme h port m path c "hosts ?permission" "methods ?permission" "network_rules v"]
    show ?thesis by (auto simp: network_permits_def split: if_splits)
  qed
qed

text \<open>
  The policy in force is exactly the intersection: a request (scheme, host, port, method, path, class
  of address) is permitted exactly when the host's policy is valid and permits it and the manifest
  declares its host and method; the limits are the host's; storage, clipboard, files and audio are in
  force exactly when the manifest asks for them and a valid host policy grants them.
\<close>
theorem policy_intersection_exact:
  "(network_permits (eff_network (intersect svc manifest host)) scheme h port m path c \<longleftrightarrow>
      network_permits (case host_network host of None \<Rightarrow> None | Some n \<Rightarrow> validatedNetwork svc n) scheme h port m path c
      \<and> h \<in> set (hosts (perm_network manifest)) \<and> httpMethodName m \<in> set (methods (perm_network manifest)))
   \<and> (eff_storage (intersect svc manifest host) = Some s \<longleftrightarrow>
      perm_storage manifest = AppPrivate \<and> host_storage host = Some s \<and> 0 < quotaBytes s \<and> quotaBytes s \<le> 16777216)
   \<and> (case eff_clipboard (intersect svc manifest host) of None \<Rightarrow> (False, False)
        | Some k \<Rightarrow> (clip_write k, clip_readWithUserGesture k)) =
      (case host_clipboard host of None \<Rightarrow> (False, False)
        | Some k \<Rightarrow> (perm_clipboardWrite manifest \<and> clip_write k,
            perm_clipboardRead manifest = UserGesture \<and> clip_readWithUserGesture k))
   \<and> (eff_file (intersect svc manifest host) = Some f \<longleftrightarrow>
      perm_fileOpen manifest = UserBrokered \<and> host_file host = Some f \<and> file_open f
      \<and> 0 < maximumBytes f \<and> maximumBytes f \<le> 1048576)
   \<and> eff_audioPlayback (intersect svc manifest host) = (perm_audioPlayback manifest \<and> host_audioPlayback host)"
proof (intro conjI)
  show "network_permits (eff_network (intersect svc manifest host)) scheme h port m path c \<longleftrightarrow>
      network_permits (case host_network host of None \<Rightarrow> None | Some n \<Rightarrow> validatedNetwork svc n) scheme h port m path c
      \<and> h \<in> set (hosts (perm_network manifest)) \<and> httpMethodName m \<in> set (methods (perm_network manifest))"
    by (rule network_permits_intersect)
  show "eff_storage (intersect svc manifest host) = Some s \<longleftrightarrow>
      perm_storage manifest = AppPrivate \<and> host_storage host = Some s \<and> 0 < quotaBytes s \<and> quotaBytes s \<le> 16777216"
    by (auto simp: intersect_def validatedStorage_def maximumStorageBytes_def split: option.splits if_splits)
  show "(case eff_clipboard (intersect svc manifest host) of None \<Rightarrow> (False, False)
        | Some k \<Rightarrow> (clip_write k, clip_readWithUserGesture k)) =
      (case host_clipboard host of None \<Rightarrow> (False, False)
        | Some k \<Rightarrow> (perm_clipboardWrite manifest \<and> clip_write k,
            perm_clipboardRead manifest = UserGesture \<and> clip_readWithUserGesture k))"
    by (auto simp: intersect_def Let_def split: option.splits)
  show "eff_file (intersect svc manifest host) = Some f \<longleftrightarrow>
      perm_fileOpen manifest = UserBrokered \<and> host_file host = Some f \<and> file_open f
      \<and> 0 < maximumBytes f \<and> maximumBytes f \<le> 1048576"
    by (auto simp: intersect_def validatedFile_def maximumBrokerBytes_def split: option.splits if_splits)
  show "eff_audioPlayback (intersect svc manifest host) = (perm_audioPlayback manifest \<and> host_audioPlayback host)"
    by (simp add: intersect_def)
qed

end
