(* ===== verification/Broker.thy ===== *)
theory Broker
  imports Policy FrameCodec ProtocolMessage GestureStore
begin

text \<open>
  The capability broker (\<open>runtime/broker/CapabilityBroker.{h,cpp}\<close>) and the clipboard service behind it
  (\<open>runtime/broker/ClipboardBroker.{h,cpp}\<close>).

  A service is a function of the world \<open>'w\<close> it may change: the broker is proved to run a service only
  for a granted capability, whatever the service does, and never to hand out an answer that does not
  fit the channel.  The clipboard service works on the gesture store of \<open>GestureStore\<close>; the system
  clipboard is the parameter \<open>clipboard_backend\<close>.
\<close>

section \<open>Results and contexts\<close>

record broker_result =
  result_ok :: bool
  result_value :: json_object
  result_errorCode :: qstring
  errorMessage :: qstring

record host_request_context =
  ctx_appIdentity :: qstring
  ctx_requestId :: qstring
  userGestureGrant :: "gesture_grant option"

definition broker_success :: "json_object \<Rightarrow> broker_result" where
  "broker_success v = \<lparr>result_ok = True, result_value = v, result_errorCode = [], errorMessage = []\<rparr>"

definition broker_failure :: "string \<Rightarrow> string \<Rightarrow> broker_result" where
  "broker_failure code safeMessage = \<lparr>result_ok = False, result_value = fmempty,
     result_errorCode = qstr code, errorMessage = qstr safeMessage\<rparr>"

definition maximumIpcBinaryResultBytes :: int where "maximumIpcBinaryResultBytes = 760 * 1024"

type_synonym 'w capability_service =
  "'w \<Rightarrow> qstring \<Rightarrow> json_object \<Rightarrow> host_request_context \<Rightarrow> broker_result \<times> 'w"

record 'w capability_services =
  svc_network :: "'w capability_service option"
  svc_storage :: "'w capability_service option"
  svc_clipboard :: "'w capability_service option"
  svc_file :: "'w capability_service option"
  svc_audio :: "'w capability_service option"

record 'w capability_broker =
  broker_policy :: effective_policy
  broker_services :: "'w capability_services"

section \<open>The broker\<close>

definition denied :: broker_result where
  "denied = broker_failure ''capability.denied'' ''Capability is not permitted.''"

definition validHostIdentity :: "qstring \<Rightarrow> bool" where
  "validHostIdentity identity \<longleftrightarrow>
     \<not> (identity = [] \<or> 256 < length identity) \<and> list_all (\<lambda>c. \<not> (c < 0x21 \<or> 0x7E < c)) identity"

definition responseFitsIpc :: "text_services \<Rightarrow> json_services \<Rightarrow> qstring \<Rightarrow> broker_result \<Rightarrow> bool" where
  "responseFitsIpc svc json requestId result =
     (case (if result_ok result then successResponse_message svc requestId (result_value result)
            else errorResponse_message svc requestId (result_errorCode result) (errorMessage result)) of
        None \<Rightarrow> False | Some m \<Rightarrow> encode json (toJson m) \<noteq> [])"

definition operationAllowed :: "qstring \<Rightarrow> qstring \<Rightarrow> bool" where
  "operationAllowed capability operation =
     (if capability = qstr ''audio'' then
        operation \<in> set (map qstr [''catalog'', ''play'', ''pause'', ''stop'', ''seek'', ''setVolume'',
          ''status''])
      else if capability = qstr ''network'' then operation = qstr ''request''
      else if capability = qstr ''storage'' then
        operation = qstr ''get'' \<or> operation = qstr ''set'' \<or> operation = qstr ''remove''
      else if capability = qstr ''clipboard'' then
        operation = qstr ''read'' \<or> operation = qstr ''write''
      else if capability = qstr ''file'' then operation = qstr ''open''
      else False)"

definition validRequestContext :: "host_request_context \<Rightarrow> bool" where
  "validRequestContext ctx \<longleftrightarrow> validHostIdentity (ctx_appIdentity ctx) \<and> ctx_requestId ctx \<noteq> []"

definition requestFitsIpc ::
  "text_services \<Rightarrow> json_services \<Rightarrow> qstring \<Rightarrow> qstring \<Rightarrow> qstring \<Rightarrow> json_object \<Rightarrow> bool" where
  "requestFitsIpc svc json requestId capability operation payload =
     (case request_message svc requestId capability operation payload of
        None \<Rightarrow> False | Some m \<Rightarrow> encode json (toJson m) \<noteq> [])"

definition boundResponseToIpc ::
  "text_services \<Rightarrow> json_services \<Rightarrow> qstring \<Rightarrow> broker_result \<Rightarrow> broker_result" where
  "boundResponseToIpc svc json requestId result =
     (if responseFitsIpc svc json requestId result then result
      else broker_failure ''capability.response_too_large'' ''Capability response is too large.'')"

definition selected_service :: "'w capability_broker \<Rightarrow> qstring \<Rightarrow> 'w capability_service option" where
  "selected_service broker capability =
     (let policy = broker_policy broker; services = broker_services broker;
          service = (if capability = qstr ''audio'' \<and> eff_audioPlayback policy
                     then svc_audio services else None)
      in if capability = qstr ''network'' \<and> eff_network policy \<noteq> None then svc_network services
         else if capability = qstr ''storage'' \<and> eff_storage policy \<noteq> None then svc_storage services
         else if capability = qstr ''clipboard'' \<and> eff_clipboard policy \<noteq> None then svc_clipboard services
         else if capability = qstr ''file'' \<and> eff_file policy \<noteq> None then svc_file services
         else service)"

definition dispatch ::
  "text_services \<Rightarrow> json_services \<Rightarrow> 'w capability_broker \<Rightarrow> 'w \<Rightarrow> qstring \<Rightarrow> qstring \<Rightarrow> json_object \<Rightarrow>
    host_request_context \<Rightarrow> broker_result \<times> 'w" where
  "dispatch svc json broker w capability operation payload ctx =
     (if \<not> validRequestContext ctx then (denied, w)
      else (case selected_service broker capability of
          None \<Rightarrow> (denied, w)
        | Some service \<Rightarrow>
            if \<not> operationAllowed capability operation then (denied, w)
            else if \<not> requestFitsIpc svc json (ctx_requestId ctx) capability operation payload
              then (broker_failure ''capability.payload_too_large'' ''Capability request is too large.'', w)
            else let (result, w') = service w operation payload ctx
              in (boundResponseToIpc svc json (ctx_requestId ctx) result, w')))"

section \<open>The clipboard\<close>

datatype clipboard_status = ClipSuccess | ClipUnavailable | ClipTooLarge

record clipboard_read_result =
  clip_status :: clipboard_status
  clip_text :: qstring

record 'b clipboard_backend =
  readText :: "'b \<Rightarrow> int \<Rightarrow> clipboard_read_result \<times> 'b"
  writeText :: "'b \<Rightarrow> qstring \<Rightarrow> int \<Rightarrow> clipboard_status \<times> 'b"

record 'b clipboard_world =
  cw_store :: gesture_store
  cw_clipboard :: 'b

definition maximumClipboardBytes :: int where "maximumClipboardBytes = 64 * 1024"

definition clipboardTextFits :: "qstring \<Rightarrow> int \<Rightarrow> bool" where
  "clipboardTextFits text_value maximum \<longleftrightarrow> int (length text_value) \<le> maximum div 2 - 1"

definition clipboardFailure :: "clipboard_status \<Rightarrow> broker_result" where
  "clipboardFailure s =
     (if s = ClipTooLarge then broker_failure ''clipboard.too_large'' ''Clipboard content is too large.''
      else broker_failure ''clipboard.failed'' ''Clipboard is unavailable.'')"

text \<open>
  The grant of the context is consumed in place: the call also returns what is left of it.  \<open>now\<close> is
  the clock of the gesture store.
\<close>

definition clipboard_invoke ::
  "effective_clipboard_policy \<Rightarrow> 'b clipboard_backend \<Rightarrow> int \<Rightarrow> 'b clipboard_world \<Rightarrow> qstring \<Rightarrow>
    json_object \<Rightarrow> host_request_context \<Rightarrow> broker_result \<times> 'b clipboard_world \<times> gesture_grant option" where
  "clipboard_invoke policy backend now w operation payload ctx =
     (let grant = userGestureGrant ctx;
          failed = (\<lambda>code m. (broker_failure code m, w, grant)) in
      if operation = qstr ''read'' then
        (if payload \<noteq> fmempty
           then failed ''clipboard.invalid_request'' ''Clipboard request is invalid.''
         else if \<not> clip_readWithUserGesture policy
           then failed ''capability.denied'' ''Capability is not permitted.''
         else (case grant of
             None \<Rightarrow> failed ''clipboard.gesture_required'' ''A user gesture is required.''
           | Some g \<Rightarrow>
               let (st, g', consumed) = consume (cw_store w) g (ctx_appIdentity ctx) (ctx_requestId ctx) now;
                   w = w\<lparr>cw_store := st\<rparr> in
               if \<not> consumed
                 then (broker_failure ''clipboard.gesture_required'' ''A user gesture is required.'', w, Some g')
               else
                 let (r, b) = readText backend (cw_clipboard w) maximumClipboardBytes;
                     w = w\<lparr>cw_clipboard := b\<rparr> in
                 if clip_status r \<noteq> ClipSuccess then (clipboardFailure (clip_status r), w, Some g')
                 else if \<not> clipboardTextFits (clip_text r) maximumClipboardBytes
                   then (clipboardFailure ClipTooLarge, w, Some g')
                 else (broker_success (json_object_of [(''text'', JString (clip_text r))]), w, Some g')))
      else if operation \<noteq> qstr ''write'' \<or> fcard (fmdom payload) \<noteq> 1
              \<or> \<not> isString (json_member payload ''text'')
        then failed ''clipboard.invalid_request'' ''Clipboard request is invalid.''
      else if \<not> clip_write policy then failed ''capability.denied'' ''Capability is not permitted.''
      else
        let text_value = toString (json_member payload ''text'') in
        if \<not> clipboardTextFits text_value maximumClipboardBytes
          then (clipboardFailure ClipTooLarge, w, grant)
        else
          let (s, b) = writeText backend (cw_clipboard w) text_value maximumClipboardBytes;
              w = w\<lparr>cw_clipboard := b\<rparr> in
          if s \<noteq> ClipSuccess then (clipboardFailure s, w, grant)
          else (broker_success fmempty, w, grant))"

section \<open>Properties\<close>

definition capability_granted :: "effective_policy \<Rightarrow> qstring \<Rightarrow> bool" where
  "capability_granted policy capability \<longleftrightarrow>
     (capability = qstr ''network'' \<and> eff_network policy \<noteq> None)
     \<or> (capability = qstr ''storage'' \<and> eff_storage policy \<noteq> None)
     \<or> (capability = qstr ''clipboard'' \<and> eff_clipboard policy \<noteq> None)
     \<or> (capability = qstr ''file'' \<and> eff_file policy \<noteq> None)
     \<or> (capability = qstr ''audio'' \<and> eff_audioPlayback policy)"

definition manifest_declares :: "manifest_permissions \<Rightarrow> qstring \<Rightarrow> bool" where
  "manifest_declares manifest capability \<longleftrightarrow>
     (capability = qstr ''network'' \<and> hosts (perm_network manifest) \<noteq> [] \<and> methods (perm_network manifest) \<noteq> [])
     \<or> (capability = qstr ''storage'' \<and> perm_storage manifest = AppPrivate)
     \<or> (capability = qstr ''clipboard'' \<and> (perm_clipboardWrite manifest \<or> perm_clipboardRead manifest = UserGesture))
     \<or> (capability = qstr ''file'' \<and> perm_fileOpen manifest = UserBrokered)
     \<or> (capability = qstr ''audio'' \<and> perm_audioPlayback manifest)"

lemma granted_declared:
  "capability_granted (intersect svc manifest host) capability \<Longrightarrow> manifest_declares manifest capability"
  by (auto simp: capability_granted_def manifest_declares_def intersect_def intersect_network_def Let_def
      split: option.splits if_splits)

lemma selected_granted:
  "selected_service broker capability \<noteq> None \<Longrightarrow> capability_granted (broker_policy broker) capability"
  by (auto simp: selected_service_def capability_granted_def Let_def split: if_splits)


lemma consume_used_up:
  assumes "consume st g app r now = (st', g', True)"
  shows "consume st' g' app' r' now' = (st', g', False)"
proof -
  from assms have "\<not> gg_active g'"
    by (auto simp: consume_def Let_def split: if_splits option.splits)
  then show ?thesis by (simp add: consume_def)
qed

text \<open>
  C21. The clipboard is read only for a user gesture, and once per gesture: if a call answers with text, the
  policy allows reading, the context's grant was issued for this application and this request and has
  just been consumed, the text fits the limit, and no later read with what is left of that grant
  reaches the clipboard, whatever its identity, request and time.
\<close>
theorem clipboard_read_once_per_gesture:
  assumes "clipboard_invoke policy backend now w (qstr ''read'') payload ctx = (result, w', grant')"
    and "result_ok result"
  shows "clip_readWithUserGesture policy
    \<and> (case userGestureGrant ctx of None \<Rightarrow> False
       | Some g \<Rightarrow> gg_active g \<and> gg_appIdentity g = ctx_appIdentity ctx \<and> gg_requestId g = ctx_requestId ctx)
    \<and> (case json_member (result_value result) ''text'' of Some (JString t) \<Rightarrow> length t \<le> 32767 | _ \<Rightarrow> False)
    \<and> clipboard_invoke policy backend now' (w'\<lparr>cw_clipboard := b\<rparr>) (qstr ''read'') fmempty
        (ctx'\<lparr>userGestureGrant := grant'\<rparr>)
      = (broker_failure ''clipboard.gesture_required'' ''A user gesture is required.'',
         w'\<lparr>cw_clipboard := b\<rparr>, grant')"
proof -
  have fails: "\<not> result_ok (broker_failure c m)" "\<not> result_ok (clipboardFailure s)" for c m s
    by (simp_all add: broker_failure_def clipboardFailure_def)
  from assms fails obtain g where g: "payload = fmempty" "clip_readWithUserGesture policy" "userGestureGrant ctx = Some g"
    by (cases "userGestureGrant ctx") (auto simp: clipboard_invoke_def Let_def split: if_splits)
  obtain st g' c where consumed: "consume (cw_store w) g (ctx_appIdentity ctx) (ctx_requestId ctx) now = (st, g', c)"
    by (cases "consume (cw_store w) g (ctx_appIdentity ctx) (ctx_requestId ctx) now") auto
  with assms g fails have c: "c" by (auto simp: clipboard_invoke_def Let_def split: if_splits)
  obtain r b' where r: "readText backend (cw_clipboard w) maximumClipboardBytes = (r, b')"
    by (cases "readText backend (cw_clipboard w) maximumClipboardBytes") auto
  from assms g fails consumed c r have out: "clip_status r = ClipSuccess" "clipboardTextFits (clip_text r) maximumClipboardBytes"
    "result = broker_success (json_object_of [(''text'', JString (clip_text r))])"
    "w' = w\<lparr>cw_store := st, cw_clipboard := b'\<rparr>" "grant' = Some g'"
    by (auto simp: clipboard_invoke_def Let_def split: if_splits)
  have grant: "gg_active g \<and> gg_appIdentity g = ctx_appIdentity ctx \<and> gg_requestId g = ctx_requestId ctx"
    using consumed c by (auto simp: consume_def split: if_splits)
  have again: "consume st g' a q n = (st, g', False)" for a q n
    using consume_used_up [of "cw_store w" g] consumed c by simp
  show ?thesis
    using g grant out again
    by (simp add: clipboard_invoke_def Let_def broker_success_def clipboardTextFits_def maximumClipboardBytes_def)
qed

section \<open>Witnesses\<close>

definition broker_text :: text_services where
  "broker_text = \<lparr>other_control = \<lambda>c. c < 0x20, toULongLong = \<lambda>s. None\<rparr>"

definition broker_json :: json_services where
  "broker_json = \<lparr>decodeUtf8 = \<lambda>bs. None, unicode_digit = \<lambda>c. False, fromJson = \<lambda>s. None,
     toCompactJson = \<lambda>m. [0x7B, 0x7D]\<rparr>"

definition sample_manifest :: manifest_permissions where
  "sample_manifest = \<lparr>perm_network = \<lparr>hosts = [], methods = []\<rparr>, perm_storage = StorageDisabled,
     perm_clipboardWrite = False, perm_clipboardRead = ClipboardReadDisabled,
     perm_fileOpen = FileOpenDisabled, perm_audioPlayback = True\<rparr>"

definition sample_host :: host_policy where
  "sample_host = \<lparr>host_network = None, host_storage = None, host_clipboard = None, host_file = None,
     host_audioPlayback = True\<rparr>"

definition sample_names :: host_name_services where
  "sample_names = \<lparr>toAce = \<lambda>s. map ucast s, toLower = id\<rparr>"

definition sample_broker :: "nat capability_broker" where
  "sample_broker = \<lparr>broker_policy = intersect sample_names sample_manifest sample_host,
     broker_services = \<lparr>svc_network = None, svc_storage = None, svc_clipboard = None, svc_file = None,
       svc_audio = Some (\<lambda>w operation payload ctx. (broker_success fmempty, w + 1))\<rparr>\<rparr>"

definition sample_ctx :: host_request_context where
  "sample_ctx = \<lparr>ctx_appIdentity = qstr ''app'', ctx_requestId = qstr ''r1'', userGestureGrant = None\<rparr>"

lemma validated_message:
  "well_formed_message svc \<lparr>message_type = t, message_requestId = r, message_payload = p\<rparr> \<Longrightarrow>
    validated svc t r p = Some \<lparr>message_type = t, message_requestId = r, message_payload = p\<rparr>"
  by (simp add: validated_def parse_toJson)

lemma sample_dispatch:
  "dispatch broker_text broker_json sample_broker 0 (qstr ''audio'') (qstr ''status'') fmempty sample_ctx
    = (broker_success fmempty, 1)"
proof -
  let ?request = "\<lparr>message_type = Request, message_requestId = qstr ''r1'', message_payload =
    json_object_of [(''capability'', JString (qstr ''audio'')), (''operation'', JString (qstr ''status'')),
      (''payload'', JObject fmempty)]\<rparr>"
  let ?response = "\<lparr>message_type = Response, message_requestId = qstr ''r1'', message_payload =
    json_object_of [(''ok'', JBool True), (''result'', JObject fmempty)]\<rparr>"
  have wf: "well_formed_message broker_text ?request" "well_formed_message broker_text ?response"
    by (auto simp: well_formed_message_def needsRequestId_def ProtocolMessage.validToken_def
        maximumTokenCharacters_def token_char_def) (auto simp: qstr_def token_char_def)
  have fits: "encode broker_json m \<noteq> []" for m
    by (simp add: encode_def broker_json_def maximumPayloadBytes_def)
  have request: "requestFitsIpc broker_text broker_json (qstr ''r1'') (qstr ''audio'') (qstr ''status'') fmempty"
    using validated_message [OF wf(1)] by (simp add: requestFitsIpc_def request_message_def fits)
  have response: "responseFitsIpc broker_text broker_json (qstr ''r1'') (broker_success fmempty)"
    using validated_message [OF wf(2)]
    by (simp add: responseFitsIpc_def broker_success_def successResponse_message_def fits)
  have policy: "eff_audioPlayback (intersect sample_names sample_manifest sample_host)"
    "eff_network (intersect sample_names sample_manifest sample_host) = None"
    by (simp_all add: intersect_def intersect_network_def sample_manifest_def sample_host_def)
  show ?thesis
    using request response policy
    by (simp add: dispatch_def sample_broker_def selected_service_def sample_ctx_def validRequestContext_def
        validHostIdentity_def operationAllowed_def boundResponseToIpc_def) (simp add: qstr_def)
qed


definition sample_grant :: gesture_grant where
  "sample_grant = \<lparr>gg_state = Some 7, gg_sessionId = 1, gg_grantId = 1, gg_appIdentity = qstr ''app'',
     gg_requestId = qstr ''r1'', gg_active = True\<rparr>"

definition sample_clipboard_world :: "qstring clipboard_world" where
  "sample_clipboard_world = \<lparr>cw_store = \<lparr>store_id = 7, sessions = [(1, \<lparr>ses_appIdentity = qstr ''app'',
       active = [(1, \<lparr>rec_requestId = qstr ''r1'', expiresAt = 10\<rparr>)], used = []\<rparr>)],
       nextSessionId = 2, nextGrantId = 2, accepting = True\<rparr>, cw_clipboard = qstr ''hello''\<rparr>"

definition sample_backend :: "qstring clipboard_backend" where
  "sample_backend = \<lparr>readText = \<lambda>b n. (\<lparr>clip_status = ClipSuccess, clip_text = b\<rparr>, b),
     writeText = \<lambda>b t n. (ClipSuccess, t)\<rparr>"

theorem clipboard_read_once_per_gesture_witness:
  "case clipboard_invoke \<lparr>clip_write = False, clip_readWithUserGesture = True\<rparr> sample_backend 0
      sample_clipboard_world (qstr ''read'') fmempty (sample_ctx\<lparr>userGestureGrant := Some sample_grant\<rparr>) of
    (result, w', grant') \<Rightarrow> result_ok result
      \<and> fst (clipboard_invoke \<lparr>clip_write = False, clip_readWithUserGesture = True\<rparr> sample_backend 0
          (w'\<lparr>cw_clipboard := []\<rparr>) (qstr ''read'') fmempty (sample_ctx\<lparr>userGestureGrant := grant'\<rparr>))
        = broker_failure ''clipboard.gesture_required'' ''A user gesture is required.''"
proof -
  obtain result w' grant' where first: "clipboard_invoke \<lparr>clip_write = False, clip_readWithUserGesture = True\<rparr>
      sample_backend 0 sample_clipboard_world (qstr ''read'') fmempty (sample_ctx\<lparr>userGestureGrant := Some sample_grant\<rparr>)
      = (result, w', grant')"
    by (cases "clipboard_invoke \<lparr>clip_write = False, clip_readWithUserGesture = True\<rparr>
      sample_backend 0 sample_clipboard_world (qstr ''read'') fmempty (sample_ctx\<lparr>userGestureGrant := Some sample_grant\<rparr>)")
  have ok: "result_ok (fst (clipboard_invoke \<lparr>clip_write = False, clip_readWithUserGesture = True\<rparr>
      sample_backend 0 sample_clipboard_world (qstr ''read'') fmempty (sample_ctx\<lparr>userGestureGrant := Some sample_grant\<rparr>)))"
    by (simp add: clipboard_invoke_def sample_backend_def sample_clipboard_world_def sample_ctx_def sample_grant_def
        consume_def purgeExpired_def purge_session_def broker_success_def clipboardTextFits_def
        maximumClipboardBytes_def Let_def)
  then have "result_ok result" by (simp add: first)
  from clipboard_read_once_per_gesture [OF first this] \<open>result_ok result\<close> show ?thesis
    by (simp add: first)
qed

end
