(* ===== verification/Network.thy ===== *)
theory Network
  imports Broker Paths
begin

text \<open>
  The network service (\<open>runtime/broker/NetworkBroker.{h,cpp}\<close>): the checks of a request, the choice of the
  rule that allows it, the classes of the resolved addresses, the pinned connection and the HTTP
  exchange.

  What happens outside is an input (\<open>network_environment\<close>): the resolver's answer, the time that has
  passed, whether the connection came up, and the chunks the socket delivers.  What the broker does to
  the outside is an output: the list of its lookups, connections and writes.  \<open>QUrl\<close>, \<open>QHostAddress\<close>,
  Base64, Latin-1 encoding and \<open>toLongLong\<close> are parameters.
\<close>

section \<open>Services and environment\<close>

record network_url = qurl +
  isRelative :: bool
  decodedPath :: qstring
  decodedHost :: qstring
  encodedQuery :: qstring

record 'a address_services =
  isNull :: "'a \<Rightarrow> bool"
  isMulticast :: "'a \<Rightarrow> bool"
  toIPv4Address :: "'a \<Rightarrow> 32 word option"
  fromIPv4 :: "32 word \<Rightarrow> 'a"
  isLoopback :: "'a \<Rightarrow> bool"
  isLinkLocal :: "'a \<Rightarrow> bool"
  isInSubnet :: "'a \<Rightarrow> string \<Rightarrow> nat \<Rightarrow> bool"
  isIPv6Protocol :: "'a \<Rightarrow> bool"

record 'a network_services =
  net_url :: "qstring \<Rightarrow> network_url"
  fromBase64 :: "bytes \<Rightarrow> bytes option"
  toBase64 :: "bytes \<Rightarrow> bytes"
  toLatin1 :: "qstring \<Rightarrow> bytes"
  toLongLong :: "qstring \<Rightarrow> int option"
  net_names :: host_name_services
  net_addresses :: "'a address_services"

datatype connect_outcome = Connected | ConnectTimedOut | ConnectFailed

datatype exchange_event = ChunkReceived bytes | ExchangeTimedOut | SocketError

record 'a network_environment =
  resolved :: "'a list"
  resolutionTimedOut :: bool
  elapsedAfterResolution :: int
  connect_result :: connect_outcome
  elapsedAfterConnect :: int
  fullyWritten :: bool
  exchange :: "exchange_event list"

datatype 'a network_effect =
    Resolve qstring
  | ConnectTo 'a int qstring bool
  | WriteRequest bytes

section \<open>Addresses\<close>

definition inAnySubnet :: "'a address_services \<Rightarrow> 'a \<Rightarrow> (string \<times> nat) list \<Rightarrow> bool" where
  "inAnySubnet svc address prefixes \<longleftrightarrow> list_ex (\<lambda>(network, n). isInSubnet svc address network n) prefixes"

definition deniedIpv4 :: "(string \<times> nat) list" where
  "deniedIpv4 = [(''0.0.0.0'', 8), (''100.64.0.0'', 10), (''192.0.0.0'', 24), (''192.0.2.0'', 24),
     (''192.88.99.0'', 24), (''198.18.0.0'', 15), (''198.51.100.0'', 24), (''203.0.113.0'', 24),
     (''224.0.0.0'', 4), (''240.0.0.0'', 4)]"

definition allocatedPrefixes :: "(string \<times> nat) list" where
  "allocatedPrefixes = [
     (''2001:200::'', 23), (''2001:400::'', 23), (''2001:600::'', 23), (''2001:800::'', 22),
     (''2001:c00::'', 23), (''2001:e00::'', 23), (''2001:1200::'', 23), (''2001:1400::'', 22),
     (''2001:1800::'', 23), (''2001:1a00::'', 23), (''2001:1c00::'', 22), (''2001:2000::'', 19),
     (''2001:4000::'', 23), (''2001:4200::'', 23), (''2001:4400::'', 23), (''2001:4600::'', 23),
     (''2001:4800::'', 23), (''2001:4a00::'', 23), (''2001:4c00::'', 23), (''2001:5000::'', 20),
     (''2001:8000::'', 19), (''2001:a000::'', 20), (''2001:b000::'', 20), (''2003::'', 18),
     (''2400::'', 12), (''2410::'', 12), (''2600::'', 12), (''2610::'', 23), (''2620::'', 23),
     (''2630::'', 12), (''2800::'', 12), (''2a00::'', 12), (''2a10::'', 12), (''2c00::'', 12)]"

definition specialPrefixes :: "(string \<times> nat) list" where
  "specialPrefixes = [(''2001:db8::'', 32), (''2620:4f:8000::'', 48)]"

definition classifyNetworkAddress :: "'a address_services \<Rightarrow> 'a \<Rightarrow> network_address_class option" where
  "classifyNetworkAddress svc input =
     (if isNull svc input \<or> isMulticast svc input then None
      else
        let ipv4 = toIPv4Address svc input; hasIpv4 = ipv4 \<noteq> None;
            address = (case ipv4 of Some v \<Rightarrow> fromIPv4 svc v | None \<Rightarrow> input) in
        if isLoopback svc address then Some Loopback
        else if isLinkLocal svc address then Some LinkLocal
        else if hasIpv4 then
          (if inAnySubnet svc address [(''10.0.0.0'', 8), (''172.16.0.0'', 12), (''192.168.0.0'', 16)]
             then Some PrivateAddress
           else if inAnySubnet svc address deniedIpv4 then None
           else Some PublicAddress)
        else if \<not> isIPv6Protocol svc address then None
        else if isInSubnet svc address ''fc00::'' 7 then Some PrivateAddress
        else if \<not> inAnySubnet svc address allocatedPrefixes
                \<or> inAnySubnet svc address specialPrefixes then None
        else Some PublicAddress)"

section \<open>The HTTP exchange\<close>

record http_response =
  http_complete :: bool
  http_timedOut :: bool
  http_tooLarge :: bool
  http_status :: int
  http_body :: bytes

record exchange_state =
  response :: http_response
  received :: bytes
  expectedTotal :: int
  bodyStart :: int

definition new_exchange :: exchange_state where
  "new_exchange = \<lparr>response = \<lparr>http_complete = False, http_timedOut = False, http_tooLarge = False,
     http_status = 0, http_body = []\<rparr>, received = [], expectedTotal = -1, bodyStart = -1\<rparr>"

definition maximumHeaderBytes :: int where "maximumHeaderBytes = 32 * 1024"

definition ascii_space :: "qchar \<Rightarrow> bool" where
  "ascii_space c \<longleftrightarrow> c = 0x20 \<or> (0x09 \<le> c \<and> c \<le> 0x0D)"

definition trimmed :: "qstring \<Rightarrow> qstring" where
  "trimmed s = rev (dropWhile ascii_space (rev (dropWhile ascii_space s)))"

definition ascii_toLower :: "qstring \<Rightarrow> qstring" where
  "ascii_toLower s = map (\<lambda>c. if ascii_upper c then c + 0x20 else c) s"

definition statusPattern :: pattern where
  "statusPattern = Seq [Text ''HTTP/1.'', Chars [(0x30, 0x31)], Lit 0x20, Chars [(0x31, 0x35)],
     Chars [(0x30, 0x39)], Chars [(0x30, 0x39)], Lit 0x20,
     Some_of (Chars [(0, 0x09), (0x0B, 0xFFFF)]), Opt (Lit 0x0D)]"

text \<open>The header lines after the status line: the content length seen so far, \<open>None\<close> for a refusal.\<close>

fun header_lines :: "'a network_services \<Rightarrow> qstring list \<Rightarrow> int option \<Rightarrow> int option option" where
  "header_lines svc [] contentLength = Some contentLength"
| "header_lines svc (l # ls) contentLength =
     (let line = (if endsWith [0x0D] l then butlast l else l);
          colon = indexOf 0x3A line in
      if colon \<le> 0 then None
      else
        let name = ascii_toLower (trimmed (take (nat colon) line));
            val = trimmed (drop (nat (colon + 1)) line) in
        if name = qstr ''transfer-encoding'' then None
        else if name = qstr ''content-length'' then
          (case toLongLong svc val of
             None \<Rightarrow> None
           | Some parsed \<Rightarrow> if parsed < 0 \<or> contentLength \<noteq> None then None
               else header_lines svc ls (Some parsed))
        else header_lines svc ls contentLength)"

definition latin1 :: "bytes \<Rightarrow> qstring" where "latin1 bs = map ucast bs"

text \<open>\<open>finish_body\<close> is the tail of \<open>process\<close>; the Boolean is \<open>loop.quit()\<close>.\<close>

definition finish_body :: "exchange_state \<Rightarrow> exchange_state \<times> bool" where
  "finish_body s =
     (if 0 \<le> expectedTotal s \<and> expectedTotal s \<le> int (length (received s)) then
        (if int (length (received s)) \<noteq> expectedTotal s then (s, True)
         else (s\<lparr>response := (response s)\<lparr>
             http_body := take (nat (expectedTotal s - bodyStart s)) (drop (nat (bodyStart s)) (received s)),
             http_complete := True\<rparr>\<rparr>, True))
      else (s, False))"

definition too_large :: "exchange_state \<Rightarrow> exchange_state \<times> bool" where
  "too_large s = (s\<lparr>response := (response s)\<lparr>http_tooLarge := True\<rparr>\<rparr>, True)"

text \<open>The status line and the headers, when the header block is complete.\<close>

definition process_header :: "'a network_services \<Rightarrow> int \<Rightarrow> qstring list \<Rightarrow> exchange_state \<Rightarrow>
    exchange_state \<times> bool" where
  "process_header svc maximumBodyBytes lines s =
     (if \<not> anchored statusPattern (hd lines) then (s, True)
      else
        let s = s\<lparr>response := (response s)\<lparr>http_status := digits_value (mid 9 3 (hd lines))\<rparr>\<rparr> in
        (case header_lines svc (tl lines) None of
           None \<Rightarrow> (s, True)
         | Some None \<Rightarrow> (s, True)
         | Some (Some contentLength) \<Rightarrow>
             if maximumBodyBytes < contentLength then too_large s
             else finish_body (s\<lparr>expectedTotal := bodyStart s + contentLength\<rparr>)))"

definition process :: "'a network_services \<Rightarrow> int \<Rightarrow> bytes \<Rightarrow> exchange_state \<Rightarrow> exchange_state \<times> bool" where
  "process svc maximumBodyBytes chunk s =
     (let s = s\<lparr>received := received s @ chunk\<rparr>; size = int (length (received s)) in
      if maximumHeaderBytes + maximumBodyBytes < size then too_large s
      else if bodyStart s < 0 then
        (let separator = indexOf_infix [0x0D, 0x0A, 0x0D, 0x0A] (latin1 (received s)) in
         if separator < 0 then
           (if maximumHeaderBytes < size then too_large s else (s, False))
         else
           process_header svc maximumBodyBytes
             (split_at 0x0A (take (nat separator) (latin1 (received s)))) (s\<lparr>bodyStart := separator + 4\<rparr>))
      else finish_body s)"

text \<open>
  The event loop: it ends with \<open>loop.quit()\<close>, and the timer always fires at last.
\<close>

fun exchange_loop :: "'a network_services \<Rightarrow> int \<Rightarrow> exchange_event list \<Rightarrow> exchange_state \<Rightarrow> http_response" where
  "exchange_loop svc maximumBodyBytes [] s = (response s)\<lparr>http_timedOut := True\<rparr>"
| "exchange_loop svc maximumBodyBytes (ExchangeTimedOut # es) s = (response s)\<lparr>http_timedOut := True\<rparr>"
| "exchange_loop svc maximumBodyBytes (SocketError # es) s = response s"
| "exchange_loop svc maximumBodyBytes (ChunkReceived chunk # es) s =
     (let (s, quit) = process svc maximumBodyBytes chunk s in
      if quit then response s else exchange_loop svc maximumBodyBytes es s)"

definition exchangeHttp :: "'a network_services \<Rightarrow> bool \<Rightarrow> int \<Rightarrow> exchange_event list \<Rightarrow> http_response" where
  "exchangeHttp svc written maximumBodyBytes events =
     (if \<not> written then response new_exchange
      else exchange_loop svc maximumBodyBytes events new_exchange)"

section \<open>The service\<close>

definition hasDotSegment :: "qstring \<Rightarrow> bool" where
  "hasDotSegment path \<longleftrightarrow> list_ex isDotSegment (split_at 0x2F path)"

definition remaining :: "int \<Rightarrow> int \<Rightarrow> int" where
  "remaining elapsed timeout = max 0 (timeout - elapsed)"

definition request_bytes :: "'a network_services \<Rightarrow> network_url \<Rightarrow> network_scheme \<Rightarrow> qstring \<Rightarrow> int \<Rightarrow>
    http_method \<Rightarrow> bytes \<Rightarrow> bytes" where
  "request_bytes svc url scheme host port method body =
     (let target = toLatin1 svc (url_path url);
          target = (if target = [] then toLatin1 svc (qstr ''/'') else target);
          target = (if url_hasQuery url
            then target @ [0x3F] @ toLatin1 svc (encodedQuery url) else target);
          defaultPort = (scheme = Http \<and> port = 80) \<or> (scheme = Https \<and> port = 443);
          hostHeader = toLatin1 svc host
            @ (if defaultPort then [] else [0x3A] @ toLatin1 svc (decimal (nat port)))
      in toLatin1 svc (httpMethodName method) @ [0x20] @ target
         @ toLatin1 svc (qstr '' HTTP/1.1'') @ [0x0D, 0x0A] @ toLatin1 svc (qstr ''Host: '') @ hostHeader
         @ [0x0D, 0x0A] @ toLatin1 svc (qstr ''Connection: close'') @ [0x0D, 0x0A]
         @ toLatin1 svc (qstr ''Content-Type: application/json; charset=utf-8'') @ [0x0D, 0x0A]
         @ toLatin1 svc (qstr ''Content-Length: '') @ toLatin1 svc (decimal (length body))
         @ [0x0D, 0x0A, 0x0D, 0x0A] @ body)"

definition network_failed :: "string \<Rightarrow> string \<Rightarrow> 'a network_effect list \<Rightarrow>
    broker_result \<times> 'a network_effect list" where
  "network_failed code safeMessage effects = (broker_failure code safeMessage, effects)"

abbreviation host_denied :: "'a network_effect list \<Rightarrow> broker_result \<times> 'a network_effect list" where
  "host_denied \<equiv> network_failed ''network.host_denied'' ''Network destination is not permitted.''"
abbreviation invalid_request :: "'a network_effect list \<Rightarrow> broker_result \<times> 'a network_effect list" where
  "invalid_request \<equiv> network_failed ''network.invalid_request'' ''Network request is invalid.''"
abbreviation timed_out :: "'a network_effect list \<Rightarrow> broker_result \<times> 'a network_effect list" where
  "timed_out \<equiv> network_failed ''network.timeout'' ''Network request timed out.''"
abbreviation request_failed :: "'a network_effect list \<Rightarrow> broker_result \<times> 'a network_effect list" where
  "request_failed \<equiv> network_failed ''network.failed'' ''Network request failed.''"

text \<open>From the connection on: the destination has been checked.\<close>

definition perform_request :: "'a network_services \<Rightarrow> effective_network_policy \<Rightarrow> 'a network_environment \<Rightarrow>
    network_url \<Rightarrow> network_scheme \<Rightarrow> qstring \<Rightarrow> int \<Rightarrow> http_method \<Rightarrow> bytes \<Rightarrow> 'a network_effect list \<Rightarrow>
    broker_result \<times> 'a network_effect list" where
  "perform_request svc policy env url scheme host port method body effects =
     (let connectTimeout = remaining (elapsedAfterResolution env) (timeoutMs policy) in
      if connectTimeout \<le> 0 then timed_out effects
      else
        let effects = effects @ [ConnectTo (hd (resolved env)) port host (scheme = Https)] in
        if connect_result env \<noteq> Connected
          then (if connect_result env = ConnectTimedOut then timed_out effects else request_failed effects)
        else
          let exchangeTimeout = remaining (elapsedAfterConnect env) (timeoutMs policy) in
          if exchangeTimeout \<le> 0 then timed_out effects
          else
            let effects = effects @ [WriteRequest (request_bytes svc url scheme host port method body)];
                r = exchangeHttp svc (fullyWritten env)
                  (min (maximumResponseBytes policy) maximumIpcBinaryResultBytes) (exchange env) in
            if http_tooLarge r
              then network_failed ''network.response_too_large'' ''Network response is too large.'' effects
            else if http_timedOut r then timed_out effects
            else if \<not> http_complete r then request_failed effects
            else (broker_success (json_object_of [(''status'', json_number_of_int (http_status r)),
                    (''bodyBase64'', JString (latin1 (toBase64 svc (http_body r))))]), effects))"

text \<open>From the choice of the rule on: the request is well formed.\<close>

definition routed_request :: "'a network_services \<Rightarrow> effective_network_policy \<Rightarrow> 'a network_environment \<Rightarrow>
    network_url \<Rightarrow> network_scheme \<Rightarrow> qstring \<Rightarrow> int \<Rightarrow> http_method \<Rightarrow> qstring \<Rightarrow> bytes \<Rightarrow>
    broker_result \<times> 'a network_effect list" where
  "routed_request svc policy env url scheme host port method path body =
     (case find (\<lambda>rule. rule_permits rule scheme host port method path) (network_rules policy) of
        None \<Rightarrow> host_denied []
      | Some allowedRule \<Rightarrow>
          let effects = [Resolve host] in
          if resolutionTimedOut env then timed_out effects
          else if resolved env = [] then request_failed effects
          else if list_ex (\<lambda>address.
              (case classifyNetworkAddress (net_addresses svc) address of
                 None \<Rightarrow> True | Some c \<Rightarrow> c \<notin> addressClasses allowedRule)) (resolved env)
            then host_denied effects
          else perform_request svc policy env url scheme host port method body effects)"

definition network_invoke :: "'a network_services \<Rightarrow> effective_network_policy \<Rightarrow> 'a network_environment \<Rightarrow>
    qstring \<Rightarrow> json_object \<Rightarrow> broker_result \<times> 'a network_effect list" where
  "network_invoke svc policy env operation payload =
     (if operation \<noteq> qstr ''request'' \<or> \<not> hasExactKeys payload [''method'', ''url'', ''bodyBase64'']
         \<or> \<not> isString (json_member payload ''method'') \<or> \<not> isString (json_member payload ''url'')
         \<or> \<not> isString (json_member payload ''bodyBase64'')
        then invalid_request []
      else
        let method = parseHttpMethod (toString (json_member payload ''method''));
            url = net_url svc (toString (json_member payload ''url''));
            decodedBody = fromBase64 svc (toLatin1 svc (toString (json_member payload ''bodyBase64''))) in
        if method = None \<or> \<not> url_valid url \<or> isRelative url
           \<or> (url_scheme url \<noteq> qstr ''http'' \<and> url_scheme url \<noteq> qstr ''https'')
           \<or> url_userInfo url \<noteq> [] \<or> url_hasFragment url \<or> decodedBody = None
          then invalid_request []
        else if maximumRequestBytes policy < int (length (the decodedBody))
          then network_failed ''network.payload_too_large'' ''Network request is too large.'' []
        else
          let path = (if decodedPath url = [] then qstr ''/'' else decodedPath url) in
          (case canonicalNetworkHost (net_names svc) (decodedHost url) of
             None \<Rightarrow> invalid_request []
           | Some host \<Rightarrow>
               let port = (if url_port url = -1 then (if url_scheme url = qstr ''https'' then 443 else 80)
                     else url_port url);
                   scheme = (if url_scheme url = qstr ''https'' then Https else Http) in
               if \<not> startsWith (qstr ''/'') path \<or> hasDotSegment path \<or> port \<le> 0 \<or> 65535 < port
                 then host_denied []
               else routed_request svc policy env url scheme host port (the method) path (the decodedBody)))"

end
