(* ===== verification/NetworkProofs.thy ===== *)
theory NetworkProofs
  imports Network
begin

text \<open>
  What the network service can reach, and how large an answer can be.
\<close>

section \<open>Status lines\<close>

lemma in_ranges_Cons [simp]: "in_ranges [] c = False" "in_ranges ((a, b) # cs) c \<longleftrightarrow> (a \<le> c \<and> c \<le> b) \<or> in_ranges cs c"
  by (simp_all add: in_ranges_def)

lemma generates_status:
  "generates statusPattern s \<Longrightarrow> \<exists>v a b d rest. s = map of_char ''HTTP/1.'' @ v # 0x20 # a # b # d # rest
     \<and> 0x31 \<le> a \<and> a \<le> 0x35 \<and> 0x30 \<le> b \<and> b \<le> 0x39 \<and> 0x30 \<le> d \<and> d \<le> 0x39"
  by (auto simp: statusPattern_def Text_def generates_then)

lemma digit_value:
  fixes c :: qchar
  assumes "a \<le> c" "c \<le> b"
  shows "uint a \<le> uint c" "uint c \<le> uint b"
  using assms by (simp_all add: word_le_def)

lemma status_range:
  assumes "anchored statusPattern line"
  shows "100 \<le> digits_value (mid 9 3 line) \<and> digits_value (mid 9 3 line) \<le> 599"
proof -
  have range: "100 \<le> digits_value (mid 9 3 (s @ t)) \<and> digits_value (mid 9 3 (s @ t)) \<le> 599"
    if g: "generates statusPattern s" for s t
  proof -
    from generates_status [OF g] obtain v a b d rest where
      s: "s = map of_char ''HTTP/1.'' @ v # 0x20 # a # b # d # rest" and
      digits: "0x31 \<le> a" "a \<le> 0x35" "0x30 \<le> b" "b \<le> 0x39" "0x30 \<le> d" "d \<le> 0x39" by blast
    have "mid 9 3 (s @ t) = [a, b, d]" by (simp add: s mid_def)
    then have "digits_value (mid 9 3 (s @ t)) = 100 * (uint a - 48) + 10 * (uint b - 48) + (uint d - 48)"
      by (simp add: digits_value_def)
    moreover have bounds: "49 \<le> uint a" "uint a \<le> 53" "48 \<le> uint b" "uint b \<le> 57" "48 \<le> uint d" "uint d \<le> 57"
      using digit_value [OF digits(1) digits(2)] digit_value [OF digits(3) digits(4)] digit_value [OF digits(5) digits(6)]
      by simp_all
    ultimately show ?thesis using bounds by auto
  qed
  from assms consider "generates statusPattern line" | t where "line = t @ [0x0A]" "generates statusPattern t"
    unfolding anchored_iff by blast
  then show ?thesis
  proof cases
    case 1
    from range [OF this, of "[]"] show ?thesis by simp
  next
    case (2 t)
    from range [OF 2(2), of "[0x0A]"] 2(1) show ?thesis by simp
  qed
qed

section \<open>The exchange\<close>

definition exchange_inv :: "int \<Rightarrow> exchange_state \<Rightarrow> bool" where
  "exchange_inv maximum s \<longleftrightarrow> \<not> http_complete (response s)
     \<and> (if bodyStart s < 0 then expectedTotal s = -1
        else 100 \<le> http_status (response s) \<and> http_status (response s) \<le> 599
          \<and> bodyStart s \<le> expectedTotal s \<and> expectedTotal s \<le> bodyStart s + maximum)"

definition sound_response :: "int \<Rightarrow> http_response \<Rightarrow> bool" where
  "sound_response maximum r \<longleftrightarrow> (if http_complete r
     then int (length (http_body r)) \<le> maximum \<and> 100 \<le> http_status r \<and> http_status r \<le> 599 else True)"

lemma sound_incomplete: "\<not> http_complete r \<Longrightarrow> sound_response maximum r"
  by (simp add: sound_response_def)

lemma header_lines_nonneg:
  "header_lines svc ls n = Some (Some k) \<Longrightarrow> (n = None \<or> 0 \<le> the n) \<Longrightarrow> 0 \<le> k"
  by (induction svc ls n rule: header_lines.induct) (auto simp: Let_def split: if_splits option.splits)

lemma finish_body_inv:
  assumes "exchange_inv maximum s" and "finish_body s = (s', quit)"
  shows "if quit then sound_response maximum (response s') else exchange_inv maximum s'"
  using assms by (auto simp: finish_body_def exchange_inv_def sound_response_def split: if_splits)

lemma indexOf_infix_bounds: "-1 \<le> indexOf_infix p s"
proof (induction s)
  case (Cons c cs)
  then show ?case by (simp add: Let_def)
qed simp

lemma too_large_sound: "\<not> http_complete (response s) \<Longrightarrow> too_large s = (s', quit) \<Longrightarrow>
    quit \<and> sound_response maximum (response s')"
  by (auto simp: too_large_def sound_response_def)

lemma process_header_inv:
  assumes "\<not> http_complete (response s)" "0 \<le> bodyStart s"
    and "process_header svc maximum lines s = (s', quit)"
  shows "if quit then sound_response maximum (response s') else exchange_inv maximum s'"
proof (cases "anchored statusPattern (hd lines)")
  case False
  with assms show ?thesis by (auto simp: process_header_def sound_response_def)
next
  case True
  define s2 where "s2 = s\<lparr>response := (response s)\<lparr>http_status := digits_value (mid 9 3 (hd lines))\<rparr>\<rparr>"
  have s2: "\<not> http_complete (response s2)" "0 \<le> bodyStart s2"
    "100 \<le> http_status (response s2)" "http_status (response s2) \<le> 599"
    using assms(1,2) status_range [OF True] by (simp_all add: s2_def)
  have res: "(case header_lines svc (tl lines) None of
        None \<Rightarrow> (s2, True) | Some None \<Rightarrow> (s2, True)
      | Some (Some n) \<Rightarrow> if maximum < n then too_large s2
          else finish_body (s2\<lparr>expectedTotal := bodyStart s2 + n\<rparr>)) = (s', quit)"
    using assms(3) True unfolding process_header_def s2_def [symmetric] Let_def by simp
  consider "header_lines svc (tl lines) None = None" | "header_lines svc (tl lines) None = Some None"
    | n where "header_lines svc (tl lines) None = Some (Some n)" by (metis not_None_eq)
  then show ?thesis
  proof cases
    case (3 n)
    then have "0 \<le> n" using header_lines_nonneg by fastforce
    show ?thesis
    proof (cases "maximum < n")
      case True
      with 3 res too_large_sound [OF s2(1), of s' quit maximum] show ?thesis by simp
    next
      case False
      with s2 \<open>0 \<le> n\<close> have "exchange_inv maximum (s2\<lparr>expectedTotal := bodyStart s2 + n\<rparr>)"
        by (simp add: exchange_inv_def)
      moreover have "finish_body (s2\<lparr>expectedTotal := bodyStart s2 + n\<rparr>) = (s', quit)"
        using 3 res False by simp
      ultimately show ?thesis by (rule finish_body_inv)
    qed
  qed (use res s2(1) in \<open>auto simp: sound_response_def\<close>)
qed

lemma process_inv:
  assumes inv: "exchange_inv maximum s" and res: "process svc maximum chunk s = (s', quit)"
  shows "if quit then sound_response maximum (response s') else exchange_inv maximum s'"
proof -
  define s1 where "s1 = s\<lparr>received := received s @ chunk\<rparr>"
  have inv1: "exchange_inv maximum s1" using inv by (simp add: exchange_inv_def s1_def)
  then have incomplete: "\<not> http_complete (response s1)" by (simp add: exchange_inv_def)
  let ?sep = "indexOf_infix [0x0D, 0x0A, 0x0D, 0x0A] (latin1 (received s1))"
  consider "too_large s1 = (s', quit)" | "(s1, False) = (s', quit)" | "finish_body s1 = (s', quit)"
    | "0 \<le> ?sep" "process_header svc maximum (split_at 0x0A (take (nat ?sep) (latin1 (received s1))))
        (s1\<lparr>bodyStart := ?sep + 4\<rparr>) = (s', quit)"
    using res unfolding process_def Let_def s1_def [symmetric] by (auto split: if_splits)
  then show ?thesis
  proof cases
    case 1
    with too_large_sound [OF incomplete 1] show ?thesis by simp
  next
    case 2
    with inv1 show ?thesis by simp
  next
    case 3
    with inv1 show ?thesis by (rule finish_body_inv)
  next
    case 4
    show ?thesis by (rule process_header_inv [OF _ _ 4(2)]) (use incomplete 4(1) in simp_all)
  qed
qed

lemma exchange_loop_sound:
  "exchange_inv maximum s \<Longrightarrow> sound_response maximum (exchange_loop svc maximum es s)"
proof (induction svc maximum es s rule: exchange_loop.induct)
  case (4 svc maximum chunk es s)
  obtain s' quit where p: "process svc maximum chunk s = (s', quit)" by fastforce
  from process_inv [OF "4.prems" p] "4.IH" [OF p [symmetric] refl] show ?case
    by (simp add: p split: if_splits)
qed (auto simp: exchange_inv_def sound_response_def)

text \<open>
  Whatever a server sends in whatever chunks, an exchange that completes hands out a body of at most
  the limit it was given and a status between 100 and 599.
\<close>
theorem exchange_bounded:
  assumes "http_complete (exchangeHttp svc written maximum es)"
  shows "int (length (http_body (exchangeHttp svc written maximum es))) \<le> maximum
    \<and> 100 \<le> http_status (exchangeHttp svc written maximum es)
    \<and> http_status (exchangeHttp svc written maximum es) \<le> 599"
proof -
  have "exchange_inv maximum new_exchange" by (simp add: exchange_inv_def new_exchange_def)
  from exchange_loop_sound [OF this, of svc es] assms show ?thesis
    by (auto simp: exchangeHttp_def sound_response_def new_exchange_def split: if_splits)
qed

definition sample_network_services :: "unit network_services" where
  "sample_network_services = \<lparr>net_url = \<lambda>u. \<lparr>url_valid = True, url_scheme = qstr ''http'', url_host = [], url_userInfo = [],
      url_port = 8080, url_hasFragment = False, url_hasQuery = False, url_path = [], url_encoded = [],
      isRelative = False, decodedPath = [], decodedHost = qstr ''127.0.0.1'', encodedQuery = []\<rparr>,
    fromBase64 = Some, toBase64 = id, toLatin1 = map ucast,
    toLongLong = \<lambda>s. if s \<noteq> [] \<and> list_all digit_char s then Some (digits_value s) else None,
    net_names = sample_names,
    net_addresses = \<lparr>isNull = \<lambda>a. False, isMulticast = \<lambda>a. False, toIPv4Address = \<lambda>a. None, fromIPv4 = \<lambda>w. (),
      isLoopback = \<lambda>a. True, isLinkLocal = \<lambda>a. False, isInSubnet = \<lambda>a n p. False, isIPv6Protocol = \<lambda>a. True\<rparr>\<rparr>"

definition sample_reply :: bytes where
  "sample_reply = map of_char ''HTTP/1.1 204 N'' @ [0x0D, 0x0A] @ map of_char ''Content-Length:0''
     @ [0x0D, 0x0A, 0x0D, 0x0A]"

section \<open>Reachable destinations\<close>

lemma find_permits:
  "find (\<lambda>rule. rule_permits rule scheme host port m path) rules = Some rule \<Longrightarrow>
    rule \<in> set rules \<and> rule_permits rule scheme host port m path"
  by (auto simp: find_Some_iff)

definition effects_within :: "(qstring \<Rightarrow> bool) \<Rightarrow> ('a \<Rightarrow> int \<Rightarrow> qstring \<Rightarrow> bool \<Rightarrow> bool) \<Rightarrow> 'a network_effect list \<Rightarrow> bool" where
  "effects_within lookup reach effects \<longleftrightarrow>
     (case effects of
        [] \<Rightarrow> True
      | Resolve h # rest \<Rightarrow> lookup h \<and>
          (case rest of
             [] \<Rightarrow> True
           | ConnectTo a port h' encrypted # rest' \<Rightarrow> h' = h \<and> reach a port h encrypted
               \<and> (case rest' of [] \<Rightarrow> True | [WriteRequest b] \<Rightarrow> True | _ \<Rightarrow> False)
           | _ \<Rightarrow> False)
      | _ \<Rightarrow> False)"

lemma perform_effects:
  assumes "perform_request svc policy env url scheme h port m body [Resolve h] = (result, effects)"
    and "lookup h" and "reach (hd (resolved env)) port h (scheme = Https)"
  shows "effects_within lookup reach effects"
  using assms
  by (auto simp: perform_request_def Let_def network_failed_def effects_within_def split: if_splits)

lemma not_denied: "(\<not> (case x of None \<Rightarrow> True | Some c \<Rightarrow> c \<notin> S)) = (case x of None \<Rightarrow> False | Some c \<Rightarrow> c \<in> S)"
  by (cases x) simp_all

lemma invoke_effects:
  assumes res: "network_invoke svc policy env operation payload = (result, effects)"
    and rules: "\<And>h port m path c scheme. network_permits (Some policy) scheme h port m path c \<Longrightarrow>
      lookup h \<and> reachable c port h scheme"
    and classes: "\<And>rule. rule \<in> set (network_rules policy) \<Longrightarrow> addressClasses rule \<noteq> {}"
  shows "effects_within lookup (\<lambda>a port h encrypted.
    (case classifyNetworkAddress (net_addresses svc) a of None \<Rightarrow> False
     | Some c \<Rightarrow> reachable c port h (if encrypted then Https else Http))) effects"
proof (cases "effects = []")
  case True
  then show ?thesis by (simp add: effects_within_def)
next
  case ne: False
  from res ne obtain h scheme port m path url body where
    routed: "routed_request svc policy env url scheme h port m path body = (result, effects)"
    by (auto simp: network_invoke_def Let_def network_failed_def split: if_splits option.splits)
  with ne obtain rule where
    found: "find (\<lambda>rule. rule_permits rule scheme h port m path) (network_rules policy) = Some rule"
    by (cases "find (\<lambda>rule. rule_permits rule scheme h port m path) (network_rules policy)")
      (auto simp: routed_request_def network_failed_def)
  with routed have cases: "effects = [Resolve h] \<or>
      (resolved env \<noteq> [] \<and> list_all (\<lambda>a. case classifyNetworkAddress (net_addresses svc) a of
          None \<Rightarrow> False | Some c \<Rightarrow> c \<in> addressClasses rule) (resolved env)
       \<and> perform_request svc policy env url scheme h port m body [Resolve h] = (result, effects))"
    by (auto simp: routed_request_def Let_def network_failed_def list_ex_iff list_all_iff not_denied
        split: if_splits)
  from find_permits [OF found] have rule: "rule \<in> set (network_rules policy)" "rule_permits rule scheme h port m path" by auto
  have permits: "network_permits (Some policy) scheme h port m path c" if "c \<in> addressClasses rule" for c
    using rule that by (auto simp: network_permits_def list_ex_iff)
  obtain c where "c \<in> addressClasses rule" using classes [OF rule(1)] by blast
  from rules [OF permits [OF this]] have lookup: "lookup h" by blast
  from cases show ?thesis
  proof (elim disjE conjE)
    assume "effects = [Resolve h]"
    with lookup show ?thesis by (simp add: effects_within_def)
  next
    assume "resolved env \<noteq> []" and all: "list_all (\<lambda>a. case classifyNetworkAddress (net_addresses svc) a of
          None \<Rightarrow> False | Some c \<Rightarrow> c \<in> addressClasses rule) (resolved env)"
      and p: "perform_request svc policy env url scheme h port m body [Resolve h] = (result, effects)"
    then obtain c where c: "classifyNetworkAddress (net_addresses svc) (hd (resolved env)) = Some c" "c \<in> addressClasses rule"
      by (cases "resolved env") (auto split: option.splits)
    from rules [OF permits [OF c(2)]] c(1)
    show ?thesis by (intro perform_effects [OF p] lookup) (cases scheme; simp)
  qed
qed

lemma validated_classes:
  "validated_rules svc rules keys = Some rs \<Longrightarrow> r \<in> set rs \<Longrightarrow> addressClasses r \<noteq> {}"
proof (induction rules arbitrary: keys rs)
  case (Cons rule rules)
  then show ?case by (auto simp: Let_def split: option.splits if_splits)
qed simp

lemma effective_classes:
  assumes "intersect_network svc permission host = Some policy" and "r \<in> set (network_rules policy)"
  shows "addressClasses r \<noteq> {}"
  using assms
  by (auto simp: intersect_network_def Let_def intersect_rules_iff validatedNetwork_def
      split: if_splits option.splits) (use validated_classes in blast)


theorem exchange_bounded_witness:
  "http_complete (exchangeHttp sample_network_services True 10 [ChunkReceived sample_reply])
   \<and> http_status (exchangeHttp sample_network_services True 10 [ChunkReceived sample_reply]) \<le> 599"
proof -
  have "http_complete (exchangeHttp sample_network_services True 10 [ChunkReceived sample_reply])"
    by (simp add: exchangeHttp_def process_def new_exchange_def sample_reply_def maximumHeaderBytes_def
        process_header_def anchored_def statusPattern_def Text_def finish_body_def latin1_def startsWith_def
        sample_network_services_def trimmed_def ascii_toLower_def ascii_upper_def ascii_space_def
        indexOf_from_def upt_rec qstr_def digit_char_def digits_value_def in_ranges_def endsWith_def Let_def)
  with exchange_bounded [OF this] show ?thesis by simp
qed

definition loopback_rule :: network_allow_rule where
  "loopback_rule = \<lparr>rule_scheme = Http, rule_host = qstr ''127.0.0.1'', rule_port = 8080, pathPrefix = qstr ''/'',
     rule_methods = {Get}, addressClasses = {Loopback}\<rparr>"

definition loopback_policy :: host_network_policy where
  "loopback_policy = \<lparr>network_rules = [loopback_rule], maximumRequestBytes = 10, maximumResponseBytes = 10,
     timeoutMs = 100\<rparr>"

definition loopback_manifest :: manifest_permissions where
  "loopback_manifest = sample_manifest\<lparr>perm_network :=
     \<lparr>hosts = [qstr ''127.0.0.1''], methods = [qstr ''GET'']\<rparr>\<rparr>"

definition loopback_host :: host_policy where
  "loopback_host = sample_host\<lparr>host_network := Some loopback_policy\<rparr>"

lemma loopback_name: "canonicalNetworkHost names (qstr ''127.0.0.1'') = Some (qstr ''127.0.0.1'')"
  by (simp add: canonicalNetworkHost_def isCanonicalIpv4_def canonical_octet_def digits_toInt_def
      digits_value_def digit_char_def qstr_def Let_def endsWith_def startsWith_def)

lemma loopback_effective:
  "eff_network (intersect names loopback_manifest loopback_host) = Some loopback_policy"
  using loopback_name [of names]
  by (simp add: intersect_def intersect_network_def loopback_manifest_def sample_manifest_def loopback_host_def
      sample_host_def loopback_policy_def loopback_rule_def validatedNetwork_def maximumBrokerBytes_def
      declared_methods_def map_filter_simps parseHttpMethod_def Let_def validPathPrefix_def)
    (simp add: qstr_def startsWith_def isDotSegment_def)

definition loopback_environment :: "unit network_environment" where
  "loopback_environment = \<lparr>resolved = [()], resolutionTimedOut = False, elapsedAfterResolution = 1,
     connect_result = ConnectFailed, elapsedAfterConnect = 2, fullyWritten = True, exchange = []\<rparr>"

definition loopback_payload :: json_object where
  "loopback_payload = json_object_of [(''method'', JString (qstr ''GET'')), (''url'', JString []),
     (''bodyBase64'', JString [])]"


end
