(* ===== verification/Telemetry.thy ===== *)
theory Telemetry
  imports Patterns Complex_Main "HOL-Library.List_Lexorder"
begin

text \<open>
  Telemetry: the construction and the text of an event (\<open>runtime/telemetry/SafeEvent.{h,cpp}\<close>) and the
  recorder that queues event lines and appends them to a rotated file (\<open>EventRecorder.{h,cpp}\<close>).

  Unicode normalisation, UTF-8 encoding and the text of a nonzero double are parameters; a double is
  a rational, or \<open>None\<close> for an infinity or a NaN.  The recorder's files are numbered (0 is the active
  file); whether an operation on them succeeds, and how much of a failing write reaches the file, is
  an input of the step.  The mutex makes \<open>record\<close> and the two locked sections of the worker thread
  atomic; the write between them is a step of its own.
\<close>

section \<open>Events\<close>

datatype safe_event_phase = Install | Activate | Worker_phase | Health | Rollback | Startup

datatype safe_event_code = Started | Completed | Rejected | Failed | Restarted | Healthy | Recovered

datatype safe_metric = HeartbeatCount | RestartCount | AttemptNumber | QueueDepth | PackageBytes

type_synonym safe_metrics = "(safe_metric \<times> rat option) list"

record safe_event =
  timestamp :: int
  event_appId :: qstring
  packageVersion :: qstring
  event_phase :: safe_event_phase
  event_code :: safe_event_code
  durationMs :: int
  routeTemplate :: qstring
  metrics :: safe_metrics

record telemetry_services =
  toNfc :: "qstring \<Rightarrow> qstring"
  toUtf8 :: "qstring \<Rightarrow> bytes"
  number_g17 :: "rat \<Rightarrow> bytes"

definition MaximumDurationMs :: int where "MaximumDurationMs = 7 * 24 * 60 * 60 * 1000"
definition MaximumMetricMagnitude :: rat where "MaximumMetricMagnitude = 1000000000000"
definition MaximumMetrics :: nat where "MaximumMetrics = 8"

fun phaseName :: "safe_event_phase \<Rightarrow> qstring" where
  "phaseName Install = qstr ''install''"
| "phaseName Activate = qstr ''activate''"
| "phaseName Worker_phase = qstr ''worker''"
| "phaseName Health = qstr ''health''"
| "phaseName Rollback = qstr ''rollback''"
| "phaseName Startup = qstr ''startup''"

fun codeName :: "safe_event_code \<Rightarrow> qstring" where
  "codeName Started = qstr ''started''"
| "codeName Completed = qstr ''completed''"
| "codeName Rejected = qstr ''rejected''"
| "codeName Failed = qstr ''failed''"
| "codeName Restarted = qstr ''restarted''"
| "codeName Healthy = qstr ''healthy''"
| "codeName Recovered = qstr ''recovered''"

fun metricName :: "safe_metric \<Rightarrow> qstring" where
  "metricName HeartbeatCount = qstr ''heartbeatCount''"
| "metricName RestartCount = qstr ''restartCount''"
| "metricName AttemptNumber = qstr ''attemptNumber''"
| "metricName QueueDepth = qstr ''queueDepth''"
| "metricName PackageBytes = qstr ''packageBytes''"

definition validAppId :: "telemetry_services \<Rightarrow> qstring \<Rightarrow> bool" where
  "validAppId svc v \<longleftrightarrow>
     (if 253 < length v \<or> toNfc svc v \<noteq> v \<or> \<not> anchored appId_pattern v then False
      else list_all (\<lambda>label. length label \<le> 63) (split_at 0x2E v))"

definition validVersion :: "telemetry_services \<Rightarrow> qstring \<Rightarrow> bool" where
  "validVersion svc v \<longleftrightarrow> length v \<le> 128 \<and> toNfc svc v = v \<and> anchored version_pattern v"

definition literal_pattern :: pattern where
  "literal_pattern = Then (Chars [lower]) (Many (Chars [lower, digit, hyphen]))"

definition parameter_pattern :: pattern where
  "parameter_pattern = Then (Lit 0x3A) (Then (Chars [lower]) (Many (Chars [lower, digit])))"

definition validRouteTemplate :: "telemetry_services \<Rightarrow> qstring \<Rightarrow> bool" where
  "validRouteTemplate svc v \<longleftrightarrow>
     (if v = [] \<or> 256 < length v \<or> \<not> startsWith (qstr ''/'') v \<or> 0x3F \<in> set v \<or> 0x23 \<in> set v \<or> 0x5C \<in> set v
         \<or> has_infix (qstr ''//'') v \<or> toNfc svc v \<noteq> v then False
      else if v = qstr ''/'' then True
      else list_all (\<lambda>segment. anchored literal_pattern segment \<or> anchored parameter_pattern segment)
        (split_at 0x2F (drop 1 v)))"

fun metrics_valid :: "safe_metrics \<Rightarrow> safe_metric list \<Rightarrow> bool" where
  "metrics_valid [] seen = True"
| "metrics_valid ((key, v) # ms) seen =
     (if metricName key = [] \<or> key \<in> set seen then False
      else (case v of None \<Rightarrow> False
        | Some x \<Rightarrow> (if x < 0 \<or> MaximumMetricMagnitude < \<bar>x\<bar> then False
            else metrics_valid ms (key # seen))))"

definition create_event :: "telemetry_services \<Rightarrow> int \<Rightarrow> qstring \<Rightarrow> qstring \<Rightarrow> safe_event_phase \<Rightarrow>
    safe_event_code \<Rightarrow> int \<Rightarrow> qstring \<Rightarrow> safe_metrics \<Rightarrow> string + safe_event" where
  "create_event svc time appId version phase code duration route ms =
     (if time < 0 then Inl ''telemetry.invalid_timestamp''
      else if \<not> validAppId svc appId then Inl ''telemetry.invalid_app_id''
      else if \<not> validVersion svc version then Inl ''telemetry.invalid_package_version''
      else if phaseName phase = [] then Inl ''telemetry.invalid_phase''
      else if codeName code = [] then Inl ''telemetry.invalid_code''
      else if duration < 0 \<or> MaximumDurationMs < duration then Inl ''telemetry.invalid_duration''
      else if \<not> validRouteTemplate svc route then Inl ''telemetry.invalid_route_template''
      else if MaximumMetrics < length ms then Inl ''telemetry.too_many_metrics''
      else if \<not> metrics_valid ms [] then Inl ''telemetry.invalid_metric''
      else Inr \<lparr>timestamp = time, event_appId = appId, packageVersion = version, event_phase = phase,
             event_code = code, durationMs = duration, routeTemplate = route,
             metrics = sort_key (\<lambda>m. metricName (fst m)) ms\<rparr>)"


definition quotedAscii :: "telemetry_services \<Rightarrow> qstring \<Rightarrow> bytes" where
  "quotedAscii svc v = [0x22] @ toUtf8 svc v @ [0x22]"

definition metric_number :: "telemetry_services \<Rightarrow> rat option \<Rightarrow> bytes" where
  "metric_number svc v =
     (case v of None \<Rightarrow> [] | Some x \<Rightarrow> if x = 0 then ascii_bytes ''0'' else number_g17 svc x)"

text \<open>\<open>QByteArray::number\<close> of a nonnegative integer: its decimal digits.\<close>

definition number_bytes :: "int \<Rightarrow> bytes" where
  "number_bytes n = map ucast (decimal (nat n))"

fun metrics_json :: "telemetry_services \<Rightarrow> bool \<Rightarrow> safe_metrics \<Rightarrow> bytes" where
  "metrics_json svc first [] = []"
| "metrics_json svc first ((key, v) # ms) =
     (if first then [] else [0x2C]) @ quotedAscii svc (metricName key) @ [0x3A] @ metric_number svc v
     @ metrics_json svc False ms"

abbreviation key_json :: "string \<Rightarrow> bytes" where
  "key_json k \<equiv> [0x22] @ ascii_bytes k @ [0x22, 0x3A]"

definition event_toJson :: "telemetry_services \<Rightarrow> safe_event \<Rightarrow> bytes" where
  "event_toJson svc e =
     [0x7B] @ key_json ''timestamp'' @ number_bytes (timestamp e)
     @ [0x2C] @ key_json ''appId'' @ quotedAscii svc (event_appId e)
     @ [0x2C] @ key_json ''packageVersion'' @ quotedAscii svc (packageVersion e)
     @ [0x2C] @ key_json ''phase'' @ quotedAscii svc (phaseName (event_phase e))
     @ [0x2C] @ key_json ''code'' @ quotedAscii svc (codeName (event_code e))
     @ [0x2C] @ key_json ''durationMs'' @ number_bytes (durationMs e)
     @ [0x2C] @ key_json ''routeTemplate'' @ quotedAscii svc (routeTemplate e)
     @ [0x2C] @ key_json ''metrics'' @ [0x7B] @ metrics_json svc True (metrics e) @ [0x7D, 0x7D]"

section \<open>The recorder\<close>

record recorder_config =
  config_fileName :: qstring
  maximumFileBytes :: int
  maximumArchivedFiles :: int
  maximumQueuedEvents :: int

datatype record_status = Accepted | QueueFull | RecorderFailed | Stopped

datatype recorder_error = NoRecorderError | InvalidConfiguration | OpenFailed | WriteFailed | RotationFailed

type_synonym recorder_files = "nat \<Rightarrow> bytes option"

record recorder =
  recorder_cfg :: recorder_config
  queue :: "bytes list"
  recorder_err :: recorder_error
  stopping :: bool
  writing :: "bytes option"
  files :: recorder_files

text \<open>The outcomes of the file operations of one write.\<close>

record file_outcomes =
  directoryOk :: bool
  removeOk :: bool
  renameOk :: "nat \<Rightarrow> bool"
  openOk :: bool
  bytesWritten :: nat
  flushOk :: bool

fun errorCode :: "recorder_error \<Rightarrow> string" where
  "errorCode NoRecorderError = ''''"
| "errorCode InvalidConfiguration = ''telemetry.invalid_recorder_configuration''"
| "errorCode OpenFailed = ''telemetry.file_open_failed''"
| "errorCode WriteFailed = ''telemetry.file_write_failed''"
| "errorCode RotationFailed = ''telemetry.file_rotation_failed''"

definition fileName_pattern :: pattern where
  "fileName_pattern = Then (Chars [upper, lower, digit])
     (UpTo 63 (Chars [upper, lower, digit, (0x2E, 0x2E), (0x5F, 0x5F), hyphen]))"

definition validConfig :: "bool \<Rightarrow> recorder_config \<Rightarrow> bool" where
  "validConfig isDirectory c \<longleftrightarrow> isDirectory \<and> anchored fileName_pattern (config_fileName c)
     \<and> 256 \<le> maximumFileBytes c \<and> maximumFileBytes c \<le> 16 * 1024 * 1024
     \<and> 0 \<le> maximumArchivedFiles c \<and> maximumArchivedFiles c \<le> 10
     \<and> 0 < maximumQueuedEvents c \<and> maximumQueuedEvents c \<le> 4096"

text \<open>
  The constructor, over the files it finds; \<open>plainFiles\<close> says which of the numbered paths are plain
  files (\<open>isFile\<close> and no symbolic link).
\<close>

definition new_recorder :: "bool \<Rightarrow> recorder_config \<Rightarrow> (nat \<Rightarrow> bool) \<Rightarrow> recorder_files \<Rightarrow> recorder" where
  "new_recorder isDirectory c plainFiles fs =
     (let r = \<lparr>recorder_cfg = c, queue = [], recorder_err = NoRecorderError, stopping = False,
               writing = None, files = fs\<rparr> in
      if \<not> validConfig isDirectory c then r\<lparr>recorder_err := InvalidConfiguration\<rparr>
      else if list_ex (\<lambda>i. case fs i of None \<Rightarrow> False
              | Some content \<Rightarrow> \<not> plainFiles i \<or> maximumFileBytes c < int (length content))
              [0 ..< nat (maximumArchivedFiles c + 1)]
        then r\<lparr>recorder_err := InvalidConfiguration\<rparr>
      else r)"

text \<open>Renames \<open>source\<close> to the next number, for \<open>source\<close> from the given number down to 1.\<close>

fun shift_files :: "file_outcomes \<Rightarrow> nat \<Rightarrow> recorder_files \<Rightarrow> recorder_files \<times> bool" where
  "shift_files io 0 fs = (fs, True)"
| "shift_files io (Suc n) fs =
     (if fs (Suc n) = None then shift_files io n fs
      else if \<not> renameOk io (Suc n) then (fs, False)
      else shift_files io n (fs(Suc (Suc n) := fs (Suc n), Suc n := None)))"

definition rotate_files :: "file_outcomes \<Rightarrow> recorder_config \<Rightarrow> recorder_files \<Rightarrow> recorder_files \<times> bool" where
  "rotate_files io c fs =
     (let n = nat (maximumArchivedFiles c) in
      if n = 0 then (if fs 0 = None then (fs, True) else if removeOk io then (fs(0 := None), True) else (fs, False))
      else if fs n \<noteq> None \<and> \<not> removeOk io then (fs, False)
      else
        let (fs, ok) = shift_files io (n - 1) (fs(n := None)) in
        if \<not> ok then (fs, False)
        else if fs 0 = None then (fs, True)
        else if renameOk io 0 then (fs(1 := fs 0, 0 := None), True)
        else (fs, False))"

definition write_line :: "file_outcomes \<Rightarrow> recorder_config \<Rightarrow> bytes \<Rightarrow> recorder_files \<Rightarrow>
    recorder_files \<times> recorder_error" where
  "write_line io c line fs =
     (if \<not> directoryOk io then (fs, OpenFailed)
      else if maximumFileBytes c < int (length line) then (fs, WriteFailed)
      else
        let (fs, rotated) = (case fs 0 of
              None \<Rightarrow> (fs, True)
            | Some content \<Rightarrow>
                if maximumFileBytes c < int (length content) + int (length line)
                then rotate_files io c fs else (fs, True)) in
        if \<not> rotated then (fs, RotationFailed)
        else if \<not> openOk io then (fs, OpenFailed)
        else
          let content = (case fs 0 of None \<Rightarrow> [] | Some content \<Rightarrow> content);
              fs = fs(0 := Some (content @ take (bytesWritten io) line)) in
          if bytesWritten io < length line \<or> \<not> flushOk io then (fs, WriteFailed)
          else (fs, NoRecorderError))"

definition record_event :: "telemetry_services \<Rightarrow> safe_event \<Rightarrow> recorder \<Rightarrow> recorder \<times> record_status" where
  "record_event svc e r =
     (let line = event_toJson svc e @ [0x0A] in
      if stopping r then (r, Stopped)
      else if recorder_err r \<noteq> NoRecorderError then (r, RecorderFailed)
      else if maximumQueuedEvents (recorder_cfg r) \<le> int (length (queue r)) then (r, QueueFull)
      else (r\<lparr>queue := queue r @ [line]\<rparr>, Accepted))"

text \<open>The worker thread: taking a line, writing it, and noting the outcome.\<close>

definition take_line :: "recorder \<Rightarrow> recorder" where
  "take_line r =
     (case queue r of
        [] \<Rightarrow> r
      | line # rest \<Rightarrow> if writing r \<noteq> None then r else r\<lparr>queue := rest, writing := Some line\<rparr>)"

definition finish_line :: "file_outcomes \<Rightarrow> recorder \<Rightarrow> recorder" where
  "finish_line io r =
     (case writing r of
        None \<Rightarrow> r
      | Some line \<Rightarrow>
          let (fs, e) = write_line io (recorder_cfg r) line (files r);
              r = r\<lparr>files := fs, writing := None\<rparr> in
          if e \<noteq> NoRecorderError then r\<lparr>recorder_err := e, queue := []\<rparr> else r)"

definition recorder_isValid :: "recorder \<Rightarrow> bool" where
  "recorder_isValid r \<longleftrightarrow> recorder_err r = NoRecorderError \<and> \<not> stopping r"

definition queuedEventCount :: "recorder \<Rightarrow> int" where
  "queuedEventCount r = int (length (queue r)) + (if writing r \<noteq> None then 1 else 0)"

datatype recorder_event =
    RecordEvent safe_event
  | TakeLine
  | FinishLine file_outcomes
  | StopRecorder

datatype recorder_output = Recorded record_status | Silent

fun recorder_step :: "telemetry_services \<Rightarrow> recorder \<Rightarrow> recorder_event \<Rightarrow> recorder \<times> recorder_output" where
  "recorder_step svc r (RecordEvent e) = (let (r, s) = record_event svc e r in (r, Recorded s))"
| "recorder_step svc r TakeLine = (take_line r, Silent)"
| "recorder_step svc r (FinishLine io) = (finish_line io r, Silent)"
| "recorder_step svc r StopRecorder = (r\<lparr>stopping := True\<rparr>, Silent)"


text \<open>What \<open>flush\<close> returns when its wait ends in the given state.\<close>

definition flush_result :: "int \<Rightarrow> recorder \<Rightarrow> bool" where
  "flush_result timeoutMs r \<longleftrightarrow>
     (if timeoutMs < 0 then False
      else recorder_err r = NoRecorderError \<and> queue r = [] \<and> writing r = None)"

end
