(* ===== verification/TelemetryProofs.thy ===== *)
theory TelemetryProofs
  imports Telemetry
begin

text \<open>
  What the telemetry component promises: the fields of a created event are bounded and use a fixed
  alphabet, and the recorder's queue and files stay within the configured bounds in every run and the
  queue always drains.
\<close>

section \<open>Events\<close>

definition field_alphabet :: "(qchar \<times> qchar) list" where
  "field_alphabet = [lower, upper, digit, (0x2D, 0x2F), (0x2B, 0x2B), (0x3A, 0x3A)]"

definition field_safe :: "qstring \<Rightarrow> bool" where
  "field_safe s \<longleftrightarrow> list_all (\<lambda>c. in_ranges field_alphabet c \<or> c = 0x0A) s"

definition ranges_within :: "(qchar \<times> qchar) list \<Rightarrow> (qchar \<times> qchar) list \<Rightarrow> bool" where
  "ranges_within as bs \<longleftrightarrow> list_all (\<lambda>(a, b). list_ex (\<lambda>(x, y). x \<le> a \<and> b \<le> y) bs) as"

lemma ranges_within: "ranges_within as bs \<Longrightarrow> in_ranges as c \<Longrightarrow> in_ranges bs c"
  unfolding ranges_within_def in_ranges_def list_all_iff list_ex_iff
  by (clarsimp split: prod.splits) (metis (no_types, lifting) case_prodE case_prodI2 order_trans fst_conv snd_conv)

lemma anchored_field_safe:
  assumes "anchored r s" and "ranges_within (alphabet r) field_alphabet"
  shows "field_safe s"
  using assms(1) unfolding anchored_iff field_safe_def list_all_iff
  by (auto dest!: generates_alphabet intro: ranges_within [OF assms(2)])

lemma field_safe_append [simp]: "field_safe (a @ b) \<longleftrightarrow> field_safe a \<and> field_safe b"
  by (simp add: field_safe_def)

lemma alphabets:
  "ranges_within (alphabet appId_pattern) field_alphabet"
  "ranges_within (alphabet version_pattern) field_alphabet"
  "ranges_within (alphabet literal_pattern) field_alphabet"
  "ranges_within (alphabet parameter_pattern) field_alphabet"
  by (simp_all add: ranges_within_def field_alphabet_def appId_pattern_def app_label_pattern_def
      version_pattern_def prerelease_pattern_def number_pattern_def literal_pattern_def parameter_pattern_def)


lemma field_safe_split:
  assumes "list_all field_safe (split_at sep s)" and "in_ranges field_alphabet sep"
  shows "field_safe s"
proof -
  have "list_all field_safe ps \<Longrightarrow> field_safe (joined sep ps)" for ps
    using assms(2) by (induction sep ps rule: joined.induct) (auto simp: field_safe_def)
  from this [OF assms(1)] show ?thesis by simp
qed

lemma route_template_safe:
  assumes "validRouteTemplate svc r"
  shows "field_safe r" "length r \<le> 256"
proof -
  from assms show "length r \<le> 256"
    by (auto simp: validRouteTemplate_def split: if_splits)
  from assms have r: "r \<noteq> []" "hd r = 0x2F"
    by (auto simp: validRouteTemplate_def qstr_def split: if_splits)
  have "field_safe (drop 1 r)"
  proof (cases "drop 1 r = []")
    case True
    then show ?thesis by (simp only: field_safe_def list.pred_inject)
  next
    case False
    with assms have "list_all field_safe (split_at 0x2F (drop 1 r))"
      by (auto simp: validRouteTemplate_def qstr_def list_all_iff split: if_splits
          intro: anchored_field_safe alphabets)
    then show ?thesis
      by (rule field_safe_split) (simp add: field_alphabet_def in_ranges_def)
  qed
  moreover have "r = 0x2F # drop 1 r" using r by (cases r) auto
  moreover have "field_safe [0x2F]" by (simp add: field_safe_def field_alphabet_def in_ranges_def)
  ultimately show "field_safe r" by (metis append_Cons append_Nil field_safe_append)
qed

definition metric_in_range :: "rat option \<Rightarrow> bool" where
  "metric_in_range v \<longleftrightarrow> (case v of None \<Rightarrow> False | Some x \<Rightarrow> 0 \<le> x \<and> x \<le> MaximumMetricMagnitude)"

lemma metrics_valid_iff:
  "metrics_valid ms seen \<Longrightarrow> distinct (map fst ms) \<and> set (map fst ms) \<inter> set seen = {}
     \<and> list_all (\<lambda>m. metric_in_range (snd m)) ms"
proof (induction ms seen rule: metrics_valid.induct)
  case (2 key v ms seen)
  from "2.prems" obtain x where v: "v = Some x" "0 \<le> x" "x \<le> MaximumMetricMagnitude"
    and key: "key \<notin> set seen" and rest: "metrics_valid ms (key # seen)"
    by (auto split: if_splits option.splits)
  have "distinct (map fst ms) \<and> set (map fst ms) \<inter> set (key # seen) = {}
      \<and> list_all (\<lambda>m. metric_in_range (snd m)) ms"
    using "2.IH" [OF _ v(1)] "2.prems" v key rest by (auto simp: not_less split: if_splits)
  with v key show ?case by (simp add: metric_in_range_def)
qed simp

lemma create_event_cases:
  assumes "create_event svc time appId version phase code duration route ms = Inr e"
  shows "0 \<le> time" "validAppId svc appId" "validVersion svc version" "0 \<le> duration"
    "duration \<le> MaximumDurationMs" "validRouteTemplate svc route" "length ms \<le> MaximumMetrics"
    "metrics_valid ms []"
    "e = \<lparr>timestamp = time, event_appId = appId, packageVersion = version, event_phase = phase,
       event_code = code, durationMs = duration, routeTemplate = route,
       metrics = sort_key (\<lambda>m. metricName (fst m)) ms\<rparr>"
  using assms by (auto simp: create_event_def split: if_splits)

text \<open>
  C23. An event that is created has fields over a fixed alphabet (letters, digits, and the characters
  - . / + : and the line feed), so no quote, backslash, other control character or non-ASCII code
  unit; the fields and the numbers are bounded, and the metrics are at most eight, distinct, sorted by
  name, finite and nonnegative.
\<close>

theorem event_fields_safe:
  assumes "create_event svc time appId version phase code duration route ms = Inr e"
  shows "field_safe (event_appId e) \<and> field_safe (packageVersion e) \<and> field_safe (routeTemplate e)
    \<and> length (event_appId e) \<le> 253 \<and> length (packageVersion e) \<le> 128 \<and> length (routeTemplate e) \<le> 256
    \<and> 0 \<le> timestamp e \<and> 0 \<le> durationMs e \<and> durationMs e \<le> MaximumDurationMs
    \<and> length (metrics e) \<le> 8 \<and> distinct (map fst (metrics e))
    \<and> sorted (map (\<lambda>m. metricName (fst m)) (metrics e))
    \<and> list_all (\<lambda>m. metric_in_range (snd m)) (metrics e)"
proof -
  note c = create_event_cases [OF assms]
  have "distinct (map fst (metrics e))"
    using metrics_valid_iff [OF c(8)] c(9) by (simp add: distinct_map)
  moreover have "list_all (\<lambda>m. metric_in_range (snd m)) (metrics e)"
    using metrics_valid_iff [OF c(8)] c(9) by (simp add: list_all_iff)
  ultimately show ?thesis
    using c route_template_safe [OF c(6)]
    by (auto simp: validAppId_def validVersion_def MaximumMetrics_def intro: anchored_field_safe alphabets
        split: if_splits)
qed

definition plain_services :: telemetry_services where
  "plain_services = \<lparr>toNfc = (\<lambda>s. s), toUtf8 = map ucast, number_g17 = (\<lambda>x. [0x37])\<rparr>"

lemma plain_services_simps [simp]:
  "toNfc plain_services = (\<lambda>s. s)" "toUtf8 plain_services = map ucast"
  by (simp_all add: plain_services_def)

abbreviation example_event :: "qstring \<Rightarrow> string + safe_event" where
  "example_event appId \<equiv> create_event plain_services 1 appId (qstr ''1.0.0'') Install Started 5 (qstr ''/a/:b'')
     [(QueueDepth, Some 2), (AttemptNumber, Some 0)]"

lemmas event_eval = create_event_def validAppId_def validVersion_def validRouteTemplate_def anchored_def
  appId_pattern_def app_label_pattern_def version_pattern_def prerelease_pattern_def number_pattern_def
  literal_pattern_def parameter_pattern_def in_ranges_def qstr_def startsWith_def MaximumDurationMs_def
  MaximumMetrics_def MaximumMetricMagnitude_def

lemma example_event_eval:
  "example_event (qstr ''com.a'') = Inr \<lparr>timestamp = 1, event_appId = qstr ''com.a'',
     packageVersion = qstr ''1.0.0'', event_phase = Install, event_code = Started, durationMs = 5,
     routeTemplate = qstr ''/a/:b'', metrics = [(AttemptNumber, Some 0), (QueueDepth, Some 2)]\<rparr>"
  by (simp add: event_eval)

theorem event_fields_safe_witness:
  "(case example_event (qstr ''com.a'') of Inl m \<Rightarrow> False | Inr e \<Rightarrow> field_safe (event_appId e))"
  using event_fields_safe [OF example_event_eval] by (simp add: example_event_eval)

text \<open>
  The alphabet has the line feed because the patterns match before a final one: an identifier that
  ends in a line feed is accepted, and the event's JSON text then has a raw line feed in a string.
\<close>

lemma event_accepts_line_feed:
  "(case example_event (qstr ''com.a'' @ [0x0A]) of Inl m \<Rightarrow> False
     | Inr e \<Rightarrow> 0x0A \<in> set (event_toJson plain_services e))"
  by (simp add: event_eval event_toJson_def quotedAscii_def)


section \<open>The recorder\<close>

text \<open>
  The files a recorder owns (the active one and the archives) stay within the maximum size, and every
  other numbered file is as it was.
\<close>

definition files_ok :: "recorder_config \<Rightarrow> recorder_files \<Rightarrow> recorder_files \<Rightarrow> bool" where
  "files_ok c fs0 fs \<longleftrightarrow>
     (\<forall>i. if int i \<le> maximumArchivedFiles c
          then (case fs i of None \<Rightarrow> True | Some content \<Rightarrow> int (length content) \<le> maximumFileBytes c)
          else fs i = fs0 i)"

lemma files_okD: "files_ok c fs0 fs \<Longrightarrow> fs i = Some content \<Longrightarrow> int i \<le> maximumArchivedFiles c \<Longrightarrow>
    int (length content) \<le> maximumFileBytes c"
  by (drule files_ok_def [THEN iffD1], drule spec [of _ i]) simp

lemma files_ok_remove: "files_ok c fs0 fs \<Longrightarrow> int i \<le> maximumArchivedFiles c \<Longrightarrow> files_ok c fs0 (fs(i := None))"
  by (simp add: files_ok_def)

lemma files_ok_put:
  "files_ok c fs0 fs \<Longrightarrow> int i \<le> maximumArchivedFiles c \<Longrightarrow> int (length content) \<le> maximumFileBytes c \<Longrightarrow>
    files_ok c fs0 (fs(i := Some content))"
  by (simp add: files_ok_def)

lemma files_ok_move:
  assumes "files_ok c fs0 fs" and "int i \<le> maximumArchivedFiles c" and "int j \<le> maximumArchivedFiles c"
  shows "files_ok c fs0 (fs(j := fs i, i := None))"
proof (cases "fs i")
  case None
  with assms show ?thesis by (simp add: files_ok_remove)
next
  case (Some content)
  with files_okD [OF assms(1) Some assms(2)] assms show ?thesis
    by (simp add: files_ok_remove files_ok_put)
qed

lemma shift_files_ok:
  "files_ok c fs0 fs \<Longrightarrow> int n < maximumArchivedFiles c \<Longrightarrow> files_ok c fs0 (fst (shift_files io n fs))"
proof (induction n arbitrary: fs)
  case (Suc n)
  have "int n < maximumArchivedFiles c" using Suc.prems(2) by simp
  moreover have "files_ok c fs0 (fs(Suc (Suc n) := fs (Suc n), Suc n := None))"
    using Suc.prems by (intro files_ok_move) simp_all
  ultimately have "files_ok c fs0 (fst (shift_files io n (fs(Suc (Suc n) := fs (Suc n), Suc n := None))))"
    by (rule Suc.IH [rotated])
  moreover have "files_ok c fs0 (fst (shift_files io n fs))"
    using Suc.prems by (intro Suc.IH) simp_all
  ultimately show ?case using Suc.prems(1) by (simp del: fun_upd_apply)
qed simp

lemma shift_files_active: "fst (shift_files io n fs) 0 = fs 0"
  by (induction n arbitrary: fs) auto

lemma rotate_files_ok:
  assumes "files_ok c fs0 fs" and "0 \<le> maximumArchivedFiles c"
  shows "files_ok c fs0 (fst (rotate_files io c fs))"
    and "snd (rotate_files io c fs) \<Longrightarrow> fst (rotate_files io c fs) 0 = None"
proof -
  define n where "n = nat (maximumArchivedFiles c)"
  have n: "maximumArchivedFiles c = int n" using assms(2) by (simp add: n_def)
  have shifted: "files_ok c fs0 (fst (shift_files io (n - 1) (fs(n := None))))" if "n \<noteq> 0"
    using that by (intro shift_files_ok files_ok_remove assms) (simp_all add: n)
  have active: "fst (shift_files io (n - 1) (fs(n := None))) 0 = fs 0" if "n \<noteq> 0"
    using that by (simp add: shift_files_active)
  have moved: "files_ok c fs0 ((fst (shift_files io (n - 1) (fs(n := None))))(Suc 0 := fs 0, 0 := None))"
    if "n \<noteq> 0"
    using files_ok_move [OF shifted [OF that], of 0 "Suc 0"] active [OF that] that by (simp add: n)
  show "files_ok c fs0 (fst (rotate_files io c fs))"
    using assms shifted active moved
    by (auto simp: rotate_files_def n Let_def split_beta files_ok_remove)
  show "snd (rotate_files io c fs) \<Longrightarrow> fst (rotate_files io c fs) 0 = None"
    using active by (auto simp: rotate_files_def n Let_def split_beta split: if_splits)
qed

lemma write_line_ok:
  assumes "files_ok c fs0 fs" and "0 \<le> maximumArchivedFiles c" and "0 \<le> maximumFileBytes c"
  shows "files_ok c fs0 (fst (write_line io c line fs))"
proof -
  have grow: "files_ok c fs0 (gs(0 := Some ((case gs 0 of None \<Rightarrow> [] | Some x \<Rightarrow> x) @ take k line)))"
    if "files_ok c fs0 gs" "int (length line) \<le> maximumFileBytes c"
      "case gs 0 of None \<Rightarrow> True | Some x \<Rightarrow> int (length x) + int (length line) \<le> maximumFileBytes c" for gs k
    using that assms by (intro files_ok_put) (auto split: option.splits)
  have r: "files_ok c fs0 (fst (rotate_files io c fs))"
    "snd (rotate_files io c fs) \<Longrightarrow> fst (rotate_files io c fs) 0 = None"
    using rotate_files_ok [OF assms(1,2)] by blast+
  show ?thesis
  proof (cases "fs 0")
    case None
    with grow [OF assms(1), of "bytesWritten io"] assms(1) show ?thesis
      by (auto simp: write_line_def Let_def not_less)
  next
    case (Some content)
    show ?thesis
    proof (cases "maximumFileBytes c < int (length content) + int (length line)")
      case True
      with Some r grow [OF r(1), of "bytesWritten io"] assms(1) show ?thesis
        by (auto simp: write_line_def Let_def split_beta not_less)
    next
      case False
      with Some grow [OF assms(1), of "bytesWritten io"] assms(1) show ?thesis
        by (auto simp: write_line_def Let_def split_beta not_less)
    qed
  qed
qed

definition recorder_inv :: "recorder_config \<Rightarrow> recorder_files \<Rightarrow> recorder \<Rightarrow> bool" where
  "recorder_inv c fs0 r \<longleftrightarrow> recorder_cfg r = c \<and> 0 \<le> maximumArchivedFiles c \<and> 0 \<le> maximumFileBytes c
     \<and> int (length (queue r)) \<le> maximumQueuedEvents c
     \<and> (recorder_err r = NoRecorderError \<or> queue r = []) \<and> files_ok c fs0 (files r)"

interpretation rec: machine_invariant "recorder_step svc" "recorder_inv c fs0" "\<lambda>e. True"
proof
  fix s :: recorder and e
  assume inv: "recorder_inv c fs0 s"
  show "recorder_inv c fs0 (fst (recorder_step svc s e))"
  proof (cases e)
    case (RecordEvent x)
    with inv show ?thesis
      by (auto simp: recorder_inv_def record_event_def Let_def split_beta)
  next
    case TakeLine
    with inv show ?thesis by (auto simp: recorder_inv_def take_line_def split: list.split)
  next
    case (FinishLine io)
    with inv show ?thesis
      by (auto simp: recorder_inv_def finish_line_def Let_def split_beta write_line_ok split: option.split)
  next
    case StopRecorder
    with inv show ?thesis by (simp add: recorder_inv_def)
  qed
qed

lemma new_recorder_inv:
  assumes "recorder_err (new_recorder isDirectory c plainFiles fs) = NoRecorderError"
  shows "recorder_inv c fs (new_recorder isDirectory c plainFiles fs)"
proof -
  from assms have c: "validConfig isDirectory c"
    and sizes: "\<And>i content. fs i = Some content \<Longrightarrow> i < nat (maximumArchivedFiles c + 1) \<Longrightarrow>
      int (length content) \<le> maximumFileBytes c"
    by (fastforce simp: new_recorder_def list_ex_iff Let_def split: if_splits option.splits)+
  from c have "files_ok c fs fs"
    by (auto simp: files_ok_def validConfig_def split: option.split intro!: sizes)
  with assms c show ?thesis
    by (auto simp: recorder_inv_def new_recorder_def validConfig_def Let_def split: if_splits)
qed

text \<open>
  From a valid start, however events are recorded and the worker's writes fail, at most the
  configured number of events are queued, the active file and the archives never exceed the maximum
  size, and no other file is touched.
\<close>

theorem recorder_bounded:
  assumes "recorder_err (new_recorder isDirectory c plainFiles fs) = NoRecorderError"
  shows "int (length (queue (final_state (recorder_step svc) (new_recorder isDirectory c plainFiles fs) es)))
      \<le> maximumQueuedEvents c
    \<and> files_ok c fs (files (final_state (recorder_step svc) (new_recorder isDirectory c plainFiles fs) es))"
  using rec.run_inv [OF new_recorder_inv [OF assms], of es svc]
  by (simp add: recorder_inv_def list_all_iff)


definition example_config :: recorder_config where
  "example_config = \<lparr>config_fileName = qstr ''a.log'', maximumFileBytes = 256, maximumArchivedFiles = 1,
     maximumQueuedEvents = 1\<rparr>"

definition example_io :: file_outcomes where
  "example_io = \<lparr>directoryOk = True, removeOk = True, renameOk = (\<lambda>i. True), openOk = True,
     bytesWritten = 4, flushOk = True\<rparr>"

lemma UpTo_numeral: "UpTo (numeral k) r = Opt (Then r (UpTo (pred_numeral k) r))"
  by (simp add: numeral_eq_Suc)

lemma example_recorder_valid:
  "recorder_err (new_recorder True example_config (\<lambda>i. True) (\<lambda>i. None)) = NoRecorderError"
  by (simp add: new_recorder_def validConfig_def example_config_def anchored_def fileName_pattern_def
      in_ranges_def qstr_def UpTo_numeral Let_def list_ex_iff)

theorem recorder_bounded_witness:
  "int (length (queue (final_state (recorder_step plain_services)
      (new_recorder True example_config (\<lambda>i. True) (\<lambda>i. None)) [TakeLine, FinishLine example_io]))) \<le> 1"
  using recorder_bounded [OF example_recorder_valid, of plain_services "[TakeLine, FinishLine example_io]"]
  by (simp add: example_config_def)

text \<open>Every write the worker completes shortens its backlog, or empties the queue when it fails.\<close>

lemma finish_take_count:
  assumes "writing r = None"
  shows "queue (finish_line io (take_line r)) = tl (queue r) \<or> queue (finish_line io (take_line r)) = []"
    and "writing (finish_line io (take_line r)) = None"
    and "recorder_err (finish_line io (take_line r)) = NoRecorderError \<Longrightarrow>
      queue (finish_line io (take_line r)) = tl (queue r)"
  using assms by (auto simp: finish_line_def take_line_def Let_def split_beta split: list.splits option.splits)

fun worker_rounds :: "file_outcomes list \<Rightarrow> recorder_event list" where
  "worker_rounds [] = []"
| "worker_rounds (io # ios) = TakeLine # FinishLine io # worker_rounds ios"

lemma rounds_drain:
  "writing r = None \<Longrightarrow> length (queue r) \<le> length ios \<Longrightarrow>
    queue (final_state (recorder_step svc) r (worker_rounds ios)) = []
    \<and> writing (final_state (recorder_step svc) r (worker_rounds ios)) = None"
proof (induction ios arbitrary: r)
  case Nil
  then show ?case by simp
next
  case (Cons io ios)
  let ?r = "finish_line io (take_line r)"
  have "length (queue ?r) \<le> length ios"
    using finish_take_count(1) [OF Cons.prems(1), of io] Cons.prems(2) by (elim disjE) simp_all
  from Cons.IH [OF finish_take_count(2) [OF Cons.prems(1)] this] show ?case by simp
qed



end
