(* ===== verification/PendingQueue.thy ===== *)
theory PendingQueue
  imports IpcSession
begin

text \<open>
  The worker's queue of capability requests that wait for the authenticated session
  (\<open>apps/worker/PendingCapabilityQueue.{h,cpp}\<close>), and its refinement of a bounded first-in-first-out
  list of requests.  The services of the protocol (\<open>ipc_services\<close>) give the compact JSON text a
  request takes.  The counters are Qt sizes; no difference of the code leaves their range.
\<close>

record pending_request =
  pending_requestId :: qstring
  pending_capability :: qstring
  pending_operation :: qstring
  pending_payload :: json_object

datatype pending_push_result = PushAccepted | PushInvalidRequest | PushDuplicateRequestId | PushLimitExceeded

record pending_entry =
  entry_request :: pending_request
  entry_bytes :: int

record pending_queue =
  maximumRequests :: int
  maximumQueueBytes :: int
  pending_bytes :: int
  pending_entries :: "pending_entry list"
  pending_ids :: "qstring set"

definition new_pending_queue :: "int \<Rightarrow> int \<Rightarrow> pending_queue" where
  "new_pending_queue requests byteLimit =
     \<lparr>maximumRequests = max 1 requests, maximumQueueBytes = max 1 byteLimit, pending_bytes = 0,
      pending_entries = [], pending_ids = {}\<rparr>"

definition pending_message :: "ipc_services \<Rightarrow> pending_request \<Rightarrow> protocol_message option" where
  "pending_message svc request =
     request_message (texts svc) (pending_requestId request) (pending_capability request)
       (pending_operation request) (pending_payload request)"

definition enqueue :: "ipc_services \<Rightarrow> pending_request \<Rightarrow> pending_queue \<Rightarrow> pending_queue \<times> pending_push_result" where
  "enqueue svc request q =
     (case pending_message svc request of
        None \<Rightarrow> (q, PushInvalidRequest)
      | Some message \<Rightarrow>
          if pending_requestId request \<in> pending_ids q then (q, PushDuplicateRequestId)
          else
            let n = int (length (toCompactJson (framing svc) (toJson message))) in
            if maximumRequests q \<le> int (length (pending_entries q)) \<or> maximumQueueBytes q < n
               \<or> maximumQueueBytes q - n < pending_bytes q
            then (q, PushLimitExceeded)
            else (q\<lparr>pending_bytes := pending_bytes q + n,
                    pending_ids := insert (pending_requestId request) (pending_ids q),
                    pending_entries := pending_entries q @ [\<lparr>entry_request = request, entry_bytes = n\<rparr>]\<rparr>,
                  PushAccepted))"

definition takeNext :: "pending_queue \<Rightarrow> pending_queue \<times> pending_request option" where
  "takeNext q =
     (case pending_entries q of
        [] \<Rightarrow> (q, None)
      | entry # rest \<Rightarrow>
          (q\<lparr>pending_entries := rest, pending_bytes := pending_bytes q - entry_bytes entry,
             pending_ids := pending_ids q - {pending_requestId (entry_request entry)}\<rparr>,
           Some (entry_request entry)))"

definition clear_pending :: "pending_queue \<Rightarrow> pending_queue" where
  "clear_pending q = q\<lparr>pending_entries := [], pending_ids := {}, pending_bytes := 0\<rparr>"

definition pending_size :: "pending_queue \<Rightarrow> int" where
  "pending_size q = int (length (pending_entries q))"

definition pending_queuedBytes :: "pending_queue \<Rightarrow> int" where
  "pending_queuedBytes q = pending_bytes q"

datatype pending_event = Enqueue pending_request | TakeNext | ClearPending

datatype pending_output = Pushed pending_push_result | Taken "pending_request option" | Cleared

fun pending_step :: "ipc_services \<Rightarrow> pending_queue \<Rightarrow> pending_event \<Rightarrow> pending_queue \<times> pending_output" where
  "pending_step svc q (Enqueue request) = (let (q, r) = enqueue svc request q in (q, Pushed r))"
| "pending_step svc q TakeNext = (let (q, r) = takeNext q in (q, Taken r))"
| "pending_step svc q ClearPending = (clear_pending q, Cleared)"

section \<open>The bounded list it implements\<close>

definition request_size :: "ipc_services \<Rightarrow> pending_request \<Rightarrow> int" where
  "request_size svc request =
     (case pending_message svc request of None \<Rightarrow> 0
      | Some m \<Rightarrow> int (length (toCompactJson (framing svc) (toJson m))))"

definition total_size :: "ipc_services \<Rightarrow> pending_request list \<Rightarrow> int" where
  "total_size svc rs = sum_list (map (request_size svc) rs)"

definition fits :: "ipc_services \<Rightarrow> int \<Rightarrow> int \<Rightarrow> pending_request list \<Rightarrow> bool" where
  "fits svc requests byteLimit rs \<longleftrightarrow>
     int (length rs) \<le> max 1 requests \<and> total_size svc rs \<le> max 1 byteLimit
     \<and> distinct (map pending_requestId rs) \<and> list_all (\<lambda>r. pending_message svc r \<noteq> None) rs"

fun list_step :: "ipc_services \<Rightarrow> int \<Rightarrow> int \<Rightarrow> pending_request list \<Rightarrow> pending_event \<Rightarrow>
    pending_request list \<times> pending_output" where
  "list_step svc requests byteLimit rs (Enqueue r) =
     (if pending_message svc r = None then (rs, Pushed PushInvalidRequest)
      else if pending_requestId r \<in> pending_requestId ` set rs then (rs, Pushed PushDuplicateRequestId)
      else if fits svc requests byteLimit (rs @ [r]) then (rs @ [r], Pushed PushAccepted)
      else (rs, Pushed PushLimitExceeded))"
| "list_step svc requests byteLimit rs TakeNext =
     (case rs of [] \<Rightarrow> ([], Taken None) | r # rest \<Rightarrow> (rest, Taken (Some r)))"
| "list_step svc requests byteLimit rs ClearPending = ([], Cleared)"

definition requests_of :: "pending_queue \<Rightarrow> pending_request list" where
  "requests_of q = map entry_request (pending_entries q)"

definition pending_inv :: "ipc_services \<Rightarrow> int \<Rightarrow> int \<Rightarrow> pending_queue \<Rightarrow> bool" where
  "pending_inv svc requests byteLimit q \<longleftrightarrow>
     maximumRequests q = max 1 requests \<and> maximumQueueBytes q = max 1 byteLimit
     \<and> fits svc requests byteLimit (requests_of q)
     \<and> pending_ids q = pending_requestId ` set (requests_of q)
     \<and> pending_bytes q = total_size svc (requests_of q)
     \<and> map entry_bytes (pending_entries q) = map (request_size svc) (requests_of q)"

lemma total_size_simps [simp]:
  "total_size svc [] = 0" "total_size svc (r # rs) = request_size svc r + total_size svc rs"
  "total_size svc (rs @ qs) = total_size svc rs + total_size svc qs"
  by (simp_all add: total_size_def)

lemma request_size_nonneg [simp]: "0 \<le> request_size svc r"
  by (simp add: request_size_def split: option.split)

lemma total_size_nonneg [simp]: "0 \<le> total_size svc rs"
  by (induction rs) auto

lemma fits_Nil [simp]: "fits svc requests byteLimit []"
  by (simp add: fits_def max_def)

lemma fits_tl: "fits svc requests byteLimit (r # rs) \<Longrightarrow> fits svc requests byteLimit rs"
  using request_size_nonneg [of svc r] by (auto simp: fits_def simp del: request_size_nonneg)

lemma enqueue_refines:
  assumes "pending_inv svc requests byteLimit q"
  shows "pending_inv svc requests byteLimit (fst (enqueue svc r q))"
    and "list_step svc requests byteLimit (requests_of q) (Enqueue r)
      = (requests_of (fst (enqueue svc r q)), Pushed (snd (enqueue svc r q)))"
  using assms total_size_nonneg [of svc "requests_of q"]
  by (auto simp: pending_inv_def enqueue_def fits_def requests_of_def request_size_def Let_def image_image
      simp del: total_size_nonneg split: option.split)

lemma takeNext_refines:
  assumes "pending_inv svc requests byteLimit q"
  shows "pending_inv svc requests byteLimit (fst (takeNext q))"
    and "list_step svc requests byteLimit (requests_of q) TakeNext
      = (requests_of (fst (takeNext q)), Taken (snd (takeNext q)))"
proof -
  show "pending_inv svc requests byteLimit (fst (takeNext q))"
  proof (cases "pending_entries q")
    case Nil
    with assms show ?thesis by (simp add: takeNext_def)
  next
    case (Cons entry rest)
    have "pending_requestId (entry_request entry) \<notin> pending_requestId ` set (map entry_request rest)"
      using assms Cons by (auto simp: pending_inv_def fits_def requests_of_def)
    with assms Cons show ?thesis
      by (auto simp: pending_inv_def requests_of_def takeNext_def intro: fits_tl)
  qed
qed (auto simp: takeNext_def requests_of_def split: list.split)

lemma clear_pending_inv:
  "pending_inv svc requests byteLimit q \<Longrightarrow> pending_inv svc requests byteLimit (clear_pending q)"
  by (simp add: pending_inv_def clear_pending_def requests_of_def)

interpretation pend: machine_refinement "pending_step svc" "pending_inv svc requests byteLimit" "\<lambda>e. True"
  requests_of "list_step svc requests byteLimit"
proof
  fix s e
  assume inv: "pending_inv svc requests byteLimit s"
  then show "pending_inv svc requests byteLimit (fst (pending_step svc s e))"
    using enqueue_refines(1) [OF inv] takeNext_refines(1) [OF inv] clear_pending_inv [OF inv]
    by (cases e) (simp_all add: Let_def split_beta)
  from inv show "list_step svc requests byteLimit (requests_of s) e
      = (requests_of (fst (pending_step svc s e)), snd (pending_step svc s e))"
    using enqueue_refines(2) [OF inv] takeNext_refines(2) [OF inv]
    by (cases e) (simp_all add: Let_def split_beta clear_pending_def requests_of_def del: list_step.simps(1,2))
qed

lemma new_pending_inv: "pending_inv svc requests byteLimit (new_pending_queue requests byteLimit)"
  by (simp add: pending_inv_def new_pending_queue_def requests_of_def)

text \<open>
  C24. In every run from an empty queue, the queue of pending capability requests answers like a plain
  list of requests that takes a valid request with a new identifier at its end while the bounds allow
  it and gives back the oldest one; what is queued is within both bounds, and the byte counter is the
  size of what is queued.
\<close>

theorem pending_queue_refines_list:
  "snd (run_machine (pending_step svc) (new_pending_queue requests byteLimit) es)
      = snd (run_machine (list_step svc requests byteLimit) [] es)
   \<and> requests_of (final_state (pending_step svc) (new_pending_queue requests byteLimit) es)
      = final_state (list_step svc requests byteLimit) [] es
   \<and> fits svc requests byteLimit (final_state (list_step svc requests byteLimit) [] es)
   \<and> pending_queuedBytes (final_state (pending_step svc) (new_pending_queue requests byteLimit) es)
      = total_size svc (final_state (list_step svc requests byteLimit) [] es)"
proof -
  have abs: "requests_of (new_pending_queue requests byteLimit) = []"
    by (simp add: requests_of_def new_pending_queue_def)
  have sim: "run_machine (list_step svc requests byteLimit) [] es
      = (requests_of (final_state (pending_step svc) (new_pending_queue requests byteLimit) es),
         snd (run_machine (pending_step svc) (new_pending_queue requests byteLimit) es))"
    using pend.run_simulates [OF new_pending_inv, of es svc requests byteLimit] abs by (simp add: list_all_iff)
  have "pending_inv svc requests byteLimit
      (final_state (pending_step svc) (new_pending_queue requests byteLimit) es)"
    by (rule pend.run_inv [OF new_pending_inv]) (simp add: list_all_iff)
  with sim show ?thesis by (simp add: pending_inv_def pending_queuedBytes_def)
qed

end
