(* ===== verification/Preflight.thy ===== *)
theory Preflight
  imports JsonScan Policy
begin

text \<open>
  The strict scan of a manifest before it is parsed (\<open>runtime/package/JsonPreflight.{h,cpp}\<close>): it
  accepts one JSON value with bounded nesting, names and strings, refuses duplicate members, and
  records, by path, the text of the numbers and the sizes of the strings and arrays the manifest's
  limits speak of.

  As in \<open>JsonScan\<close> the position is the rest of the text.  A method that returns false stops the scan:
  the left side of a result is the error set at that moment, if any.  What had been recorded by then is
  never read and is dropped.  UTF-8 decoding, \<open>QChar::isDigit\<close> above ASCII and \<open>toLongLong\<close> are
  parameters.
\<close>

section \<open>Errors and results\<close>

datatype manifest_error_code =
    InvalidJson | RootNotObject | MissingRequiredField | UnknownField | WrongType
  | UnsupportedSchemaVersion | InvalidAppId | InvalidSemanticVersion | InvalidRuntimeRange
  | InvalidEntryPoint | UnsupportedImport | DuplicateImport | InvalidNetworkHost
  | DuplicateNetworkHost | UnsupportedNetworkMethod | DuplicateNetworkMethod
  | InvalidStoragePermission | InvalidClipboardReadPermission | InvalidFileOpenPermission
  | ProcessPermissionDenied | InvalidLimit | InvalidRoute | DuplicateRoute | ResourceLimitExceeded

record manifest_error =
  error_code :: manifest_error_code
  error_path :: qstring
  error_message :: qstring

record preflight_result =
  numberLexemes :: "qstring \<Rightarrow> qstring option"
  stringLengths :: "qstring \<Rightarrow> int option"
  arraySizes :: "qstring \<Rightarrow> int option"

record preflight_services =
  pf_decodeUtf8 :: "bytes \<Rightarrow> qstring option"
  pf_unicode_digit :: "qchar \<Rightarrow> bool"
  pf_toLongLong :: "qstring \<Rightarrow> int option"

definition MaxManifestBytes :: nat where "MaxManifestBytes = 1024 * 1024"
definition MaxJsonContainerNesting :: nat where "MaxJsonContainerNesting = 8"
definition MaxJsonMemberNameCharacters :: nat where "MaxJsonMemberNameCharacters = 128"
definition MaxJsonStringRawCharacters :: nat where "MaxJsonStringRawCharacters = 4096"
definition MaxJsonStringCharacters :: nat where "MaxJsonStringCharacters = 4096"
definition MaxRoutes :: int where "MaxRoutes = 256"

definition manifest_failure :: "manifest_error_code \<Rightarrow> qstring \<Rightarrow> string \<Rightarrow> manifest_error" where
  "manifest_failure code path m = \<lparr>error_code = code, error_path = path, error_message = qstr m\<rparr>"

definition syntax_error :: manifest_error where
  "syntax_error = manifest_failure InvalidJson (qstr ''$'') ''invalid JSON''"

definition resource_error :: "qstring \<Rightarrow> manifest_error" where
  "resource_error path = manifest_failure ResourceLimitExceeded path ''manifest resource bound exceeded''"

section \<open>Paths\<close>

definition isAsciiIdentifierStart :: "qchar \<Rightarrow> bool" where
  "isAsciiIdentifierStart c \<longleftrightarrow> (0x41 \<le> c \<and> c \<le> 0x5A) \<or> (0x61 \<le> c \<and> c \<le> 0x7A) \<or> c = 0x5F"

definition isAsciiIdentifierContinue :: "qchar \<Rightarrow> bool" where
  "isAsciiIdentifierContinue c \<longleftrightarrow> isAsciiIdentifierStart c \<or> (0x30 \<le> c \<and> c \<le> 0x39)"

text \<open>\<open>arg(n, 4, 16, '0')\<close>: four lower-case hexadecimal digits.\<close>

definition hex_char :: "nat \<Rightarrow> qchar" where
  "hex_char d = (if d < 10 then 0x30 + of_nat d else 0x61 + of_nat (d - 10))"

definition hex4 :: "qchar \<Rightarrow> qstring" where
  "hex4 c = (let n = unat c in
     map hex_char [n div 4096 mod 16, n div 256 mod 16, n div 16 mod 16, n mod 16])"

definition escape_member_char :: "qchar \<Rightarrow> qstring" where
  "escape_member_char c =
     (if c = 0x22 then [0x5C, 0x22]
      else if c = 0x5C then [0x5C, 0x5C]
      else if c = 0x08 then [0x5C, 0x62]
      else if c = 0x0C then [0x5C, 0x66]
      else if c = 0x0A then [0x5C, 0x6E]
      else if c = 0x0D then [0x5C, 0x72]
      else if c = 0x09 then [0x5C, 0x74]
      else if c < 0x20 \<or> (0x7F \<le> c \<and> c \<le> 0x9F) \<or> c = 0x2028 \<or> c = 0x2029
        then [0x5C, 0x75] @ hex4 c
      else [c])"

definition manifestJsonPathMember :: "qstring \<Rightarrow> qstring \<Rightarrow> qstring" where
  "manifestJsonPathMember base member =
     (if member \<noteq> [] \<and> isAsciiIdentifierStart (hd member) \<and> list_all isAsciiIdentifierContinue (tl member)
      then base @ [0x2E] @ member
      else base @ [0x5B, 0x22] @ concat (map escape_member_char member) @ [0x22, 0x5D])"

definition item_path :: "qstring \<Rightarrow> nat \<Rightarrow> qstring" where
  "item_path path n = path @ [0x5B] @ decimal n @ [0x5D]"

section \<open>What is recorded\<close>

definition shouldRecordNumber :: "qstring \<Rightarrow> bool" where
  "shouldRecordNumber path \<longleftrightarrow> path = qstr ''$.schemaVersion'' \<or> path = qstr ''$.limits.packageBytes''
     \<or> path = qstr ''$.limits.memoryMiB'' \<or> path = qstr ''$.limits.processes''"

definition shouldRecordStringLength :: "preflight_services \<Rightarrow> qstring \<Rightarrow> bool" where
  "shouldRecordStringLength svc path \<longleftrightarrow>
     (if path = qstr ''$.version'' \<or> path = qstr ''$.entryPoint'' \<or> path = qstr ''$.runtime.minVersion''
         \<or> path = qstr ''$.runtime.maxVersion'' then True
      else
        let routePrefix = qstr ''$.routes['' in
        if \<not> startsWith routePrefix path \<or> \<not> endsWith (qstr '']'') path then False
        else (case pf_toLongLong svc
              (mid (int (length routePrefix)) (int (length path) - int (length routePrefix) - 1) path) of
            None \<Rightarrow> False | Some index \<Rightarrow> index < MaxRoutes))"

definition shouldRecordArraySize :: "qstring \<Rightarrow> bool" where
  "shouldRecordArraySize path \<longleftrightarrow> path = qstr ''$.imports'' \<or> path = qstr ''$.permissions.network.hosts''
     \<or> path = qstr ''$.permissions.network.methods'' \<or> path = qstr ''$.routes''"

fun unicodeScalarCount :: "qstring \<Rightarrow> int" where
  "unicodeScalarCount [] = 0"
| "unicodeScalarCount [c] = 1"
| "unicodeScalarCount (c # d # s) =
     (if isHighSurrogate c \<and> isLowSurrogate d then 1 + unicodeScalarCount s
      else 1 + unicodeScalarCount (d # s))"

definition record_number :: "qstring \<Rightarrow> qstring \<Rightarrow> preflight_result \<Rightarrow> preflight_result" where
  "record_number path lexeme p =
     (if shouldRecordNumber path then p\<lparr>numberLexemes := (numberLexemes p)(path := Some lexeme)\<rparr> else p)"

definition record_string :: "preflight_services \<Rightarrow> qstring \<Rightarrow> qstring \<Rightarrow> preflight_result \<Rightarrow> preflight_result" where
  "record_string svc path v p =
     (if shouldRecordStringLength svc path
      then p\<lparr>stringLengths := (stringLengths p)(path := Some (unicodeScalarCount v))\<rparr> else p)"

definition record_array :: "qstring \<Rightarrow> nat \<Rightarrow> preflight_result \<Rightarrow> preflight_result" where
  "record_array path n p =
     (if shouldRecordArraySize path then p\<lparr>arraySizes := (arraySizes p)(path := Some (int n))\<rparr> else p)"

section \<open>The scanner\<close>

text \<open>
  The loop of \<open>parseString\<close>: \<open>raw\<close> code units have been read since the opening quote, \<open>n\<close> scalars
  have been accepted.
\<close>

function pf_string_loop :: "nat \<Rightarrow> qstring \<Rightarrow> nat \<Rightarrow> nat \<Rightarrow> qstring \<Rightarrow> qstring \<Rightarrow>
    manifest_error option + qstring \<times> qstring" where
  "pf_string_loop maximumScalars resourcePath raw n v s =
     (if s = [] then Inl None
      else if MaxJsonStringRawCharacters < raw then Inl (Some (resource_error resourcePath))
      else (case stringPiece s of
          PieceEnd r \<Rightarrow> Inr (v, r)
        | PieceBad \<Rightarrow> Inl None
        | Piece u r \<Rightarrow>
            if maximumScalars \<le> n then Inl (Some (resource_error resourcePath))
            else pf_string_loop maximumScalars resourcePath (raw + (length s - length r)) (n + 1) (v @ u) r))"
  by pat_completeness auto
termination
  by (relation "measure (\<lambda>(mx, rp, raw, n, v, s). length s)") (auto dest: stringPiece_length)

declare pf_string_loop.simps [simp del]

definition pf_string :: "nat \<Rightarrow> qstring \<Rightarrow> qstring \<Rightarrow> manifest_error option + qstring \<times> qstring" where
  "pf_string maximumScalars resourcePath s =
     (case consume_char c_quote s of
        None \<Rightarrow> Inl None
      | Some r \<Rightarrow> pf_string_loop maximumScalars resourcePath 0 0 [] r)"

type_synonym pf_outcome = "manifest_error option + qstring \<times> preflight_result"

definition pf_number :: "preflight_services \<Rightarrow> qstring \<Rightarrow> qstring \<Rightarrow> preflight_result \<Rightarrow> pf_outcome" where
  "pf_number svc path s p =
     (case parseNumber (pf_unicode_digit svc) s of
        None \<Rightarrow> Inl None
      | Some r \<Rightarrow> Inr (r, record_number path (take (length s - length r) s) p))"

definition pf_text :: "preflight_services \<Rightarrow> qstring \<Rightarrow> qstring \<Rightarrow> preflight_result \<Rightarrow> pf_outcome" where
  "pf_text svc path s p =
     (case pf_string MaxJsonStringCharacters path s of
        Inl e \<Rightarrow> Inl e
      | Inr (v, r) \<Rightarrow> Inr (r, record_string svc path v p))"

definition pf_keyword :: "qstring \<Rightarrow> preflight_result \<Rightarrow> pf_outcome" where
  "pf_keyword s p = (case keyword_value s of None \<Rightarrow> Inl None | Some r \<Rightarrow> Inr (r, p))"

definition duplicate_error :: "qstring \<Rightarrow> manifest_error" where
  "duplicate_error path = manifest_failure InvalidJson path ''duplicate JSON member''"

function pf_value :: "preflight_services \<Rightarrow> qstring \<Rightarrow> nat \<Rightarrow> qstring \<Rightarrow> preflight_result \<Rightarrow> pf_outcome"
  and pf_members :: "preflight_services \<Rightarrow> qstring \<Rightarrow> nat \<Rightarrow> qstring set \<Rightarrow> qstring \<Rightarrow> preflight_result \<Rightarrow> pf_outcome"
  and pf_elements :: "preflight_services \<Rightarrow> qstring \<Rightarrow> nat \<Rightarrow> nat \<Rightarrow> qstring \<Rightarrow> preflight_result \<Rightarrow> pf_outcome" where
  "pf_value svc path nesting s p =
     (case s of
        [] \<Rightarrow> Inl None
      | c # r \<Rightarrow>
          if c = c_lbrace then
            (if MaxJsonContainerNesting \<le> nesting then Inl (Some (resource_error (qstr ''$'')))
             else (case consume_char c_rbrace (skipWhitespace r) of
                 Some r1 \<Rightarrow> Inr (r1, p)
               | None \<Rightarrow> pf_members svc path (nesting + 1) {} (skipWhitespace r) p))
          else if c = c_lbracket then
            (if MaxJsonContainerNesting \<le> nesting then Inl (Some (resource_error (qstr ''$'')))
             else (case consume_char c_rbracket (skipWhitespace r) of
                 Some r1 \<Rightarrow> Inr (r1, record_array path 0 p)
               | None \<Rightarrow> pf_elements svc path (nesting + 1) 0 (skipWhitespace r) p))
          else if c = c_quote then pf_text svc path s p
          else if c = c_minus \<or> ascii_digit c then pf_number svc path s p
          else pf_keyword s p)"
| "pf_members svc path nesting members s p =
     (case pf_string MaxJsonMemberNameCharacters path s of
        Inl e \<Rightarrow> Inl e
      | Inr (member, s1) \<Rightarrow>
          let memberPath = manifestJsonPathMember path member in
          if member \<in> members then Inl (Some (duplicate_error memberPath))
          else (case consume_char c_colon (skipWhitespace s1) of
              None \<Rightarrow> Inl None
            | Some s2 \<Rightarrow>
                (case pf_value svc memberPath nesting (skipWhitespace s2) p of
                   Inl e \<Rightarrow> Inl e
                 | Inr (s3, p1) \<Rightarrow>
                     (case consume_char c_rbrace (skipWhitespace s3) of
                        Some r \<Rightarrow> Inr (r, p1)
                      | None \<Rightarrow>
                          (case consume_char c_comma (skipWhitespace s3) of
                             None \<Rightarrow> Inl None
                           | Some s4 \<Rightarrow>
                               pf_members svc path nesting (insert member members)
                                 (skipWhitespace s4) p1)))))"
| "pf_elements svc path nesting count s p =
     (case pf_value svc (item_path path count) nesting s p of
        Inl e \<Rightarrow> Inl e
      | Inr (s3, p1) \<Rightarrow>
          (case consume_char c_rbracket (skipWhitespace s3) of
             Some r \<Rightarrow> Inr (r, record_array path (count + 1) p1)
           | None \<Rightarrow>
               (case consume_char c_comma (skipWhitespace s3) of
                  None \<Rightarrow> Inl None
                | Some s4 \<Rightarrow> pf_elements svc path nesting (count + 1) (skipWhitespace s4) p1)))"
  by pat_completeness auto

lemma pf_string_loop_iff:
  "pf_string_loop mx rp raw n v s = Inr (m, r) \<Longrightarrow> stringBody v s = Some (m, r)"
proof (induction mx rp raw n v s rule: pf_string_loop.induct)
  case (1 mx rp raw n v s)
  then show ?case
    by (subst stringBody.simps, subst (asm) pf_string_loop.simps [of mx rp raw n v s])
      (auto split: if_splits string_piece.splits)
qed

lemma pf_string_parseString: "pf_string mx rp s = Inr (m, r) \<Longrightarrow> parseString s = Some (m, r)"
  by (auto simp: pf_string_def parseString_def dest: pf_string_loop_iff split: option.splits)

lemma pf_string_length: "pf_string mx rp s = Inr (m, r) \<Longrightarrow> length r < length s"
  by (drule pf_string_parseString) (rule parseString_length)

lemma pf_leaf_length:
  "pf_text svc path s p = Inr (r, q) \<Longrightarrow> length r < length s"
  "pf_number svc path s p = Inr (r, q) \<Longrightarrow> length r < length s"
  "pf_keyword s p = Inr (r, q) \<Longrightarrow> length r < length s"
  by (auto simp: pf_text_def pf_number_def pf_keyword_def split: sum.splits option.splits
      dest: pf_string_length parseNumber_length keyword_value_length)


lemma pf_shrinks:
  "pf_value_pf_members_pf_elements_dom (Inl (svc, path, k, s, p)) \<Longrightarrow>
    (\<forall>r q. pf_value svc path k s p = Inr (r, q) \<longrightarrow> length r < length s)"
  "pf_value_pf_members_pf_elements_dom (Inr (Inl (svc, path, k, ms, s, p))) \<Longrightarrow>
    (\<forall>r q. pf_members svc path k ms s p = Inr (r, q) \<longrightarrow> length r < length s)"
  "pf_value_pf_members_pf_elements_dom (Inr (Inr (svc, path, k, n, s, p))) \<Longrightarrow>
    (\<forall>r q. pf_elements svc path k n s p = Inr (r, q) \<longrightarrow> length r < length s)"
proof (induction svc path k s p and svc path k ms s p and svc path k n s p
    rule: pf_value_pf_members_pf_elements.pinduct)
  case (1 svc path k s p)
  show ?case
  proof (cases s)
    case Nil
    with 1 show ?thesis by (simp add: pf_value.psimps)
  next
    case (Cons c t)
    have le: "length (skipWhitespace t) < length s" using Cons skipWhitespace_length [of t] by simp
    show ?thesis
    proof (intro allI impI)
      fix r q
      assume "pf_value svc path k s p = Inr (r, q)"
      with 1 Cons show "length r < length s"
        using le skipWhitespace_Cons_length [of t]
        by (fastforce simp: pf_value.psimps split: if_splits option.splits dest: pf_leaf_length)
    qed
  qed
next
  case (2 svc path k ms s p)
  show ?case
  proof (intro allI impI)
    fix r q
    assume ret: "pf_members svc path k ms s p = Inr (r, q)"
    from 2(1) ret obtain x s1 s2 s3 p1
      where str: "pf_string MaxJsonMemberNameCharacters path s = Inr (x, s1)" "x \<notin> ms"
        and colon: "consume_char c_colon (skipWhitespace s1) = Some s2"
        and val: "pf_value svc (manifestJsonPathMember path x) k (skipWhitespace s2) p = Inr (s3, p1)"
        and rest: "(case consume_char c_rbrace (skipWhitespace s3) of
            Some r \<Rightarrow> Inr (r, p1)
          | None \<Rightarrow> (case consume_char c_comma (skipWhitespace s3) of
              None \<Rightarrow> Inl None
            | Some s4 \<Rightarrow> pf_members svc path k (insert x ms) (skipWhitespace s4) p1)) = Inr (r, q)"
      by (auto simp: pf_members.psimps Let_def split: option.splits if_splits sum.splits
          simp del: consume_char_Some)
    have "length s3 < length (skipWhitespace s2)"
      using 2(2) [OF str(1) refl refl str(2) colon] val by blast
    also have "\<dots> < length s"
      using colon pf_string_length [OF str(1)] skipWhitespace_Cons_length [of s1 c_colon s2]
        skipWhitespace_length [of s2] by simp
    finally have s3: "length s3 < length s" .
    show "length r < length s"
    proof (cases "consume_char c_rbrace (skipWhitespace s3)")
      case (Some r')
      with rest s3 show ?thesis using skipWhitespace_Cons_length [of s3 c_rbrace r] by auto
    next
      case None
      with rest obtain s4 where comma: "consume_char c_comma (skipWhitespace s3) = Some s4"
        and more: "pf_members svc path k (insert x ms) (skipWhitespace s4) p1 = Inr (r, q)"
        by (auto split: option.splits simp del: consume_char_Some)
      have "length r < length (skipWhitespace s4)"
        using 2(3) [OF str(1) refl refl str(2) colon val refl None comma] more by blast
      then show ?thesis
        using s3 comma skipWhitespace_Cons_length [of s3 c_comma s4] skipWhitespace_length [of s4]
        by simp
    qed
  qed
next
  case (3 svc path k n s p)
  show ?case
  proof (intro allI impI)
    fix r q
    assume ret: "pf_elements svc path k n s p = Inr (r, q)"
    from 3(1) ret obtain s3 p1
      where val: "pf_value svc (item_path path n) k s p = Inr (s3, p1)"
        and rest: "(case consume_char c_rbracket (skipWhitespace s3) of
            Some r \<Rightarrow> Inr (r, record_array path (n + 1) p1)
          | None \<Rightarrow> (case consume_char c_comma (skipWhitespace s3) of
              None \<Rightarrow> Inl None
            | Some s4 \<Rightarrow> pf_elements svc path k (n + 1) (skipWhitespace s4) p1)) = Inr (r, q)"
      by (auto simp: pf_elements.psimps split: option.splits sum.splits simp del: consume_char_Some)
    have s3: "length s3 < length s" using 3(2) val by blast
    show "length r < length s"
    proof (cases "consume_char c_rbracket (skipWhitespace s3)")
      case (Some r')
      with rest s3 show ?thesis using skipWhitespace_Cons_length [of s3 c_rbracket r] by auto
    next
      case None
      with rest obtain s4 where comma: "consume_char c_comma (skipWhitespace s3) = Some s4"
        and more: "pf_elements svc path k (n + 1) (skipWhitespace s4) p1 = Inr (r, q)"
        by (auto split: option.splits simp del: consume_char_Some)
      have "length r < length (skipWhitespace s4)"
        using 3(3) [OF val refl None comma] more by blast
      then show ?thesis
        using s3 comma skipWhitespace_Cons_length [of s3 c_comma s4] skipWhitespace_length [of s4]
        by simp
    qed
  qed
qed

lemma pf_member_length:
  assumes "pf_string mx path s = Inr (x, s1)" and "skipWhitespace s1 = c_colon # s2"
  shows "length (skipWhitespace s2) < length s"
  using pf_string_length [OF assms(1)] skipWhitespace_Cons_length [OF assms(2)]
    skipWhitespace_length [of s2] by simp

lemma order_2_length:
  "length (t :: 'a list) < length s \<Longrightarrow> 2 * length t < Suc (2 * length s)"
  "length t \<le> length s \<Longrightarrow> 2 * length t < Suc (2 * length s)"
  by simp_all

termination pf_value
proof (relation "measure (\<lambda>x. case x of
      Inl (svc, path, k, s, p) \<Rightarrow> 2 * length s
    | Inr (Inl (svc, path, k, ms, s, p)) \<Rightarrow> 2 * length s + 1
    | Inr (Inr (svc, path, k, n, s, p)) \<Rightarrow> 2 * length s + 1)", goal_cases)
qed (auto simp: skipWhitespace_length order_2_length less_imp_le pf_member_length
    dest!: pf_shrinks(1) intro: pf_member_length after_comma_length order_less_trans [OF _ pf_member_length])

declare pf_value.simps [simp del] pf_members.simps [simp del] pf_elements.simps [simp del]

definition pf_empty :: preflight_result where
  "pf_empty = \<lparr>numberLexemes = (\<lambda>k. None), stringLengths = (\<lambda>k. None), arraySizes = (\<lambda>k. None)\<rparr>"

definition pf_scan :: "preflight_services \<Rightarrow> qstring \<Rightarrow> manifest_error + preflight_result" where
  "pf_scan svc text =
     (let text = (if text \<noteq> [] \<and> hd text = 0xFEFF then tl text else text) in
      case pf_value svc (qstr ''$'') 0 (skipWhitespace text) pf_empty of
        Inl None \<Rightarrow> Inl syntax_error
      | Inl (Some e) \<Rightarrow> Inl e
      | Inr (r, p) \<Rightarrow> if skipWhitespace r \<noteq> [] then Inl syntax_error else Inr p)"

definition preflightManifestJson :: "preflight_services \<Rightarrow> bytes \<Rightarrow> manifest_error + preflight_result" where
  "preflightManifestJson svc bs =
     (case pf_decodeUtf8 svc bs of
        None \<Rightarrow> Inl syntax_error
      | Some text \<Rightarrow> pf_scan svc text)"

section \<open>Exact integers\<close>

text \<open>The digits of the exponent, saturating at two million.\<close>

definition ExponentSaturation :: int where "ExponentSaturation = 2000000"

fun saturated_exponent :: "int \<Rightarrow> qstring \<Rightarrow> int" where
  "saturated_exponent exponent [] = exponent"
| "saturated_exponent exponent (c # s) =
     saturated_exponent (min ExponentSaturation (exponent * 10 + (uint c - 0x30))) s"

definition lexeme_exponent :: "qstring \<Rightarrow> int" where
  "lexeme_exponent s =
     (case s of
        [] \<Rightarrow> 0
      | e # s1 \<Rightarrow>
          if e = 0x65 \<or> e = 0x45 then
            let signed = s1 \<noteq> [] \<and> (hd s1 = c_plus \<or> hd s1 = c_minus);
                negativeExponent = signed \<and> hd s1 = c_minus;
                exponent = saturated_exponent 0 (if signed then tl s1 else s1)
            in if negativeExponent then - exponent else exponent
          else 0)"

text \<open>\<open>QString\<close> compares code unit by code unit.\<close>

fun text_less :: "qstring \<Rightarrow> qstring \<Rightarrow> bool" where
  "text_less a [] = False"
| "text_less [] (d # b) = True"
| "text_less (c # a) (d # b) = (c < d \<or> (c = d \<and> text_less a b))"

definition digits_toLongLong :: "qstring \<Rightarrow> int option" where
  "digits_toLongLong s = (if digits_value s < 2 ^ 63 then Some (digits_value s) else None)"

text \<open>
  The value on success.  \<open>retainedEnd\<close> and \<open>firstNonZero\<close> are positions in the digits of the lexeme;
  \<open>removed\<close> is 0 unless the shift is negative, and then the checks on the removed digits hold.
\<close>

definition bounded_integer :: "qstring \<Rightarrow> int \<Rightarrow> int option" where
  "bounded_integer normalized maximum =
     (let maximumText = decimal (nat maximum) in
      if length normalized = length maximumText \<and> text_less maximumText normalized then None
      else (case digits_toLongLong normalized of
          None \<Rightarrow> None
        | Some parsed \<Rightarrow> if parsed \<le> 0 \<or> maximum < parsed then None else Some parsed))"

definition integer_of_digits :: "qstring \<Rightarrow> int \<Rightarrow> int \<Rightarrow> int option" where
  "integer_of_digits digits decimalShift maximum =
     (let firstNonZero = length (takeWhile (\<lambda>c. c = 0x30) digits) in
      if firstNonZero = length digits then None
      else
        let removed = nat (- decimalShift) in
        if length digits < removed then None
        else
          let retainedEnd = length digits - removed in
          if \<not> list_all (\<lambda>c. c = 0x30) (drop retainedEnd digits) then None
          else
            let appendedZeros = nat (max decimalShift 0);
                integerDigits = int retainedEnd - int firstNonZero + int appendedZeros in
            if int (length (decimal (nat maximum))) < integerDigits then None
            else bounded_integer (take (retainedEnd - firstNonZero) (drop firstNonZero digits)
                  @ replicate appendedZeros 0x30) maximum)"

definition manifestExactPositiveJsonInteger :: "qstring \<Rightarrow> int \<Rightarrow> int option" where
  "manifestExactPositiveJsonInteger lexeme maximum =
     (if lexeme = [] \<or> hd lexeme = c_minus \<or> maximum \<le> 0 then None
      else
        let whole = takeWhile ascii_digit lexeme;
            rest = dropWhile ascii_digit lexeme;
            fraction = (if rest \<noteq> [] \<and> hd rest = c_dot then takeWhile ascii_digit (tl rest) else []);
            exponent_text = (if rest \<noteq> [] \<and> hd rest = c_dot then dropWhile ascii_digit (tl rest) else rest)
        in integer_of_digits (whole @ fraction) (lexeme_exponent exponent_text - int (length fraction)) maximum)"

end
