(* ===== verification/ExactIntegers.thy ===== *)
theory ExactIntegers
  imports Preflight JsonGrammar Complex_Main
begin

text \<open>
  The integers of a manifest are read from the text of the number, never from a double
  (\<open>manifestExactPositiveJsonInteger\<close>).  Here the text of a JSON number denotes a rational, and the
  function is proved to return exactly the positive integers up to the maximum that the text denotes,
  although it saturates the exponent and never computes a power of ten beyond the maximum's length.
\<close>

section \<open>Texts of digits\<close>

definition digit_of :: "qchar \<Rightarrow> int" where "digit_of c = uint c - 0x30"

lemma digits_value_snoc: "digits_value (s @ [c]) = 10 * digits_value s + digit_of c"
  by (simp add: digits_value_def digit_of_def)

lemma digits_value_Nil [simp]: "digits_value [] = 0"
  by (simp add: digits_value_def)

lemma digits_value_append: "digits_value (a @ b) = digits_value a * 10 ^ length b + digits_value b"
proof (induction b rule: rev_induct)
  case (snoc c b)
  then show ?case by (simp only: append_assoc [symmetric] digits_value_snoc) (simp add: algebra_simps)
qed simp

lemma digits_value_Cons: "digits_value (c # b) = digit_of c * 10 ^ length b + digits_value b"
  using digits_value_append [of "[c]" b] digits_value_snoc [of "[]" c] by simp

lemma digit_of_range: "ascii_digit c \<Longrightarrow> 0 \<le> digit_of c \<and> digit_of c \<le> 9"
  by (auto simp: ascii_digit_def digit_of_def word_le_def)

lemma digit_of_zero [simp]: "digit_of c = 0 \<longleftrightarrow> c = 0x30"
  by (simp add: digit_of_def word_uint_eq_iff)

lemma digits_value_range:
  "list_all ascii_digit ds \<Longrightarrow> 0 \<le> digits_value ds \<and> digits_value ds < 10 ^ length ds"
proof (induction ds)
  case (Cons c ds)
  then have ih: "0 \<le> digits_value ds" "digits_value ds < 10 ^ length ds" and d: "ascii_digit c" by auto
  have "0 \<le> digit_of c * 10 ^ length ds" using digit_of_range [OF d] by simp
  moreover have "digit_of c * 10 ^ length ds \<le> 9 * 10 ^ length ds"
    using digit_of_range [OF d] by (intro mult_right_mono) simp_all
  ultimately have "0 \<le> digits_value (c # ds) \<and> digits_value (c # ds) < 10 * 10 ^ length ds"
    using ih unfolding digits_value_Cons by linarith
  then show ?case by simp
qed simp

lemma digits_value_zeros: "list_all ascii_digit ds \<Longrightarrow> digits_value ds = 0 \<longleftrightarrow> list_all (\<lambda>c. c = 0x30) ds"
proof (induction ds)
  case (Cons c ds)
  then have r: "0 \<le> digits_value ds" "0 \<le> digit_of c"
    using digits_value_range [of ds] digit_of_range [of c] by auto
  have "digits_value (c # ds) = 0 \<longleftrightarrow> digit_of c * 10 ^ length ds = 0 \<and> digits_value ds = 0"
    unfolding digits_value_Cons using r by (intro add_nonneg_eq_0_iff) simp_all
  with Cons show ?case by simp
qed simp

lemma digits_value_lower:
  assumes "list_all ascii_digit (c # ds)" and "c \<noteq> 0x30"
  shows "10 ^ length ds \<le> digits_value (c # ds)"
proof -
  have "1 \<le> digit_of c" using assms digit_of_range [of c] digit_of_zero [of c] by (auto simp: le_less)
  then have "1 * 10 ^ length ds \<le> digit_of c * 10 ^ length ds" by (intro mult_right_mono) simp_all
  moreover have "0 \<le> digits_value ds" using digits_value_range [of ds] assms by simp
  ultimately show ?thesis unfolding digits_value_Cons by linarith
qed

lemma digits_value_leading: "list_all (\<lambda>c. c = 0x30) zs \<Longrightarrow> digits_value (zs @ ds) = digits_value ds"
proof -
  assume "list_all (\<lambda>c. c = 0x30) zs"
  then have "list_all ascii_digit zs" by (auto simp: list_all_iff ascii_digit_def)
  with \<open>list_all (\<lambda>c. c = 0x30) zs\<close> show ?thesis by (simp add: digits_value_append digits_value_zeros)
qed

lemma digits_value_trailing: "digits_value (ds @ replicate n 0x30) = digits_value ds * 10 ^ n"
proof -
  have "digits_value (replicate n 0x30) = 0"
    by (subst digits_value_zeros) (auto simp: list_all_iff ascii_digit_def)
  then show ?thesis by (simp add: digits_value_append)
qed

lemma text_less_value:
  "length a = length b \<Longrightarrow> list_all ascii_digit a \<Longrightarrow> list_all ascii_digit b \<Longrightarrow>
    text_less a b \<longleftrightarrow> digits_value a < digits_value b"
proof (induction a b rule: list_induct2)
  case (Cons c a d b)
  have ra: "0 \<le> digits_value a" "digits_value a < 10 ^ length a"
    and rb: "0 \<le> digits_value b" "digits_value b < 10 ^ length a"
    using digits_value_range [of a] digits_value_range [of b] Cons by auto
  have cd: "c < d \<longleftrightarrow> digit_of c < digit_of d" "c = d \<longleftrightarrow> digit_of c = digit_of d"
    by (simp_all add: digit_of_def word_less_def word_uint_eq_iff)
  have step: "x * 10 ^ length a + u < y * 10 ^ length a + v \<longleftrightarrow> x < y \<or> x = y \<and> u < v"
    if "0 \<le> u" "u < 10 ^ length a" "0 \<le> v" "v < 10 ^ length a" for x y u v :: int
  proof -
    have "(x + 1) * 10 ^ length a \<le> y * 10 ^ length a" if "x < y" using that by (intro mult_right_mono) auto
    moreover have "(y + 1) * 10 ^ length a \<le> x * 10 ^ length a" if "y < x" using that by (intro mult_right_mono) auto
    ultimately show ?thesis using that by (cases x y rule: linorder_cases) (auto simp: distrib_right)
  qed
  show ?case
    using Cons.IH Cons.prems cd by (simp add: digits_value_Cons Cons.hyps [symmetric] step [OF ra rb])
qed simp

lemma digit_word: "n < 10 \<Longrightarrow> ascii_digit (0x30 + word_of_nat n) \<and> digit_of (0x30 + word_of_nat n) = int n"
proof -
  assume "n < 10"
  then have "n \<in> {0, 1, 2, 3, 4, 5, 6, 7, 8, 9}" by auto
  then show ?thesis by (auto simp: ascii_digit_def digit_of_def)
qed

lemma decimal_value:
  "list_all ascii_digit (decimal n) \<and> digits_value (decimal n) = int n
    \<and> (\<exists>c ds. decimal n = c # ds \<and> (0 < n \<longrightarrow> c \<noteq> 0x30))"
proof (induction n rule: decimal.induct)
  case (1 n)
  show ?case
  proof (cases "n < 10")
    case True
    then have "decimal n = [0x30 + word_of_nat n]" by (subst decimal.simps) simp
    moreover have "0 < n \<longrightarrow> 0x30 + word_of_nat n \<noteq> (0x30 :: qchar)"
      using digit_word [OF True] digit_of_zero [of "0x30 + word_of_nat n"] by auto
    ultimately show ?thesis using digit_word [OF True] by (simp add: digits_value_Cons)
  next
    case False
    from 1 [OF False] obtain c ds where ih: "list_all ascii_digit (decimal (n div 10))"
      "digits_value (decimal (n div 10)) = int (n div 10)" "decimal (n div 10) = c # ds"
      "0 < n div 10 \<longrightarrow> c \<noteq> 0x30" by (elim conjE exE)
    from False have d: "decimal n = decimal (n div 10) @ [0x30 + word_of_nat (n mod 10)]"
      by (subst decimal.simps) simp
    have m: "n mod 10 < 10" by simp
    have "10 * int (n div 10) + int (n mod 10) = int n"
      by (metis mult_div_mod_eq of_nat_add of_nat_mult of_nat_numeral)
    moreover have "digits_value (decimal n) = 10 * int (n div 10) + int (n mod 10)"
      unfolding d digits_value_snoc ih(2) using digit_word [OF m] by simp
    moreover have "list_all ascii_digit (decimal n)" unfolding d using ih(1) digit_word [OF m] by simp
    moreover have "\<exists>c ds. decimal n = c # ds \<and> (0 < n \<longrightarrow> c \<noteq> 0x30)"
      using False ih(3,4) unfolding d by (auto simp: div_greater_zero_iff)
    ultimately show ?thesis by presburger
  qed
qed

lemma decimal_length:
  assumes "0 < n"
  shows "10 ^ (length (decimal n) - 1) \<le> int n" and "int n < 10 ^ length (decimal n)"
proof -
  from decimal_value [of n] assms obtain c ds where
    d: "decimal n = c # ds" "c \<noteq> 0x30" "list_all ascii_digit (c # ds)" "digits_value (c # ds) = int n"
    by auto
  from digits_value_lower [OF d(3,2)] d(1,4) show "10 ^ (length (decimal n) - 1) \<le> int n" by simp
  from digits_value_range [OF d(3)] d(1,4) show "int n < 10 ^ length (decimal n)" by simp
qed


section \<open>The integer of a text of digits and a decimal shift\<close>

lemma split_zeros:
  obtains zs core where "ds = zs @ core" "list_all (\<lambda>c. c = 0x30) zs"
    "length (takeWhile (\<lambda>c. c = 0x30) ds) = length zs" "core = [] \<or> hd core \<noteq> 0x30"
proof
  show "ds = takeWhile (\<lambda>c. c = 0x30) ds @ dropWhile (\<lambda>c. c = 0x30) ds" by simp
  show "list_all (\<lambda>c. c = 0x30) (takeWhile (\<lambda>c. c = 0x30) ds)"
    by (auto simp: list_all_iff dest: set_takeWhileD)
  show "dropWhile (\<lambda>c. c = 0x30) ds = [] \<or> hd (dropWhile (\<lambda>c. c = 0x30) ds) \<noteq> 0x30"
    using hd_dropWhile by blast
qed simp

text \<open>The last steps of the function, on a text without leading zeros.\<close>

lemma bounded_integer_iff:
  assumes "list_all ascii_digit ns" and "ns \<noteq> []" and "hd ns \<noteq> 0x30"
    and "0 < maximum" and "maximum < 2 ^ 63"
  shows "(if length (decimal (nat maximum)) < length ns then None else bounded_integer ns maximum)
    = (if digits_value ns \<le> maximum then Some (digits_value ns) else None)"
proof -
  obtain c cs where ns: "ns = c # cs" "c \<noteq> 0x30" using assms(2,3) by (cases ns) auto
  have low: "10 ^ (length ns - 1) \<le> digits_value ns"
    using digits_value_lower [of c cs] ns assms(1) by simp
  have pos: "0 < digits_value ns" using low by (rule less_le_trans [rotated]) simp
  have mx: "int (nat maximum) = maximum" "0 < nat maximum" using assms(4) by simp_all
  have high: "maximum < 10 ^ length (decimal (nat maximum))"
    using decimal_length(2) [OF mx(2)] mx(1) by simp
  show ?thesis
  proof (cases "length (decimal (nat maximum)) < length ns")
    case True
    then have "(10 :: int) ^ length (decimal (nat maximum)) \<le> 10 ^ (length ns - 1)"
      by (intro power_increasing) simp_all
    from less_le_trans [OF high order_trans [OF this low]] True show ?thesis by simp
  next
    case False
    have less: "length ns = length (decimal (nat maximum)) \<Longrightarrow>
        text_less (decimal (nat maximum)) ns \<longleftrightarrow> maximum < digits_value ns"
      using decimal_value [of "nat maximum"] mx assms(1) by (subst text_less_value) simp_all
    show ?thesis
      using False less pos assms(5) by (auto simp: bounded_integer_def digits_toLongLong_def Let_def)
  qed
qed

text \<open>The text the function builds denotes the kept digits, shifted.\<close>

lemma normalized_text:
  assumes "list_all ascii_digit ds" and "list_all (\<lambda>c. c = 0x30) zs" and "ds = zs @ core"
    and "core \<noteq> []" and "hd core \<noteq> 0x30" and "length zs < r" and "r \<le> length ds"
    and ns: "ns = take (r - length zs) (drop (length zs) ds) @ replicate a 0x30"
  shows "list_all ascii_digit ns" "ns \<noteq> []" "hd ns \<noteq> 0x30" "length ns = r - length zs + a"
    "digits_value ns = digits_value (take r ds) * 10 ^ a"
proof -
  have ns': "ns = take (r - length zs) core @ replicate a 0x30" using ns assms(3) by simp
  obtain c cs k where core: "core = c # cs" "c \<noteq> 0x30" "r - length zs = Suc k"
    using assms(4-6) by (cases core; cases "r - length zs") auto
  have tk: "take r ds = zs @ take (r - length zs) core" using assms(3,6) by simp
  show "list_all ascii_digit ns"
    using assms(1,3) unfolding ns' by (auto simp: list_all_iff ascii_digit_def dest: in_set_takeD)
  show "ns \<noteq> []" "hd ns \<noteq> 0x30" using core by (simp_all add: ns')
  show "length ns = r - length zs + a" using assms(3,6,7) by (simp add: ns')
  show "digits_value ns = digits_value (take r ds) * 10 ^ a"
    unfolding ns' digits_value_trailing tk digits_value_leading [OF assms(2)] ..
qed

lemma zeros_prefix:
  assumes "list_all (\<lambda>c. c = 0x30) zs" and "ds = zs @ core" and "core \<noteq> []" and "hd core \<noteq> 0x30"
    and "list_all (\<lambda>c. c = 0x30) (drop r ds)"
  shows "length zs < r"
proof (rule ccontr)
  assume "\<not> length zs < r"
  then have "hd core \<in> set (drop r ds)" using assms(2,3) by (cases core) auto
  with assms(4,5) show False by (auto simp: list_all_iff)
qed

lemma dvd_of_range: "0 < (y :: int) \<Longrightarrow> y < m \<Longrightarrow> x * m + y \<noteq> v * m"
  by (metis add.commute add_diff_cancel_right' dvd_triv_right dvd_diff zdvd_not_zless)

lemma integer_of_digits_iff:
  assumes ds: "list_all ascii_digit ds" and mx: "0 < maximum" "maximum < 2 ^ 63"
  shows "integer_of_digits ds shift maximum = Some v \<longleftrightarrow>
    0 < v \<and> v \<le> maximum \<and> digits_value ds * 10 ^ nat shift = v * 10 ^ nat (- shift)"
proof -
  define k a where "k = nat (- shift)" and "a = nat shift"
  have a: "nat (max shift 0) = a" by (simp add: a_def max_def)
  obtain zs core where z: "ds = zs @ core" "list_all (\<lambda>c. c = 0x30) zs"
    "length (takeWhile (\<lambda>c. c = 0x30) ds) = length zs" "core = [] \<or> hd core \<noteq> 0x30"
    by (rule split_zeros)
  have core: "list_all ascii_digit core" using ds z(1) by simp
  have val: "digits_value ds = digits_value core" unfolding z(1) using z(2) by (rule digits_value_leading)
  show ?thesis
  proof (cases "core = []")
    case True
    then have "integer_of_digits ds shift maximum = None" "digits_value ds = 0"
      using z val by (simp_all add: integer_of_digits_def)
    then show ?thesis by simp
  next
    case False
    with z(4) have hd_core: "hd core \<noteq> 0x30" by simp
    have pos: "0 < digits_value ds"
      using digits_value_zeros [OF core] digits_value_range [OF core] False hd_core val
      by (cases core) (auto simp: le_less)
    have start: "length zs \<noteq> length ds" using False z(1) by simp
    define r where "r = length ds - k"
    have unfolded: "integer_of_digits ds shift maximum =
        (if length ds < k \<or> \<not> list_all (\<lambda>c. c = 0x30) (drop r ds) then None
         else if int (length (decimal (nat maximum))) < int r - int (length zs) + int a then None
         else bounded_integer (take (r - length zs) (drop (length zs) ds) @ replicate a 0x30) maximum)"
      unfolding integer_of_digits_def Let_def z(3) a k_def [symmetric] r_def [symmetric] using start by simp
    have sum: "digits_value ds = digits_value (take r ds) * 10 ^ (length ds - r) + digits_value (drop r ds)"
      using digits_value_append [of "take r ds" "drop r ds"] by simp
    have gd: "list_all ascii_digit (drop r ds)" using ds by (auto simp: list_all_iff dest: in_set_dropD)
    consider (short) "length ds < k" | (lost) "k \<le> length ds" "\<not> list_all (\<lambda>c. c = 0x30) (drop r ds)"
      | (kept) "k \<le> length ds" "list_all (\<lambda>c. c = 0x30) (drop r ds)" by linarith
    then show ?thesis
    proof cases
      case short
      have "digits_value ds < 10 ^ k"
        by (rule order_less_trans [OF conjunct2 [OF digits_value_range [OF ds]]
              power_strict_increasing [OF short]]) simp
      moreover have "a = 0" using short by (simp add: k_def a_def)
      ultimately have "digits_value ds * 10 ^ a \<noteq> v * 10 ^ k"
        using pos dvd_of_range [of "digits_value ds" "10 ^ k" 0 v] by simp
      then show ?thesis using short unfolded by (simp add: k_def a_def)
    next
      case lost
      then have "0 < digits_value (drop r ds)" "digits_value (drop r ds) < 10 ^ k"
        using digits_value_range [OF gd] digits_value_zeros [OF gd] by (auto simp: le_less r_def)
      moreover have "k \<noteq> 0" using lost(2) by (cases "k = 0") (simp_all add: r_def)
      moreover have "length ds - r = k" using lost(1) by (simp add: r_def)
      moreover have "a = 0" using \<open>k \<noteq> 0\<close> by (simp add: k_def a_def)
      ultimately have "digits_value ds * 10 ^ a \<noteq> v * 10 ^ k"
        using sum dvd_of_range [of "digits_value (drop r ds)" "10 ^ k" "digits_value (take r ds)" v] by simp
      then show ?thesis using lost unfolded by (simp add: k_def a_def)
    next
      case kept
      have "length zs < r" using zeros_prefix [OF z(2,1) False hd_core kept(2)] .
      moreover have "r \<le> length ds" by (simp add: r_def)
      ultimately have ns: "list_all ascii_digit ns" "ns \<noteq> []" "hd ns \<noteq> 0x30" "length ns = r - length zs + a"
        "digits_value ns = digits_value (take r ds) * 10 ^ a"
        if "ns = take (r - length zs) (drop (length zs) ds) @ replicate a 0x30" for ns
        using normalized_text [OF ds z(2,1) False hd_core _ _ that] by blast+
      define ns where "ns = take (r - length zs) (drop (length zs) ds) @ replicate a 0x30"
      note n = ns [OF ns_def]
      have len: "int r - int (length zs) + int a = int (length ns)" using \<open>length zs < r\<close> n(4) by simp
      have "integer_of_digits ds shift maximum =
          (if length (decimal (nat maximum)) < length ns then None else bounded_integer ns maximum)"
        unfolding unfolded len ns_def [symmetric] using kept by simp
      also note bounded_integer_iff [OF n(1-3) mx]
      finally have "integer_of_digits ds shift maximum =
          (if digits_value ns \<le> maximum then Some (digits_value ns) else None)" .
      moreover have "digits_value ds = digits_value (take r ds) * 10 ^ k"
        using sum kept digits_value_zeros [OF gd] by (simp add: r_def)
      moreover have "0 < digits_value (take r ds)"
        using \<open>digits_value ds = digits_value (take r ds) * 10 ^ k\<close> pos by (simp add: zero_less_mult_iff)
      moreover have "a = 0 \<or> k = 0" by (simp add: k_def a_def) linarith
      ultimately show ?thesis using n(5) by (auto simp: k_def [symmetric] a_def [symmetric])
    qed
  qed
qed


section \<open>The rational a JSON number denotes\<close>

text \<open>
  A number text is a sign, an integer part, a fraction and an exponent of the JSON grammar; the
  exponent's value is a decimal number without any bound.
\<close>

definition exponent_value :: "qstring \<Rightarrow> int" where
  "exponent_value e =
     (case e of [] \<Rightarrow> 0
      | m # s \<Rightarrow> if s \<noteq> [] \<and> hd s = c_minus then - digits_value (tl s)
                 else if s \<noteq> [] \<and> hd s = c_plus then digits_value (tl s) else digits_value s)"

inductive number_denotes :: "qstring \<Rightarrow> rat \<Rightarrow> bool" where
  number_denotes: "m = [] \<or> m = [c_minus] \<Longrightarrow> json_int i \<Longrightarrow> json_frac f \<Longrightarrow> json_exp e \<Longrightarrow>
    number_denotes (m @ i @ f @ e)
      ((if m = [] then 1 else -1) * of_int (digits_value (i @ tl f))
        * 10 powi (exponent_value e - int (length (tl f))))"

lemma json_int_digits:
  assumes "json_int i"
  shows "list_all ascii_digit i" "i \<noteq> []" "hd i \<noteq> c_minus"
  using assms nonzero_digit by (auto simp: json_int_def ascii_digit_def)

lemma takeWhile_digits:
  assumes "list_all ascii_digit ds" and "r = [] \<or> \<not> ascii_digit (hd r)"
  shows "takeWhile ascii_digit (ds @ r) = ds"
  using assms by (induction ds) (cases r; auto)+

lemma saturated_digits:
  assumes "list_all ascii_digit ds" and "0 \<le> x" and "x \<le> ExponentSaturation"
  shows "saturated_exponent x ds = min ExponentSaturation (x * 10 ^ length ds + digits_value ds)"
  using assms
proof (induction ds arbitrary: x)
  case (Cons c ds)
  have d: "0 \<le> digit_of c" "digit_of c \<le> 9" using digit_of_range [of c] Cons.prems by auto
  have v: "0 \<le> digits_value ds" using digits_value_range [of ds] Cons.prems by auto
  have p: "(1 :: int) \<le> 10 ^ length ds" by simp
  let ?y = "x * 10 + digit_of c"
  have "saturated_exponent x (c # ds) = saturated_exponent (min ExponentSaturation ?y) ds"
    by (simp add: digit_of_def)
  also have "\<dots> = min ExponentSaturation (min ExponentSaturation ?y * 10 ^ length ds + digits_value ds)"
    using Cons.prems d by (intro Cons.IH) (simp_all add: ExponentSaturation_def)
  also have "\<dots> = min ExponentSaturation (?y * 10 ^ length ds + digits_value ds)"
  proof (cases "?y \<le> ExponentSaturation")
    case False
    have "ExponentSaturation * 1 \<le> ExponentSaturation * 10 ^ length ds"
      using p by (intro mult_left_mono) (simp_all add: ExponentSaturation_def)
    moreover have "ExponentSaturation * 10 ^ length ds \<le> ?y * 10 ^ length ds"
      using False by (intro mult_right_mono) simp_all
    ultimately have "ExponentSaturation * 1 \<le> ?y * 10 ^ length ds + digits_value ds"
      "ExponentSaturation * 1 \<le> ExponentSaturation * 10 ^ length ds + digits_value ds"
      using v by linarith+
    then show ?thesis using False by (simp add: min_absorb1)
  qed (simp add: min_def)
  finally show ?case by (simp add: digits_value_Cons algebra_simps)
qed (simp add: min_def)

lemma lexeme_exponent_value:
  assumes "json_exp e"
  shows "\<exists>n. (lexeme_exponent e = min ExponentSaturation n \<and> exponent_value e = n
      \<or> lexeme_exponent e = - min ExponentSaturation n \<and> exponent_value e = - n) \<and> 0 \<le> n"
proof (cases "e = []")
  case True
  then show ?thesis by (intro exI [of _ 0]) (simp add: lexeme_exponent_def exponent_value_def ExponentSaturation_def)
next
  case False
  with assms obtain x sign ds where e: "e = x # sign @ ds" "x = 0x65 \<or> x = 0x45"
    "sign = [] \<or> sign = [c_plus] \<or> sign = [c_minus]" "ds \<noteq> []" "list_all ascii_digit ds"
    by (auto simp: json_exp_def digits_def)
  have hd: "hd ds \<noteq> c_plus" "hd ds \<noteq> c_minus" using e(4,5) by (cases ds; auto simp: ascii_digit_def)+
  have "saturated_exponent 0 ds = min ExponentSaturation (digits_value ds)"
    using saturated_digits [OF e(5), of 0] by (simp add: ExponentSaturation_def)
  with e hd digits_value_range [OF e(5)] show ?thesis
    by (intro exI [of _ "digits_value ds"])
      (auto simp: lexeme_exponent_def exponent_value_def Let_def)
qed

text \<open>Beyond the saturation no positive number with so few digits is an integer of the range.\<close>

lemma huge_shift:
  fixes N v maximum u :: int
  assumes "0 < N" and "N < 10 ^ L" and "maximum < 10 ^ 19" and "19 \<le> u \<or> int L \<le> - u"
  shows "\<not> (0 < v \<and> v \<le> maximum \<and> N * 10 ^ nat u = v * 10 ^ nat (- u))"
proof (cases "19 \<le> u")
  case True
  then have "(10 :: int) ^ 19 \<le> 10 ^ nat u" by (intro power_increasing) auto
  moreover have "1 * 10 ^ nat u \<le> N * 10 ^ nat u" using assms(1) by (intro mult_right_mono) auto
  ultimately have "maximum < N * 10 ^ nat u" using assms(3) by linarith
  then show ?thesis using True by auto
next
  case False
  with assms(4) have u: "int L \<le> - u" by simp
  then have "(10 :: int) ^ L \<le> 10 ^ nat (- u)" by (intro power_increasing) auto
  then have "0 * 10 ^ nat (- u) + N \<noteq> v * 10 ^ nat (- u)"
    by (intro dvd_of_range assms(1) less_le_trans [OF assms(2)])
  then show ?thesis using u by simp
qed

lemma shift_powi:
  fixes N v :: int
  shows "N * 10 ^ nat s = v * 10 ^ nat (- s) \<longleftrightarrow> of_int N * 10 powi s = (of_int v :: rat)"
proof (cases "0 \<le> s")
  case True
  then have "of_int N * (10 :: rat) powi s = of_int (N * 10 ^ nat s)" by (simp add: power_int_nonneg_exp)
  then show ?thesis using True by (simp only: of_int_eq_iff) simp
next
  case False
  then have "(10 :: rat) powi s = inverse (10 ^ nat (- s))"
    using power_int_minus [of "10 :: rat" "- s"] by (simp add: power_int_nonneg_exp)
  then have "of_int N * 10 powi s = (of_int v :: rat) \<longleftrightarrow> (of_int N :: rat) = of_int (v * 10 ^ nat (- s))"
    by (simp only: divide_inverse [symmetric]) (simp add: divide_eq_eq)
  then show ?thesis using False by (simp only: of_int_eq_iff) simp
qed


lemma frac_digits:
  assumes "json_frac f"
  shows "list_all ascii_digit (tl f)" "f = [] \<or> f = c_dot # tl f"
  using assms by (auto simp: json_frac_def digits_def)

lemma exact_integer_parts:
  assumes "json_int i" and "json_frac f" and "json_exp e" and "0 < maximum"
  shows "manifestExactPositiveJsonInteger (i @ f @ e) maximum
    = integer_of_digits (i @ tl f) (lexeme_exponent e - int (length (tl f))) maximum"
proof -
  note i = json_int_digits [OF assms(1)] and f = frac_digits [OF assms(2)]
  have e: "e = [] \<or> \<not> ascii_digit (hd e) \<and> hd e \<noteq> c_dot"
    using assms(3) by (auto simp: json_exp_def ascii_digit_def)
  have fe: "f @ e = [] \<or> \<not> ascii_digit (hd (f @ e))"
  proof (cases "f = []")
    case False
    then have "hd (f @ e) = c_dot" using f(2) by (metis hd_append2 list.sel(1))
    then show ?thesis by (simp add: ascii_digit_def)
  qed (use e in auto)
  have whole: "takeWhile ascii_digit (i @ f @ e) = i" "dropWhile ascii_digit (i @ f @ e) = f @ e"
    using takeWhile_digits [OF i(1) fe] dropWhile_digits [OF i(1) fe] by simp_all
  have e': "e = [] \<or> \<not> ascii_digit (hd e)" using e by blast
  have part: "takeWhile ascii_digit (tl f @ e) = tl f" "dropWhile ascii_digit (tl f @ e) = e"
    using takeWhile_digits [OF f(1) e'] dropWhile_digits [OF f(1) e'] by simp_all
  have start: "i @ f @ e \<noteq> []" "hd (i @ f @ e) \<noteq> c_minus" using i(2,3) by simp_all
  show ?thesis
  proof (cases "f = []")
    case True
    with e start assms(4) whole show ?thesis
      by (auto simp: manifestExactPositiveJsonInteger_def Let_def simp del: append_eq_append_conv)
  next
    case False
    then obtain ds where f': "f = c_dot # ds" using f(2) by blast
    with start assms(4) whole part show ?thesis
      by (simp add: manifestExactPositiveJsonInteger_def Let_def)
  qed
qed

lemma digits_of_lexeme:
  assumes "json_int i" and "json_frac f"
  shows "list_all ascii_digit (i @ tl f)" "0 \<le> digits_value (i @ tl f)"
    "digits_value (i @ tl f) < 10 ^ length (i @ tl f)"
proof -
  show ds: "list_all ascii_digit (i @ tl f)" using json_int_digits [OF assms(1)] frac_digits [OF assms(2)] by simp
  show "0 \<le> digits_value (i @ tl f)" "digits_value (i @ tl f) < 10 ^ length (i @ tl f)"
    using digits_value_range [OF ds] by blast+
qed

text \<open>The saturated exponent and the true one give the same answer.\<close>

lemma saturated_shift:
  fixes N v maximum :: int
  assumes "0 \<le> N" and "N < 10 ^ L" and "maximum < 2 ^ 63" and "int L \<le> 1048576" and "int l \<le> int L"
    and n: "(x = min ExponentSaturation n \<and> y = n \<or> x = - min ExponentSaturation n \<and> y = - n) \<and> 0 \<le> n"
  shows "0 < v \<and> v \<le> maximum \<and> N * 10 ^ nat (x - int l) = v * 10 ^ nat (- (x - int l)) \<longleftrightarrow>
    0 < v \<and> v \<le> maximum \<and> N * 10 ^ nat (y - int l) = v * 10 ^ nat (- (y - int l))"
proof (cases "n \<le> ExponentSaturation \<or> N = 0")
  case True
  then consider "x = y" | "N = 0" using n by (auto simp: min_absorb2)
  then show ?thesis by cases auto
next
  case False
  then have x: "19 \<le> x - int l \<or> int L \<le> - (x - int l)" and y: "19 \<le> y - int l \<or> int L \<le> - (y - int l)"
    using n assms(4,5) by (auto simp: min_def ExponentSaturation_def)
  have "0 < N" "maximum < 10 ^ 19" using False assms(1,3) by simp_all
  from huge_shift [OF this(1) assms(2) this(2) x] huge_shift [OF this(1) assms(2) this(2) y]
  show ?thesis by blast
qed

text \<open>
  The exact reading of the manifest's numbers: for the text of a JSON number, up to the size of a
  manifest, and a maximum in the 64-bit range, the function returns v exactly when the rational the
  text denotes is the integer v with 0 < v \<le> maximum.  Spellings as 1.5e1 or 1500E-2 are read
  exactly, and no exponent, however large, wraps or saturates into the range.
\<close>

theorem exact_integer_iff:
  assumes "number_denotes lexeme q" and "length lexeme \<le> MaxManifestBytes" and "0 < maximum" and "maximum < 2 ^ 63"
  shows "manifestExactPositiveJsonInteger lexeme maximum = Some v \<longleftrightarrow> q = of_int v \<and> 0 < v \<and> v \<le> maximum"
  using assms(1)
proof cases
  case (number_denotes m i f e)
  define N where "N = digits_value (i @ tl f)"
  define s where "s = exponent_value e - int (length (tl f))"
  note d = digits_of_lexeme [OF number_denotes(4,5), folded N_def]
  have q: "q = (if m = [] then 1 else -1) * (of_int N * 10 powi s)"
    by (simp add: number_denotes(2) N_def s_def)
  show ?thesis
  proof (cases "m = []")
    case False
    then have "q \<le> 0" using q d(2) number_denotes(3) by simp
    moreover have "manifestExactPositiveJsonInteger lexeme maximum = None"
      using False number_denotes(1,3) by (auto simp: manifestExactPositiveJsonInteger_def)
    ultimately show ?thesis by auto
  next
    case True
    obtain n where n: "(lexeme_exponent e = min ExponentSaturation n \<and> exponent_value e = n
        \<or> lexeme_exponent e = - min ExponentSaturation n \<and> exponent_value e = - n) \<and> 0 \<le> n"
      using lexeme_exponent_value [OF number_denotes(6)] by blast
    have L: "int (length (i @ tl f)) \<le> 1048576" "int (length (tl f)) \<le> int (length (i @ tl f))"
      using assms(2) number_denotes(1) by (auto simp: MaxManifestBytes_def)
    have "manifestExactPositiveJsonInteger lexeme maximum
        = integer_of_digits (i @ tl f) (lexeme_exponent e - int (length (tl f))) maximum"
      using exact_integer_parts [OF number_denotes(4-6) assms(3)] True number_denotes(1) by simp
    also have "\<dots> = Some v \<longleftrightarrow> 0 < v \<and> v \<le> maximum \<and> N * 10 ^ nat s = v * 10 ^ nat (- s)"
      unfolding integer_of_digits_iff [OF d(1) assms(3,4)] N_def [symmetric] s_def
      by (rule saturated_shift [OF d(2,3) assms(4) L n])
    finally have "manifestExactPositiveJsonInteger lexeme maximum = Some v \<longleftrightarrow>
        0 < v \<and> v \<le> maximum \<and> N * 10 ^ nat s = v * 10 ^ nat (- s)" .
    then show ?thesis unfolding shift_powi using True q by auto
  qed
qed

definition example_number :: qstring where "example_number = qstr ''1.5e1''"

lemma example_number_denotes: "number_denotes example_number 15"
proof -
  have p: "json_int (qstr ''1'')" "json_frac (qstr ''.5'')"
    by (auto simp: json_int_def json_frac_def digits_def ascii_digit_def qstr_def)
  have e: "json_exp (qstr ''e1'')"
    by (auto simp: json_exp_def digits_def ascii_digit_def qstr_def
        intro: exI [where x = "[]"] exI [where x = "[0x31]"])
  from number_denotes [OF disjI1 [OF refl] p e] show ?thesis
    by (simp add: example_number_def qstr_def digits_value_def exponent_value_def)
qed

theorem exact_integer_iff_witness:
  "manifestExactPositiveJsonInteger example_number 384 = Some 15"
  using exact_integer_iff [OF example_number_denotes, of 384 15]
  by (simp add: MaxManifestBytes_def example_number_def)

end
