(* ===== verification/Manifest.thy ===== *)
theory Manifest
  imports Preflight Routes Json
begin

text \<open>
  The package manifest (\<open>runtime/package/Manifest.{h,cpp}\<close>): the checks of its JSON object in the order of
  the code, each with the list of errors it reports, and the record that is built when none is left.

  Qt's JSON parser, \<open>toUpper\<close>, \<open>QChar::isDigit\<close> and \<open>toInt\<close> are parameters, beside those of the
  preflight scan.  A document's member order is not kept by \<open>QJsonObject\<close>: it sorts its keys, as the
  reports of unknown fields do.
\<close>

record manifest_services = preflight_services +
  mf_fromJson :: "bytes \<Rightarrow> qjson option"
  mf_toUpper :: "qstring \<Rightarrow> qstring"
  mf_isDigit :: "qchar \<Rightarrow> bool"
  mf_toInt :: "qstring \<Rightarrow> int option"

record runtime_compatibility =
  minVersion :: qstring
  maxVersion :: qstring

record manifest_limits =
  packageBytes :: int
  memoryMiB :: int
  processes :: int

record manifest =
  schemaVersion :: int
  mf_appId :: qstring
  mf_version :: qstring
  mf_entryPoint :: qstring
  mf_runtime :: runtime_compatibility
  mf_imports :: "qstring list"
  mf_permissions :: manifest_permissions
  mf_limits :: manifest_limits
  mf_routes :: "qstring list"

definition MaxVersionCharacters :: int where "MaxVersionCharacters = 128"
definition MaxEntryPointCharacters :: int where "MaxEntryPointCharacters = 120"
definition MaxWindowsComponentUtf16Units :: nat where "MaxWindowsComponentUtf16Units = 240"
definition MaxImports :: int where "MaxImports = 32"
definition MaxNetworkHosts :: int where "MaxNetworkHosts = 64"
definition MaxNetworkMethods :: int where "MaxNetworkMethods = 3"
definition MaxRouteCharacters :: int where "MaxRouteCharacters = 2048"

section \<open>Shape of the object\<close>

definition stringList :: "qjson list \<Rightarrow> qstring list" where
  "stringList array = map (\<lambda>v. toString (Some v)) array"

definition member_path :: "string \<Rightarrow> string \<Rightarrow> qstring" where
  "member_path base key = qstr (base @ key)"

definition required_fields :: "string list" where
  "required_fields = [''schemaVersion'', ''appId'', ''version'', ''entryPoint'', ''runtime'', ''imports'',
     ''permissions'', ''limits'', ''routes'']"

definition missingRequiredFields :: "json_object \<Rightarrow> manifest_error list" where
  "missingRequiredFields object =
     map (\<lambda>key. manifest_failure MissingRequiredField (member_path ''$.'' key) ''required field is missing'')
       (filter (\<lambda>key. \<not> json_contains object key) required_fields)"

datatype json_kind = NumberKind | StringKind | ObjectKind | ArrayKind

fun hasKind :: "qjson option \<Rightarrow> json_kind \<Rightarrow> bool" where
  "hasKind v NumberKind = isDouble v"
| "hasKind v StringKind = isString v"
| "hasKind v ObjectKind = isObject v"
| "hasKind v ArrayKind = isArray v"

definition top_level_kinds :: "(string \<times> json_kind) list" where
  "top_level_kinds = [(''schemaVersion'', NumberKind), (''appId'', StringKind), (''version'', StringKind),
     (''entryPoint'', StringKind), (''runtime'', ObjectKind), (''imports'', ArrayKind),
     (''permissions'', ObjectKind), (''limits'', ObjectKind), (''routes'', ArrayKind)]"

definition wrongTopLevelTypes :: "json_object \<Rightarrow> manifest_error list" where
  "wrongTopLevelTypes object =
     map (\<lambda>(key, kind). manifest_failure WrongType (member_path ''$.'' key) ''field has the wrong JSON type'')
       (filter (\<lambda>(key, kind). json_contains object key \<and> \<not> hasKind (json_member object key) kind)
         top_level_kinds)"

definition appendUnknownFields :: "json_object \<Rightarrow> string list \<Rightarrow> string \<Rightarrow> manifest_error list" where
  "appendUnknownFields object allowed path =
     map (\<lambda>key. manifest_failure UnknownField (manifestJsonPathMember (qstr path) key) ''field is not allowed'')
       (filter (\<lambda>key. key \<notin> set (map qstr allowed)) (sorted_list_of_fset (fmdom object)))"

definition unknownFields :: "json_object \<Rightarrow> manifest_error list" where
  "unknownFields object =
     (let runtime = toObject (json_member object ''runtime'');
          permissions = toObject (json_member object ''permissions'');
          network = toObject (json_member permissions ''network'');
          limits = toObject (json_member object ''limits'')
      in appendUnknownFields object required_fields ''$''
         @ appendUnknownFields runtime [''minVersion'', ''maxVersion''] ''$.runtime''
         @ appendUnknownFields permissions [''network'', ''storage'', ''clipboardWrite'', ''clipboardRead'',
             ''fileOpen'', ''audioPlayback'', ''process''] ''$.permissions''
         @ appendUnknownFields network [''hosts'', ''methods''] ''$.permissions.network''
         @ appendUnknownFields limits [''packageBytes'', ''memoryMiB'', ''processes''] ''$.limits'')"

section \<open>Identity, runtime range and entry point\<close>

definition isValidAppId :: "qstring \<Rightarrow> bool" where
  "isValidAppId appId \<longleftrightarrow>
     (if 253 < length appId \<or> \<not> anchored appId_pattern appId then False
      else list_all (\<lambda>label. length label \<le> 63) (split_at 0x2E appId))"

definition isStrictSemVer :: "qstring \<Rightarrow> bool" where
  "isStrictSemVer version = anchored version_pattern version"

definition decimalIntegerIsGreater :: "qstring \<Rightarrow> qstring \<Rightarrow> bool" where
  "decimalIntegerIsGreater l r =
     (if length l \<noteq> length r then length r < length l else text_less r l)"

definition maximumPattern :: pattern where
  "maximumPattern = Seq [number_pattern, Lit 0x2E, Lit 0x78]"

definition runtime_shape :: "json_object \<Rightarrow> manifest_error list" where
  "runtime_shape runtime =
     concat (map (\<lambda>field.
       if \<not> json_contains runtime field
         then [manifest_failure MissingRequiredField (member_path ''$.runtime.'' field) ''required field is missing'']
       else if \<not> isString (json_member runtime field)
         then [manifest_failure WrongType (member_path ''$.runtime.'' field) ''field has the wrong JSON type'']
       else []) [''minVersion'', ''maxVersion''])"

definition validateRuntime :: "json_object \<Rightarrow> manifest_error list" where
  "validateRuntime runtime =
     (if runtime_shape runtime \<noteq> [] then runtime_shape runtime
      else
        let minimum = toString (json_member runtime ''minVersion'');
            maximum = toString (json_member runtime ''maxVersion'');
            errors =
              (if \<not> isStrictSemVer minimum
               then [manifest_failure InvalidSemanticVersion (qstr ''$.runtime.minVersion'')
                  ''minimum runtime must be strict semantic versioning''] else [])
              @ (if \<not> anchored maximumPattern maximum
                 then [manifest_failure InvalidRuntimeRange (qstr ''$.runtime.maxVersion'')
                    ''maximum runtime must use the N.x range form''] else []) in
        if errors = [] \<and> decimalIntegerIsGreater (take (nat (indexOf 0x2E minimum)) minimum)
             (take (nat (indexOf 0x2E maximum)) maximum)
        then [manifest_failure InvalidRuntimeRange (qstr ''$.runtime.maxVersion'')
           ''maximum runtime major cannot be below the minimum'']
        else errors)"

definition numberedDevices :: pattern where
  "numberedDevices = Then (Or (Text ''COM'') (Text ''LPT''))
     (Chars [(0x31, 0x39), (0xB9, 0xB9), (0xB2, 0xB2), (0xB3, 0xB3)])"

definition isWindowsDeviceSegment :: "manifest_services \<Rightarrow> qstring \<Rightarrow> bool" where
  "isWindowsDeviceSegment svc segment =
     (let extension = indexOf 0x2E segment;
          basename = (if extension < 0 then segment else take (nat extension) segment);
          basename = rev (dropWhile (\<lambda>c. c = 0x20 \<or> c = 0x2E) (rev basename));
          u = mf_toUpper svc basename in
      u \<in> set (map qstr [''CON'', ''PRN'', ''AUX'', ''NUL'', ''CLOCK$'']) \<or> anchored numberedDevices u)"

definition isUnicodeNoncharacter :: "nat \<Rightarrow> bool" where
  "isUnicodeNoncharacter codePoint \<longleftrightarrow> (0xFDD0 \<le> codePoint \<and> codePoint \<le> 0xFDEF)
     \<or> (codePoint \<le> 0x10FFFF \<and> 0xFFFE \<le> codePoint mod 0x10000)"

definition invalid_code_point :: "nat \<Rightarrow> bool" where
  "invalid_code_point codePoint \<longleftrightarrow>
     codePoint \<le> 0x1F \<or> (0x7F \<le> codePoint \<and> codePoint \<le> 0x9F) \<or> isUnicodeNoncharacter codePoint
     \<or> codePoint \<in> set (map of_char [CHR ''<'', CHR ''>'', CHR '':'', CHR 0x22, CHR ''/'', CHR 0x5C, CHR ''|'',
           CHR ''?'', CHR ''*'', CHR ''%'', CHR ''#''])"

definition surrogateToUcs4 :: "qchar \<Rightarrow> qchar \<Rightarrow> nat" where
  "surrogateToUcs4 high low = (unat high - 0xD800) * 0x400 + (unat low - 0xDC00) + 0x10000"

fun containsInvalidWindowsPathCharacter :: "qstring \<Rightarrow> bool" where
  "containsInvalidWindowsPathCharacter [] = False"
| "containsInvalidWindowsPathCharacter (c # s) =
     (if isHighSurrogate c then
        (case s of [] \<Rightarrow> True
         | d # t \<Rightarrow> if \<not> isLowSurrogate d then True
             else if invalid_code_point (surrogateToUcs4 c d) then True
             else containsInvalidWindowsPathCharacter t)
      else if isLowSurrogate c then True
      else if invalid_code_point (unat c) then True
      else containsInvalidWindowsPathCharacter s)"

definition valid_entry_segment :: "manifest_services \<Rightarrow> qstring \<Rightarrow> bool" where
  "valid_entry_segment svc segment \<longleftrightarrow>
     \<not> (MaxWindowsComponentUtf16Units < length segment \<or> segment = [] \<or> segment = qstr ''.''
        \<or> segment = qstr ''..'' \<or> endsWith (qstr ''.'') segment \<or> endsWith (qstr '' '') segment
        \<or> isWindowsDeviceSegment svc segment)
     \<and> \<not> containsInvalidWindowsPathCharacter segment"

definition isValidEntryPoint :: "manifest_services \<Rightarrow> qstring \<Rightarrow> bool" where
  "isValidEntryPoint svc path \<longleftrightarrow>
     (if path = [] \<or> startsWith (qstr ''/'') path \<or> startsWith [0x5C] path \<or> has_infix (qstr ''//'') path
         \<or> \<not> endsWith (qstr ''.qml'') path then False
      else list_all (valid_entry_segment svc) (split_at 0x2F path))"

section \<open>Imports and permissions\<close>

definition allowed_imports :: "qstring list" where
  "allowed_imports = map qstr [''QtQuick'', ''QtQuick.Controls'', ''QtQuick.Layouts'', ''Company.Design'',
     ''Company.Runtime'']"

fun import_errors :: "nat \<Rightarrow> qstring list \<Rightarrow> qjson list \<Rightarrow> manifest_error list" where
  "import_errors index seen [] = []"
| "import_errors index seen (v # vs) =
     (let path = item_path (qstr ''$.imports'') index; importName = toString (Some v) in
      if \<not> isString (Some v)
        then manifest_failure WrongType path ''import must be a string'' # import_errors (index + 1) seen vs
      else if importName \<in> set seen
        then manifest_failure DuplicateImport path ''import must be unique'' # import_errors (index + 1) seen vs
      else (if importName \<notin> set allowed_imports
            then [manifest_failure UnsupportedImport path ''import is not allowlisted''] else [])
           @ import_errors (index + 1) (importName # seen) vs)"

definition validateImports :: "qjson list \<Rightarrow> manifest_error list" where
  "validateImports imports = import_errors 0 [] imports"

definition constant_permission :: "json_object \<Rightarrow> string \<Rightarrow> string \<Rightarrow> manifest_error_code \<Rightarrow> string \<Rightarrow>
    manifest_error list" where
  "constant_permission permissions key expected code m =
     (let v = json_member permissions key in
      if v \<noteq> None \<and> (\<not> isString v \<or> toString v \<noteq> qstr expected)
      then [manifest_failure code (member_path ''$.permissions.'' key) m] else [])"

definition process_permission :: "json_object \<Rightarrow> manifest_error list" where
  "process_permission permissions =
     (let process = json_member permissions ''process'' in
      if process \<noteq> None then
        (if \<not> isBool process then [manifest_failure WrongType (qstr ''$.permissions.process'') ''process must be a boolean'']
         else if toBool process
           then [manifest_failure ProcessPermissionDenied (qstr ''$.permissions.process'')
             ''process permission cannot be enabled'']
         else [])
      else [])"

definition validatePermissionShape :: "json_object \<Rightarrow> manifest_error list" where
  "validatePermissionShape permissions =
     constant_permission permissions ''audioPlayback'' ''package-assets'' WrongType
       ''audioPlayback must be package-assets''
     @ (if json_member permissions ''network'' \<noteq> None \<and> \<not> isObject (json_member permissions ''network'')
        then [manifest_failure WrongType (qstr ''$.permissions.network'') ''network permission must be an object''] else [])
     @ constant_permission permissions ''storage'' ''app-private'' InvalidStoragePermission
         ''storage permission must be app-private''
     @ (if json_member permissions ''clipboardWrite'' \<noteq> None \<and> \<not> isBool (json_member permissions ''clipboardWrite'')
        then [manifest_failure WrongType (qstr ''$.permissions.clipboardWrite'') ''clipboardWrite must be a boolean'']
        else [])
     @ constant_permission permissions ''clipboardRead'' ''user-gesture'' InvalidClipboardReadPermission
         ''clipboardRead must be user-gesture''
     @ constant_permission permissions ''fileOpen'' ''user-brokered'' InvalidFileOpenPermission
         ''fileOpen must be user-brokered''
     @ process_permission permissions"

definition network_list_shape :: "json_object \<Rightarrow> string \<Rightarrow> manifest_error_code \<Rightarrow> string \<Rightarrow> string \<Rightarrow>
    manifest_error list" where
  "network_list_shape network key code not_array none_given =
     (let v = json_member network key; path = member_path ''$.permissions.network.'' key in
      if v = None then [manifest_failure MissingRequiredField path ''required field is missing'']
      else if \<not> isArray v then [manifest_failure WrongType path not_array]
      else if toArray v = [] then [manifest_failure code path none_given]
      else [])"

definition validateNetworkShape :: "json_object \<Rightarrow> manifest_error list" where
  "validateNetworkShape permissions =
     (if \<not> isObject (json_member permissions ''network'') then []
      else
        let network = toObject (json_member permissions ''network'') in
        network_list_shape network ''hosts'' InvalidNetworkHost ''network hosts must be an array''
          ''at least one network host is required''
        @ network_list_shape network ''methods'' UnsupportedNetworkMethod ''network methods must be an array''
          ''at least one network method is required'')"


section \<open>Network hosts and methods\<close>

definition mf_canonical_octet :: "manifest_services \<Rightarrow> qstring \<Rightarrow> bool" where
  "mf_canonical_octet svc part \<longleftrightarrow>
     \<not> (part = [] \<or> (1 < length part \<and> startsWith (qstr ''0'') part) \<or> \<not> list_all (mf_isDigit svc) part)
     \<and> (case mf_toInt svc part of None \<Rightarrow> False | Some octet \<Rightarrow> \<not> 255 < octet)"

definition mf_isCanonicalIpv4 :: "manifest_services \<Rightarrow> qstring \<Rightarrow> bool" where
  "mf_isCanonicalIpv4 svc host \<longleftrightarrow> (let parts = split_at 0x2E host in
     length parts = 4 \<and> list_all (mf_canonical_octet svc) parts)"

definition mf_isCanonicalHostname :: "qstring \<Rightarrow> bool" where
  "mf_isCanonicalHostname host \<longleftrightarrow>
     (let isPureNumeric = (host \<noteq> [] \<and> list_all digit_char host) in
      if isPureNumeric \<or> 253 < length host \<or> \<not> anchored hostname_pattern host then False
      else list_all (\<lambda>label. length label \<le> 63) (split_at 0x2E host))"

definition isCanonicalNetworkHost :: "manifest_services \<Rightarrow> qstring \<Rightarrow> bool" where
  "isCanonicalNetworkHost svc host \<longleftrightarrow>
     (if mf_isCanonicalIpv4 svc host then True else \<not> isLegacyIpv4Alias host \<and> mf_isCanonicalHostname host)"

fun host_errors :: "manifest_services \<Rightarrow> nat \<Rightarrow> qstring list \<Rightarrow> qjson list \<Rightarrow> manifest_error list" where
  "host_errors svc index seen [] = []"
| "host_errors svc index seen (v # vs) =
     (let path = item_path (qstr ''$.permissions.network.hosts'') index; host = toString (Some v) in
      if \<not> isString (Some v)
        then manifest_failure WrongType path ''network host must be a string'' # host_errors svc (index + 1) seen vs
      else if \<not> isCanonicalNetworkHost svc host
        then manifest_failure InvalidNetworkHost path
            ''network host must be an exact canonical hostname or IPv4 address''
          # host_errors svc (index + 1) seen vs
      else if host \<in> set seen
        then manifest_failure DuplicateNetworkHost path ''network host must be unique''
          # host_errors svc (index + 1) seen vs
      else host_errors svc (index + 1) (host # seen) vs)"

definition validateNetworkHosts :: "manifest_services \<Rightarrow> json_object \<Rightarrow> manifest_error list" where
  "validateNetworkHosts svc permissions =
     (let networkValue = json_member permissions ''network'';
          hostsValue = json_member (toObject networkValue) ''hosts'' in
      if \<not> isObject networkValue \<or> \<not> isArray hostsValue then []
      else host_errors svc 0 [] (toArray hostsValue))"

definition allowed_methods :: "qstring list" where
  "allowed_methods = map qstr [''GET'', ''POST'', ''PUT'', ''PATCH'']"

fun method_errors :: "nat \<Rightarrow> qstring list \<Rightarrow> qjson list \<Rightarrow> manifest_error list" where
  "method_errors index seen [] = []"
| "method_errors index seen (v # vs) =
     (let path = item_path (qstr ''$.permissions.network.methods'') index; method = toString (Some v) in
      if \<not> isString (Some v)
        then manifest_failure WrongType path ''network method must be a string'' # method_errors (index + 1) seen vs
      else if method \<notin> set allowed_methods
        then manifest_failure UnsupportedNetworkMethod path ''network method is not allowlisted''
          # method_errors (index + 1) seen vs
      else if method \<in> set seen
        then manifest_failure DuplicateNetworkMethod path ''network method must be unique''
          # method_errors (index + 1) seen vs
      else method_errors (index + 1) (method # seen) vs)"

definition validateNetworkMethods :: "json_object \<Rightarrow> manifest_error list" where
  "validateNetworkMethods permissions =
     (let networkValue = json_member permissions ''network'';
          methodsValue = json_member (toObject networkValue) ''methods'' in
      if \<not> isObject networkValue \<or> \<not> isArray methodsValue then []
      else method_errors 0 [] (toArray methodsValue))"

section \<open>Limits and resource bounds\<close>

definition limitDefinitions :: "(string \<times> int) list" where
  "limitDefinitions = [(''packageBytes'', 50 * 1024 * 1024), (''memoryMiB'', 384), (''processes'', 1)]"

definition limit_error :: "string \<Rightarrow> manifest_error" where
  "limit_error key = manifest_failure InvalidLimit (member_path ''$.limits.'' key)
     ''limit must be a positive integer within the host maximum''"

definition schema_error :: manifest_error where
  "schema_error = manifest_failure UnsupportedSchemaVersion (qstr ''$.schemaVersion'')
     ''only schema version 1 is supported''"

definition exact_at :: "preflight_result \<Rightarrow> qstring \<Rightarrow> int \<Rightarrow> int option option" where
  "exact_at p path maximum =
     map_option (\<lambda>lexeme. manifestExactPositiveJsonInteger lexeme maximum) (numberLexemes p path)"

definition exactNumberError :: "preflight_result \<Rightarrow> manifest_error option" where
  "exactNumberError p =
     (if exact_at p (qstr ''$.schemaVersion'') 1 = Some None then Some schema_error
      else map_option (\<lambda>(key, maximum). limit_error key)
        (find (\<lambda>(key, maximum). exact_at p (member_path ''$.limits.'' key) maximum = Some None)
          limitDefinitions))"

definition string_bounds :: "(qstring \<times> int) list" where
  "string_bounds = [(qstr ''$.version'', MaxVersionCharacters),
     (qstr ''$.runtime.minVersion'', MaxVersionCharacters), (qstr ''$.runtime.maxVersion'', MaxVersionCharacters),
     (qstr ''$.entryPoint'', MaxEntryPointCharacters)]"

definition array_bounds :: "(qstring \<times> int) list" where
  "array_bounds = [(qstr ''$.imports'', MaxImports), (qstr ''$.permissions.network.hosts'', MaxNetworkHosts),
     (qstr ''$.permissions.network.methods'', MaxNetworkMethods), (qstr ''$.routes'', MaxRoutes)]"

definition exceeds :: "(qstring \<Rightarrow> int option) \<Rightarrow> qstring \<times> int \<Rightarrow> bool" where
  "exceeds sizes b \<longleftrightarrow> (case sizes (fst b) of None \<Rightarrow> False | Some n \<Rightarrow> snd b < n)"

definition resourceBoundError :: "preflight_result \<Rightarrow> manifest_error option" where
  "resourceBoundError p =
     (case find (exceeds (stringLengths p)) string_bounds of
        Some (path, maximum) \<Rightarrow> Some (resource_error path)
      | None \<Rightarrow>
          (case find (exceeds (arraySizes p)) array_bounds of
             Some (path, maximum) \<Rightarrow> Some (resource_error path)
           | None \<Rightarrow>
               let routeCount = min (case arraySizes p (qstr ''$.routes'') of None \<Rightarrow> 0 | Some n \<Rightarrow> n) MaxRoutes in
               map_option (\<lambda>index. resource_error (item_path (qstr ''$.routes'') index))
                 (find (\<lambda>index. exceeds (stringLengths p) (item_path (qstr ''$.routes'') index, MaxRouteCharacters))
                   [0 ..< nat routeCount])))"

definition validateLimits :: "json_object \<Rightarrow> preflight_result \<Rightarrow> manifest_error list" where
  "validateLimits limits p =
     concat (map (\<lambda>(key, maximum).
       let path = member_path ''$.limits.'' key in
       if \<not> json_contains limits key then [manifest_failure MissingRequiredField path ''required field is missing'']
       else if \<not> isDouble (json_member limits key)
         then [manifest_failure WrongType path ''limit must be a JSON integer'']
       else (case exact_at p path maximum of Some (Some n) \<Rightarrow> [] | _ \<Rightarrow> [limit_error key]))
       limitDefinitions)"

section \<open>Routes\<close>

fun route_errors :: "nat \<Rightarrow> qstring \<Rightarrow> qstring \<Rightarrow> route_registry \<Rightarrow> qjson list \<Rightarrow> manifest_error list" where
  "route_errors index appId entry registry [] = []"
| "route_errors index appId entry registry (v # vs) =
     (let path = item_path (qstr ''$.routes'') index in
      if \<not> isString (Some v)
        then manifest_failure WrongType path ''route must be a string''
          # route_errors (index + 1) appId entry registry vs
      else
        let (registry, result) = add_route \<lparr>route_pattern = toString (Some v), route_engine = QmlWorker,
               packageId = appId, entryPoint = entry\<rparr> registry;
            rest = route_errors (index + 1) appId entry registry vs in
        (case result of
           Added \<Rightarrow> rest
         | DuplicateShape \<Rightarrow>
             manifest_failure DuplicateRoute path ''route conflicts with an earlier normalized shape'' # rest
         | _ \<Rightarrow> manifest_failure InvalidRoute path ''route pattern is invalid'' # rest))"

definition validateRoutes :: "qjson list \<Rightarrow> qstring \<Rightarrow> qstring \<Rightarrow> manifest_error list" where
  "validateRoutes routes appId entry =
     (if routes = []
      then [manifest_failure InvalidRoute (qstr ''$.routes'') ''at least one route is required'']
      else route_errors 0 appId entry [] routes)"

section \<open>Parsing\<close>

definition build_permissions :: "json_object \<Rightarrow> manifest_permissions" where
  "build_permissions permissions =
     (let network = toObject (json_member permissions ''network'') in
      \<lparr>perm_network = \<lparr>hosts = stringList (toArray (json_member network ''hosts'')),
         methods = stringList (toArray (json_member network ''methods''))\<rparr>,
       perm_storage = (if toString (json_member permissions ''storage'') = qstr ''app-private''
         then AppPrivate else StorageDisabled),
       perm_clipboardWrite = toBool (json_member permissions ''clipboardWrite''),
       perm_clipboardRead = (if toString (json_member permissions ''clipboardRead'') = qstr ''user-gesture''
         then UserGesture else ClipboardReadDisabled),
       perm_fileOpen = (if toString (json_member permissions ''fileOpen'') = qstr ''user-brokered''
         then UserBrokered else FileOpenDisabled),
       perm_audioPlayback = toString (json_member permissions ''audioPlayback'') = qstr ''package-assets''\<rparr>)"

definition exact_limit :: "preflight_result \<Rightarrow> string \<Rightarrow> int \<Rightarrow> int option" where
  "exact_limit p key maximum =
     manifestExactPositiveJsonInteger
       (case numberLexemes p (member_path ''$.limits.'' key) of None \<Rightarrow> [] | Some l \<Rightarrow> l) maximum"

definition build_manifest :: "json_object \<Rightarrow> preflight_result \<Rightarrow> manifest_error list + manifest" where
  "build_manifest object p =
     (let runtime = toObject (json_member object ''runtime'') in
      case exact_limit p ''packageBytes'' (50 * 1024 * 1024) of
        None \<Rightarrow> Inl [limit_error ''packageBytes'']
      | Some bs \<Rightarrow>
          (case exact_limit p ''memoryMiB'' 384 of
             None \<Rightarrow> Inl [limit_error ''memoryMiB'']
           | Some memory \<Rightarrow>
               (case exact_limit p ''processes'' 1 of
                  None \<Rightarrow> Inl [limit_error ''processes'']
                | Some procs \<Rightarrow> Inr
                    \<lparr>schemaVersion = 1,
                     mf_appId = toString (json_member object ''appId''),
                     mf_version = toString (json_member object ''version''),
                     mf_entryPoint = toString (json_member object ''entryPoint''),
                     mf_runtime = \<lparr>minVersion = toString (json_member runtime ''minVersion''),
                       maxVersion = toString (json_member runtime ''maxVersion'')\<rparr>,
                     mf_imports = stringList (toArray (json_member object ''imports'')),
                     mf_permissions = build_permissions (toObject (json_member object ''permissions'')),
                     mf_limits = \<lparr>packageBytes = bs, memoryMiB = memory, processes = procs\<rparr>,
                     mf_routes = stringList (toArray (json_member object ''routes''))\<rparr>)))"

text \<open>
  The checks on the object, in the code's order: the first that reports an error decides.
\<close>

fun first_errors :: "manifest_error list list \<Rightarrow> manifest_error list" where
  "first_errors [] = []"
| "first_errors (errors # rest) = (if errors \<noteq> [] then errors else first_errors rest)"

definition schema_errors :: "json_object \<Rightarrow> preflight_result \<Rightarrow> manifest_error list" where
  "schema_errors object p =
     (if isDouble (json_member object ''schemaVersion'')
         \<and> (case exact_at p (qstr ''$.schemaVersion'') 1 of Some (Some n) \<Rightarrow> False | _ \<Rightarrow> True)
      then [schema_error] else [])"

definition object_errors :: "manifest_services \<Rightarrow> json_object \<Rightarrow> preflight_result \<Rightarrow> manifest_error list" where
  "object_errors svc object p =
     (let permissions = toObject (json_member object ''permissions'');
          appId = toString (json_member object ''appId'');
          entry = toString (json_member object ''entryPoint'') in
      first_errors
        [missingRequiredFields object,
         wrongTopLevelTypes object,
         unknownFields object,
         schema_errors object p,
         if isValidAppId appId then []
           else [manifest_failure InvalidAppId (qstr ''$.appId'')
             ''application ID must be a lowercase reverse-DNS identifier''],
         if isStrictSemVer (toString (json_member object ''version'')) then []
           else [manifest_failure InvalidSemanticVersion (qstr ''$.version'') ''version must be strict semantic versioning''],
         validateRuntime (toObject (json_member object ''runtime'')),
         if isValidEntryPoint svc entry then []
           else [manifest_failure InvalidEntryPoint (qstr ''$.entryPoint'')
             ''entry point must be a normalized package-relative QML path''],
         validateImports (toArray (json_member object ''imports'')),
         validatePermissionShape permissions,
         validateNetworkShape permissions,
         validateNetworkHosts svc permissions,
         validateNetworkMethods permissions,
         validateLimits (toObject (json_member object ''limits'')) p,
         validateRoutes (toArray (json_member object ''routes'')) appId entry])"

definition parseManifest :: "manifest_services \<Rightarrow> bytes \<Rightarrow> manifest_error list + manifest" where
  "parseManifest svc bs =
     (if MaxManifestBytes < length bs then Inl [resource_error (qstr ''$'')]
      else (case preflightManifestJson (preflight_services.truncate svc) bs of
          Inl e \<Rightarrow> Inl [e]
        | Inr p \<Rightarrow>
            (case resourceBoundError p of
               Some e \<Rightarrow> Inl [e]
             | None \<Rightarrow>
                 (case mf_fromJson svc bs of
                    None \<Rightarrow> (case exactNumberError p of Some e \<Rightarrow> Inl [e] | None \<Rightarrow> Inl [syntax_error])
                  | Some document \<Rightarrow>
                      if \<not> isObject (Some document)
                        then Inl [manifest_failure RootNotObject (qstr ''$'') ''root must be an object'']
                      else
                        let object = toObject (Some document); errors = object_errors svc object p in
                        if errors \<noteq> [] then Inl errors else build_manifest object p))))"

fun manifestErrorCodeName :: "manifest_error_code \<Rightarrow> qstring" where
  "manifestErrorCodeName InvalidJson = qstr ''invalid_json''"
| "manifestErrorCodeName RootNotObject = qstr ''root_not_object''"
| "manifestErrorCodeName MissingRequiredField = qstr ''missing_required_field''"
| "manifestErrorCodeName UnknownField = qstr ''unknown_field''"
| "manifestErrorCodeName WrongType = qstr ''wrong_type''"
| "manifestErrorCodeName UnsupportedSchemaVersion = qstr ''unsupported_schema_version''"
| "manifestErrorCodeName InvalidAppId = qstr ''invalid_app_id''"
| "manifestErrorCodeName InvalidSemanticVersion = qstr ''invalid_semantic_version''"
| "manifestErrorCodeName InvalidRuntimeRange = qstr ''invalid_runtime_range''"
| "manifestErrorCodeName InvalidEntryPoint = qstr ''invalid_entry_point''"
| "manifestErrorCodeName UnsupportedImport = qstr ''unsupported_import''"
| "manifestErrorCodeName DuplicateImport = qstr ''duplicate_import''"
| "manifestErrorCodeName InvalidNetworkHost = qstr ''invalid_network_host''"
| "manifestErrorCodeName DuplicateNetworkHost = qstr ''duplicate_network_host''"
| "manifestErrorCodeName UnsupportedNetworkMethod = qstr ''unsupported_network_method''"
| "manifestErrorCodeName DuplicateNetworkMethod = qstr ''duplicate_network_method''"
| "manifestErrorCodeName ResourceLimitExceeded = qstr ''resource_limit_exceeded''"
| "manifestErrorCodeName InvalidStoragePermission = qstr ''invalid_storage_permission''"
| "manifestErrorCodeName InvalidClipboardReadPermission = qstr ''invalid_clipboard_read_permission''"
| "manifestErrorCodeName InvalidFileOpenPermission = qstr ''invalid_file_open_permission''"
| "manifestErrorCodeName ProcessPermissionDenied = qstr ''process_permission_denied''"
| "manifestErrorCodeName InvalidLimit = qstr ''invalid_limit''"
| "manifestErrorCodeName InvalidRoute = qstr ''invalid_route''"
| "manifestErrorCodeName DuplicateRoute = qstr ''duplicate_route''"

end
