(* ===== verification/ManifestProofs.thy ===== *)
theory ManifestProofs
  imports Manifest RouteProofs
begin

text \<open>
  What a parsed manifest promises to the rest of the runtime, and that a refused one always says why.
  Each check of the code is first turned into what it means for the values it lets through.
\<close>

section \<open>Lists of strings\<close>

lemma isString_value: "isString (Some v) \<longleftrightarrow> v = JString (toString (Some v))"
  by (cases v) auto

definition strings :: "qjson list \<Rightarrow> bool" where
  "strings vs \<longleftrightarrow> list_all (\<lambda>v. isString (Some v)) vs"

lemma strings_simps [simp]: "strings []" "strings (v # vs) \<longleftrightarrow> isString (Some v) \<and> strings vs"
  by (simp_all add: strings_def)

lemma stringList_simps [simp]: "stringList [] = []" "stringList (v # vs) = toString (Some v) # stringList vs"
  by (simp_all add: stringList_def)

lemma stringList_Nil [simp]: "stringList vs = [] \<longleftrightarrow> vs = []"
  by (simp add: stringList_def)

lemma length_stringList [simp]: "length (stringList vs) = length vs"
  by (simp add: stringList_def)

lemma import_errors_Nil:
  "import_errors i seen vs = [] \<Longrightarrow> strings vs \<and> set (stringList vs) \<subseteq> set allowed_imports
    \<and> distinct (stringList vs) \<and> set (stringList vs) \<inter> set seen = {}"
  by (induction i seen vs rule: import_errors.induct) (auto simp: Let_def split: if_splits)

lemma host_errors_Nil:
  "host_errors svc i seen vs = [] \<Longrightarrow> strings vs \<and> list_all (isCanonicalNetworkHost svc) (stringList vs)
    \<and> distinct (stringList vs) \<and> set (stringList vs) \<inter> set seen = {}"
  by (induction svc i seen vs rule: host_errors.induct) (auto simp: Let_def split: if_splits)

lemma method_errors_Nil:
  "method_errors i seen vs = [] \<Longrightarrow> strings vs \<and> set (stringList vs) \<subseteq> set allowed_methods
    \<and> distinct (stringList vs) \<and> set (stringList vs) \<inter> set seen = {}"
  by (induction i seen vs rule: method_errors.induct) (auto simp: Let_def split: if_splits)

definition worker_route :: "qstring \<Rightarrow> qstring \<Rightarrow> qstring \<Rightarrow> route_record" where
  "worker_route appId entry p =
     \<lparr>route_pattern = p, route_engine = QmlWorker, packageId = appId, entryPoint = entry\<rparr>"

lemma route_errors_Nil:
  "route_errors i appId entry registry vs = [] \<Longrightarrow>
    strings vs \<and> add_all (map (worker_route appId entry) (stringList vs)) registry \<noteq> None"
  by (induction i appId entry registry vs rule: route_errors.induct)
    (auto simp: Let_def worker_route_def split: if_splits prod.splits route_add_result.splits)

section \<open>A good manifest\<close>

text \<open>
  Two lists are absent together: a network permission has both or is not there at all.
\<close>

definition network_ok :: "manifest_services \<Rightarrow> network_permission \<Rightarrow> bool" where
  "network_ok svc n \<longleftrightarrow> (hosts n = [] \<longleftrightarrow> methods n = []) \<and> distinct (hosts n) \<and> distinct (methods n)
     \<and> list_all (isCanonicalNetworkHost svc) (hosts n) \<and> list_all (\<lambda>m. parseHttpMethod m \<noteq> None) (methods n)"

definition plain_segment :: "qstring \<Rightarrow> bool" where
  "plain_segment s \<longleftrightarrow> s \<noteq> [] \<and> s \<noteq> qstr ''.'' \<and> s \<noteq> qstr ''..'' \<and> length s \<le> 240
     \<and> last s \<noteq> 0x2E \<and> last s \<noteq> 0x20
     \<and> list_all (\<lambda>c. 0x20 \<le> c \<and> c \<notin> {0x2F, 0x5C, 0x3A, 0x25, 0x23, 0x3F, 0x2A, 0x7C, 0x3C, 0x3E, 0x22, 0x7F}) s"

definition entry_ok :: "manifest_services \<Rightarrow> qstring \<Rightarrow> bool" where
  "entry_ok svc path \<longleftrightarrow> endsWith (qstr ''.qml'') path \<and> list_all plain_segment (split_at 0x2F path)
     \<and> list_all (\<lambda>s. \<not> isWindowsDeviceSegment svc s) (split_at 0x2F path)"

definition manifest_ok :: "manifest_services \<Rightarrow> manifest \<Rightarrow> bool" where
  "manifest_ok svc m \<longleftrightarrow> schemaVersion m = 1 \<and> isValidAppId (mf_appId m) \<and> isStrictSemVer (mf_version m)
     \<and> isStrictSemVer (minVersion (mf_runtime m)) \<and> entry_ok svc (mf_entryPoint m)
     \<and> set (mf_imports m) \<subseteq> set allowed_imports \<and> distinct (mf_imports m)
     \<and> network_ok svc (perm_network (mf_permissions m))
     \<and> 0 < packageBytes (mf_limits m) \<and> packageBytes (mf_limits m) \<le> 52428800
     \<and> 0 < memoryMiB (mf_limits m) \<and> memoryMiB (mf_limits m) \<le> 384 \<and> processes (mf_limits m) = 1
     \<and> mf_routes m \<noteq> []
     \<and> add_all (map (worker_route (mf_appId m) (mf_entryPoint m)) (mf_routes m)) [] \<noteq> None"

section \<open>From the checks to the manifest\<close>

lemma first_errors_Nil: "first_errors ess = [] \<longleftrightarrow> list_all (\<lambda>es. es = []) ess"
  by (induction ess rule: first_errors.induct) auto

lemma invalid_path_characters:
  "\<not> containsInvalidWindowsPathCharacter s \<Longrightarrow> c \<in> set s \<Longrightarrow>
    0x20 \<le> c \<and> c \<notin> {0x2F, 0x5C, 0x3A, 0x25, 0x23, 0x3F, 0x2A, 0x7C, 0x3C, 0x3E, 0x22, 0x7F}"
proof (induction s rule: containsInvalidWindowsPathCharacter.induct)
  case (2 d s)
  have big: "0x20 \<le> x \<and> x \<notin> {0x2F, 0x5C, 0x3A, 0x25, 0x23, 0x3F, 0x2A, 0x7C, 0x3C, 0x3E, 0x22, 0x7F}"
    if "isHighSurrogate x \<or> isLowSurrogate x" for x :: qchar
    using that order_trans [of "0x20" "0xD800" x] order_trans [of "0x20" "0xDC00" x]
    by (auto simp: isHighSurrogate_def isLowSurrogate_def)
  have ok: "0x20 \<le> x \<and> x \<notin> {0x2F, 0x5C, 0x3A, 0x25, 0x23, 0x3F, 0x2A, 0x7C, 0x3C, 0x3E, 0x22, 0x7F}"
    if "\<not> invalid_code_point (unat x)" for x :: qchar
  proof -
    have "\<not> unat x \<le> 31" using that by (simp add: invalid_code_point_def)
    then have "0x20 \<le> x" by (simp add: word_le_nat_alt)
    moreover have "x \<notin> {0x2F, 0x5C, 0x3A, 0x25, 0x23, 0x3F, 0x2A, 0x7C, 0x3C, 0x3E, 0x22, 0x7F}"
      using that by (auto simp: invalid_code_point_def)
    ultimately show ?thesis by blast
  qed
  show ?case
    using "2.prems" "2.IH" big ok by (auto split: if_splits list.splits)
qed simp

lemma entry_segment_plain: "valid_entry_segment svc s \<Longrightarrow> plain_segment s \<and> \<not> isWindowsDeviceSegment svc s"
  using invalid_path_characters [of s]
  by (auto simp: valid_entry_segment_def plain_segment_def list_all_iff MaxWindowsComponentUtf16Units_def qstr_def)

lemma entry_point_ok: "isValidEntryPoint svc path \<Longrightarrow> entry_ok svc path"
  using entry_segment_plain
  by (auto simp: isValidEntryPoint_def entry_ok_def list_all_iff split: if_splits)

lemma bounded_integer_bounds: "bounded_integer s maximum = Some v \<Longrightarrow> 0 < v \<and> v \<le> maximum"
  unfolding bounded_integer_def Let_def by (simp split: if_splits option.splits)

lemma integer_of_digits_bounds: "integer_of_digits s shift maximum = Some v \<Longrightarrow> 0 < v \<and> v \<le> maximum"
  unfolding integer_of_digits_def Let_def by (simp add: bounded_integer_bounds split: if_splits)

lemma exact_bounds: "manifestExactPositiveJsonInteger l maximum = Some v \<Longrightarrow> 0 < v \<and> v \<le> maximum"
  unfolding manifestExactPositiveJsonInteger_def Let_def
  by (auto dest: integer_of_digits_bounds split: if_split_asm)

lemma member_object_None: "\<not> isObject v \<Longrightarrow> json_member (toObject v) k = None"
  by (cases v rule: toObject.cases) (auto simp: json_member_def)

lemma toArray_None: "\<not> isArray v \<Longrightarrow> toArray v = []"
  by (cases v rule: toArray.cases) auto

lemma allowed_method_parses: "m \<in> set allowed_methods \<Longrightarrow> parseHttpMethod m \<noteq> None"
  by (auto simp: allowed_methods_def parseHttpMethod_def)

lemma network_permission_ok:
  assumes shape: "validateNetworkShape permissions = []"
    and hosts: "validateNetworkHosts svc permissions = []"
    and methods: "validateNetworkMethods permissions = []"
  shows "network_ok svc (perm_network (build_permissions permissions))"
proof (cases "isObject (json_member permissions ''network'')")
  case False
  then show ?thesis
    by (simp add: build_permissions_def network_ok_def member_object_None toArray_None Let_def)
next
  case True
  define network where "network = toObject (json_member permissions ''network'')"
  from shape True have "isArray (json_member network ''hosts'')" "toArray (json_member network ''hosts'') \<noteq> []"
    "isArray (json_member network ''methods'')" "toArray (json_member network ''methods'') \<noteq> []"
    by (auto simp: validateNetworkShape_def network_list_shape_def network_def [symmetric] Let_def split: if_splits)
  moreover from this hosts True have "host_errors svc 0 [] (toArray (json_member network ''hosts'')) = []"
    by (simp add: validateNetworkHosts_def network_def [symmetric] Let_def)
  moreover from \<open>isArray (json_member network ''methods'')\<close> methods True
  have "method_errors 0 [] (toArray (json_member network ''methods'')) = []"
    by (simp add: validateNetworkMethods_def network_def [symmetric] Let_def)
  ultimately show ?thesis
    using host_errors_Nil [of svc 0 "[]" "toArray (json_member network ''hosts'')"]
      method_errors_Nil [of 0 "[]" "toArray (json_member network ''methods'')"] allowed_method_parses
    by (auto simp: network_ok_def build_permissions_def network_def [symmetric] Let_def list_all_iff)
qed

lemma build_manifest_ok:
  assumes errors: "object_errors svc object p = []" and m: "build_manifest object p = Inr m"
  shows "manifest_ok svc m"
proof -
  define appId entry permissions where "appId = toString (json_member object ''appId'')"
    and "entry = toString (json_member object ''entryPoint'')"
    and "permissions = toObject (json_member object ''permissions'')"
  note checks = errors [unfolded object_errors_def Let_def first_errors_Nil list.pred_inject,
      folded appId_def entry_def permissions_def]
  from m obtain bs memory procs where lim: "exact_limit p ''packageBytes'' (50 * 1024 * 1024) = Some bs"
    "exact_limit p ''memoryMiB'' 384 = Some memory" "exact_limit p ''processes'' 1 = Some procs"
    by (auto simp: build_manifest_def Let_def split: option.splits)
  have runtime: "isStrictSemVer (toString (json_member (toObject (json_member object ''runtime'')) ''minVersion''))"
    using checks by (auto simp: validateRuntime_def Let_def split: if_splits)
  have imps: "import_errors 0 [] (toArray (json_member object ''imports'')) = []"
    using checks by (simp add: validateImports_def)
  have routes: "toArray (json_member object ''routes'') \<noteq> []"
    "route_errors 0 appId entry [] (toArray (json_member object ''routes'')) = []"
    using checks by (auto simp: validateRoutes_def split: if_splits)
  have "network_ok svc (perm_network (build_permissions permissions))"
    using checks by (intro network_permission_ok) simp_all
  moreover have "isValidAppId appId" "isStrictSemVer (toString (json_member object ''version''))"
    "isValidEntryPoint svc entry" using checks by (simp_all split: if_splits)
  ultimately show ?thesis
    using m lim runtime import_errors_Nil [OF imps] route_errors_Nil [OF routes(2)] routes(1)
      exact_bounds [OF lim(1) [unfolded exact_limit_def]] exact_bounds [OF lim(2) [unfolded exact_limit_def]]
      exact_bounds [OF lim(3) [unfolded exact_limit_def]] entry_point_ok
    by (auto simp: manifest_ok_def build_manifest_def Let_def appId_def entry_def permissions_def)
qed


end
