(* ===== verification/ArchivePath.thy ===== *)
theory ArchivePath
  imports QtStrings "HOL-Library.List_Lexorder"
begin

text \<open>
  Paths inside a package (\<open>runtime/package/CanonicalArchivePath.{h,cpp}\<close>): what a stored name may
  be, the key under which two names collide on a file system that ignores case, and the collisions
  of a list of names, a file under another file included.

  UTF-8 decoding, NFC normalisation, upper case and case folding are Qt's and parameters.
\<close>

record archive_services =
  ap_decodeUtf8 :: "bytes \<Rightarrow> qstring option"
  ap_normalizedC :: "qstring \<Rightarrow> qstring"
  ap_toUpper :: "qstring \<Rightarrow> qstring"
  ap_toCaseFolded :: "qstring \<Rightarrow> qstring"

record archive_limits =
  maximumArchiveBytes :: "64 word"
  maximumEntries :: "64 word"
  maximumEntryBytes :: "64 word"
  maximumTotalBytes :: "64 word"
  maximumCompressionRatio :: "64 word"
  maximumPathBytes :: int
  maximumComponentBytes :: int
  maximumPathUtf16Units :: int
  maximumComponentUtf16Units :: int

definition defaultArchiveLimits :: archive_limits where
  "defaultArchiveLimits =
     \<lparr>maximumArchiveBytes = 64 * 1024 * 1024, maximumEntries = 512, maximumEntryBytes = 50 * 1024 * 1024,
      maximumTotalBytes = 50 * 1024 * 1024, maximumCompressionRatio = 100, maximumPathBytes = 512,
      maximumComponentBytes = 255, maximumPathUtf16Units = 240, maximumComponentUtf16Units = 120\<rparr>"

section \<open>One path\<close>

record checked_archive_path =
  collisionKey :: qstring
  isCanonical :: bool

definition isWindowsDeviceName :: "archive_services \<Rightarrow> qstring \<Rightarrow> bool" where
  "isWindowsDeviceName svc component \<longleftrightarrow>
     (let base = ap_toUpper svc (takeWhile (\<lambda>c. c \<noteq> 0x2E) component) in
      if base \<in> set (map qstr [''CON'', ''PRN'', ''AUX'', ''NUL'', ''CLOCK$'']) then True
      else if length base = 4 \<and> (startsWith (qstr ''COM'') base \<or> startsWith (qstr ''LPT'') base)
        then (let suffix = last base in
          (0x31 \<le> suffix \<and> suffix \<le> 0x39) \<or> suffix = 0xB9 \<or> suffix = 0xB2 \<or> suffix = 0xB3)
      else False)"

definition reserved_characters :: qstring where
  "reserved_characters = qstr [CHR ''<'', CHR ''>'', CHR '':'', CHR 0x22, CHR ''|'', CHR ''?'', CHR ''*'']"

definition valid_component :: "archive_services \<Rightarrow> archive_limits \<Rightarrow> bytes \<Rightarrow> qstring \<Rightarrow> bool" where
  "valid_component svc limits raw component \<longleftrightarrow>
     \<not> (raw = [] \<or> maximumComponentBytes limits < int (length raw) \<or> component = []
        \<or> maximumComponentUtf16Units limits < int (length component)
        \<or> component = qstr ''.'' \<or> component = qstr ''..''
        \<or> endsWith (qstr ''.'') component \<or> endsWith (qstr '' '') component
        \<or> isWindowsDeviceName svc component)
     \<and> list_all (\<lambda>c. \<not> (c < 0x20 \<or> c \<in> set reserved_characters)) component"

definition validateArchivePath :: "archive_services \<Rightarrow> archive_limits \<Rightarrow> bytes \<Rightarrow> checked_archive_path option" where
  "validateArchivePath svc limits path =
     (if path = [] \<or> maximumPathBytes limits < int (length path) \<or> 0 \<in> set path \<or> 0x5C \<in> set path
         \<or> hd path = 0x2F then None
      else (case ap_decodeUtf8 svc path of
          None \<Rightarrow> None
        | Some decoded \<Rightarrow>
            if decoded = [] \<or> maximumPathUtf16Units limits < int (length decoded) then None
            else
              let normalized = ap_normalizedC svc decoded;
                  rawComponents = split_at 0x2F path;
                  components = split_at 0x2F decoded in
              if length rawComponents \<noteq> length components then None
              else if \<not> list_all (\<lambda>(raw, component). valid_component svc limits raw component)
                (zip rawComponents components) then None
              else Some \<lparr>collisionKey = ap_toCaseFolded svc normalized, isCanonical = (normalized = decoded)\<rparr>))"

section \<open>Order and collisions\<close>

text \<open>\<open>memcmp\<close> over the common length, then the lengths.\<close>

fun memcmp :: "bytes \<Rightarrow> bytes \<Rightarrow> int" where
  "memcmp (a # l) (b # r) = (if a < b then -1 else if b < a then 1 else memcmp l r)"
| "memcmp _ _ = 0"

definition archivePathBytewiseLess :: "bytes \<Rightarrow> bytes \<Rightarrow> bool" where
  "archivePathBytewiseLess l r \<longleftrightarrow>
     (let common = min (length l) (length r); comparison = memcmp (take common l) (take common r) in
      comparison < 0 \<or> (comparison = 0 \<and> length l < length r))"

record archive_collision_path =
  cp_key :: qstring
  cp_path :: bytes
  cp_isCanonical :: bool

text \<open>The first loop: the first path of every key, and a candidate for every repeated key.\<close>

fun repeated_keys :: "(qstring \<times> bytes) list \<Rightarrow> archive_collision_path list \<Rightarrow> bytes list" where
  "repeated_keys firstPathByKey [] = []"
| "repeated_keys firstPathByKey (p # ps) =
     (case map_of firstPathByKey (cp_key p) of
        Some existing \<Rightarrow>
          (if archivePathBytewiseLess existing (cp_path p) then cp_path p else existing)
            # repeated_keys firstPathByKey ps
      | None \<Rightarrow> repeated_keys ((cp_key p, cp_path p) # firstPathByKey) ps)"

text \<open>The second loop: a separator before which the key is another path's key.\<close>

definition below_other_key :: "qstring list \<Rightarrow> qstring \<Rightarrow> bool" where
  "below_other_key keys key \<longleftrightarrow>
     list_ex (\<lambda>separator. key ! separator = 0x2F \<and> take separator key \<in> set keys) [0 ..< length key]"

definition min_path :: "bytes list \<Rightarrow> bytes" where
  "min_path candidates =
     foldl (\<lambda>best p. if archivePathBytewiseLess p best then p else best) (hd candidates) (tl candidates)"

definition findArchivePathCollision :: "archive_collision_path list \<Rightarrow> bytes option" where
  "findArchivePathCollision paths =
     (let keys = map cp_key paths;
          candidates = repeated_keys [] paths
            @ map cp_path (filter (\<lambda>p. below_other_key keys (cp_key p)) paths) in
      if candidates = [] then None else Some (min_path candidates))"

definition firstNonCanonicalArchivePath :: "archive_collision_path list \<Rightarrow> bytes option" where
  "firstNonCanonicalArchivePath paths =
     foldl (\<lambda>result p.
       if \<not> cp_isCanonical p \<and> (result = None \<or> archivePathBytewiseLess (cp_path p) (the result))
       then Some (cp_path p) else result) None paths"

section \<open>Collisions\<close>

lemma memcmp_lexord:
  "length l = length r \<Longrightarrow> (memcmp l r < 0 \<longleftrightarrow> l < r) \<and> (memcmp l r = 0 \<longleftrightarrow> l = r)"
  by (induction l r rule: list_induct2) auto

lemma less_take_less:
  fixes l r :: "'a::linorder list"
  assumes "n = min (length l) (length r)"
  shows "l < r \<longleftrightarrow> take n l < take n r \<or> (take n l = take n r \<and> length l < length r)"
  using assms
proof (induction l r arbitrary: n rule: list_induct2')
  case (4 a l b r)
  then show ?case by (cases n) auto
qed (auto simp: min_def)

text \<open>The order of the code is the lexicographic order of the bytes.\<close>

lemma bytewiseLess_iff [simp]: "archivePathBytewiseLess l r \<longleftrightarrow> l < r"
proof -
  let ?n = "min (length l) (length r)"
  have "length (take ?n l) = length (take ?n r)" by simp
  from memcmp_lexord [OF this] less_take_less [of ?n l r] show ?thesis
    by (auto simp: archivePathBytewiseLess_def Let_def)
qed

lemma repeated_keys_Nil:
  "repeated_keys seen ps = [] \<longleftrightarrow>
    distinct (map cp_key ps) \<and> set (map cp_key ps) \<inter> fst ` set seen = {}"
  by (induction seen ps rule: repeated_keys.induct) (auto split: option.splits simp: map_of_eq_None_iff, metis map_of_eq_None_iff option.distinct(1))

lemma below_other_key_iff: "below_other_key keys key \<longleftrightarrow> (\<exists>k\<in>set keys. \<exists>t. key = k @ 0x2F # t)"
proof
  assume "below_other_key keys key"
  then obtain i where i: "i < length key" "key ! i = 0x2F" "take i key \<in> set keys"
    by (auto simp: below_other_key_def list_ex_iff)
  then have "key = take i key @ 0x2F # drop (Suc i) key" using id_take_nth_drop [of i key] by simp
  with i(3) show "\<exists>k\<in>set keys. \<exists>t. key = k @ 0x2F # t" by blast
next
  assume "\<exists>k\<in>set keys. \<exists>t. key = k @ 0x2F # t"
  then obtain k t where k: "k \<in> set keys" "key = k @ 0x2F # t" by blast
  then have "length k < length key" "key ! length k = 0x2F" "take (length k) key = k" by simp_all
  with k(1) show "below_other_key keys key" by (force simp: below_other_key_def list_ex_iff)
qed

text \<open>
  Names that can be files of one tree on a file system that identifies names with the same key: all
  keys differ, and none is a directory of another.
\<close>

definition one_tree :: "qstring list \<Rightarrow> bool" where
  "one_tree keys \<longleftrightarrow> distinct keys \<and> (\<forall>k\<in>set keys. \<forall>l\<in>set keys. \<not> (\<exists>t. k = l @ 0x2F # t))"

lemma no_collision: "findArchivePathCollision paths = None \<longleftrightarrow> one_tree (map cp_key paths)"
  by (auto simp: findArchivePathCollision_def one_tree_def Let_def repeated_keys_Nil filter_empty_conv
      below_other_key_iff)

lemma firstNonCanonical_None:
  "firstNonCanonicalArchivePath paths = None \<longleftrightarrow> list_all cp_isCanonical paths"
proof -
  have "foldl (\<lambda>result p.
       if \<not> cp_isCanonical p \<and> (result = None \<or> archivePathBytewiseLess (cp_path p) (the result))
       then Some (cp_path p) else result) r paths = None \<longleftrightarrow> r = None \<and> list_all cp_isCanonical paths" for r
    by (induction paths arbitrary: r) auto
  then show ?thesis by (simp add: firstNonCanonicalArchivePath_def)
qed

end
