(* ===== verification/ContentDigest.thy ===== *)
theory ContentDigest
  imports ArchivePath "HOL-Library.Multiset"
begin

text \<open>
  The digests of a package (\<open>runtime/package/ContentDigest.{h,cpp}\<close>): the byte stream that is hashed,
  over the files in the order of their paths, for the payload and for what is signed, and the check
  of the digest a package carries.  SHA-256 and the hexadecimal text of its value are parameters.
\<close>

record archive_file =
  file_path :: bytes
  file_contents :: bytes

datatype digest_error_code = DigestNone | DigestInvalidPath | DigestDuplicatePath | MissingMetadata
  | InvalidMetadata | DigestMismatch

record content_digest_error =
  digest_error_code :: digest_error_code
  digest_error_path :: bytes
  digest_error_message :: string

definition digest_failure :: "digest_error_code \<Rightarrow> bytes \<Rightarrow> string \<Rightarrow> content_digest_error" where
  "digest_failure code path m =
     \<lparr>digest_error_code = code, digest_error_path = path, digest_error_message = m\<rparr>"

definition PayloadDomain :: bytes where "PayloadDomain = ascii_bytes ''Q-Browser qapkg payload v1'' @ [0]"
definition SignedDomain :: bytes where "SignedDomain = ascii_bytes ''Q-Browser qapkg signed v1'' @ [0]"
definition ContentPath :: bytes where "ContentPath = ascii_bytes ''metadata/content.sha256''"
definition SignaturePath :: bytes where "SignaturePath = ascii_bytes ''metadata/signature.ed25519''"

definition length_bytes :: "64 word \<Rightarrow> bytes" where
  "length_bytes n = map (\<lambda>k. ucast (drop_bit k n)) [56, 48, 40, 32, 24, 16, 8, 0]"

text \<open>The loop over the files: a path that is not canonical stops it.\<close>

fun digest_paths :: "archive_services \<Rightarrow> archive_file list \<Rightarrow>
    content_digest_error + archive_collision_path list" where
  "digest_paths svc [] = Inr []"
| "digest_paths svc (f # fs) =
     (let invalid = digest_failure DigestInvalidPath (file_path f) ''digest path is invalid'' in
      case validateArchivePath svc defaultArchiveLimits (file_path f) of
        None \<Rightarrow> Inl invalid
      | Some checked \<Rightarrow>
          if \<not> isCanonical checked then Inl invalid
          else (case digest_paths svc fs of
              Inl e \<Rightarrow> Inl e
            | Inr paths \<Rightarrow>
                Inr (\<lparr>cp_key = collisionKey checked, cp_path = file_path f, cp_isCanonical = True\<rparr> # paths)))"

definition digest_includes :: "bool \<Rightarrow> archive_file \<Rightarrow> bool" where
  "digest_includes payload f \<longleftrightarrow> \<not> (file_path f = SignaturePath \<or> (payload \<and> file_path f = ContentPath))"

definition file_record :: "archive_file \<Rightarrow> bytes" where
  "file_record f = length_bytes (word_of_nat (length (file_path f))) @ file_path f
     @ length_bytes (word_of_nat (length (file_contents f))) @ file_contents f"

definition digest_stream :: "archive_services \<Rightarrow> archive_file list \<Rightarrow> bool \<Rightarrow> content_digest_error + bytes" where
  "digest_stream svc files payload =
     (case digest_paths svc files of
        Inl e \<Rightarrow> Inl e
      | Inr paths \<Rightarrow>
          (case findArchivePathCollision paths of
             Some collision \<Rightarrow> Inl (digest_failure DigestDuplicatePath collision ''digest path is duplicated'')
           | None \<Rightarrow>
               let included = sort_key file_path (filter (digest_includes payload) files) in
               Inr ((if payload then PayloadDomain else SignedDomain) @ concat (map file_record included))))"

record digest_services = archive_services +
  ds_sha256 :: "bytes \<Rightarrow> bytes"
  ds_toHex :: "bytes \<Rightarrow> bytes"

definition calculate :: "digest_services \<Rightarrow> archive_file list \<Rightarrow> bool \<Rightarrow> content_digest_error + bytes" where
  "calculate svc files payload =
     map_sum id (ds_sha256 svc) (digest_stream (archive_services.truncate svc) files payload)"

definition payload_digest :: "digest_services \<Rightarrow> archive_file list \<Rightarrow> content_digest_error + bytes" where
  "payload_digest svc files = calculate svc files True"

definition signedPackage :: "digest_services \<Rightarrow> archive_file list \<Rightarrow> content_digest_error + bytes" where
  "signedPackage svc files = calculate svc files False"

definition hex_byte :: "byte \<Rightarrow> bool" where
  "hex_byte c \<longleftrightarrow> (0x30 \<le> c \<and> c \<le> 0x39) \<or> (0x61 \<le> c \<and> c \<le> 0x66)"

definition validatePayload :: "digest_services \<Rightarrow> archive_file list \<Rightarrow> content_digest_error + bytes" where
  "validatePayload svc files =
     (case find (\<lambda>f. file_path f = ContentPath) files of
        None \<Rightarrow> Inl (digest_failure MissingMetadata ContentPath ''content digest is missing'')
      | Some metadata \<Rightarrow>
          if length (file_contents metadata) \<noteq> 64 \<or> \<not> list_all hex_byte (file_contents metadata)
            then Inl (digest_failure InvalidMetadata ContentPath ''content digest metadata is invalid'')
          else (case payload_digest svc files of
              Inl e \<Rightarrow> Inl e
            | Inr digest \<Rightarrow>
                if file_contents metadata \<noteq> ds_toHex svc digest
                then Inl (digest_failure DigestMismatch ContentPath ''content digest does not match'')
                else Inr digest))"

section \<open>The stream determines the files\<close>

lemma length_length_bytes [simp]: "length (length_bytes n) = 8"
  by (simp add: length_bytes_def)

lemma length_bytes_inject: "length_bytes m = length_bytes n \<Longrightarrow> m = n"
proof -
  assume "length_bytes m = length_bytes n"
  then have eq: "\<forall>k\<in>{56, 48, 40, 32, 24, 16, 8, 0}. (ucast (drop_bit k m) :: byte) = ucast (drop_bit k n)"
    by (simp add: length_bytes_def)
  show "m = n"
  proof (rule bit_word_eqI)
    fix i
    assume i: "i < LENGTH(64)"
    define k where "k = 8 * (i div 8)"
    have k: "k \<in> {56, 48, 40, 32, 24, 16, 8, 0}" "k \<le> i" "i - k < 8"
      using i by (auto simp: k_def)
    then have "bit (ucast (drop_bit k m) :: byte) (i - k) = bit (ucast (drop_bit k n) :: byte) (i - k)"
      using eq by (simp only:)
    with k(2,3) show "bit m i = bit n i" by (simp add: bit_ucast_iff bit_drop_bit_eq)
  qed
qed

definition sizes_fit :: "archive_file \<Rightarrow> bool" where
  "sizes_fit f \<longleftrightarrow> length (file_path f) < 2 ^ 64 \<and> length (file_contents f) < 2 ^ 64"

lemma word_of_nat_length_inject:
  "word_of_nat m = (word_of_nat n :: 64 word) \<Longrightarrow> m < 2 ^ 64 \<Longrightarrow> n < 2 ^ 64 \<Longrightarrow> m = n"
  by (simp add: word_of_nat_eq_iff take_bit_nat_eq_self)

lemma length_prefixed_inject:
  assumes "length_bytes (word_of_nat (length a)) @ a @ r = length_bytes (word_of_nat (length b)) @ b @ s"
    and "length a < 2 ^ 64" and "length b < 2 ^ 64"
  shows "a = b \<and> r = s"
proof -
  from assms(1) have "length_bytes (word_of_nat (length a)) = length_bytes (word_of_nat (length b))"
    and rest: "a @ r = b @ s" by (simp_all add: append_eq_append_conv)
  then have "length a = length b"
    using word_of_nat_length_inject [OF length_bytes_inject] assms(2,3) by blast
  with rest show ?thesis by simp
qed

lemma file_record_inject:
  assumes "file_record f @ r = file_record g @ s" and "sizes_fit f" and "sizes_fit g"
  shows "f = g \<and> r = s"
proof -
  from assms have "file_path f = file_path g \<and>
      length_bytes (word_of_nat (length (file_contents f))) @ file_contents f @ r
      = length_bytes (word_of_nat (length (file_contents g))) @ file_contents g @ s"
    by (intro length_prefixed_inject) (simp_all add: file_record_def sizes_fit_def)
  moreover from this have "file_contents f = file_contents g \<and> r = s"
    using assms(2,3) by (intro length_prefixed_inject) (simp_all add: sizes_fit_def)
  ultimately show ?thesis by simp
qed

lemma file_record_Nil [simp]: "file_record f \<noteq> []"
  by (simp add: file_record_def flip: length_0_conv)

lemma file_records_inject:
  "concat (map file_record fs) = concat (map file_record gs) \<Longrightarrow> list_all sizes_fit fs \<Longrightarrow>
    list_all sizes_fit gs \<Longrightarrow> fs = gs"
proof (induction fs gs rule: list_induct2')
  case (4 f fs g gs)
  then show ?case using file_record_inject [of f "concat (map file_record fs)" g "concat (map file_record gs)"]
    by simp
qed simp_all

lemma domains_differ: "PayloadDomain @ r \<noteq> SignedDomain @ s"
  by (simp add: PayloadDomain_def SignedDomain_def ascii_bytes_def)

lemma digest_paths_keys:
  "digest_paths svc files = Inr paths \<Longrightarrow> map cp_path paths = map file_path files"
  by (induction files arbitrary: paths) (auto simp: Let_def split: option.splits if_splits sum.splits)

lemma digest_paths_key_of:
  "digest_paths svc files = Inr paths \<Longrightarrow>
    map cp_key paths = map (\<lambda>f. collisionKey (the (validateArchivePath svc defaultArchiveLimits (file_path f)))) files"
  by (induction files arbitrary: paths) (auto simp: Let_def split: option.splits if_splits sum.splits)

lemma digest_stream_distinct:
  assumes "digest_stream svc files payload = Inr s"
  shows "distinct (map file_path files)"
proof -
  from assms obtain paths where p: "digest_paths svc files = Inr paths" "findArchivePathCollision paths = None"
    by (auto simp: digest_stream_def split: sum.splits option.splits)
  from p(2) have "one_tree (map cp_key paths)" by (simp add: no_collision)
  then have "distinct (map cp_key paths)" by (simp add: one_tree_def)
  then show ?thesis
    unfolding digest_paths_key_of [OF p(1)]
    by (auto simp: distinct_map inj_on_def)
qed

lemma digest_stream_Inr:
  assumes "digest_stream svc files payload = Inr s"
  shows "s = (if payload then PayloadDomain else SignedDomain)
      @ concat (map file_record (sort_key file_path (filter (digest_includes payload) files)))"
  using assms by (auto simp: digest_stream_def Let_def split: sum.splits option.splits)

lemma sorted_files_eq:
  assumes "mset fs = mset gs" and "distinct (map file_path fs)"
  shows "sort_key file_path fs = sort_key file_path gs"
  using assms by (intro sort_key_inj_key_eq) (simp_all add: distinct_map)

lemma streams_same_files:
  assumes "digest_stream svc files payload = Inr s" and "digest_stream svc' others payload = Inr s"
    and "list_all sizes_fit files" and "list_all sizes_fit others"
  shows "mset (filter (digest_includes payload) files) = mset (filter (digest_includes payload) others)"
    (is "mset ?fs = mset ?gs")
proof -
  have "concat (map file_record (sort_key file_path ?fs)) = concat (map file_record (sort_key file_path ?gs))"
    using digest_stream_Inr [OF assms(1)] digest_stream_Inr [OF assms(2)] by simp
  then have "sort_key file_path ?fs = sort_key file_path ?gs"
    using assms(3,4) by (intro file_records_inject) (simp_all add: list_all_iff)
  then show ?thesis by (metis mset_sort)
qed

text \<open>
  A digest binds a package: two packages are hashed as the same bytes if and only if the same
  digest is taken (of the payload, or of what is signed) and they hold the same files with the same
  contents, in whatever order they are listed.  The two generated files stay out as documented.  (All
  sizes are below $2^{64}$, as those of a byte array are.)
\<close>

theorem digest_stream_binds:
  assumes "digest_stream svc files payload = Inr s" and "digest_stream svc' others payload' = Inr t"
    and "list_all sizes_fit files" and "list_all sizes_fit others"
  shows "s = t \<longleftrightarrow> payload = payload'
    \<and> mset (filter (digest_includes payload) files) = mset (filter (digest_includes payload') others)"
    (is "_ \<longleftrightarrow> _ \<and> mset ?fs = mset ?gs")
proof -
  have eq: "concat (map file_record (sort_key file_path ?fs)) = concat (map file_record (sort_key file_path ?gs))
      \<longleftrightarrow> mset ?fs = mset ?gs"
  proof
    assume "concat (map file_record (sort_key file_path ?fs)) = concat (map file_record (sort_key file_path ?gs))"
    then have "sort_key file_path ?fs = sort_key file_path ?gs"
      using assms(3,4) by (intro file_records_inject) (simp_all add: list_all_iff)
    then show "mset ?fs = mset ?gs" by (metis mset_sort)
  next
    assume "mset ?fs = mset ?gs"
    moreover have "distinct (map file_path ?fs)"
      using digest_stream_distinct [OF assms(1)] by (simp add: distinct_map_filter)
    ultimately show "concat (map file_record (sort_key file_path ?fs))
        = concat (map file_record (sort_key file_path ?gs))" by (simp only: sorted_files_eq)
  qed
  show ?thesis
    unfolding digest_stream_Inr [OF assms(1)] digest_stream_Inr [OF assms(2)] using eq
    by (cases payload; cases payload') (simp_all add: domains_differ domains_differ [THEN not_sym] del: mset_filter)
qed

definition example_archive_services :: archive_services where
  "example_archive_services = \<lparr>ap_decodeUtf8 = (\<lambda>bs. Some (map ucast bs)), ap_normalizedC = id,
     ap_toUpper = id, ap_toCaseFolded = id\<rparr>"

definition example_file :: "string \<Rightarrow> string \<Rightarrow> archive_file" where
  "example_file p c = \<lparr>file_path = ascii_bytes p, file_contents = ascii_bytes c\<rparr>"

lemma digest_stream_binds_witness:
  "\<exists>s. digest_stream example_archive_services [example_file ''a'' ''1'', example_file ''b'' ''2''] True = Inr s
    \<and> digest_stream example_archive_services [example_file ''b'' ''2'', example_file ''a'' ''1''] True = Inr s"
proof -
  have "\<not> isl (digest_stream example_archive_services [example_file ''a'' ''1'', example_file ''b'' ''2''] True)"
    "\<not> isl (digest_stream example_archive_services [example_file ''b'' ''2'', example_file ''a'' ''1''] True)"
    by code_simp+
  then obtain s t where st:
    "digest_stream example_archive_services [example_file ''a'' ''1'', example_file ''b'' ''2''] True = Inr s"
    "digest_stream example_archive_services [example_file ''b'' ''2'', example_file ''a'' ''1''] True = Inr t"
    by (metis sum.collapse(2))
  from digest_stream_binds [OF this] have "s = t"
    by (simp add: sizes_fit_def example_file_def ascii_bytes_def digest_includes_def SignaturePath_def ContentPath_def)
  with st show ?thesis by blast
qed

end
