(* ===== verification/Archive.thy ===== *)
theory Archive
  imports ContentDigest
begin

unbundle bit_operations_syntax

text \<open>
  Package archives (\<open>runtime/package/Archive.{h,cpp}\<close>): bounded reading, the zip envelope and the match of
  central and local headers on the raw bytes, the inspection of all entries, the creation of an archive
  from files, the snapshot that accepts only the canonical encoding, and the extraction of files.

  The zip library (miniz) is a parameter: what it reports of an entry, its stream of decompressed
  data and the archive its writer produces.  The file system is one as well: the results of reads,
  and of creating, writing and publishing files.  Offsets (\<open>qsizetype\<close>) are \<open>int\<close>; sizes (\<open>quint64\<close>)
  are 64-bit words.  The Windows branch of the extraction is modelled.
\<close>

datatype archive_error_code = ArchiveNone | SourceUnavailable | DestinationUnavailable | InvalidArchive
  | NonCanonicalArchive | ArchiveSizeLimit | InvalidEntryPath | DuplicateEntryPath | UnsupportedEntry
  | EntryCountLimit | EntrySizeLimit | TotalSizeLimit | CompressionRatioLimit | ExtractionFailed
  | UnsafeStagingRoot

record archive_error =
  archive_error_code :: archive_error_code
  archive_error_path :: bytes
  archive_error_message :: string

record archive_entry =
  entry_path :: bytes
  uncompressedSize :: "64 word"
  compressedSize :: "64 word"

definition archive_failure :: "archive_error_code \<Rightarrow> bytes \<Rightarrow> string \<Rightarrow> archive_error" where
  "archive_failure code path m =
     \<lparr>archive_error_code = code, archive_error_path = path, archive_error_message = m\<rparr>"

definition isIncludedInContentDigest :: "archive_entry \<Rightarrow> bool" where
  "isIncludedInContentDigest e \<longleftrightarrow> entry_path e \<noteq> SignaturePath"

definition contentDigestEntries :: "archive_error + archive_entry list \<Rightarrow> archive_entry list" where
  "contentDigestEntries result =
     (case result of Inl e \<Rightarrow> [] | Inr entries \<Rightarrow> sort_key entry_path (filter isIncludedInContentDigest entries))"

section \<open>The zip library\<close>

record zip_stat =
  m_bit_flag :: "16 word"
  m_is_directory :: bool
  m_is_encrypted :: bool
  m_is_supported :: bool
  m_method :: "16 word"
  m_version_made_by :: "16 word"
  m_external_attr :: "32 word"
  m_uncomp_size :: "64 word"
  m_comp_size :: "64 word"
  m_crc32 :: "32 word"

datatype zip_written = WriterUnavailable | AddFailed bytes | FinalizeFailed | Finalized bytes

text \<open>\<open>'i\<close> is the state of the iterator over an entry's data.\<close>

record 'i zip_services = archive_services +
  zip_init :: "bytes \<Rightarrow> bool"
  zip_num_files :: "bytes \<Rightarrow> nat"
  zip_file_stat :: "bytes \<Rightarrow> nat \<Rightarrow> zip_stat option"
  zip_filename_size :: "bytes \<Rightarrow> nat \<Rightarrow> nat"
  zip_filename :: "bytes \<Rightarrow> nat \<Rightarrow> nat \<Rightarrow> nat \<times> bytes"
  zip_validate_file :: "bytes \<Rightarrow> nat \<Rightarrow> bool"
  zip_iter_new :: "bytes \<Rightarrow> nat \<Rightarrow> 'i option"
  zip_iter_read :: "'i \<Rightarrow> nat \<Rightarrow> bytes \<times> 'i"
  zip_iter_method :: "'i \<Rightarrow> 16 word"
  zip_comp_remaining :: "'i \<Rightarrow> nat"
  zip_read_buf_avail :: "'i \<Rightarrow> nat"
  zip_out_blk_remain :: "'i \<Rightarrow> nat"
  zip_iter_free :: "'i \<Rightarrow> bool"
  zip_write :: "archive_file list \<Rightarrow> zip_written"

section \<open>Bounded reads\<close>

datatype bounded_read = ReadOk bytes | ReadLimitExceeded | ReadFailed

record 'f file_services =
  f_read :: "'f \<Rightarrow> nat \<Rightarrow> bytes option \<times> 'f"
  f_atEnd :: "'f \<Rightarrow> bool"

definition byteArrayLimitIsRepresentable :: "64 word \<Rightarrow> bool" where
  "byteArrayLimitIsRepresentable maximum \<longleftrightarrow> maximum < 0x7FFFFFFFFFFFFFFF"

function read_loop :: "'f file_services \<Rightarrow> nat \<Rightarrow> bytes \<Rightarrow> 'f \<Rightarrow> bounded_read" where
  "read_loop svc sentinelSize bs f =
     (if length bs < sentinelSize then
        (case f_read svc f (min (sentinelSize - length bs) (64 * 1024)) of
           (None, f1) \<Rightarrow> ReadFailed
         | (Some data, f1) \<Rightarrow>
             if data = [] then (if f_atEnd svc f1 then ReadOk bs else ReadFailed)
             else read_loop svc sentinelSize (bs @ data) f1)
      else ReadLimitExceeded)"
  by pat_completeness auto
termination
  by (relation "measure (\<lambda>(svc, sentinelSize, bs, f). sentinelSize - length bs)")
    (auto simp: diff_less_mono2 simp flip: length_greater_0_conv)

declare read_loop.simps [simp del]

definition readAtMost :: "'f file_services \<Rightarrow> 'f \<Rightarrow> 64 word \<Rightarrow> bounded_read" where
  "readAtMost svc f maximum =
     (if \<not> byteArrayLimitIsRepresentable maximum then ReadLimitExceeded
      else read_loop svc (unat maximum + 1) [] f)"

definition readExact :: "'f file_services \<Rightarrow> 'f \<Rightarrow> 64 word \<Rightarrow> 64 word \<Rightarrow> bounded_read" where
  "readExact svc f expected maximum =
     (if maximum < expected \<or> \<not> byteArrayLimitIsRepresentable expected then ReadLimitExceeded
      else (case readAtMost svc f expected of
          ReadLimitExceeded \<Rightarrow> ReadFailed
        | ReadFailed \<Rightarrow> ReadFailed
        | ReadOk bs \<Rightarrow> if length bs \<noteq> unat expected then ReadFailed else ReadOk bs))"

section \<open>Raw headers\<close>

definition readLittle16 :: "bytes \<Rightarrow> int \<Rightarrow> int" where
  "readLittle16 bs offset = uint (bs ! nat offset) + 0x100 * uint (bs ! (nat offset + 1))"

definition readLittle32 :: "bytes \<Rightarrow> int \<Rightarrow> int" where
  "readLittle32 bs offset = readLittle16 bs offset + 0x10000 * readLittle16 bs (offset + 2)"

definition writeLittle16 :: "bytes \<Rightarrow> int \<Rightarrow> int \<Rightarrow> bytes" where
  "writeLittle16 bs offset v =
     bs[nat offset := word_of_int v, nat offset + 1 := word_of_int (v div 0x100)]"

definition writeLittle32 :: "bytes \<Rightarrow> int \<Rightarrow> int \<Rightarrow> bytes" where
  "writeLittle32 bs offset v = writeLittle16 (writeLittle16 bs offset v) (offset + 2) (v div 0x10000)"

definition slice_bytes :: "bytes \<Rightarrow> int \<Rightarrow> int \<Rightarrow> bytes" where
  "slice_bytes bs offset n = take (nat n) (drop (nat offset) bs)"

definition lastEndSignature :: "bytes \<Rightarrow> int" where
  "lastEndSignature bs =
     (case find (\<lambda>i. take 4 (drop i bs) = [0x50, 0x4B, 5, 6]) (rev [0 ..< length bs]) of
        None \<Rightarrow> -1 | Some i \<Rightarrow> int i)"

fun deterministic_entries :: "nat \<Rightarrow> bytes \<Rightarrow> int \<Rightarrow> (bytes \<times> int) option" where
  "deterministic_entries 0 bs offset = Some (bs, offset)"
| "deterministic_entries (Suc n) bs offset =
     (if int (length bs) < offset + 46 \<or> readLittle32 bs offset \<noteq> 0x02014B50 then None
      else
        let bs = writeLittle16 bs (offset + 4) 0x0314;
            bs = writeLittle16 bs (offset + 12) 0;
            bs = writeLittle16 bs (offset + 14) 0x0021;
            bs = writeLittle16 bs (offset + 36) 0;
            bs = writeLittle32 bs (offset + 38) 0x81A40000;
            localOffset = readLittle32 bs (offset + 42) in
        if localOffset < 0 \<or> int (length bs) < localOffset + 30 \<or> readLittle32 bs localOffset \<noteq> 0x04034B50
          then None
        else
          let bs = writeLittle16 bs (localOffset + 10) 0;
              bs = writeLittle16 bs (localOffset + 12) 0x0021 in
          deterministic_entries n bs
            (offset + (46 + readLittle16 bs (offset + 28) + readLittle16 bs (offset + 30)
               + readLittle16 bs (offset + 32))))"

definition applyDeterministicCentralMetadata :: "bytes \<Rightarrow> bytes option" where
  "applyDeterministicCentralMetadata bs =
     (let endOffset = lastEndSignature bs in
      if endOffset < 0 \<or> int (length bs) < endOffset + 22 then None
      else (case deterministic_entries (nat (readLittle16 bs (endOffset + 10))) bs
            (readLittle32 bs (endOffset + 16)) of
          None \<Rightarrow> None
        | Some (bs, offset) \<Rightarrow> if offset = endOffset then Some bs else None))"

record zip_envelope =
  centralOffset :: int
  endOffset :: int
  entryCount :: int

definition invalid_structure :: archive_error where
  "invalid_structure = archive_failure InvalidArchive [] ''archive structure is invalid''"

definition preflightZipEnvelope :: "bytes \<Rightarrow> archive_limits \<Rightarrow> archive_error + zip_envelope" where
  "preflightZipEnvelope bs limits =
     (if int (length bs) < 22 then Inl invalid_structure
      else
        let endOff = int (length bs) - 22 in
        if readLittle32 bs endOff \<noteq> 0x06054B50 \<or> readLittle16 bs (endOff + 20) \<noteq> 0 then Inl invalid_structure
        else
          let disk = readLittle16 bs (endOff + 4);
              centralDisk = readLittle16 bs (endOff + 6);
              diskEntries = readLittle16 bs (endOff + 8);
              totalEntries = readLittle16 bs (endOff + 10);
              centralSize = readLittle32 bs (endOff + 12);
              centralOff = readLittle32 bs (endOff + 16) in
          if disk \<noteq> 0 \<or> centralDisk \<noteq> 0 \<or> diskEntries \<noteq> totalEntries \<or> totalEntries = 0xFFFF
              \<or> centralOff + centralSize \<noteq> endOff then Inl invalid_structure
          else if uint (maximumEntries limits) < totalEntries
            then Inl (archive_failure EntryCountLimit [] ''archive entry count is too large'')
          else Inr \<lparr>centralOffset = centralOff, endOffset = endOff, entryCount = totalEntries\<rparr>)"

text \<open>The next cursor and the range of the local record, when the two headers agree.\<close>

definition fixed_fields_match :: "bytes \<Rightarrow> int \<Rightarrow> int \<Rightarrow> bool" where
  "fixed_fields_match bs localOffset centralCursor \<longleftrightarrow>
     list_all (\<lambda>(l, c). readLittle16 bs (localOffset + l) = readLittle16 bs (centralCursor + c))
       [(4, 6), (6, 8), (8, 10), (10, 12), (12, 14)]
     \<and> list_all (\<lambda>(l, c). readLittle32 bs (localOffset + l) = readLittle32 bs (centralCursor + c))
       [(14, 16), (18, 20), (22, 24)]"

definition centralAndLocalMetadataMatch :: "bytes \<Rightarrow> int \<Rightarrow> bytes \<Rightarrow> (int \<times> int \<times> int) option" where
  "centralAndLocalMetadataMatch bs cursor name =
     (if cursor < 0 \<or> int (length bs) < cursor + 46 \<or> readLittle32 bs cursor \<noteq> 0x02014B50 then None
      else
        let nameLength = readLittle16 bs (cursor + 28);
            centralExtraLength = readLittle16 bs (cursor + 30);
            commentLength = readLittle16 bs (cursor + 32);
            centralRecordSize = 46 + nameLength + centralExtraLength + commentLength in
        if int (length bs) < cursor + centralRecordSize \<or> centralExtraLength \<noteq> 0 \<or> commentLength \<noteq> 0
            \<or> readLittle16 bs (cursor + 34) \<noteq> 0 \<or> readLittle16 bs (cursor + 36) \<noteq> 0
            \<or> slice_bytes bs (cursor + 46) nameLength \<noteq> name then None
        else
          let localOffset = readLittle32 bs (cursor + 42) in
          if localOffset < 0 \<or> int (length bs) < localOffset + 30 \<or> readLittle32 bs localOffset \<noteq> 0x04034B50
            then None
          else
            let localNameLength = readLittle16 bs (localOffset + 26);
                localExtraLength = readLittle16 bs (localOffset + 28);
                compressed = readLittle32 bs (cursor + 20);
                localEnd = localOffset + 30 + localNameLength + localExtraLength + compressed in
            if localExtraLength \<noteq> 0 \<or> localNameLength \<noteq> nameLength
                \<or> int (length bs) < localOffset + 30 + localNameLength \<or> int (length bs) < localEnd
                \<or> slice_bytes bs (localOffset + 30) localNameLength \<noteq> name then None
            else if fixed_fields_match bs localOffset cursor
              then Some (cursor + centralRecordSize, localOffset, localEnd) else None)"

section \<open>Entries\<close>

text \<open>\<open>writeChunk\<close> is an operation on a sink \<open>'w\<close>; an absent callback accepts everything.\<close>

function entry_loop :: "'i zip_services \<Rightarrow> ('w \<Rightarrow> bytes \<Rightarrow> 'w option) \<Rightarrow> nat \<Rightarrow> nat \<Rightarrow> 'i \<Rightarrow> 'w \<Rightarrow>
    bool \<times> nat \<times> 'i \<times> 'w" where
  "entry_loop svc writeChunk expectedSize written st w =
     (if written < expectedSize then
        (case zip_iter_read svc st (min (expectedSize - written) (64 * 1024)) of
           (data, st1) \<Rightarrow>
             if data = [] then (False, written, st1, w)
             else (case writeChunk w data of
                 None \<Rightarrow> (False, written, st1, w)
               | Some w1 \<Rightarrow> entry_loop svc writeChunk expectedSize (written + length data) st1 w1))
      else (True, written, st, w))"
  by pat_completeness auto
termination
  by (relation "measure (\<lambda>(svc, writeChunk, expectedSize, written, st, w). expectedSize - written)")
    (auto simp: diff_less_mono2 simp flip: length_greater_0_conv)

declare entry_loop.simps [simp del]

definition readEntryStream :: "'i zip_services \<Rightarrow> bytes \<Rightarrow> nat \<Rightarrow> 64 word \<Rightarrow>
    ('w \<Rightarrow> bytes \<Rightarrow> 'w option) \<Rightarrow> 'w \<Rightarrow> bool \<times> 'w" where
  "readEntryStream svc bs index expectedSize writeChunk w =
     (case zip_iter_new svc bs index of
        None \<Rightarrow> (False, w)
      | Some st \<Rightarrow>
          let (succeeded, written, st, w) = entry_loop svc writeChunk (unat expectedSize) 0 st w;
              (extra, st) = (if succeeded then zip_iter_read svc st 1 else ([], st));
              compressedInputConsumed = (if zip_iter_method svc st = 0 then zip_comp_remaining svc st = 0
                else zip_read_buf_avail svc st = 0 \<and> zip_out_blk_remain svc st = 0);
              freed = zip_iter_free svc st in
          (succeeded \<and> written = unat expectedSize \<and> extra = [] \<and> compressedInputConsumed \<and> freed, w))"

definition readArchiveName :: "'i zip_services \<Rightarrow> bytes \<Rightarrow> nat \<Rightarrow> bytes option" where
  "readArchiveName svc bs index =
     (let required = zip_filename_size svc bs index in
      if required = 0 then None
      else let (n, buffer) = zip_filename svc bs index required in
        if n \<noteq> required then None else Some (take (required - 1) buffer))"

definition readMemory :: "bytes \<Rightarrow> nat \<Rightarrow> nat \<Rightarrow> bytes" where
  "readMemory bs offset requested =
     (if length bs < offset then [] else take (min (length bs - offset) requested) (drop offset bs))"

section \<open>Inspection\<close>

record inspection =
  centralCursor :: int
  in_entries :: "archive_entry list"
  localRanges :: "(int \<times> int) list"
  collisionPaths :: "archive_collision_path list"
  totalSize :: "64 word"

definition entry_type_supported :: "zip_stat \<Rightarrow> bool" where
  "entry_type_supported stat \<longleftrightarrow>
     \<not> (m_is_directory stat \<or> m_is_encrypted stat \<or> \<not> m_is_supported stat
        \<or> m_bit_flag stat AND NOT 0x0800 \<noteq> 0 \<or> (m_method stat \<noteq> 0 \<and> m_method stat \<noteq> 8))
     \<and> (let creatorSystem = drop_bit 8 (m_version_made_by stat) in
        if creatorSystem \<noteq> 0 \<and> creatorSystem \<noteq> 3 then False
        else if creatorSystem = 3 then drop_bit 16 (m_external_attr stat) AND 0xF000 = 0x8000
        else m_external_attr stat AND NOT 0xA7 = 0)"

definition ratioExceeded :: "archive_limits \<Rightarrow> zip_stat \<Rightarrow> bool" where
  "ratioExceeded limits stat \<longleftrightarrow> 0 < m_uncomp_size stat
     \<and> (m_comp_size stat = 0
        \<or> (0 < maximumCompressionRatio limits
           \<and> m_comp_size stat \<le> (- 1) div maximumCompressionRatio limits
           \<and> m_comp_size stat * maximumCompressionRatio limits < m_uncomp_size stat))"

definition entry_size_error :: "archive_limits \<Rightarrow> 64 word \<Rightarrow> bytes \<Rightarrow> zip_stat \<Rightarrow> archive_error option" where
  "entry_size_error limits used name stat =
     (if maximumEntryBytes limits < m_uncomp_size stat
      then Some (archive_failure EntrySizeLimit name ''archive entry is too large'')
      else if (m_method stat = 0 \<and> m_comp_size stat \<noteq> m_uncomp_size stat)
          \<or> (m_uncomp_size stat = 0 \<and> (m_method stat \<noteq> 0 \<or> m_comp_size stat \<noteq> 0 \<or> m_crc32 stat \<noteq> 0))
        then Some (archive_failure
          (if m_uncomp_size stat = 0 \<and> m_method stat \<noteq> 0 then UnsupportedEntry else InvalidArchive)
          name ''archive entry data is invalid'')
      else if maximumTotalBytes limits < used \<or> maximumTotalBytes limits - used < m_uncomp_size stat
        then Some (archive_failure TotalSizeLimit name ''archive contents are too large'')
      else if maximumCompressionRatio limits = 0 \<or> ratioExceeded limits stat
        then Some (archive_failure CompressionRatioLimit name ''archive compression ratio is too large'')
      else None)"

definition inspect_entry :: "'i zip_services \<Rightarrow> archive_limits \<Rightarrow> bytes \<Rightarrow> nat \<Rightarrow> inspection \<Rightarrow>
    archive_error + inspection" where
  "inspect_entry svc limits bs index i =
     (let invalid = (\<lambda>name. archive_failure InvalidArchive name ''archive entry metadata is invalid'') in
      case zip_file_stat svc bs index of
        None \<Rightarrow> Inl (invalid [])
      | Some stat \<Rightarrow>
          (case readArchiveName svc bs index of
             None \<Rightarrow> Inl (invalid [])
           | Some name \<Rightarrow>
               (case centralAndLocalMetadataMatch bs (centralCursor i) name of
                  None \<Rightarrow> Inl (invalid name)
                | Some (cursor, local) \<Rightarrow>
                    (case validateArchivePath (archive_services.truncate svc) limits name of
                       None \<Rightarrow> Inl (archive_failure InvalidEntryPath name ''archive entry path is invalid'')
                     | Some checked \<Rightarrow>
                         if \<not> entry_type_supported stat
                           then Inl (archive_failure UnsupportedEntry name ''archive entry type is unsupported'')
                         else (case entry_size_error limits (totalSize i) name stat of
                             Some e \<Rightarrow> Inl e
                           | None \<Rightarrow>
                               if \<not> zip_validate_file svc bs index then Inl (invalid name)
                               else Inr \<lparr>centralCursor = cursor,
                                 in_entries = in_entries i @ [\<lparr>entry_path = name,
                                   uncompressedSize = m_uncomp_size stat, compressedSize = m_comp_size stat\<rparr>],
                                 localRanges = localRanges i @ [local],
                                 collisionPaths = collisionPaths i @ [\<lparr>cp_key = collisionKey checked,
                                   cp_path = name, cp_isCanonical = isCanonical checked\<rparr>],
                                 totalSize = totalSize i + m_uncomp_size stat\<rparr>)))))"

fun inspect_entries :: "'i zip_services \<Rightarrow> archive_limits \<Rightarrow> bytes \<Rightarrow> nat list \<Rightarrow> inspection \<Rightarrow>
    archive_error + inspection" where
  "inspect_entries svc limits bs [] i = Inr i"
| "inspect_entries svc limits bs (index # rest) i =
     (case inspect_entry svc limits bs index i of
        Inl e \<Rightarrow> Inl e
      | Inr i1 \<Rightarrow> inspect_entries svc limits bs rest i1)"

definition path_errors :: "archive_collision_path list \<Rightarrow> string \<Rightarrow> string \<Rightarrow> archive_error option" where
  "path_errors paths collides invalid =
     (case findArchivePathCollision paths of
        Some collision \<Rightarrow> Some (archive_failure DuplicateEntryPath collision collides)
      | None \<Rightarrow>
          map_option (\<lambda>p. archive_failure InvalidEntryPath p invalid) (firstNonCanonicalArchivePath paths))"

text \<open>The local records follow each other without a gap, up to the central directory.\<close>

fun ranges_contiguous :: "int \<Rightarrow> int \<Rightarrow> (int \<times> int) list \<Rightarrow> bool" where
  "ranges_contiguous central expectedLocalOffset [] \<longleftrightarrow> expectedLocalOffset = central"
| "ranges_contiguous central expectedLocalOffset (r # rs) \<longleftrightarrow>
     \<not> (fst r \<noteq> expectedLocalOffset \<or> snd r < fst r \<or> central < snd r)
     \<and> ranges_contiguous central (snd r) rs"

fun first_unreadable :: "'i zip_services \<Rightarrow> bytes \<Rightarrow> nat \<Rightarrow> archive_entry list \<Rightarrow> bytes option" where
  "first_unreadable svc bs index [] = None"
| "first_unreadable svc bs index (e # es) =
     (if \<not> fst (readEntryStream svc bs index (uncompressedSize e) (\<lambda>u data. Some u) ()) then Some (entry_path e)
      else first_unreadable svc bs (index + 1) es)"

definition inspectBytes :: "'i zip_services \<Rightarrow> archive_limits \<Rightarrow> bytes \<Rightarrow> archive_error + archive_entry list" where
  "inspectBytes svc limits bs =
     (case preflightZipEnvelope bs limits of
        Inl e \<Rightarrow> Inl e
      | Inr envelope \<Rightarrow>
          if \<not> zip_init svc bs then Inl invalid_structure
          else if int (zip_num_files svc bs) \<noteq> entryCount envelope then Inl invalid_structure
          else (case inspect_entries svc limits bs [0 ..< zip_num_files svc bs]
                \<lparr>centralCursor = centralOffset envelope, in_entries = [], localRanges = [],
                 collisionPaths = [], totalSize = 0\<rparr> of
              Inl e \<Rightarrow> Inl e
            | Inr i \<Rightarrow>
                (case path_errors (collisionPaths i) ''archive entry path collides'' ''archive entry path is invalid'' of
                   Some e \<Rightarrow> Inl e
                 | None \<Rightarrow>
                     if centralCursor i \<noteq> endOffset envelope then Inl invalid_structure
                     else if \<not> ranges_contiguous (centralOffset envelope) 0 (sort_key fst (localRanges i))
                       then Inl invalid_structure
                     else (case first_unreadable svc bs 0 (in_entries i) of
                         Some path \<Rightarrow> Inl (archive_failure InvalidArchive path ''archive data is invalid'')
                       | None \<Rightarrow> Inr (in_entries i)))))"

section \<open>Creation\<close>

text \<open>The checks that \<open>createFromBuffers\<close> and \<open>extractFiles\<close> make of the files they are given.\<close>

fun check_files :: "archive_services \<Rightarrow> archive_limits \<Rightarrow> 64 word \<Rightarrow> archive_file list \<Rightarrow>
    archive_error + archive_collision_path list" where
  "check_files svc limits used [] = Inr []"
| "check_files svc limits used (f # fs) =
     (case validateArchivePath svc limits (file_path f) of
        None \<Rightarrow> Inl (archive_failure InvalidEntryPath (file_path f) ''archive source path is invalid'')
      | Some checked \<Rightarrow>
          let n = word_of_nat (length (file_contents f)) in
          if maximumEntryBytes limits < n
            then Inl (archive_failure EntrySizeLimit (file_path f) ''archive entry is too large'')
          else if maximumTotalBytes limits < used \<or> maximumTotalBytes limits - used < n
            then Inl (archive_failure TotalSizeLimit (file_path f) ''archive contents are too large'')
          else (case check_files svc limits (used + n) fs of
              Inl e \<Rightarrow> Inl e
            | Inr paths \<Rightarrow> Inr (\<lparr>cp_key = collisionKey checked, cp_path = file_path f,
                cp_isCanonical = isCanonical checked\<rparr> # paths)))"

definition checked_files :: "archive_services \<Rightarrow> archive_limits \<Rightarrow> archive_file list \<Rightarrow>
    archive_error + archive_file list" where
  "checked_files svc limits files =
     (if maximumEntries limits < word_of_nat (length files)
      then Inl (archive_failure EntryCountLimit [] ''archive entry count is too large'')
      else (case check_files svc limits 0 files of
          Inl e \<Rightarrow> Inl e
        | Inr paths \<Rightarrow>
            (case path_errors paths ''archive source paths collide'' ''archive source path is invalid'' of
               Some e \<Rightarrow> Inl e
             | None \<Rightarrow> Inr (sort_key file_path files))))"

definition destination_error :: "bytes \<Rightarrow> string \<Rightarrow> archive_error" where
  "destination_error path m = archive_failure DestinationUnavailable path m"

text \<open>The archive that is to be published, and the entries it has.\<close>

definition build_archive :: "'i zip_services \<Rightarrow> archive_limits \<Rightarrow> archive_file list \<Rightarrow>
    archive_error + bytes \<times> archive_entry list" where
  "build_archive svc limits files =
     (case checked_files (archive_services.truncate svc) limits files of
        Inl e \<Rightarrow> Inl e
      | Inr ordered \<Rightarrow>
          (case zip_write svc ordered of
             WriterUnavailable \<Rightarrow> Inl (destination_error [] ''archive writer could not be initialized'')
           | AddFailed path \<Rightarrow> Inl (destination_error path ''archive could not be created'')
           | FinalizeFailed \<Rightarrow> Inl (destination_error [] ''archive could not be created'')
           | Finalized archiveBytes \<Rightarrow>
               if 2 ^ 63 \<le> int (length archiveBytes) \<or> uint (maximumArchiveBytes limits) < int (length archiveBytes)
                 then Inl (archive_failure ArchiveSizeLimit [] ''archive size is too large'')
               else (case applyDeterministicCentralMetadata archiveBytes of
                   None \<Rightarrow> Inl (destination_error [] ''archive metadata could not be finalized'')
                 | Some deterministicBytes \<Rightarrow>
                     (case inspectBytes svc limits deterministicBytes of
                        Inl e \<Rightarrow> Inl e
                      | Inr entries \<Rightarrow> Inr (deterministicBytes, entries)))))"

definition createFromBuffers :: "'i zip_services \<Rightarrow> (bytes \<Rightarrow> bool) \<Rightarrow> archive_limits \<Rightarrow> archive_file list \<Rightarrow>
    archive_error + archive_entry list" where
  "createFromBuffers svc publishArchiveBytes limits files =
     (case build_archive svc limits files of
        Inl e \<Rightarrow> Inl e
      | Inr (deterministicBytes, entries) \<Rightarrow>
          if \<not> publishArchiveBytes deterministicBytes
          then Inl (destination_error [] ''archive destination is unavailable'')
          else Inr entries)"

section \<open>Reading an archive\<close>

definition read_error :: "bounded_read \<Rightarrow> archive_error + bytes" where
  "read_error r =
     (case r of
        ReadLimitExceeded \<Rightarrow> Inl (archive_failure ArchiveSizeLimit [] ''archive size is too large'')
      | ReadFailed \<Rightarrow> Inl (archive_failure SourceUnavailable [] ''archive source could not be read'')
      | ReadOk bs \<Rightarrow> Inr bs)"

definition read_archive :: "'f file_services \<Rightarrow> 'f option \<Rightarrow> archive_limits \<Rightarrow> archive_error + bytes" where
  "read_archive fs input limits =
     (case input of
        None \<Rightarrow> Inl (archive_failure SourceUnavailable [] ''archive source is unavailable'')
      | Some f \<Rightarrow> read_error (readAtMost fs f (maximumArchiveBytes limits)))"

definition archive_inspect :: "'i zip_services \<Rightarrow> 'f file_services \<Rightarrow> 'f option \<Rightarrow> archive_limits \<Rightarrow>
    archive_error + archive_entry list" where
  "archive_inspect svc fs input limits =
     (case read_archive fs input limits of Inl e \<Rightarrow> Inl e | Inr bs \<Rightarrow> inspectBytes svc limits bs)"

fun snapshot_files :: "'i zip_services \<Rightarrow> bytes \<Rightarrow> nat \<Rightarrow> archive_entry list \<Rightarrow> archive_error + archive_file list" where
  "snapshot_files svc bs index [] = Inr []"
| "snapshot_files svc bs index (e # es) =
     (let (ok, contents) = readEntryStream svc bs index (uncompressedSize e) (\<lambda>w data. Some (w @ data)) [] in
      if \<not> ok then Inl (archive_failure ExtractionFailed (entry_path e) ''archive entry snapshot failed'')
      else (case snapshot_files svc bs (index + 1) es of
          Inl err \<Rightarrow> Inl err
        | Inr files \<Rightarrow> Inr (\<lparr>file_path = entry_path e, file_contents = contents\<rparr> # files)))"

text \<open>
  The canonical archive is written to a fresh temporary directory and read back: \<open>directoryValid\<close> and
  \<open>publish\<close> tell whether that works, \<open>readBack\<close> what reading the published file gives.
\<close>

record canonical_services =
  directoryValid :: bool
  cs_publish :: "bytes \<Rightarrow> bool"
  cs_readBack :: "bytes \<Rightarrow> bytes option"

definition canonical_bytes :: "'i zip_services \<Rightarrow> canonical_services \<Rightarrow> archive_limits \<Rightarrow> archive_file list \<Rightarrow> bytes option" where
  "canonical_bytes svc cs limits files =
     (case build_archive svc limits files of
        Inl e \<Rightarrow> None
      | Inr (deterministicBytes, entries) \<Rightarrow>
          if \<not> isl (createFromBuffers svc (cs_publish cs) limits files)
          then cs_readBack cs deterministicBytes else None)"

definition snapshot_bytes :: "'i zip_services \<Rightarrow> canonical_services \<Rightarrow> archive_limits \<Rightarrow> bytes \<Rightarrow>
    archive_error + archive_file list" where
  "snapshot_bytes svc cs limits bs =
     (case inspectBytes svc limits bs of
        Inl e \<Rightarrow> Inl e
      | Inr entries \<Rightarrow>
          if \<not> zip_init svc bs then Inl invalid_structure
          else (case snapshot_files svc bs 0 entries of
              Inl e \<Rightarrow> Inl e
            | Inr files \<Rightarrow>
                let ordered = sort_key file_path files;
                    unavailable = destination_error [] ''canonical snapshot could not be created'' in
                if \<not> directoryValid cs then Inl unavailable
                else (case canonical_bytes svc cs limits ordered of
                    None \<Rightarrow> Inl unavailable
                  | Some canonicalBytes \<Rightarrow>
                      if canonicalBytes \<noteq> bs
                      then Inl (archive_failure NonCanonicalArchive [] ''archive encoding is not canonical'')
                      else Inr ordered)))"

definition archive_snapshot :: "'i zip_services \<Rightarrow> 'f file_services \<Rightarrow> canonical_services \<Rightarrow> 'f option \<Rightarrow>
    archive_limits \<Rightarrow> archive_error + archive_file list" where
  "archive_snapshot svc fs cs input limits =
     (case read_archive fs input limits of Inl e \<Rightarrow> Inl e | Inr bs \<Rightarrow> snapshot_bytes svc cs limits bs)"

end
