(* ===== verification/ArchiveProofs.thy ===== *)
theory ArchiveProofs
  imports Archive
begin

text \<open>
  What inspecting, reading and creating archives guarantee: bounded reads, an archive whose every byte
  belongs to exactly one record, limits that hold of the numbers as numbers, and encodings that depend
  on the files alone.
\<close>

section \<open>Bounded reads\<close>

lemma read_loop_bound: "read_loop svc n bs f = ReadOk r \<Longrightarrow> length r < n \<and> (\<exists>data. r = bs @ data)"
proof (induction svc n bs f rule: read_loop.induct)
  case (1 svc n bs f)
  show ?case
    using "1.prems"
    by (subst (asm) read_loop.simps) (auto split: if_splits prod.splits option.splits dest!: "1.IH")
qed

lemma readAtMost_bound: "readAtMost svc f maximum = ReadOk bs \<Longrightarrow> length bs \<le> unat maximum"
  using read_loop_bound by (fastforce simp: readAtMost_def split: if_splits)

section \<open>Slices and headers\<close>

lemma length_slice: "0 \<le> a \<Longrightarrow> 0 \<le> n \<Longrightarrow> a + n \<le> int (length bs) \<Longrightarrow> length (slice_bytes bs a n) = nat n"
  by (simp add: slice_bytes_def)

lemma slice_append:
  assumes "0 \<le> a" and "a \<le> b" and "b \<le> c"
  shows "slice_bytes bs a (c - a) = slice_bytes bs a (b - a) @ slice_bytes bs b (c - b)"
proof -
  have "nat (c - a) = nat (b - a) + nat (c - b)" "nat b = nat (b - a) + nat a" using assms by simp_all
  then show ?thesis by (simp add: slice_bytes_def take_add)
qed

lemma slice_empty [simp]: "slice_bytes bs a 0 = []"
  by (simp add: slice_bytes_def)

lemma slice_slice:
  assumes "0 \<le> a" and "0 \<le> k" and "0 \<le> m" and "k + m \<le> n"
  shows "take (nat m) (drop (nat k) (slice_bytes bs a n)) = slice_bytes bs (a + k) m"
proof -
  obtain i j p q where "a = int i" "k = int j" "m = int p" "n = int q"
    using assms by (metis add_nonneg_nonneg nonneg_int_cases order_trans)
  with assms(4) show ?thesis by (simp add: slice_bytes_def drop_take min_absorb1 add.commute flip: of_nat_add)
qed

lemma base256:
  fixes a b c d :: int
  assumes "a + 256 * b = c + 256 * d" and "0 \<le> a \<and> a < 256" and "0 \<le> c \<and> c < 256"
  shows "a = c \<and> b = d"
proof -
  from assms(1) have "(a + 256 * b) mod 256 = (c + 256 * d) mod 256" by simp
  then have "a = c" using assms(2,3) by (simp add: mod_pos_pos_trivial)
  with assms(1) show ?thesis by simp
qed

lemma readLittle16_bounds: "0 \<le> readLittle16 bs k" "readLittle16 bs k < 0x10000"
  using uint_lt2p [of "bs ! nat k"] uint_lt2p [of "bs ! Suc (nat k)"]
  by (simp_all add: readLittle16_def)

lemma readLittle32_bounds: "0 \<le> readLittle32 bs k" "readLittle32 bs k < 0x100000000"
  using readLittle16_bounds [of bs k] readLittle16_bounds [of bs "k + 2"]
  by (simp_all add: readLittle32_def)

lemma slice_4_nth:
  assumes "0 \<le> k" and "k + 4 \<le> int (length bs)"
  shows "slice_bytes bs k 4 = map ((!) bs) [nat k, nat k + 1, nat k + 2, nat k + 3]"
proof -
  from assms have "nat k + 4 \<le> length bs" by simp
  then have "drop (nat k) bs = bs ! nat k # bs ! (nat k + 1) # bs ! (nat k + 2) # bs ! (nat k + 3) # drop (nat k + 4) bs"
    by (simp add: Cons_nth_drop_Suc numeral_eq_Suc)
  then show ?thesis by (simp add: slice_bytes_def)
qed

lemma little32_bytes:
  assumes "readLittle32 bs k = uint b0 + 0x100 * uint b1 + 0x10000 * uint b2 + 0x1000000 * uint b3" and "0 \<le> k"
    and "k + 4 \<le> int (length bs)"
  shows "slice_bytes bs k 4 = [b0, b1, b2, b3]"
proof -
  have k: "nat (k + 2) = nat k + 2" using assms(2) by simp
  have bound: "0 \<le> uint b \<and> uint b < 256" for b :: byte using uint_lt2p [of b] by simp
  let ?x = "\<lambda>j. uint (bs ! (nat k + j))"
  have "?x 0 + 256 * (?x 1 + 256 * (?x 2 + 256 * ?x 3)) = uint b0 + 256 * (uint b1 + 256 * (uint b2 + 256 * uint b3))"
    using assms(1) unfolding readLittle32_def readLittle16_def k by (simp add: algebra_simps numeral_3_eq_3)
  from base256 [OF this bound bound] have x: "?x 0 = uint b0"
    and "?x 1 + 256 * (?x 2 + 256 * ?x 3) = uint b1 + 256 * (uint b2 + 256 * uint b3)" by blast+
  from base256 [OF this(2) bound bound] have y: "?x 1 = uint b1"
    and "?x 2 + 256 * ?x 3 = uint b2 + 256 * uint b3" by blast+
  from base256 [OF this(2) bound bound] x y have "uint (bs ! nat k) = uint b0 \<and> uint (bs ! (nat k + 1)) = uint b1
      \<and> uint (bs ! (nat k + 2)) = uint b2 \<and> uint (bs ! (nat k + 3)) = uint b3" by simp
  moreover note slice_4_nth [OF assms(2,3)]
  ultimately show ?thesis by (simp add: word_uint_eq_iff)
qed

section \<open>Records\<close>

definition local_record :: "bytes \<Rightarrow> bytes \<Rightarrow> bool" where
  "local_record name r \<longleftrightarrow> 30 + length name \<le> length r \<and> take 4 r = [0x50, 0x4B, 3, 4]
     \<and> take (length name) (drop 30 r) = name"

definition central_record :: "bytes \<Rightarrow> bytes \<Rightarrow> bool" where
  "central_record name r \<longleftrightarrow> length r = 46 + length name \<and> take 4 r = [0x50, 0x4B, 1, 2] \<and> drop 46 r = name"

definition local_at :: "bytes \<Rightarrow> bytes \<Rightarrow> int \<times> int \<Rightarrow> bool" where
  "local_at bs name r \<longleftrightarrow> 0 \<le> fst r \<and> fst r \<le> snd r \<and> snd r \<le> int (length bs)
     \<and> local_record name (slice_bytes bs (fst r) (snd r - fst r))"

lemma slice_signature:
  assumes "readLittle32 bs k = uint b0 + 0x100 * uint b1 + 0x10000 * uint b2 + 0x1000000 * uint b3" and "0 \<le> k"
    and "k + 4 \<le> int (length bs)" and "4 \<le> n"
  shows "take 4 (slice_bytes bs k n) = [b0, b1, b2, b3]"
  using little32_bytes [OF assms(1-3)] slice_slice [of k 0 4 n bs] assms(2,4) by simp

lemma metadata_match:
  assumes "centralAndLocalMetadataMatch bs cursor name = Some (next, r)"
  shows "0 \<le> cursor" "next = cursor + 46 + int (length name)" "next \<le> int (length bs)"
    "central_record name (slice_bytes bs cursor (next - cursor))" "local_at bs name r"
proof -
  let ?n = "readLittle16 bs (cursor + 28)"
  obtain lo hi where r: "r = (lo, hi)" by (cases r)
  from assms have m: "0 \<le> cursor" "cursor + 46 + ?n \<le> int (length bs)" "next = cursor + 46 + ?n"
    "readLittle32 bs cursor = 0x02014B50" "slice_bytes bs (cursor + 46) ?n = name"
    "0 \<le> lo" "readLittle32 bs lo = 0x04034B50" "lo = readLittle32 bs (cursor + 42)"
    "hi = lo + 30 + ?n + readLittle32 bs (cursor + 20)" "hi \<le> int (length bs)" "slice_bytes bs (lo + 30) ?n = name"
    unfolding centralAndLocalMetadataMatch_def r Let_def by (simp_all split: if_splits) (linarith+)?
  have n: "0 \<le> ?n" by (rule readLittle16_bounds)
  have len: "length name = nat ?n" using m(1,2,5) n length_slice [of "cursor + 46" ?n bs] by simp
  show "0 \<le> cursor" "next = cursor + 46 + int (length name)" "next \<le> int (length bs)" using m n len by simp_all
  have "central_record name (slice_bytes bs cursor (46 + ?n))"
    using m n len slice_slice [of cursor 46 ?n "46 + ?n" bs] length_slice [of cursor "46 + ?n" bs]
      slice_signature [of bs cursor "0x50" "0x4B" 1 2 "46 + ?n"]
    by (simp add: central_record_def nat_add_distrib)
  then show "central_record name (slice_bytes bs cursor (next - cursor))" using m(3) by (simp add: algebra_simps)
  have "local_record name (slice_bytes bs lo (30 + ?n + readLittle32 bs (cursor + 20)))"
    using m n len slice_slice [of lo 30 ?n "30 + ?n + readLittle32 bs (cursor + 20)" bs]
      length_slice [of lo "30 + ?n + readLittle32 bs (cursor + 20)" bs] readLittle32_bounds [of bs "cursor + 20"]
      slice_signature [of bs lo "0x50" "0x4B" 3 4 "30 + ?n + readLittle32 bs (cursor + 20)"]
    by (simp add: local_record_def nat_add_distrib)
  then show "local_at bs name r"
    using m n readLittle32_bounds [of bs "cursor + 20"] by (simp add: local_at_def r algebra_simps)
qed

section \<open>Limits\<close>

definition entry_within :: "archive_limits \<Rightarrow> archive_entry \<Rightarrow> bool" where
  "entry_within limits e \<longleftrightarrow> unat (uncompressedSize e) \<le> unat (maximumEntryBytes limits)
     \<and> unat (uncompressedSize e) \<le> unat (compressedSize e) * unat (maximumCompressionRatio limits)"

lemma unat_64: "unat (w :: 64 word) < 2 ^ 64"
  by (rule order_less_le_trans [OF unsigned_less]) simp

lemma ratio_ok:
  assumes "\<not> ratioExceeded limits stat" and "maximumCompressionRatio limits \<noteq> 0"
  shows "unat (m_uncomp_size stat) \<le> unat (m_comp_size stat) * unat (maximumCompressionRatio limits)"
proof (cases "m_uncomp_size stat = 0")
  case False
  define u c r where "u = unat (m_uncomp_size stat)" and "c = unat (m_comp_size stat)"
    and "r = unat (maximumCompressionRatio limits)"
  have r: "0 < r" using assms(2) by (simp add: r_def unat_gt_0)
  have u: "u < 2 ^ 64" unfolding u_def by (rule unat_64)
  have div: "unat ((- 1) div maximumCompressionRatio limits) = (2 ^ 64 - 1) div r"
    by (simp add: unat_div r_def unsigned_minus_1_eq_mask mask_eq_exp_minus_1)
  show ?thesis
  proof (cases "m_comp_size stat \<le> (- 1) div maximumCompressionRatio limits")
    case True
    then have "c \<le> (2 ^ 64 - 1) div r" by (simp add: word_le_nat_alt div c_def)
    then have "c * r \<le> 2 ^ 64 - 1" using r by (simp add: less_eq_div_iff_mult_less_eq)
    then have "unat (m_comp_size stat * maximumCompressionRatio limits) = c * r"
      by (simp add: unat_word_ariths(2) c_def r_def)
    moreover have "\<not> m_comp_size stat * maximumCompressionRatio limits < m_uncomp_size stat"
      using assms True False by (auto simp: ratioExceeded_def word_neq_0_conv)
    ultimately show ?thesis by (simp add: word_less_nat_alt u_def c_def r_def)
  next
    case False
    then have "(2 ^ 64 - 1) div r < c" by (simp add: word_le_nat_alt div c_def)
    then have "2 ^ 64 - 1 < c * r" using r by (simp add: div_less_iff_less_mult)
    with u show ?thesis by (simp add: u_def c_def r_def)
  qed
qed simp

lemma size_ok:
  assumes "entry_size_error limits used name stat = None"
  shows "unat (m_uncomp_size stat) \<le> unat (maximumEntryBytes limits)"
    "unat (m_uncomp_size stat) \<le> unat (m_comp_size stat) * unat (maximumCompressionRatio limits)"
    "unat (used + m_uncomp_size stat) = unat used + unat (m_uncomp_size stat)"
    "unat used + unat (m_uncomp_size stat) \<le> unat (maximumTotalBytes limits)"
proof -
  from assms have s: "m_uncomp_size stat \<le> maximumEntryBytes limits" "used \<le> maximumTotalBytes limits"
    "m_uncomp_size stat \<le> maximumTotalBytes limits - used" "maximumCompressionRatio limits \<noteq> 0"
    "\<not> ratioExceeded limits stat"
    by (auto simp: entry_size_error_def not_less split: if_splits)
  show "unat (m_uncomp_size stat) \<le> unat (maximumEntryBytes limits)" using s(1) by (simp add: word_le_nat_alt)
  show "unat (m_uncomp_size stat) \<le> unat (m_comp_size stat) * unat (maximumCompressionRatio limits)"
    using s(4,5) by (rule ratio_ok [rotated])
  show le: "unat used + unat (m_uncomp_size stat) \<le> unat (maximumTotalBytes limits)"
    using s(2,3) by (simp add: word_le_nat_alt unat_sub)
  also have "\<dots> < 2 ^ 64" by (rule unat_64)
  finally show "unat (used + m_uncomp_size stat) = unat used + unat (m_uncomp_size stat)"
    by (simp add: unat_word_ariths(1))
qed

section \<open>All entries\<close>

definition collision_path_of :: "archive_services \<Rightarrow> archive_limits \<Rightarrow> archive_entry \<Rightarrow> archive_collision_path" where
  "collision_path_of svc limits e =
     (let checked = the (validateArchivePath svc limits (entry_path e)) in
      \<lparr>cp_key = collisionKey checked, cp_path = entry_path e, cp_isCanonical = isCanonical checked\<rparr>)"

definition entry_ok :: "archive_services \<Rightarrow> archive_limits \<Rightarrow> archive_entry \<Rightarrow> bool" where
  "entry_ok svc limits e \<longleftrightarrow> validateArchivePath svc limits (entry_path e) \<noteq> None \<and> entry_within limits e"

lemma inspect_entry_step:
  assumes "inspect_entry svc limits bs k i = Inr j"
  obtains e r where "in_entries j = in_entries i @ [e]" "localRanges j = localRanges i @ [r]"
    "collisionPaths j = collisionPaths i @ [collision_path_of (archive_services.truncate svc) limits e]"
    "entry_ok (archive_services.truncate svc) limits e"
    "centralAndLocalMetadataMatch bs (centralCursor i) (entry_path e) = Some (centralCursor j, r)"
    "unat (totalSize j) = unat (totalSize i) + unat (uncompressedSize e)"
    "unat (totalSize j) \<le> unat (maximumTotalBytes limits)"
proof -
  from assms obtain stat name r checked where s: "readArchiveName svc bs k = Some name"
    "centralAndLocalMetadataMatch bs (centralCursor i) name = Some (centralCursor j, r)"
    "validateArchivePath (archive_services.truncate svc) limits name = Some checked"
    "entry_size_error limits (totalSize i) name stat = None"
    "in_entries j = in_entries i @ [\<lparr>entry_path = name, uncompressedSize = m_uncomp_size stat,
        compressedSize = m_comp_size stat\<rparr>]" "localRanges j = localRanges i @ [r]"
    "collisionPaths j = collisionPaths i @ [\<lparr>cp_key = collisionKey checked, cp_path = name,
        cp_isCanonical = isCanonical checked\<rparr>]" "totalSize j = totalSize i + m_uncomp_size stat"
    by (auto simp: inspect_entry_def Let_def split: option.splits if_splits)
  show ?thesis
    using s size_ok [OF s(4)]
    by (intro that [OF s(5,6)]) (simp_all add: entry_ok_def entry_within_def collision_path_of_def)
qed

text \<open>What the loop over the entries has established for the entries it has added.\<close>

definition inspected :: "archive_services \<Rightarrow> archive_limits \<Rightarrow> bytes \<Rightarrow> inspection \<Rightarrow> inspection \<Rightarrow> archive_entry list \<Rightarrow> bool" where
  "inspected svc limits bs i j es \<longleftrightarrow> in_entries j = in_entries i @ es
     \<and> collisionPaths j = collisionPaths i @ map (collision_path_of svc limits) es
     \<and> list_all (entry_ok svc limits) es
     \<and> (\<exists>rs. localRanges j = localRanges i @ rs \<and> list_all2 (local_at bs) (map entry_path es) rs)
     \<and> (\<exists>cs. list_all2 central_record (map entry_path es) cs
          \<and> slice_bytes bs (centralCursor i) (centralCursor j - centralCursor i) = concat cs)
     \<and> centralCursor i \<le> centralCursor j \<and> centralCursor j \<le> int (length bs)
     \<and> unat (totalSize j) = unat (totalSize i) + sum_list (map (\<lambda>e. unat (uncompressedSize e)) es)
     \<and> unat (totalSize j) \<le> unat (maximumTotalBytes limits)"

lemma inspect_entries_inspected:
  assumes "inspect_entries svc limits bs ks i = Inr j" and "0 \<le> centralCursor i"
    and "centralCursor i \<le> int (length bs)" and "unat (totalSize i) \<le> unat (maximumTotalBytes limits)"
  shows "\<exists>es. length es = length ks \<and> inspected (archive_services.truncate svc) limits bs i j es"
  using assms
proof (induction svc limits bs ks i rule: inspect_entries.induct)
  case (1 svc limits bs i)
  then show ?case by (auto simp: inspected_def)
next
  case (2 svc limits bs k ks i)
  then obtain i1 where i1: "inspect_entry svc limits bs k i = Inr i1" "inspect_entries svc limits bs ks i1 = Inr j"
    by (auto split: sum.splits)
  from i1(1) obtain e r where step: "in_entries i1 = in_entries i @ [e]" "localRanges i1 = localRanges i @ [r]"
    "collisionPaths i1 = collisionPaths i @ [collision_path_of (archive_services.truncate svc) limits e]"
    "entry_ok (archive_services.truncate svc) limits e"
    "centralAndLocalMetadataMatch bs (centralCursor i) (entry_path e) = Some (centralCursor i1, r)"
    "unat (totalSize i1) = unat (totalSize i) + unat (uncompressedSize e)"
    "unat (totalSize i1) \<le> unat (maximumTotalBytes limits)"
    by (rule inspect_entry_step)
  note match = metadata_match [OF step(5)]
  from "2.IH" [OF i1(1) i1(2)] match step(7) obtain es where es: "length es = length ks"
    "inspected (archive_services.truncate svc) limits bs i1 j es" by auto
  from es(2) have j: "in_entries j = in_entries i1 @ es"
    "collisionPaths j = collisionPaths i1 @ map (collision_path_of (archive_services.truncate svc) limits) es"
    "list_all (entry_ok (archive_services.truncate svc) limits) es"
    "centralCursor i1 \<le> centralCursor j" "centralCursor j \<le> int (length bs)"
    "unat (totalSize j) = unat (totalSize i1) + sum_list (map (\<lambda>e. unat (uncompressedSize e)) es)"
    "unat (totalSize j) \<le> unat (maximumTotalBytes limits)"
    by (simp_all add: inspected_def)
  from es(2) obtain rs cs where rs: "localRanges j = localRanges i1 @ rs" "list_all2 (local_at bs) (map entry_path es) rs"
    and cs: "list_all2 central_record (map entry_path es) cs"
      "slice_bytes bs (centralCursor i1) (centralCursor j - centralCursor i1) = concat cs"
    by (auto simp: inspected_def)
  have "slice_bytes bs (centralCursor i) (centralCursor j - centralCursor i)
      = concat (slice_bytes bs (centralCursor i) (centralCursor i1 - centralCursor i) # cs)"
    using slice_append [of "centralCursor i" "centralCursor i1" "centralCursor j" bs] match j(4) cs(2) by simp
  moreover have "list_all2 central_record (map entry_path (e # es))
      (slice_bytes bs (centralCursor i) (centralCursor i1 - centralCursor i) # cs)"
    using match cs(1) by simp
  moreover have "list_all2 (local_at bs) (map entry_path (e # es)) (r # rs)" using match rs(2) by simp
  moreover have "localRanges j = localRanges i @ r # rs" using step(2) rs(1) by simp
  moreover have "centralCursor i \<le> centralCursor j" using match(2) j(4) by simp
  moreover note j(7)
  ultimately have "inspected (archive_services.truncate svc) limits bs i j (e # es)"
    unfolding inspected_def
    by (intro conjI exI [of _ "r # rs"]
        exI [of _ "slice_bytes bs (centralCursor i) (centralCursor i1 - centralCursor i) # cs"])
      (simp_all only: j step append_assoc append_Cons append_Nil list.map list.pred_inject sum_list.Cons simp_thms
        add.assoc)
  with es(1) show ?case by (intro exI [of _ "e # es"]) simp
qed

section \<open>The whole archive\<close>

lemma contiguous_slices:
  "ranges_contiguous central e rs \<Longrightarrow> 0 \<le> e \<Longrightarrow> e \<le> central
    \<and> slice_bytes bs e (central - e) = concat (map (\<lambda>r. slice_bytes bs (fst r) (snd r - fst r)) rs)"
proof (induction central e rs rule: ranges_contiguous.induct)
  case (2 central e r rs)
  then have r: "fst r = e" "e \<le> snd r" "snd r \<le> central" "ranges_contiguous central (snd r) rs" by simp_all
  with "2.IH" "2.prems"(2) show ?case using slice_append [of e "snd r" central bs] by simp
qed simp

text \<open>
  Every byte of the archive belongs to exactly one record: the local records, in some order, the
  central records in the order of the entries, and the end record.
\<close>

definition zip_layout :: "bytes \<Rightarrow> bytes list \<Rightarrow> bool" where
  "zip_layout bs names \<longleftrightarrow> (\<exists>locals centrals tail order. bs = concat locals @ concat centrals @ tail
     \<and> length tail = 22 \<and> mset order = mset names
     \<and> list_all2 local_record order locals \<and> list_all2 central_record names centrals)"

definition package_entries :: "archive_services \<Rightarrow> archive_limits \<Rightarrow> archive_entry list \<Rightarrow> bool" where
  "package_entries svc limits entries \<longleftrightarrow>
     int (length entries) \<le> uint (maximumEntries limits)
     \<and> list_all (entry_ok svc limits) entries
     \<and> sum_list (map (\<lambda>e. unat (uncompressedSize e)) entries) \<le> unat (maximumTotalBytes limits)
     \<and> one_tree (map (\<lambda>e. cp_key (collision_path_of svc limits e)) entries)
     \<and> list_all (\<lambda>e. cp_isCanonical (collision_path_of svc limits e)) entries"

lemma envelope_facts:
  assumes "preflightZipEnvelope bs limits = Inr envelope"
  shows "endOffset envelope = int (length bs) - 22" "0 \<le> centralOffset envelope"
    "centralOffset envelope \<le> endOffset envelope" "entryCount envelope \<le> uint (maximumEntries limits)"
  using assms readLittle32_bounds [of bs "int (length bs) - 22 + 12"]
    readLittle32_bounds [of bs "int (length bs) - 22 + 16"]
  by (auto simp: preflightZipEnvelope_def Let_def split: if_splits)

lemma inspectBytes_Inr:
  assumes "inspectBytes svc limits bs = Inr entries"
  obtains envelope i where "preflightZipEnvelope bs limits = Inr envelope"
    "int (length entries) = entryCount envelope"
    "inspected (archive_services.truncate svc) limits bs \<lparr>centralCursor = centralOffset envelope, in_entries = [],
       localRanges = [], collisionPaths = [], totalSize = 0\<rparr> i entries"
    "one_tree (map cp_key (collisionPaths i))" "list_all cp_isCanonical (collisionPaths i)"
    "centralCursor i = endOffset envelope"
    "ranges_contiguous (centralOffset envelope) 0 (sort_key fst (localRanges i))"
    "first_unreadable svc bs 0 entries = None"
proof -
  let ?i0 = "\<lambda>envelope. \<lparr>centralCursor = centralOffset envelope, in_entries = [], localRanges = [],
       collisionPaths = [], totalSize = 0\<rparr>"
  from assms obtain envelope i where e: "preflightZipEnvelope bs limits = Inr envelope"
    "int (zip_num_files svc bs) = entryCount envelope"
    "inspect_entries svc limits bs [0 ..< zip_num_files svc bs] (?i0 envelope) = Inr i"
    "path_errors (collisionPaths i) ''archive entry path collides'' ''archive entry path is invalid'' = None"
    "centralCursor i = endOffset envelope"
    "ranges_contiguous (centralOffset envelope) 0 (sort_key fst (localRanges i))"
    "first_unreadable svc bs 0 (in_entries i) = None" "in_entries i = entries"
    by (auto simp: inspectBytes_def split: sum.splits if_splits option.splits)
  note env = envelope_facts [OF e(1)]
  from inspect_entries_inspected [OF e(3)] env obtain es where es: "length es = zip_num_files svc bs"
    "inspected (archive_services.truncate svc) limits bs (?i0 envelope) i es" by auto
  from es(2) e(8) have "es = entries" by (simp add: inspected_def)
  moreover have "one_tree (map cp_key (collisionPaths i))" "list_all cp_isCanonical (collisionPaths i)"
    using e(4) by (auto simp: path_errors_def no_collision firstNonCanonical_None split: option.splits)
  ultimately show ?thesis using that es e by simp
qed

text \<open>
  C26. An archive passes inspection only if it is a zip file without a hidden byte: it is the
  concatenation of one local record for each entry, the central records of the entries in their
  order, and a 22-byte end record, each with the signature and the name of its entry.  The entries
  keep every limit as numbers (count, sizes, their sum, the compression ratio; no addition and no
  product wraps around), and their canonical names are the files of one tree on a file system that
  ignores case.
\<close>

theorem inspected_archive_exact:
  "(case inspectBytes svc limits bs of Inl e \<Rightarrow> archive_error_code e \<noteq> ArchiveNone
    | Inr entries \<Rightarrow> zip_layout bs (map entry_path entries)
        \<and> package_entries (archive_services.truncate svc) limits entries)"
proof (cases "inspectBytes svc limits bs")
  case (Inl e)
  have "inspect_entries svc limits bs ks i = Inl e \<Longrightarrow> archive_error_code e \<noteq> ArchiveNone" for ks i
    by (induction svc limits bs ks i rule: inspect_entries.induct)
      (auto simp: inspect_entry_def entry_size_error_def Let_def archive_failure_def
        split: option.splits if_splits sum.splits)
  with Inl show ?thesis
    by (auto simp: inspectBytes_def preflightZipEnvelope_def invalid_structure_def path_errors_def
        archive_failure_def Let_def split: sum.splits if_splits option.splits)
next
  case (Inr entries)
  then obtain envelope i where e: "preflightZipEnvelope bs limits = Inr envelope"
    "int (length entries) = entryCount envelope"
    "inspected (archive_services.truncate svc) limits bs \<lparr>centralCursor = centralOffset envelope, in_entries = [],
       localRanges = [], collisionPaths = [], totalSize = 0\<rparr> i entries"
    "one_tree (map cp_key (collisionPaths i))" "list_all cp_isCanonical (collisionPaths i)"
    "centralCursor i = endOffset envelope"
    "ranges_contiguous (centralOffset envelope) 0 (sort_key fst (localRanges i))"
    by (rule inspectBytes_Inr)
  note env = envelope_facts [OF e(1)]
  from e(3) obtain cs rs where cs: "list_all2 central_record (map entry_path entries) cs"
    "slice_bytes bs (centralOffset envelope) (endOffset envelope - centralOffset envelope) = concat cs"
    and rs: "localRanges i = rs" "list_all2 (local_at bs) (map entry_path entries) rs"
    by (auto simp: inspected_def e(6))
  have "mset (sort_key fst rs) = mset rs" by simp
  then obtain order where order: "list_all2 (local_at bs) order (sort_key fst rs)"
    "mset order = mset (map entry_path entries)"
    using list_all2_reorder_left_invariance [of "\<lambda>r n. local_at bs n r" rs "map entry_path entries" "sort_key fst rs"]
      rs(2) by (auto simp: list.rel_flip [of "local_at bs", symmetric] conversep_iff [abs_def])
  let ?locals = "map (\<lambda>r. slice_bytes bs (fst r) (snd r - fst r)) (sort_key fst rs)"
  have "list_all2 local_record order ?locals"
    using order(1) by (auto simp: list_all2_conv_all_nth local_at_def)
  moreover have "bs = concat ?locals @ concat cs @ drop (nat (endOffset envelope)) bs"
  proof -
    have "concat ?locals = slice_bytes bs 0 (centralOffset envelope)"
      using contiguous_slices [OF e(7), of bs] rs(1) by simp
    moreover have "slice_bytes bs 0 (endOffset envelope)
        = slice_bytes bs 0 (centralOffset envelope) @ concat cs"
      using slice_append [of 0 "centralOffset envelope" "endOffset envelope" bs] env cs(2) by simp
    moreover have "slice_bytes bs 0 (endOffset envelope) = take (nat (endOffset envelope)) bs"
      by (simp add: slice_bytes_def)
    ultimately show ?thesis by (metis append.assoc append_take_drop_id)
  qed
  moreover have "length (drop (nat (endOffset envelope)) bs) = 22" using env by simp
  ultimately have "zip_layout bs (map entry_path entries)"
    unfolding zip_layout_def using order(2) cs(1) by blast
  moreover have "package_entries (archive_services.truncate svc) limits entries"
    using e(2-5) env(4) by (simp add: package_entries_def inspected_def list.pred_map comp_def)
  ultimately show ?thesis using Inr by simp
qed

section \<open>Creation does not depend on the order of the files\<close>

definition file_fits :: "archive_services \<Rightarrow> archive_limits \<Rightarrow> archive_file \<Rightarrow> bool" where
  "file_fits svc limits f \<longleftrightarrow> validateArchivePath svc limits (file_path f) \<noteq> None
     \<and> (word_of_nat (length (file_contents f)) :: 64 word) \<le> maximumEntryBytes limits"

abbreviation file_size :: "archive_file \<Rightarrow> nat" where
  "file_size f \<equiv> unat (word_of_nat (length (file_contents f)) :: 64 word)"

definition file_collision_path :: "archive_services \<Rightarrow> archive_limits \<Rightarrow> archive_file \<Rightarrow> archive_collision_path" where
  "file_collision_path svc limits f =
     (let checked = the (validateArchivePath svc limits (file_path f)) in
      \<lparr>cp_key = collisionKey checked, cp_path = file_path f, cp_isCanonical = isCanonical checked\<rparr>)"

lemma add_within:
  fixes used n m :: "64 word"
  assumes "used \<le> m"
  shows "n \<le> m - used \<longleftrightarrow> unat used + unat n \<le> unat m"
    and "n \<le> m - used \<Longrightarrow> unat (used + n) = unat used + unat n"
proof -
  show iff: "n \<le> m - used \<longleftrightarrow> unat used + unat n \<le> unat m"
    using assms by (auto simp: word_le_nat_alt unat_sub)
  show "unat (used + n) = unat used + unat n" if "n \<le> m - used"
    using that iff unat_64 [of m] by (simp add: unat_word_ariths(1))
qed

lemma check_files_iff:
  assumes "used \<le> maximumTotalBytes limits"
  shows "check_files svc limits used fs = Inr ps \<longleftrightarrow> list_all (file_fits svc limits) fs
    \<and> unat used + sum_list (map file_size fs) \<le> unat (maximumTotalBytes limits)
    \<and> ps = map (file_collision_path svc limits) fs"
  using assms
proof (induction fs arbitrary: used ps)
  case Nil
  then show ?case by (auto simp: word_le_nat_alt)
next
  case (Cons f fs)
  let ?n = "word_of_nat (length (file_contents f)) :: 64 word"
  let ?ok = "file_fits svc limits f \<and> ?n \<le> maximumTotalBytes limits - used"
  have unfold: "check_files svc limits used (f # fs) = Inr ps \<longleftrightarrow> ?ok
      \<and> (\<exists>qs. check_files svc limits (used + ?n) fs = Inr qs \<and> ps = file_collision_path svc limits f # qs)"
    using Cons.prems
    by (cases "validateArchivePath svc limits (file_path f)"; cases "check_files svc limits (used + ?n) fs")
      (auto simp: file_fits_def file_collision_path_def not_less not_le Let_def)
  note add = add_within [OF Cons.prems, of ?n]
  show ?case
  proof (cases ?ok)
    case True
    from True add have "used + ?n \<le> maximumTotalBytes limits" by (simp add: word_le_nat_alt)
    from Cons.IH [OF this] True add show ?thesis
      unfolding unfold by (simp add: add.assoc)
  next
    case False
    then show ?thesis unfolding unfold using add(1) by auto
  qed
qed

lemma one_tree_mset: "mset ks = mset ls \<Longrightarrow> one_tree ks \<longleftrightarrow> one_tree ls"
  unfolding one_tree_def using mset_eq_imp_distinct_iff [of ks ls] mset_eq_setD [of ks ls] by simp

lemma checked_files_Inr:
  "checked_files svc limits files = Inr ordered \<longleftrightarrow>
    (word_of_nat (length files) :: 64 word) \<le> maximumEntries limits \<and> list_all (file_fits svc limits) files
    \<and> sum_list (map file_size files) \<le> unat (maximumTotalBytes limits)
    \<and> one_tree (map (cp_key \<circ> file_collision_path svc limits) files)
    \<and> list_all (cp_isCanonical \<circ> file_collision_path svc limits) files \<and> ordered = sort_key file_path files"
proof (cases "check_files svc limits 0 files")
  case (Inl e)
  then have "check_files svc limits 0 files \<noteq> Inr (map (file_collision_path svc limits) files)" by simp
  then have "\<not> (list_all (file_fits svc limits) files
      \<and> sum_list (map file_size files) \<le> unat (maximumTotalBytes limits))"
    using check_files_iff [of 0 limits svc files "map (file_collision_path svc limits) files"] by simp
  with Inl show ?thesis by (auto simp: checked_files_def)
next
  case (Inr ps)
  then have ps: "list_all (file_fits svc limits) files" "sum_list (map file_size files) \<le> unat (maximumTotalBytes limits)"
    "ps = map (file_collision_path svc limits) files"
    using check_files_iff [of 0 limits svc files ps] by simp_all
  have "path_errors ps c m = None \<longleftrightarrow> one_tree (map cp_key ps) \<and> list_all cp_isCanonical ps" for c m
    by (auto simp: path_errors_def no_collision [symmetric] firstNonCanonical_None split: option.splits)
  then show ?thesis
    using Inr ps by (auto simp: checked_files_def not_less list.pred_map split: option.splits)
qed

lemma file_paths_distinct:
  "one_tree (map (cp_key \<circ> file_collision_path svc limits) files) \<Longrightarrow> distinct (map file_path files)"
  by (auto simp: one_tree_def distinct_map inj_on_def file_collision_path_def Let_def)

lemma checked_files_mset:
  assumes "mset files = mset others" and "checked_files svc limits files = Inr ordered"
  shows "checked_files svc limits others = Inr ordered"
proof -
  have sums: "sum_list (map file_size files) = sum_list (map file_size others)"
    unfolding sum_mset_sum_list [symmetric] mset_map assms(1) ..
  have lists: "list_all P files = list_all P others" for P
    using mset_eq_setD [OF assms(1)] by (simp add: list_all_iff)
  have trees: "one_tree (map f files) = one_tree (map f others)" for f
    using assms(1) by (intro one_tree_mset) simp
  show ?thesis
    using assms(2) mset_eq_length [OF assms(1)] sorted_files_eq [OF assms(1)]
    unfolding checked_files_Inr sums lists trees
    by (metis file_paths_distinct trees)
qed

lemma build_archive_mset:
  "mset files = mset others \<Longrightarrow> build_archive svc limits files = Inr r \<Longrightarrow> build_archive svc limits others = Inr r"
  using checked_files_mset [of files others "archive_services.truncate svc" limits]
  by (auto simp: build_archive_def split: sum.splits)

section \<open>Snapshots\<close>

lemma entry_loop_appends:
  "entry_loop svc (\<lambda>w data. Some (w @ data)) n k st w = (ok, written, st1, w1) \<Longrightarrow>
    length w1 + k = length w + written"
proof (induction svc "\<lambda>w data. Some (w @ data) :: bytes option" n k st w rule: entry_loop.induct)
  case (1 svc n k st w)
  then show ?case
    by (subst (asm) (2) entry_loop.simps) (fastforce split: if_splits prod.splits)
qed

lemma readEntryStream_length:
  assumes "readEntryStream svc bs k n (\<lambda>w data. Some (w @ data)) [] = (True, contents)"
  shows "length contents = unat n"
  using assms entry_loop_appends [of svc "unat n" 0 _ "[]"]
  by (fastforce simp: readEntryStream_def Let_def split: option.splits prod.splits)

lemma snapshot_files_entries:
  "snapshot_files svc bs k es = Inr fs \<Longrightarrow>
    list_all2 (\<lambda>e f. file_path f = entry_path e \<and> length (file_contents f) = unat (uncompressedSize e)) es fs"
  by (induction svc bs k es arbitrary: fs rule: snapshot_files.induct)
    (auto simp: Let_def split: prod.splits if_splits sum.splits dest: readEntryStream_length)

lemma snapshot_bytes_Inr:
  assumes "snapshot_bytes svc cs limits bs = Inr files"
  obtains entries where "inspectBytes svc limits bs = Inr entries" "canonical_bytes svc cs limits files = Some bs"
    "sort_key file_path files = files" "mset (map file_path files) = mset (map entry_path entries)"
    "distinct (map file_path files)"
proof -
  from assms obtain entries fs where e: "inspectBytes svc limits bs = Inr entries"
    "snapshot_files svc bs 0 entries = Inr fs" "files = sort_key file_path fs"
    "canonical_bytes svc cs limits files = Some bs"
    by (auto simp: snapshot_bytes_def Let_def split: sum.splits if_splits option.splits)
  from snapshot_files_entries [OF e(2)] have paths: "map file_path fs = map entry_path entries"
    by (induction entries fs rule: list_all2_induct) simp_all
  obtain i envelope where "preflightZipEnvelope bs limits = Inr envelope"
    "inspected (archive_services.truncate svc) limits bs \<lparr>centralCursor = centralOffset envelope, in_entries = [],
       localRanges = [], collisionPaths = [], totalSize = 0\<rparr> i entries" "one_tree (map cp_key (collisionPaths i))"
    by (rule inspectBytes_Inr [OF e(1)])
  then have "distinct (map entry_path entries)"
    by (auto simp: inspected_def one_tree_def distinct_map inj_on_def collision_path_of_def Let_def)
  moreover have "mset (map file_path files) = mset (map entry_path entries)" using e(3) paths
    by (metis mset_map mset_sort)
  ultimately have "distinct (map file_path files)" using mset_eq_imp_distinct_iff by blast
  then show ?thesis using that e paths \<open>mset (map file_path files) = mset (map entry_path entries)\<close>
    by (metis sort_key_id_if_sorted sorted_sort_key)
qed

text \<open>
  C27. A package has one encoding.  Two archives from which a snapshot can be taken are the same bytes
  if and only if they hold the same files, because a snapshot is refused unless the archive is what
  would be written for its files, in the order of their paths.
\<close>

theorem snapshot_identifies_archive:
  assumes "snapshot_bytes svc cs limits bs = Inr files" and "snapshot_bytes svc cs limits others = Inr files'"
  shows "bs = others \<longleftrightarrow> mset files = mset files'"
proof
  assume eq: "mset files = mset files'"
  obtain entries where e: "canonical_bytes svc cs limits files = Some bs" "sort_key file_path files = files"
    "distinct (map file_path files)" by (rule snapshot_bytes_Inr [OF assms(1)])
  obtain entries' where e': "canonical_bytes svc cs limits files' = Some others" "sort_key file_path files' = files'"
    by (rule snapshot_bytes_Inr [OF assms(2)])
  from sorted_files_eq [OF eq e(3)] e(1,2) e' show "bs = others" by simp
qed (use assms in simp)

section \<open>An example\<close>

definition example_archive :: bytes where
  "example_archive =
     [0x50, 0x4B, 3, 4, 0x14, 0, 0, 0, 0, 0, 0, 0, 0x21, 0, 0xB7, 0xEF, 0xDC, 0x83, 1, 0, 0, 0, 1, 0, 0, 0,
      1, 0, 0, 0, 0x61, 0x31,
      0x50, 0x4B, 1, 2, 0x14, 3, 0x14, 0, 0, 0, 0, 0, 0, 0, 0x21, 0, 0xB7, 0xEF, 0xDC, 0x83, 1, 0, 0, 0,
      1, 0, 0, 0, 1, 0, 0, 0, 0, 0, 0, 0, 0, 0, 0, 0, 0xA4, 0x81, 0, 0, 0, 0, 0x61,
      0x50, 0x4B, 5, 6, 0, 0, 0, 0, 1, 0, 1, 0, 0x2F, 0, 0, 0, 0x20, 0, 0, 0, 0, 0]"

definition example_stat :: zip_stat where
  "example_stat = \<lparr>m_bit_flag = 0, m_is_directory = False, m_is_encrypted = False, m_is_supported = True,
     m_method = 0, m_version_made_by = 0x0314, m_external_attr = 0x81A40000, m_uncomp_size = 1,
     m_comp_size = 1, m_crc32 = 0x83DCEFB7\<rparr>"

definition example_zip :: "bytes zip_services" where
  "example_zip = archive_services.extend example_archive_services
     (zip_services.fields (\<lambda>bs. True) (\<lambda>bs. 1)
        (\<lambda>bs k. Some example_stat)
        (\<lambda>bs k. 2) (\<lambda>bs k n. (2, [0x61, 0])) (\<lambda>bs k. True) (\<lambda>bs k. Some [0x31])
        (\<lambda>st n. (take n st, drop n st)) (\<lambda>st. 0) length (\<lambda>st. 0) (\<lambda>st. 0) (\<lambda>st. True)
        (\<lambda>fs. Finalized example_archive))"

definition example_canonical :: canonical_services where
  "example_canonical = \<lparr>directoryValid = True, cs_publish = (\<lambda>bs. True), cs_readBack = Some\<rparr>"

lemma example_stream:
  "writeChunk w [0x31] = Some w1 \<Longrightarrow> readEntryStream example_zip bs 0 1 writeChunk w = (True, w1)"
  by (simp add: readEntryStream_def example_zip_def zip_services.defs archive_services.defs
      entry_loop.simps [of _ _ "Suc 0"] Let_def)

lemma example_headers:
  "preflightZipEnvelope example_archive defaultArchiveLimits
    = Inr \<lparr>centralOffset = 32, endOffset = 79, entryCount = 1\<rparr>"
  "centralAndLocalMetadataMatch example_archive 32 [0x61] = Some (79, 0, 32)"
  by (simp_all add: preflightZipEnvelope_def centralAndLocalMetadataMatch_def fixed_fields_match_def
      slice_bytes_def readLittle32_def readLittle16_def example_archive_def defaultArchiveLimits_def)

lemma example_path:
  "validateArchivePath (archive_services.truncate example_zip) defaultArchiveLimits [0x61]
    = Some \<lparr>collisionKey = [0x61], isCanonical = True\<rparr>"
  by (simp add: example_zip_def example_archive_services_def archive_services.defs validateArchivePath_def
      defaultArchiveLimits_def valid_component_def isWindowsDeviceName_def startsWith_def endsWith_def qstr_def
      reserved_characters_def)

lemma example_services:
  "readArchiveName example_zip bs k = Some [0x61]" "zip_init example_zip bs" "zip_num_files example_zip bs = 1"
  "zip_validate_file example_zip bs k" "zip_write example_zip fs = Finalized example_archive"
  "zip_file_stat example_zip bs k = Some example_stat"
  by (simp_all add: readArchiveName_def example_zip_def archive_services.defs zip_services.defs)

definition example_entry :: archive_entry where
  "example_entry = \<lparr>entry_path = [0x61], uncompressedSize = 1, compressedSize = 1\<rparr>"

lemma example_stat_accepted:
  "entry_type_supported example_stat" "entry_size_error defaultArchiveLimits 0 [0x61] example_stat = None"
  by (simp_all add: entry_type_supported_def entry_size_error_def ratioExceeded_def defaultArchiveLimits_def
      example_stat_def)

lemma example_no_collision: "path_errors [\<lparr>cp_key = [0x61], cp_path = [0x61], cp_isCanonical = True\<rparr>] c m = None"
  by (simp add: path_errors_def findArchivePathCollision_def below_other_key_def firstNonCanonicalArchivePath_def)

lemma example_limits:
  "maximumEntries defaultArchiveLimits = 512" "maximumEntryBytes defaultArchiveLimits = 50 * 1024 * 1024"
  "maximumTotalBytes defaultArchiveLimits = 50 * 1024 * 1024"
  "maximumArchiveBytes defaultArchiveLimits = 64 * 1024 * 1024"
  by (simp_all add: defaultArchiveLimits_def)

lemma example_length: "length example_archive = 101"
  by (simp add: example_archive_def)

lemma example_inspected: "inspectBytes example_zip defaultArchiveLimits example_archive = Inr [example_entry]"
proof -
  have "inspect_entry example_zip defaultArchiveLimits example_archive 0
      \<lparr>centralCursor = 32, in_entries = [], localRanges = [], collisionPaths = [], totalSize = 0\<rparr>
    = Inr \<lparr>centralCursor = 79, in_entries = [example_entry], localRanges = [(0, 32)],
        collisionPaths = [\<lparr>cp_key = [0x61], cp_path = [0x61], cp_isCanonical = True\<rparr>], totalSize = 1\<rparr>"
    using example_stat_accepted
    by (simp add: inspect_entry_def example_headers example_path example_services example_entry_def example_stat_def)
  moreover have "first_unreadable example_zip example_archive 0 [example_entry] = None"
    by (simp add: example_stream example_entry_def)
  ultimately show ?thesis by (simp add: inspectBytes_def example_headers example_services example_no_collision)
qed

lemma example_snapshot:
  "snapshot_bytes example_zip example_canonical defaultArchiveLimits example_archive = Inr [example_file ''a'' ''1'']"
proof -
  have "applyDeterministicCentralMetadata example_archive = Some example_archive"
    by code_simp
  moreover have "snapshot_files example_zip example_archive 0 [example_entry] = Inr [example_file ''a'' ''1'']"
    by (simp add: example_stream example_entry_def example_file_def ascii_bytes_def)
  moreover have "checked_files (archive_services.truncate example_zip) defaultArchiveLimits [example_file ''a'' ''1'']
      = Inr [example_file ''a'' ''1'']"
    by (simp add: checked_files_def example_path example_file_def ascii_bytes_def example_limits example_no_collision)
  ultimately show ?thesis
    by (simp add: snapshot_bytes_def example_inspected example_services canonical_bytes_def build_archive_def
        createFromBuffers_def example_canonical_def example_limits example_length)
qed

theorem snapshot_identifies_archive_witness:
  "mset [example_file ''a'' ''1''] = mset [example_file ''a'' ''1'']
    \<and> snapshot_bytes example_zip example_canonical defaultArchiveLimits example_archive = Inr [example_file ''a'' ''1'']"
  using snapshot_identifies_archive [OF example_snapshot example_snapshot] example_snapshot by blast

end
