(* ===== verification/ArchiveExtraction.thy ===== *)
theory ArchiveExtraction
  imports Archive
begin

text \<open>
  Extraction of an authenticated snapshot into an empty staging directory (\<open>Archive::extractFiles\<close>, the
  Windows branch).  The stable directory tree and the owned output files are the file system's: which
  of their operations succeed is a parameter.  The state is what the operation has made: the
  directories it holds and the files it owns, by their components below the staging root.
\<close>

datatype owned_output = Temporary bytes | Published "qstring list" bytes

record extraction_services =
  ex_fromUtf8 :: "bytes \<Rightarrow> qstring"
  ex_stagingUsable :: bool
  ex_treeOpened :: bool
  ex_createDirectory :: "qstring list \<Rightarrow> bool"
  ex_createTemporary :: "bytes \<Rightarrow> nat \<Rightarrow> bool"
  ex_writeOutput :: "bytes \<Rightarrow> bool"
  ex_publishOutput :: "bytes \<Rightarrow> bool"
  ex_cleanupStable :: bool
  ex_deleteOwned :: "owned_output \<Rightarrow> bool"

record staging =
  heldDirectories :: "qstring list list"
  ownedFiles :: "owned_output list"

definition empty_staging :: staging where
  "empty_staging = \<lparr>heldDirectories = [], ownedFiles = []\<rparr>"

text \<open>Owned files that cannot be deleted stay; the directories that were created go with them.\<close>

definition cleanup_staging :: "extraction_services \<Rightarrow> staging \<Rightarrow> staging" where
  "cleanup_staging svc st =
     (if \<not> ex_cleanupStable svc then st
      else \<lparr>heldDirectories = [], ownedFiles = filter (\<lambda>f. \<not> ex_deleteOwned svc f) (ownedFiles st)\<rparr>)"

text \<open>The parents of an output, from the root down: the root itself is always held.\<close>

fun hold_parents :: "extraction_services \<Rightarrow> qstring list \<Rightarrow> qstring list \<Rightarrow> staging \<Rightarrow> bool \<times> staging" where
  "hold_parents svc parent [] st = (True, st)"
| "hold_parents svc parent (c # cs) st =
     (let parentPath = parent @ [c] in
      if parentPath \<in> set (heldDirectories st) then hold_parents svc parentPath cs st
      else if ex_createDirectory svc parentPath
        then hold_parents svc parentPath cs (st\<lparr>heldDirectories := heldDirectories st @ [parentPath]\<rparr>)
      else (False, st))"

definition temporary_created :: "extraction_services \<Rightarrow> bytes \<Rightarrow> bool" where
  "temporary_created svc path = list_ex (ex_createTemporary svc path) [0 ..< 8]"

definition output_components :: "extraction_services \<Rightarrow> archive_file \<Rightarrow> qstring list" where
  "output_components svc f = split_at 0x2F (ex_fromUtf8 svc (file_path f))"

definition extract_file :: "extraction_services \<Rightarrow> archive_file \<Rightarrow> staging \<Rightarrow> (archive_error \<times> staging) + staging" where
  "extract_file svc f st =
     (let components = output_components svc f in
      case hold_parents svc [] (butlast components) st of
        (False, st1) \<Rightarrow>
          Inl (archive_failure UnsafeStagingRoot (file_path f) ''staging path is not a regular directory'', st1)
      | (True, st1) \<Rightarrow>
          if \<not> temporary_created svc (file_path f)
            then Inl (archive_failure ExtractionFailed (file_path f) ''archive entry could not be written'', st1)
          else if \<not> ex_writeOutput svc (file_path f) \<or> \<not> ex_publishOutput svc (file_path f)
            then Inl (archive_failure ExtractionFailed (file_path f) ''archive entry could not be published'',
              st1\<lparr>ownedFiles := ownedFiles st1 @ [Temporary (file_path f)]\<rparr>)
          else Inr (st1\<lparr>ownedFiles := ownedFiles st1 @ [Published components (file_contents f)]\<rparr>))"

fun extract_loop :: "extraction_services \<Rightarrow> archive_file list \<Rightarrow> staging \<Rightarrow> archive_error option \<times> staging" where
  "extract_loop svc [] st = (None, st)"
| "extract_loop svc (f # fs) st =
     (case extract_file svc f st of
        Inl (e, st1) \<Rightarrow> (Some e, cleanup_staging svc st1)
      | Inr st1 \<Rightarrow> extract_loop svc fs st1)"

definition unsafe_root :: archive_error where
  "unsafe_root = archive_failure UnsafeStagingRoot [] ''staging root is not an empty regular directory''"

definition extractFiles :: "archive_services \<Rightarrow> extraction_services \<Rightarrow> archive_limits \<Rightarrow> archive_file list \<Rightarrow>
    (archive_error + archive_entry list) \<times> staging" where
  "extractFiles svc ex limits files =
     (if \<not> ex_stagingUsable ex then (Inl unsafe_root, empty_staging)
      else (case checked_files svc limits files of
          Inl e \<Rightarrow> (Inl e, empty_staging)
        | Inr ordered \<Rightarrow>
            if \<not> ex_treeOpened ex then (Inl unsafe_root, empty_staging)
            else (case extract_loop ex ordered empty_staging of
                (Some e, st) \<Rightarrow> (Inl e, st)
              | (None, st) \<Rightarrow>
                  (Inr (map (\<lambda>f. let n = word_of_nat (length (file_contents f)) in
                     \<lparr>entry_path = file_path f, uncompressedSize = n, compressedSize = n\<rparr>) ordered), st))))"

section \<open>All or nothing\<close>

lemma hold_parents_owned: "hold_parents svc p cs st = (ok, st1) \<Longrightarrow> ownedFiles st1 = ownedFiles st"
  by (induction svc p cs st rule: hold_parents.induct) (auto simp: Let_def split: if_splits)

lemma extract_file_owned:
  "extract_file svc f st = Inr st1 \<Longrightarrow>
    ownedFiles st1 = ownedFiles st @ [Published (output_components svc f) (file_contents f)]"
  by (auto simp: extract_file_def Let_def hold_parents_owned split: prod.splits bool.splits if_splits)

lemma extract_loop_owned:
  "extract_loop svc fs st = (None, st1) \<Longrightarrow>
    ownedFiles st1 = ownedFiles st @ map (\<lambda>f. Published (output_components svc f) (file_contents f)) fs"
  by (induction svc fs st rule: extract_loop.induct) (auto split: sum.splits dest: extract_file_owned)

lemma extract_loop_failed:
  "extract_loop svc fs st = (Some e, st1) \<Longrightarrow> \<exists>st0. st1 = cleanup_staging svc st0"
  by (induction svc fs st rule: extract_loop.induct) (auto split: sum.splits)

definition left_behind :: "extraction_services \<Rightarrow> staging \<Rightarrow> bool" where
  "left_behind svc st \<longleftrightarrow> heldDirectories st \<noteq> [] \<or> list_ex (ex_deleteOwned svc) (ownedFiles st)"


end
