(* ===== verification/ActivationState.thy ===== *)
theory ActivationState
  imports Preflight Json
begin

text \<open>
  The activation state of an application and its file (\<open>runtime/package/ActivationState.{h,cpp}\<close>): which
  version is current, which was before it, which is the last known good one, and the generation that
  counts the writes.  Qt's JSON parser and compact writer are parameters.
\<close>

record activation_state =
  current :: qstring
  previous :: qstring
  lastKnownGood :: qstring
  generation :: int

record activation_binding =
  currentDirectory :: qstring
  versionDigestHex :: bytes
  binding_generation :: int

record activation_services = preflight_services +
  as_fromJson :: "bytes \<Rightarrow> qjson option"
  as_toCompactJson :: "json_object \<Rightarrow> bytes"

definition MaximumActivationStateBytes :: nat where "MaximumActivationStateBytes = 4096"
definition MaximumGeneration :: int where "MaximumGeneration = 9007199254740991"

definition exact_generation :: "qjson option \<Rightarrow> bool" where
  "exact_generation v \<longleftrightarrow>
     (case v of Some (JDouble (Some q)) \<Rightarrow> 0 \<le> q \<and> q \<le> of_int MaximumGeneration \<and> q = of_int \<lfloor>q\<rfloor> | _ \<Rightarrow> False)"

definition containsExactlyStateMembers :: "json_object \<Rightarrow> bool" where
  "containsExactlyStateMembers object \<longleftrightarrow>
     (if fcard (fmdom object) \<noteq> 4 then False
      else if \<not> list_all (\<lambda>k. isString (json_member object k)) [''current'', ''previous'', ''lastKnownGood''] then False
      else exact_generation (json_member object ''generation''))"

definition persistedTarget :: "qstring \<Rightarrow> qstring" where
  "persistedTarget target = (if target = [] then [] else qstr ''versions/'' @ target)"

definition inMemoryTarget :: "qstring \<Rightarrow> qstring option" where
  "inMemoryTarget target =
     (if target = [] then Some []
      else let Prefix = qstr ''versions/'' in
        if \<not> startsWith Prefix target \<or> length target = length Prefix then None
        else Some (drop (length Prefix) target))"

definition object_of_state :: "activation_state \<Rightarrow> json_object" where
  "object_of_state s = json_object_of
     [(''current'', JString (persistedTarget (current s))),
      (''previous'', JString (persistedTarget (previous s))),
      (''lastKnownGood'', JString (persistedTarget (lastKnownGood s))),
      (''generation'', json_number_of_int (generation s))]"

definition state_toJson :: "activation_services \<Rightarrow> activation_state \<Rightarrow> bytes" where
  "state_toJson svc s = as_toCompactJson svc (object_of_state s) @ [0x0A]"

definition state_of_object :: "json_object \<Rightarrow> activation_state option" where
  "state_of_object object =
     (if \<not> containsExactlyStateMembers object then None
      else (case (inMemoryTarget (toString (json_member object ''current'')),
              inMemoryTarget (toString (json_member object ''previous'')),
              inMemoryTarget (toString (json_member object ''lastKnownGood'')),
              json_int_value (json_member object ''generation'')) of
          (Some c, Some p, Some l, Some g) \<Rightarrow>
            Some \<lparr>current = c, previous = p, lastKnownGood = l, generation = g\<rparr>
        | _ \<Rightarrow> None))"

definition state_fromJson :: "activation_services \<Rightarrow> bytes \<Rightarrow> activation_state option" where
  "state_fromJson svc bs =
     (if bs = [] \<or> MaximumActivationStateBytes < length bs then None
      else (case preflightManifestJson (preflight_services.truncate svc) bs of
          Inl e \<Rightarrow> None
        | Inr p \<Rightarrow>
            (case as_fromJson svc bs of
               Some (JObject object) \<Rightarrow> state_of_object object
             | _ \<Rightarrow> None)))"

section \<open>The object determines the state, and the state the object\<close>

lemma inMemory_iff: "inMemoryTarget t = Some u \<longleftrightarrow> t = persistedTarget u"
  by (auto simp: inMemoryTarget_def persistedTarget_def startsWith_iff Let_def)

lemma inMemory_persisted: "inMemoryTarget (persistedTarget u) = Some u"
  by (simp add: inMemory_iff)

lemma generation_number_value: "json_int_value (Some (json_number_of_int g)) = Some g"
  by (simp add: json_int_value_def json_number_of_int_def)

lemma exact_generation_iff:
  "exact_generation v \<longleftrightarrow> (\<exists>g. v = Some (json_number_of_int g) \<and> 0 \<le> g \<and> g \<le> MaximumGeneration)"
proof
  assume "exact_generation v"
  then obtain q where q: "v = Some (JDouble (Some q))" "0 \<le> q" "q \<le> of_int MaximumGeneration" "q = of_int \<lfloor>q\<rfloor>"
    by (auto simp: exact_generation_def split: option.splits qjson.splits)
  then have "0 \<le> \<lfloor>q\<rfloor>" "\<lfloor>q\<rfloor> \<le> MaximumGeneration" by (simp_all add: floor_le_iff)
  with q show "\<exists>g. v = Some (json_number_of_int g) \<and> 0 \<le> g \<and> g \<le> MaximumGeneration"
    by (auto simp: json_number_of_int_def)
qed (auto simp: exact_generation_def json_number_of_int_def)


end
