(* ===== verification/PackageStore.thy ===== *)
theory PackageStore
  imports ActivationState ContentDigest Patterns
begin

text \<open>
  The activation transactions of the package store (\<open>runtime/package/PackageStore.{h,cpp}\<close>).  Each
  takes the lock of the application, loads the state file, compares it with the binding the caller
  holds, and writes the next state with the next generation.

  The state of the machine is the state file of one application (\<open>None\<close> while there is none), of a
  type \<open>'f\<close> with its writer, reader and size: those of \<open>ActivationState\<close> are \<open>activation_codec\<close>.  What the
  file system answers during a transaction is its environment, a parameter of each step: whether the
  directories, the lock and the stable tree are available, which version directories are there, and
  whether the file is read and committed.
\<close>

datatype store_error = NoStoreError | StoreInvalidArgument | UnsafeStore | StoreSourceUnavailable
  | VersionExists | CandidateCommitFailed | StateUnavailable | InvalidState | VersionUnavailable
  | StateCommitFailed | RollbackUnavailable | StateConflict

record store_result =
  store_error :: store_error
  store_path :: qstring
  store_message :: string
  activationBinding :: "activation_binding option"

record 'f state_codec =
  sc_write :: "activation_state \<Rightarrow> 'f"
  sc_read :: "'f \<Rightarrow> activation_state option"
  sc_size :: "'f \<Rightarrow> int"

definition activation_codec :: "activation_services \<Rightarrow> bytes state_codec" where
  "activation_codec svc = \<lparr>sc_write = state_toJson svc, sc_read = state_fromJson svc, sc_size = int \<circ> length\<rparr>"

record store_env =
  env_directories :: bool
  env_lock :: bool
  env_tree :: bool
  env_directory :: "qstring \<Rightarrow> bool"
  env_read :: bool
  env_pinned :: bool
  env_committed :: bool
  env_cleanPath :: "qstring \<Rightarrow> qstring"

section \<open>Names\<close>

definition store_app_pattern :: pattern where
  "store_app_pattern = Then (Some_of (Chars [lower, digit]))
     (Many (Then (Chars [(0x2E, 0x2E), hyphen]) (Some_of (Chars [lower, digit]))))"

definition store_validAppId :: "qstring \<Rightarrow> bool" where
  "store_validAppId appId \<longleftrightarrow> length appId \<le> 128 \<and> full_match store_app_pattern appId"

definition lower_hex :: "qchar \<Rightarrow> bool" where
  "lower_hex c \<longleftrightarrow> (0x30 \<le> c \<and> c \<le> 0x39) \<or> (0x61 \<le> c \<and> c \<le> 0x66)"

definition validDigest :: "qstring \<Rightarrow> bool" where
  "validDigest s \<longleftrightarrow> length s = 64 \<and> list_all lower_hex s"

definition validVersionDirectory :: "qstring \<Rightarrow> bool" where
  "validVersionDirectory directory \<longleftrightarrow>
     (if length directory \<le> 65 then False
      else let separator = length directory - 65 in
        directory ! separator = 0x2D \<and> full_match version_pattern (take separator directory)
        \<and> validDigest (drop (separator + 1) directory))"

definition store_appRoot :: "store_env \<Rightarrow> qstring \<Rightarrow> qstring \<Rightarrow> qstring" where
  "store_appRoot env storeRoot appId =
     (if \<not> store_validAppId appId then [] else env_cleanPath env (storeRoot @ qstr ''/apps/'' @ appId))"

definition versionPath :: "store_env \<Rightarrow> qstring \<Rightarrow> qstring \<Rightarrow> qstring \<Rightarrow> qstring" where
  "versionPath env storeRoot appId versionDirectory =
     (if \<not> store_validAppId appId \<or> \<not> validVersionDirectory versionDirectory then []
      else env_cleanPath env (store_appRoot env storeRoot appId @ qstr ''/versions/'' @ versionDirectory))"

definition ensureAppDirectories :: "store_env \<Rightarrow> qstring \<Rightarrow> qstring \<Rightarrow> bool" where
  "ensureAppDirectories env storeRoot appId \<longleftrightarrow>
     (if \<not> store_validAppId appId \<or> storeRoot = [] then False else env_directories env)"

definition stateTargetIsValid :: "store_env \<Rightarrow> qstring \<Rightarrow> bool \<Rightarrow> bool" where
  "stateTargetIsValid env target allowEmpty \<longleftrightarrow>
     (if target = [] then allowEmpty
      else if \<not> validVersionDirectory target then False
      else env_directory env target)"

definition state_targets_valid :: "store_env \<Rightarrow> activation_state \<Rightarrow> bool" where
  "state_targets_valid env s \<longleftrightarrow> stateTargetIsValid env (current s) True \<and> stateTargetIsValid env (previous s) True
     \<and> stateTargetIsValid env (lastKnownGood s) True"

section \<open>Loading and writing the state\<close>

definition empty_state :: activation_state where
  "empty_state = \<lparr>current = [], previous = [], lastKnownGood = [], generation = 0\<rparr>"

definition store_failure :: "store_error \<Rightarrow> string \<Rightarrow> store_result" where
  "store_failure e m = \<lparr>store_error = e, store_path = [], store_message = m, activationBinding = None\<rparr>"

definition store_success :: "qstring \<Rightarrow> activation_binding option \<Rightarrow> store_result" where
  "store_success path binding =
     \<lparr>store_error = NoStoreError, store_path = path, store_message = [], activationBinding = binding\<rparr>"

type_synonym loaded_state = "(store_error \<times> string) + activation_state"

definition activationStateUnlocked :: "'f state_codec \<Rightarrow> store_env \<Rightarrow> qstring \<Rightarrow> 'f option \<Rightarrow> loaded_state" where
  "activationStateUnlocked codec env appId file =
     (if \<not> store_validAppId appId then Inl (StoreInvalidArgument, ''invalid application identifier'')
      else (case file of
          None \<Rightarrow> Inr empty_state
        | Some f \<Rightarrow>
            if \<not> env_tree env then Inl (UnsafeStore, ''package store is unavailable'')
            else if 4096 < sc_size codec f \<or> \<not> env_read env
              then Inl (StateUnavailable, ''activation state is unavailable'')
            else (case sc_read codec f of
                None \<Rightarrow> Inl (InvalidState, ''activation state target is invalid'')
              | Some s \<Rightarrow>
                  if \<not> state_targets_valid env s then Inl (InvalidState, ''activation state target is invalid'')
                  else if \<not> env_pinned env \<or> \<not> state_targets_valid env s
                    then Inl (InvalidState, ''activation state target is invalid'')
                  else Inr s)))"

definition syntactically_valid :: "qstring \<Rightarrow> bool" where
  "syntactically_valid target \<longleftrightarrow> target = [] \<or> validVersionDirectory target"

definition recordedActivationStateUnlocked :: "'f state_codec \<Rightarrow> store_env \<Rightarrow> qstring \<Rightarrow> 'f option \<Rightarrow> loaded_state" where
  "recordedActivationStateUnlocked codec env appId file =
     (if \<not> store_validAppId appId then Inl (StoreInvalidArgument, ''invalid application identifier'')
      else (case file of
          None \<Rightarrow> Inr empty_state
        | Some f \<Rightarrow>
            if \<not> env_tree env \<or> 4096 < sc_size codec f \<or> \<not> env_read env
              then Inl (StateUnavailable, ''activation state is unavailable'')
            else (case sc_read codec f of
                None \<Rightarrow> Inl (InvalidState, ''activation state target is invalid'')
              | Some s \<Rightarrow>
                  if \<not> syntactically_valid (current s) \<or> \<not> syntactically_valid (previous s)
                      \<or> \<not> syntactically_valid (lastKnownGood s)
                    then Inl (InvalidState, ''activation state target is invalid'')
                  else Inr s)))"

definition locked_state :: "('f state_codec \<Rightarrow> store_env \<Rightarrow> qstring \<Rightarrow> 'f option \<Rightarrow> loaded_state) \<Rightarrow>
    'f state_codec \<Rightarrow> store_env \<Rightarrow> qstring \<Rightarrow> 'f option \<Rightarrow> loaded_state" where
  "locked_state load codec env appId file =
     (if \<not> store_validAppId appId then Inl (StoreInvalidArgument, ''invalid application identifier'')
      else if file = None then Inr empty_state
      else if \<not> env_lock env then Inl (StateUnavailable, ''activation state is busy'')
      else load codec env appId file)"

definition activationState :: "'f state_codec \<Rightarrow> store_env \<Rightarrow> qstring \<Rightarrow> 'f option \<Rightarrow> loaded_state" where
  "activationState = locked_state activationStateUnlocked"

definition recordedActivationState :: "'f state_codec \<Rightarrow> store_env \<Rightarrow> qstring \<Rightarrow> 'f option \<Rightarrow> loaded_state" where
  "recordedActivationState = locked_state recordedActivationStateUnlocked"

definition writeState :: "'f state_codec \<Rightarrow> store_env \<Rightarrow> qstring \<Rightarrow> qstring \<Rightarrow> activation_state \<Rightarrow> 'f option \<Rightarrow>
    store_result option \<times> 'f option" where
  "writeState codec env storeRoot appId s file =
     (if \<not> ensureAppDirectories env storeRoot appId \<or> \<not> state_targets_valid env s
        then (Some (store_failure InvalidState ''activation state target is invalid''), file)
      else if \<not> env_tree env then (Some (store_failure UnsafeStore ''package store is unavailable''), file)
      else if \<not> env_pinned env \<or> \<not> state_targets_valid env s
        then (Some (store_failure InvalidState ''activation state target is invalid''), file)
      else if \<not> env_committed env
        then (Some (store_failure StateCommitFailed ''activation state could not be committed''), file)
      else (None, Some (sc_write codec s)))"

definition latin1 :: "qstring \<Rightarrow> bytes" where
  "latin1 s = map (\<lambda>c. if c < 0x100 then ucast c else 0x3F) s"

definition lastHyphen :: "qstring \<Rightarrow> int" where
  "lastHyphen s = (case find (\<lambda>i. s ! i = 0x2D) (rev [0 ..< length s]) of None \<Rightarrow> -1 | Some i \<Rightarrow> int i)"

definition bindingForState :: "activation_state \<Rightarrow> activation_binding option" where
  "bindingForState s =
     (if generation s < 0 \<or> current s = [] then None
      else
        let separator = lastHyphen (current s) in
        if separator \<le> 0 \<or> int (length (current s)) - separator - 1 \<noteq> 64 then None
        else
          let digest = latin1 (drop (nat (separator + 1)) (current s)) in
          if \<not> list_all hex_byte digest then None
          else Some \<lparr>currentDirectory = current s, versionDigestHex = digest, binding_generation = generation s\<rparr>)"

section \<open>Transactions\<close>

text \<open>
  The frame all of them share: the directories, the lock, the load, and a body that either answers at
  once or names the next state to be written.
\<close>

datatype decision = Answer store_result | Write activation_state

definition transaction :: "('f state_codec \<Rightarrow> store_env \<Rightarrow> qstring \<Rightarrow> 'f option \<Rightarrow> loaded_state) \<Rightarrow>
    (activation_state \<Rightarrow> decision) \<Rightarrow> bool \<Rightarrow> 'f state_codec \<Rightarrow> store_env \<Rightarrow> qstring \<Rightarrow> qstring \<Rightarrow> 'f option \<Rightarrow>
    store_result \<times> 'f option" where
  "transaction load decide requireBinding codec env storeRoot appId file =
     (case load codec env appId file of
        Inl (e, m) \<Rightarrow> (store_failure e m, file)
      | Inr s \<Rightarrow>
          (case decide s of
             Answer r \<Rightarrow> (r, file)
           | Write next \<Rightarrow>
               (case writeState codec env storeRoot appId next file of
                  (Some r, file1) \<Rightarrow> (r, file1)
                | (None, file1) \<Rightarrow>
                    if requireBinding \<and> bindingForState next = None
                    then (store_failure InvalidState ''activation binding is invalid'', file1)
                    else (store_success (versionPath env storeRoot appId (current next)) (bindingForState next), file1))))"

definition guarded :: "store_env \<Rightarrow> qstring \<Rightarrow> qstring \<Rightarrow> store_result \<times> 'f option \<Rightarrow> 'f option \<Rightarrow>
    store_result \<times> 'f option" where
  "guarded env storeRoot appId outcome file =
     (if \<not> ensureAppDirectories env storeRoot appId
        then (store_failure UnsafeStore ''package store is unavailable'', file)
      else if \<not> env_lock env then (store_failure StateUnavailable ''activation state is busy'', file)
      else outcome)"

definition exhausted :: store_result where
  "exhausted = store_failure StateCommitFailed ''activation generation is exhausted''"

definition conflict :: store_result where
  "conflict = store_failure StateConflict ''activation state changed''"

definition activateVerified :: "'f state_codec \<Rightarrow> qstring \<Rightarrow> qstring \<Rightarrow> store_env \<Rightarrow> qstring \<Rightarrow> 'f option \<Rightarrow>
    store_result \<times> 'f option" where
  "activateVerified codec storeRoot appId env versionDirectory file =
     guarded env storeRoot appId
       (if \<not> stateTargetIsValid env versionDirectory False
        then (store_failure VersionUnavailable ''version is unavailable'', file)
        else transaction activationStateUnlocked
          (\<lambda>s.
             if current s = versionDirectory then Answer
               (case bindingForState s of
                  None \<Rightarrow> store_failure InvalidState ''activation binding is invalid''
                | Some b \<Rightarrow> store_success (versionPath env storeRoot appId versionDirectory) (Some b))
             else if MaximumGeneration \<le> generation s then Answer exhausted
             else Write (s\<lparr>previous := current s, current := versionDirectory, generation := generation s + 1\<rparr>))
          True codec env storeRoot appId file) file"

definition markCurrentLastKnownGood :: "'f state_codec \<Rightarrow> qstring \<Rightarrow> qstring \<Rightarrow> store_env \<Rightarrow> activation_binding \<Rightarrow> 'f option \<Rightarrow>
    store_result \<times> 'f option" where
  "markCurrentLastKnownGood codec storeRoot appId env expected file =
     guarded env storeRoot appId
       (transaction activationStateUnlocked
          (\<lambda>s.
             if current s = [] then Answer (store_failure VersionUnavailable ''no current version is active'')
             else if bindingForState s \<noteq> Some expected then Answer conflict
             else if lastKnownGood s = current s
               then Answer (store_success (versionPath env storeRoot appId (current s)) (bindingForState s))
             else if MaximumGeneration \<le> generation s then Answer exhausted
             else Write (s\<lparr>lastKnownGood := current s, generation := generation s + 1\<rparr>))
          False codec env storeRoot appId file) file"

definition recoverLastKnownGood :: "'f state_codec \<Rightarrow> qstring \<Rightarrow> qstring \<Rightarrow> store_env \<Rightarrow> activation_binding \<Rightarrow> 'f option \<Rightarrow>
    store_result \<times> 'f option" where
  "recoverLastKnownGood codec storeRoot appId env expected file =
     guarded env storeRoot appId
       (transaction recordedActivationStateUnlocked
          (\<lambda>s.
             if bindingForState s \<noteq> Some expected then Answer conflict
             else if lastKnownGood s = [] \<or> \<not> stateTargetIsValid env (lastKnownGood s) False
               then Answer (store_failure RollbackUnavailable ''last known good version is unavailable'')
             else if current s = lastKnownGood s \<and> stateTargetIsValid env (current s) False
               then Answer (store_success (versionPath env storeRoot appId (current s)) (bindingForState s))
             else if MaximumGeneration \<le> generation s then Answer exhausted
             else Write \<lparr>current = lastKnownGood s, previous = [], lastKnownGood = lastKnownGood s,
               generation = generation s + 1\<rparr>)
          False codec env storeRoot appId file) file"

definition store_rollback :: "'f state_codec \<Rightarrow> qstring \<Rightarrow> qstring \<Rightarrow> store_env \<Rightarrow> activation_binding \<Rightarrow> 'f option \<Rightarrow>
    store_result \<times> 'f option" where
  "store_rollback codec storeRoot appId env expected file =
     guarded env storeRoot appId
       (transaction activationStateUnlocked
          (\<lambda>s.
             let target = (if lastKnownGood s = [] then previous s else lastKnownGood s) in
             if bindingForState s \<noteq> Some expected then Answer conflict
             else if target = [] \<or> target = current s \<or> \<not> stateTargetIsValid env target False
               then Answer (store_failure RollbackUnavailable ''rollback target is unavailable'')
             else if MaximumGeneration \<le> generation s then Answer exhausted
             else Write (s\<lparr>previous := current s, current := target, generation := generation s + 1\<rparr>))
          False codec env storeRoot appId file) file"

definition confirmCurrent :: "'f state_codec \<Rightarrow> qstring \<Rightarrow> qstring \<Rightarrow> store_env \<Rightarrow> activation_binding \<Rightarrow> 'f option \<Rightarrow>
    store_result \<times> 'f option" where
  "confirmCurrent codec storeRoot appId env expected file =
     guarded env storeRoot appId
       (transaction recordedActivationStateUnlocked
          (\<lambda>s.
             if bindingForState s \<noteq> Some expected then Answer conflict
             else if MaximumGeneration \<le> generation s then Answer exhausted
             else Write (s\<lparr>generation := generation s + 1\<rparr>))
          True codec env storeRoot appId file) file"

definition compareCurrent :: "'f state_codec \<Rightarrow> qstring \<Rightarrow> qstring \<Rightarrow> store_env \<Rightarrow> activation_binding \<Rightarrow> 'f option \<Rightarrow>
    store_result" where
  "compareCurrent codec storeRoot appId env expected file =
     (if \<not> store_validAppId appId then store_failure StoreInvalidArgument ''invalid application identifier''
      else if \<not> env_lock env then store_failure StateUnavailable ''activation state is busy''
      else (case recordedActivationStateUnlocked codec env appId file of
          Inl (e, m) \<Rightarrow> store_failure e m
        | Inr s \<Rightarrow>
            if bindingForState s \<noteq> Some expected then conflict
            else store_success (versionPath env storeRoot appId (currentDirectory expected)) (Some expected)))"

definition resolveCurrent :: "'f state_codec \<Rightarrow> qstring \<Rightarrow> qstring \<Rightarrow> store_env \<Rightarrow> 'f option \<Rightarrow> store_result" where
  "resolveCurrent codec storeRoot appId env file =
     (case activationState codec env appId file of
        Inl (e, m) \<Rightarrow> store_failure e m
      | Inr s \<Rightarrow>
          if current s = [] then store_failure VersionUnavailable ''no current version is active''
          else store_success (versionPath env storeRoot appId (current s)) None)"

datatype store_event =
    ActivateVersion store_env qstring
  | MarkGood store_env activation_binding
  | RecoverGood store_env activation_binding
  | RollBack store_env activation_binding
  | ConfirmCurrent store_env activation_binding
  | CompareCurrent store_env activation_binding
  | ResolveCurrent store_env

fun store_step :: "'f state_codec \<Rightarrow> qstring \<Rightarrow> qstring \<Rightarrow> 'f option \<Rightarrow> store_event \<Rightarrow> 'f option \<times> store_result" where
  "store_step codec storeRoot appId file (ActivateVersion env v) = prod.swap (activateVerified codec storeRoot appId env v file)"
| "store_step codec storeRoot appId file (MarkGood env b) = prod.swap (markCurrentLastKnownGood codec storeRoot appId env b file)"
| "store_step codec storeRoot appId file (RecoverGood env b) = prod.swap (recoverLastKnownGood codec storeRoot appId env b file)"
| "store_step codec storeRoot appId file (RollBack env b) = prod.swap (store_rollback codec storeRoot appId env b file)"
| "store_step codec storeRoot appId file (ConfirmCurrent env b) = prod.swap (confirmCurrent codec storeRoot appId env b file)"
| "store_step codec storeRoot appId file (CompareCurrent env b) = (file, compareCurrent codec storeRoot appId env b file)"
| "store_step codec storeRoot appId file (ResolveCurrent env) = (file, resolveCurrent codec storeRoot appId env file)"

end
