(* ===== verification/PackageStoreProofs.thy ===== *)
theory PackageStoreProofs
  imports PackageStore
begin

text \<open>
  What the activation transactions guarantee over every sequence of them, on one application's file:
  a binding names one written state, so that a caller whose binding is out of date is always told,
  and only a version that was activated, and then marked, is ever recovered.
\<close>

section \<open>States that are stored\<close>

definition stored_target :: "qstring \<Rightarrow> bool" where
  "stored_target t \<longleftrightarrow> t = [] \<or> (validVersionDirectory t \<and> length t \<le> 193)"

definition storable :: "activation_state \<Rightarrow> bool" where
  "storable s \<longleftrightarrow> 0 \<le> generation s \<and> generation s \<le> MaximumGeneration \<and> stored_target (current s)
     \<and> stored_target (previous s) \<and> stored_target (lastKnownGood s)"

text \<open>
  What the transactions need of the file format: a state that can be stored is read back.  A version
  directory has at most 193 characters, those of a version of 128, a hyphen and a digest of 64.
\<close>

definition reads_back :: "'f state_codec \<Rightarrow> bool" where
  "reads_back codec \<longleftrightarrow> (\<forall>s. storable s \<longrightarrow> sc_read codec (sc_write codec s) = Some s)"

definition store_inv :: "'f state_codec \<Rightarrow> 'f option \<Rightarrow> bool" where
  "store_inv codec disk \<longleftrightarrow> disk = None \<or> (\<exists>s. storable s \<and> disk = Some (sc_write codec s))"

definition stored_state :: "'f state_codec \<Rightarrow> 'f option \<Rightarrow> activation_state" where
  "stored_state codec disk = (case disk of None \<Rightarrow> empty_state | Some f \<Rightarrow> the (sc_read codec f))"

fun store_admits :: "store_event \<Rightarrow> bool" where
  "store_admits (ActivateVersion env v) \<longleftrightarrow> length v \<le> 193"
| "store_admits _ \<longleftrightarrow> True"

fun expected_binding :: "store_event \<Rightarrow> activation_binding option" where
  "expected_binding (MarkGood env b) = Some b"
| "expected_binding (RecoverGood env b) = Some b"
| "expected_binding (RollBack env b) = Some b"
| "expected_binding (ConfirmCurrent env b) = Some b"
| "expected_binding (CompareCurrent env b) = Some b"
| "expected_binding _ = None"

lemma storable_empty [simp]: "storable empty_state"
  by (simp add: storable_def empty_state_def stored_target_def MaximumGeneration_def)

lemma stored_state_write [simp]:
  "reads_back codec \<Longrightarrow> storable s \<Longrightarrow> stored_state codec (Some (sc_write codec s)) = s"
  by (simp add: stored_state_def reads_back_def)

lemma stored_state_storable: "reads_back codec \<Longrightarrow> store_inv codec disk \<Longrightarrow> storable (stored_state codec disk)"
  by (auto simp: store_inv_def) (simp add: stored_state_def)

lemma loaded_is_stored:
  "activationStateUnlocked codec env appId disk = Inr s \<Longrightarrow> s = stored_state codec disk"
  "recordedActivationStateUnlocked codec env appId disk = Inr s \<Longrightarrow> s = stored_state codec disk"
  by (auto simp: activationStateUnlocked_def recordedActivationStateUnlocked_def stored_state_def
      split: if_splits option.splits)

lemma failure_simps [simp]:
  "activationBinding (store_failure e m) = None" "store_error (store_failure e m) = e"
  "activationBinding (store_success p b) = b" "store_error (store_success p b) = NoStoreError"
  by (simp_all add: store_failure_def store_success_def)

lemma refused_simps [simp]:
  "activationBinding exhausted = None" "store_error exhausted \<noteq> NoStoreError"
  "activationBinding conflict = None" "store_error conflict \<noteq> NoStoreError"
  by (simp_all add: exhausted_def conflict_def)

section \<open>One transaction\<close>

text \<open>
  An outcome on a file: either nothing is written and the answer is \<open>answer\<close>'s, or the state \<open>next\<close>
  of a decision is.
\<close>

definition outcome_of :: "'f state_codec \<Rightarrow> (activation_state \<Rightarrow> decision) \<Rightarrow> 'f option \<Rightarrow> store_result \<times> 'f option \<Rightarrow> bool" where
  "outcome_of codec decide disk outcome \<longleftrightarrow>
     (snd outcome = disk \<and> (store_error (fst outcome) \<noteq> NoStoreError \<and> activationBinding (fst outcome) = None
         \<or> decide (stored_state codec disk) = Answer (fst outcome)))
     \<or> (\<exists>next env. decide (stored_state codec disk) = Write next \<and> state_targets_valid env next
         \<and> snd outcome = Some (sc_write codec next)
         \<and> (activationBinding (fst outcome) = bindingForState next
            \<or> (store_error (fst outcome) \<noteq> NoStoreError \<and> activationBinding (fst outcome) = None)))"

lemma loaded_error:
  "activationStateUnlocked codec env appId disk = Inl (e, m) \<Longrightarrow> e \<noteq> NoStoreError"
  "recordedActivationStateUnlocked codec env appId disk = Inl (e, m) \<Longrightarrow> e \<noteq> NoStoreError"
  by (auto simp: activationStateUnlocked_def recordedActivationStateUnlocked_def split: if_splits option.splits)

lemma transaction_outcome:
  assumes "load = activationStateUnlocked \<or> load = recordedActivationStateUnlocked"
  shows "outcome_of codec decide disk (transaction load decide rb codec env storeRoot appId disk)"
proof (cases "load codec env appId disk")
  case (Inl x)
  obtain e m where "x = (e, m)" by (cases x)
  then show ?thesis
    using Inl assms loaded_error by (fastforce simp: transaction_def outcome_of_def)
next
  case (Inr s)
  with assms loaded_is_stored have s: "s = stored_state codec disk" by metis
  show ?thesis
  proof (cases "decide s")
    case (Answer r)
    then show ?thesis using Inr s by (simp add: transaction_def outcome_of_def)
  next
    case (Write n)
    then show ?thesis using Inr s
      by (auto simp: transaction_def outcome_of_def writeState_def split: option.splits)
  qed
qed

lemma guarded_outcome:
  "outcome_of codec decide disk outcome \<Longrightarrow> outcome_of codec decide disk (guarded env storeRoot appId outcome disk)"
  by (auto simp: guarded_def outcome_of_def)

lemma refused_outcome: "e \<noteq> NoStoreError \<Longrightarrow> outcome_of codec decide disk (store_failure e m, disk)"
  by (simp add: outcome_of_def)

text \<open>How a step may change the state, and what it may answer.\<close>

definition step_effect :: "activation_state \<Rightarrow> store_event \<Rightarrow> activation_state option \<Rightarrow> store_result \<Rightarrow> bool" where
  "step_effect s e written r \<longleftrightarrow>
     (store_error r = NoStoreError \<longrightarrow> expected_binding e = None \<or> expected_binding e = bindingForState s)
     \<and> (case written of
          None \<Rightarrow> activationBinding r = None \<or> activationBinding r = bindingForState s
        | Some t \<Rightarrow> generation t = generation s + 1 \<and> generation s < MaximumGeneration
            \<and> (activationBinding r = None \<or> activationBinding r = bindingForState t)
            \<and> ((\<exists>env. e = ActivateVersion env (current t)) \<or> current t = current s
               \<or> current t = previous s \<or> current t = lastKnownGood s)
            \<and> (previous t = [] \<or> previous t = previous s \<or> previous t = current s)
            \<and> (lastKnownGood t = lastKnownGood s
               \<or> (lastKnownGood t = current s \<and> (\<exists>env b. e = MarkGood env b \<and> bindingForState s = Some b))))"

lemma outcome_effect:
  assumes "outcome_of codec decide disk outcome"
    and "\<And>r. decide (stored_state codec disk) = Answer r \<Longrightarrow> step_effect (stored_state codec disk) e None r"
    and "\<And>t r. decide (stored_state codec disk) = Write t \<Longrightarrow> activationBinding r = None \<or> activationBinding r = bindingForState t \<Longrightarrow>
        step_effect (stored_state codec disk) e (Some t) r"
  shows "(snd outcome = disk \<and> step_effect (stored_state codec disk) e None (fst outcome))
    \<or> (\<exists>t env. snd outcome = Some (sc_write codec t) \<and> state_targets_valid env t
        \<and> step_effect (stored_state codec disk) e (Some t) (fst outcome))"
  using assms(1) unfolding outcome_of_def
proof (elim disjE conjE exE)
  assume "store_error (fst outcome) \<noteq> NoStoreError" "activationBinding (fst outcome) = None" "snd outcome = disk"
  then show ?thesis by (simp add: step_effect_def)
next
  assume "decide (stored_state codec disk) = Answer (fst outcome)" "snd outcome = disk"
  then show ?thesis using assms(2) by blast
next
  fix n env
  assume "decide (stored_state codec disk) = Write n" "state_targets_valid env n"
    "snd outcome = Some (sc_write codec n)" "activationBinding (fst outcome) = bindingForState n"
  then show ?thesis using assms(3) by blast
next
  fix n env
  assume "decide (stored_state codec disk) = Write n" "state_targets_valid env n"
    "snd outcome = Some (sc_write codec n)" "activationBinding (fst outcome) = None"
  then show ?thesis using assms(3) by blast
qed

definition effect_holds :: "'f state_codec \<Rightarrow> 'f option \<Rightarrow> store_event \<Rightarrow> 'f option \<times> store_result \<Rightarrow> bool" where
  "effect_holds codec disk e outcome \<longleftrightarrow>
     (fst outcome = disk \<and> step_effect (stored_state codec disk) e None (snd outcome))
     \<or> (\<exists>t env. fst outcome = Some (sc_write codec t) \<and> state_targets_valid env t
          \<and> step_effect (stored_state codec disk) e (Some t) (snd outcome))"

lemma activate_effect: "effect_holds codec disk (ActivateVersion env v) (prod.swap (activateVerified codec storeRoot appId env v disk))"
  unfolding effect_holds_def fst_swap snd_swap activateVerified_def
  by (rule outcome_effect, rule guarded_outcome, simp only: if_split, intro conjI impI,
      rule refused_outcome, simp, rule transaction_outcome, simp)
    (auto simp: step_effect_def split: if_splits option.splits)

lemma mark_effect: "effect_holds codec disk (MarkGood env b) (prod.swap (markCurrentLastKnownGood codec storeRoot appId env b disk))"
  unfolding effect_holds_def fst_swap snd_swap markCurrentLastKnownGood_def
  by (rule outcome_effect, rule guarded_outcome, rule transaction_outcome, simp)
    (auto simp: step_effect_def split: if_splits)

lemma recover_effect: "effect_holds codec disk (RecoverGood env b) (prod.swap (recoverLastKnownGood codec storeRoot appId env b disk))"
  unfolding effect_holds_def fst_swap snd_swap recoverLastKnownGood_def
  by (rule outcome_effect, rule guarded_outcome, rule transaction_outcome, simp)
    (auto simp: step_effect_def split: if_splits)

lemma rollback_effect: "effect_holds codec disk (RollBack env b) (prod.swap (store_rollback codec storeRoot appId env b disk))"
  unfolding effect_holds_def fst_swap snd_swap store_rollback_def Let_def
  by (rule outcome_effect, rule guarded_outcome, rule transaction_outcome, simp)
    (auto simp: step_effect_def split: if_splits)

lemma confirm_effect: "effect_holds codec disk (ConfirmCurrent env b) (prod.swap (confirmCurrent codec storeRoot appId env b disk))"
  unfolding effect_holds_def fst_swap snd_swap confirmCurrent_def
  by (rule outcome_effect, rule guarded_outcome, rule transaction_outcome, simp)
    (auto simp: step_effect_def split: if_splits)

lemma compare_effect: "effect_holds codec disk (CompareCurrent env b) (disk, compareCurrent codec storeRoot appId env b disk)"
  using loaded_is_stored(2) [of codec env appId disk] loaded_error(2) [of codec env appId disk]
  by (auto simp: effect_holds_def compareCurrent_def step_effect_def split: sum.splits)

lemma resolve_effect: "effect_holds codec disk (ResolveCurrent env) (disk, resolveCurrent codec storeRoot appId env disk)"
  by (auto simp: effect_holds_def resolveCurrent_def step_effect_def split: sum.splits)

lemma store_step_effect: "effect_holds codec disk e (store_step codec storeRoot appId disk e)"
  using activate_effect mark_effect recover_effect rollback_effect confirm_effect compare_effect resolve_effect
  by (cases e) simp_all

section \<open>Every run\<close>

lemma valid_targets: "state_targets_valid env s \<Longrightarrow> t \<in> {current s, previous s, lastKnownGood s} \<Longrightarrow> t \<noteq> [] \<Longrightarrow> validVersionDirectory t"
  by (auto simp: state_targets_valid_def stateTargetIsValid_def split: if_splits)

lemma effect_storable:
  assumes "step_effect s e (Some t) r" and "storable s" and "store_admits e" and "state_targets_valid env t"
  shows "storable t"
proof -
  have len: "length (current s) \<le> 193" "length (previous s) \<le> 193" "length (lastKnownGood s) \<le> 193"
    using assms(2) by (auto simp: storable_def stored_target_def)
  from assms(1) have eff: "(\<exists>env. e = ActivateVersion env (current t)) \<or> current t = current s
      \<or> current t = previous s \<or> current t = lastKnownGood s"
    "previous t = [] \<or> previous t = previous s \<or> previous t = current s"
    "lastKnownGood t = lastKnownGood s \<or> lastKnownGood t = current s"
    "generation t = generation s + 1" "generation s < MaximumGeneration"
    unfolding step_effect_def by simp_all blast
  have "length (current t) \<le> 193" using eff(1) len assms(3) by (elim disjE exE) simp_all
  moreover have "length (previous t) \<le> 193" using eff(2) len by (elim disjE) simp_all
  moreover have "length (lastKnownGood t) \<le> 193" using eff(3) len by (elim disjE) simp_all
  moreover have "u \<in> {current t, previous t, lastKnownGood t} \<Longrightarrow> u = [] \<or> validVersionDirectory u" for u
    using valid_targets [OF assms(4)] by blast
  ultimately show ?thesis
    using assms(2) eff(4,5) by (simp add: storable_def stored_target_def)
qed

lemma store_step_inv:
  assumes "reads_back codec" and "store_inv codec disk" and "store_admits e"
  shows "store_inv codec (fst (store_step codec storeRoot appId disk e))"
  using store_step_effect [of codec disk e storeRoot appId] assms effect_storable stored_state_storable [OF assms(1,2)]
  unfolding effect_holds_def store_inv_def by metis

interpretation store_run: machine_invariant "store_step codec storeRoot appId" "\<lambda>disk. reads_back codec \<and> store_inv codec disk"
  store_admits for codec storeRoot appId
  by unfold_locales (auto intro: store_step_inv)

text \<open>The generation never decreases, and while it stays the same nothing is written.\<close>

lemma generation_step:
  assumes "reads_back codec" and "store_inv codec disk" and "store_admits e"
  shows "fst (store_step codec storeRoot appId disk e) = disk
    \<or> generation (stored_state codec (fst (store_step codec storeRoot appId disk e))) = generation (stored_state codec disk) + 1"
proof (cases "fst (store_step codec storeRoot appId disk e) = disk")
  case False
  with store_step_effect [of codec disk e storeRoot appId]
  obtain t env where t: "fst (store_step codec storeRoot appId disk e) = Some (sc_write codec t)"
    "state_targets_valid env t"
    "step_effect (stored_state codec disk) e (Some t) (snd (store_step codec storeRoot appId disk e))"
    unfolding effect_holds_def by blast
  from effect_storable [OF t(3) stored_state_storable [OF assms(1,2)] assms(3) t(2)] assms(1) t(1,3)
  show ?thesis by (simp add: step_effect_def)
qed simp

lemma generation_run:
  "reads_back codec \<Longrightarrow> store_inv codec disk \<Longrightarrow> list_all store_admits es \<Longrightarrow>
    final_state (store_step codec storeRoot appId) disk es = disk
    \<or> generation (stored_state codec disk) < generation (stored_state codec (final_state (store_step codec storeRoot appId) disk es))"
proof (induction es arbitrary: disk)
  case (Cons e es)
  then have "store_inv codec (fst (store_step codec storeRoot appId disk e))" by (simp add: store_step_inv)
  from Cons.IH [OF Cons.prems(1) this] generation_step [of codec disk e storeRoot appId] Cons.prems show ?case
    by fastforce
qed simp

lemma binding_generation_of: "bindingForState s = Some b \<Longrightarrow> binding_generation b = generation s"
  by (auto simp: bindingForState_def Let_def split: if_splits)

lemma expected_is_stored:
  assumes "store_error (snd (store_step codec storeRoot appId disk e)) = NoStoreError" and "expected_binding e = Some b"
  shows "bindingForState (stored_state codec disk) = Some b"
  using store_step_effect [of codec disk e storeRoot appId] assms by (auto simp: effect_holds_def step_effect_def)

lemma returned_is_stored:
  assumes "reads_back codec" and "store_inv codec disk" and "store_admits e"
    and "activationBinding (snd (store_step codec storeRoot appId disk e)) = Some b"
  shows "bindingForState (stored_state codec (fst (store_step codec storeRoot appId disk e))) = Some b"
  using store_step_effect [of codec disk e storeRoot appId] unfolding effect_holds_def
proof (elim disjE conjE exE)
  assume "fst (store_step codec storeRoot appId disk e) = disk"
    "step_effect (stored_state codec disk) e None (snd (store_step codec storeRoot appId disk e))"
  with assms(4) show ?thesis by (auto simp: step_effect_def)
next
  fix t env
  assume t: "fst (store_step codec storeRoot appId disk e) = Some (sc_write codec t)" "state_targets_valid env t"
    "step_effect (stored_state codec disk) e (Some t) (snd (store_step codec storeRoot appId disk e))"
  from effect_storable [OF t(3) stored_state_storable [OF assms(1,2)] assms(3) t(2)] assms(1,4) t(1,3)
  show ?thesis by (auto simp: step_effect_def)
qed


definition activated_in :: "store_event list \<Rightarrow> qstring \<Rightarrow> bool" where
  "activated_in es v \<longleftrightarrow> v = [] \<or> (\<exists>env. ActivateVersion env v \<in> set es)"

definition marked_in :: "store_event list \<Rightarrow> qstring \<Rightarrow> bool" where
  "marked_in es v \<longleftrightarrow> v = [] \<or> (\<exists>env b. MarkGood env b \<in> set es \<and> currentDirectory b = v)"

lemma binding_directory: "bindingForState s = Some b \<Longrightarrow> currentDirectory b = current s"
  by (auto simp: bindingForState_def Let_def split: if_splits)

lemma history_step:
  assumes "step_effect s e (Some t) r"
    and "activated_in es (current s)" "activated_in es (previous s)" "activated_in es (lastKnownGood s)"
    and "marked_in es (lastKnownGood s)"
  shows "activated_in (es @ [e]) (current t) \<and> activated_in (es @ [e]) (previous t)
    \<and> activated_in (es @ [e]) (lastKnownGood t) \<and> marked_in (es @ [e]) (lastKnownGood t)"
proof -
  have grow: "activated_in es v \<Longrightarrow> activated_in (es @ [e]) v" "marked_in es v \<Longrightarrow> marked_in (es @ [e]) v" for v
    by (auto simp: activated_in_def marked_in_def)
  from assms(1) have eff: "(\<exists>env. e = ActivateVersion env (current t)) \<or> current t = current s
      \<or> current t = previous s \<or> current t = lastKnownGood s"
    "previous t = [] \<or> previous t = previous s \<or> previous t = current s"
    "lastKnownGood t = lastKnownGood s
      \<or> (lastKnownGood t = current s \<and> (\<exists>env b. e = MarkGood env b \<and> bindingForState s = Some b))"
    by (simp_all add: step_effect_def)
  have "activated_in (es @ [e]) (current t)"
    using eff(1) assms(2-4) grow(1) by (elim disjE exE) (auto simp: activated_in_def)
  moreover have "activated_in (es @ [e]) (previous t)"
    using eff(2) assms(2,3) grow(1) by (elim disjE) (auto simp: activated_in_def)
  moreover have "activated_in (es @ [e]) (lastKnownGood t)"
    using eff(3) assms(2,4) grow(1) by (elim disjE conjE) auto
  moreover have "marked_in (es @ [e]) (lastKnownGood t)"
    using eff(3)
  proof (elim disjE conjE exE)
    assume "lastKnownGood t = lastKnownGood s"
    then show ?thesis using assms(5) grow(2) by simp
  next
    fix env b
    assume "lastKnownGood t = current s" "e = MarkGood env b" "bindingForState s = Some b"
    then show ?thesis using binding_directory [of s b] by (auto simp: marked_in_def)
  qed
  ultimately show ?thesis by blast
qed

text \<open>
  Recovery never reaches a version nobody vouched for: after every run of transactions, the current
  version is one that was activated, and the last known good one, to which a rollback or a recovery
  returns, is one that a caller marked good while holding the binding of exactly this version.
\<close>

theorem recovered_versions_were_marked:
  assumes "reads_back codec" and "list_all store_admits es"
  shows "activated_in es (current (stored_state codec (final_state (store_step codec storeRoot appId) None es)))
    \<and> marked_in es (lastKnownGood (stored_state codec (final_state (store_step codec storeRoot appId) None es)))"
proof -
  let ?s = "\<lambda>es. stored_state codec (final_state (store_step codec storeRoot appId) None es)"
  have "activated_in es (current (?s es)) \<and> activated_in es (previous (?s es)) \<and> activated_in es (lastKnownGood (?s es))
      \<and> marked_in es (lastKnownGood (?s es))"
    using assms(2)
  proof (induction es rule: rev_induct)
    case Nil
    then show ?case by (simp add: stored_state_def empty_state_def activated_in_def marked_in_def)
  next
    case (snoc e es)
    let ?d = "final_state (store_step codec storeRoot appId) None es"
    from snoc have ih: "activated_in es (current (?s es))" "activated_in es (previous (?s es))"
      "activated_in es (lastKnownGood (?s es))" "marked_in es (lastKnownGood (?s es))" and e: "store_admits e"
      by simp_all
    have inv: "store_inv codec ?d"
      using store_run.run_inv [of codec None es] assms(1) snoc.prems by (simp add: store_inv_def)
    show ?case
      using store_step_effect [of codec ?d e storeRoot appId] unfolding effect_holds_def
    proof (elim disjE conjE exE)
      assume "fst (store_step codec storeRoot appId ?d e) = ?d"
      then show ?thesis using ih unfolding final_state_snoc by (auto simp: activated_in_def marked_in_def)
    next
      fix t env
      assume t: "fst (store_step codec storeRoot appId ?d e) = Some (sc_write codec t)" "state_targets_valid env t"
        "step_effect (stored_state codec ?d) e (Some t) (snd (store_step codec storeRoot appId ?d e))"
      show ?thesis unfolding final_state_snoc t(1) stored_state_write [OF assms(1) effect_storable [OF t(3) stored_state_storable [OF assms(1) inv] e t(2)]]
        by (rule history_step [OF t(3) ih])
    qed
  qed
  then show ?thesis by blast
qed

section \<open>An example run\<close>

definition example_codec :: "activation_state state_codec" where
  "example_codec = \<lparr>sc_write = id, sc_read = Some, sc_size = (\<lambda>s. 0)\<rparr>"

definition example_env :: store_env where
  "example_env = \<lparr>env_directories = True, env_lock = True, env_tree = True, env_directory = (\<lambda>d. True),
     env_read = True, env_pinned = True, env_committed = True, env_cleanPath = id\<rparr>"

definition example_version :: qstring where
  "example_version = qstr ''1.0.0-'' @ replicate 64 0x30"

definition example_binding :: activation_binding where
  "example_binding = \<lparr>currentDirectory = example_version, versionDigestHex = replicate 64 0x30, binding_generation = 1\<rparr>"

definition example_active :: activation_state where
  "example_active = \<lparr>current = example_version, previous = [], lastKnownGood = [], generation = 1\<rparr>"

lemma example_names:
  "store_validAppId (qstr ''a'')" "validVersionDirectory example_version" "example_version \<noteq> []"
  "length example_version = 70" "bindingForState example_active = Some example_binding"
  by code_simp+

lemma example_reads_back: "reads_back example_codec"
  by (simp add: reads_back_def example_codec_def)

lemma example_activation:
  "store_step example_codec (qstr ''/'') (qstr ''a'') None (ActivateVersion example_env example_version)
    = (Some example_active, store_success (versionPath example_env (qstr ''/'') (qstr ''a'') example_version) (Some example_binding))"
  using example_names
  by (simp add: activateVerified_def guarded_def ensureAppDirectories_def example_env_def stateTargetIsValid_def
      transaction_def activationStateUnlocked_def empty_state_def MaximumGeneration_def writeState_def
      state_targets_valid_def example_codec_def example_active_def)

lemma example_comparison:
  "store_error (compareCurrent example_codec (qstr ''/'') (qstr ''a'') example_env example_binding (Some example_active)) = NoStoreError"
  using example_names
  by (simp add: compareCurrent_def example_env_def recordedActivationStateUnlocked_def example_codec_def
      syntactically_valid_def) (simp add: example_active_def)


theorem recovered_versions_were_marked_witness:
  "activated_in [ActivateVersion example_env example_version] example_version"
  using recovered_versions_were_marked [OF example_reads_back,
      of "[ActivateVersion example_env example_version]" "qstr ''/''" "qstr ''a''"] example_names example_activation
  by (simp add: stored_state_def del: store_step.simps) (simp add: example_codec_def example_active_def)

end
