(* ===== verification/QmlLexer.thy ===== *)
theory QmlLexer
  imports QtStrings
begin

text \<open>
  The token scanner of the package source policy (the class \<open>Lexer\<close> of
  \<open>runtime/package/QmlSourcePolicy.cpp\<close>), which reads QML and JavaScript sources far enough to tell
  identifiers, strings, regular expressions and templates apart.

  The position \<open>index_\<close> of the code is here the rest of the source, \<open>lx_rest\<close>; \<open>controlParens_\<close> is a
  list whose head is the top.  A template literal calls the scanner again for each of its
  expressions, and the scanner calls templates: the two are mutually recursive on a fuel, and
  \<open>scan_returns\<close> shows that one unit for each remaining character, and one more, is always enough.
  The classes of Unicode characters and the conversion \<open>QString::toUShort\<close> are Qt's and parameters.
\<close>

section \<open>Tokens\<close>

record lexer_services =
  ls_isLetter :: "qchar \<Rightarrow> bool"
  ls_isDigit :: "qchar \<Rightarrow> bool"
  ls_digitValue :: "qchar \<Rightarrow> int"
  ls_isSpace :: "qchar \<Rightarrow> bool"
  ls_toUShort16 :: "qstring \<Rightarrow> qchar option"
  ls_fromUtf8 :: "bytes \<Rightarrow> qstring"
  ls_validWithoutScheme :: "qstring \<Rightarrow> bool"

datatype token_kind = Identifier | Numeric | StringToken | Template | Regex | Punctuation

record token =
  token_kind :: token_kind
  token_text :: qstring
  token_line :: int
  regexMayFollow :: bool

definition identifierStart :: "lexer_services \<Rightarrow> qchar \<Rightarrow> bool" where
  "identifierStart svc c \<longleftrightarrow> c = 0x5F \<or> c = 0x24 \<or> ls_isLetter svc c"

definition identifierPart :: "lexer_services \<Rightarrow> qchar \<Rightarrow> bool" where
  "identifierPart svc c \<longleftrightarrow> identifierStart svc c \<or> ls_isDigit svc c"

definition tokenCanEndExpression :: "token \<Rightarrow> bool" where
  "tokenCanEndExpression t \<longleftrightarrow>
     (if token_kind t \<in> {Identifier, Numeric, StringToken, Template, Regex}
      then token_text t \<noteq> qstr ''return'' \<and> token_text t \<noteq> qstr ''case'' \<and> token_text t \<noteq> qstr ''throw''
      else token_text t = qstr ''++'' \<or> token_text t = qstr ''--''
        \<or> token_text t = qstr '')'' \<and> \<not> regexMayFollow t
        \<or> token_text t = qstr '']'' \<or> token_text t = qstr ''}'')"

record lexer =
  lx_rest :: qstring
  lx_tokens :: "token list"
  lx_malformed :: bool
  lx_line :: int
  lx_parens :: "bool list"

definition new_lexer :: "qstring \<Rightarrow> lexer" where
  "new_lexer source = \<lparr>lx_rest = source, lx_tokens = [], lx_malformed = False, lx_line = 1, lx_parens = []\<rparr>"

definition push_token :: "token_kind \<Rightarrow> qstring \<Rightarrow> int \<Rightarrow> bool \<Rightarrow> lexer \<Rightarrow> lexer" where
  "push_token k text line follows lx =
     lx\<lparr>lx_tokens := lx_tokens lx @ [\<lparr>token_kind = k, token_text = text, token_line = line, regexMayFollow = follows\<rparr>]\<rparr>"

definition line_after :: "qchar \<Rightarrow> int \<Rightarrow> int" where
  "line_after c line = (if c = 0x0A then line + 1 else line)"

definition peek :: "nat \<Rightarrow> qstring \<Rightarrow> qchar" where
  "peek offset s = (if offset < length s then s ! offset else 0)"

definition beginsRegex :: "lexer \<Rightarrow> bool" where
  "beginsRegex lx \<longleftrightarrow> lx_tokens lx = [] \<or> \<not> tokenCanEndExpression (last (lx_tokens lx))"

section \<open>Numbers\<close>

definition radix_digit :: "lexer_services \<Rightarrow> qchar \<Rightarrow> int" where
  "radix_digit svc c =
     (if ls_isDigit svc c then ls_digitValue svc c
      else if 0x61 \<le> c \<and> c \<le> 0x66 then 10 + (uint c - 0x61)
      else if 0x41 \<le> c \<and> c \<le> 0x46 then 10 + (uint c - 0x41)
      else -1)"

fun digits_loop :: "lexer_services \<Rightarrow> int \<Rightarrow> bool \<Rightarrow> bool \<Rightarrow> bool \<Rightarrow> qstring \<Rightarrow> bool \<times> bool \<times> qstring" where
  "digits_loop svc base saw separated bad [] = (saw, bad \<or> separated, [])"
| "digits_loop svc base saw separated bad (c # cs) =
     (if 0 \<le> radix_digit svc c \<and> radix_digit svc c < base then digits_loop svc base True False bad cs
      else if c = 0x5F then digits_loop svc base saw True (bad \<or> \<not> saw \<or> separated) cs
      else (saw, bad \<or> separated, c # cs))"

definition scanDigits :: "lexer_services \<Rightarrow> int \<Rightarrow> qstring \<Rightarrow> bool \<times> bool \<times> qstring" where
  "scanDigits svc base s = digits_loop svc base False False False s"

definition radix_base :: "qchar \<Rightarrow> int option" where
  "radix_base c =
     (if c = 0x78 \<or> c = 0x58 then Some 16
      else if c = 0x62 \<or> c = 0x42 then Some 2
      else if c = 0x6F \<or> c = 0x4F then Some 8
      else None)"

text \<open>Of the three results, the first two are \<open>malformed_\<close> and that the number cannot be a BigInt.\<close>

definition fraction_part :: "lexer_services \<Rightarrow> qstring \<Rightarrow> bool \<times> bool \<times> qstring" where
  "fraction_part svc s =
     (case s of
        [] \<Rightarrow> (False, False, [])
      | c # r \<Rightarrow>
          if c = 0x2E then (let (saw, bad, r1) = scanDigits svc 10 r in (bad, True, r1))
          else (False, False, s))"

definition exponent_part :: "lexer_services \<Rightarrow> qstring \<Rightarrow> bool \<times> bool \<times> qstring" where
  "exponent_part svc s =
     (case s of
        [] \<Rightarrow> (False, False, [])
      | c # r \<Rightarrow>
          if c = 0x65 \<or> c = 0x45 then
            (let r1 = (if peek 0 r = 0x2B \<or> peek 0 r = 0x2D then drop 1 r else r);
                 (saw, bad, r2) = scanDigits svc 10 r1
             in (bad \<or> \<not> saw, True, r2))
          else (False, False, s))"

definition number_body :: "lexer_services \<Rightarrow> qstring \<Rightarrow> bool \<times> bool \<times> qstring" where
  "number_body svc s =
     (if peek 0 s = 0x2E then
        (let (saw, bad, r) = scanDigits svc 10 (drop 1 s) in (bad \<or> \<not> saw, True, r))
      else if peek 0 s = 0x30 \<and> radix_base (peek 1 s) \<noteq> None then
        (let (saw, bad, r) = scanDigits svc (the (radix_base (peek 1 s))) (drop 2 s) in (bad \<or> \<not> saw, False, r))
      else
        (let (saw, bad0, r0) = scanDigits svc 10 s;
             (bad1, fractional, r1) = fraction_part svc r0;
             (bad2, exponent, r2) = exponent_part svc r1
         in (bad0 \<or> bad1 \<or> bad2, fractional \<or> exponent, r2)))"

definition scanNumber :: "lexer_services \<Rightarrow> lexer \<Rightarrow> lexer" where
  "scanNumber svc lx =
     (let (bad, noBigInt, r) = number_body svc (lx_rest lx);
          bigint = (r \<noteq> [] \<and> hd r = 0x6E);
          r1 = (if bigint then tl r else r);
          bad1 = (bad \<or> bigint \<and> noBigInt \<or> r1 \<noteq> [] \<and> identifierStart svc (hd r1))
      in push_token Numeric (take (length (lx_rest lx) - length r1) (lx_rest lx)) (lx_line lx) False
           (lx\<lparr>lx_rest := r1, lx_malformed := lx_malformed lx \<or> bad1\<rparr>))"

section \<open>Strings, regular expressions and comments\<close>

definition unescaped :: "qchar \<Rightarrow> qchar" where
  "unescaped c = (if c = 0x6E then 0x0A else if c = 0x72 then 0x0D else if c = 0x74 then 0x09 else c)"

function string_loop :: "lexer_services \<Rightarrow> qchar \<Rightarrow> qstring \<Rightarrow> qstring \<Rightarrow> int \<Rightarrow> qstring option \<times> qstring \<times> int" where
  "string_loop svc quote [] decoded line = (None, [], line)"
| "string_loop svc quote (c # cs) decoded line =
     (if c = quote then (Some decoded, cs, line)
      else if c \<noteq> 0x5C then string_loop svc quote cs (decoded @ [c]) (line_after c line)
      else if cs = [] then (None, [], line)
      else if hd cs = 0x75 \<and> 4 \<le> length (tl cs) \<and> ls_toUShort16 svc (take 4 (tl cs)) \<noteq> None
        then string_loop svc quote (drop 4 (tl cs)) (decoded @ [the (ls_toUShort16 svc (take 4 (tl cs)))]) line
      else string_loop svc quote (tl cs) (decoded @ [unescaped (hd cs)]) line)"
  by pat_completeness auto
termination
  by (relation "measure (\<lambda>(svc, q, s, d, l). length s)") (auto simp: less_Suc_eq_le)

definition scanString :: "lexer_services \<Rightarrow> qchar \<Rightarrow> lexer \<Rightarrow> lexer" where
  "scanString svc quote lx =
     (case string_loop svc quote (tl (lx_rest lx)) [] (lx_line lx) of
        (Some decoded, r, line) \<Rightarrow> push_token StringToken decoded (lx_line lx) False (lx\<lparr>lx_rest := r, lx_line := line\<rparr>)
      | (None, r, line) \<Rightarrow> lx\<lparr>lx_rest := r, lx_line := line, lx_malformed := True\<rparr>)"

fun regex_loop :: "bool \<Rightarrow> qstring \<Rightarrow> bool \<times> qstring" where
  "regex_loop inClass [] = (False, [])"
| "regex_loop inClass [c] =
     (if c = 0x2F \<and> \<not> inClass then (True, []) else (False, []))"
| "regex_loop inClass (c # d # r) =
     (if c = 0x5C then regex_loop inClass r
      else if c = 0x5B then regex_loop True (d # r)
      else if c = 0x5D then regex_loop False (d # r)
      else if c = 0x2F \<and> \<not> inClass then (True, d # r)
      else if c = 0x0A \<or> c = 0x0D then (False, d # r)
      else regex_loop inClass (d # r))"

definition scanRegex :: "lexer_services \<Rightarrow> lexer \<Rightarrow> lexer" where
  "scanRegex svc lx =
     (case regex_loop False (tl (lx_rest lx)) of
        (True, r) \<Rightarrow> push_token Regex (qstr ''regex'') (lx_line lx) False (lx\<lparr>lx_rest := dropWhile (ls_isLetter svc) r\<rparr>)
      | (False, r) \<Rightarrow> lx\<lparr>lx_rest := r, lx_malformed := True\<rparr>)"

fun comment_loop :: "qstring \<Rightarrow> int \<Rightarrow> bool \<times> qstring \<times> int" where
  "comment_loop [] line = (False, [], line)"
| "comment_loop [c] line = (False, [c], line)"
| "comment_loop (c # d # r) line =
     (if c = 0x2A \<and> d = 0x2F then (True, r, line) else comment_loop (d # r) (line_after c line))"

section \<open>Punctuation and words\<close>

definition controlKeywords :: "qstring set" where
  "controlKeywords = set (map qstr [''if'', ''while'', ''for'', ''with'', ''switch'', ''catch''])"

definition scanWord :: "lexer_services \<Rightarrow> lexer \<Rightarrow> lexer" where
  "scanWord svc lx =
     (let r = dropWhile (identifierPart svc) (tl (lx_rest lx)) in
      push_token Identifier (take (length (lx_rest lx) - length r) (lx_rest lx)) (lx_line lx) False
        (lx\<lparr>lx_rest := r\<rparr>))"

definition scanPunctuation :: "lexer \<Rightarrow> lexer" where
  "scanPunctuation lx =
     (let c = hd (lx_rest lx);
          opens = (c = 0x28);
          closes = (c = 0x29 \<and> lx_parens lx \<noteq> []);
          control = (lx_tokens lx \<noteq> [] \<and> token_kind (last (lx_tokens lx)) = Identifier
                     \<and> token_text (last (lx_tokens lx)) \<in> controlKeywords)
      in push_token Punctuation [c] (lx_line lx) (closes \<and> hd (lx_parens lx))
           (lx\<lparr>lx_rest := tl (lx_rest lx),
               lx_parens := (if opens then control # lx_parens lx
                             else if closes then tl (lx_parens lx) else lx_parens lx)\<rparr>))"

definition depth_after :: "qchar \<Rightarrow> nat \<Rightarrow> nat" where
  "depth_after c depth = (if c = 0x7B then depth + 1 else if c = 0x7D \<and> 0 < depth then depth - 1 else depth)"

section \<open>The scanner\<close>

text \<open>
  One iteration of the loop of \<open>scan\<close>, and one of \<open>scanTemplate\<close>, after its read of the next
  character: return, go on (at a depth of braces), or hand over to the other one.
\<close>

datatype scan_move = Return lexer | Continue nat lexer | Nested lexer

definition scan_iteration :: "lexer_services \<Rightarrow> bool \<Rightarrow> nat \<Rightarrow> lexer \<Rightarrow> qchar \<Rightarrow> qstring \<Rightarrow> scan_move" where
  "scan_iteration svc inTemplate depth lx c cs =
     (if inTemplate \<and> c = 0x7D \<and> depth = 0 then Return (lx\<lparr>lx_rest := cs\<rparr>)
      else if ls_isSpace svc c then Continue depth (lx\<lparr>lx_rest := cs, lx_line := line_after c (lx_line lx)\<rparr>)
      else if c = 0x2F \<and> peek 0 cs = 0x2F then
        Continue depth (lx\<lparr>lx_rest := dropWhile (\<lambda>x. x \<noteq> 0x0A) (tl cs)\<rparr>)
      else if c = 0x2F \<and> peek 0 cs = 0x2A then
        (case comment_loop (tl cs) (lx_line lx) of
           (False, r, line) \<Rightarrow> Return (lx\<lparr>lx_rest := r, lx_line := line, lx_malformed := True\<rparr>)
         | (True, r, line) \<Rightarrow> Continue depth (lx\<lparr>lx_rest := r, lx_line := line\<rparr>))
      else if c = 0x27 \<or> c = 0x22 then Continue depth (scanString svc c lx)
      else if c = 0x60 then Nested (lx\<lparr>lx_rest := cs\<rparr>)
      else if ls_isDigit svc c \<or> c = 0x2E \<and> ls_isDigit svc (peek 0 cs) then Continue depth (scanNumber svc lx)
      else if c = 0x2F \<and> peek 0 cs = 0x3D then
        Continue depth (push_token Punctuation (qstr ''/='') (lx_line lx) False (lx\<lparr>lx_rest := tl cs\<rparr>))
      else if c = 0x2F \<and> beginsRegex lx then Continue depth (scanRegex svc lx)
      else if identifierStart svc c then Continue depth (scanWord svc lx)
      else if c = 0x2B \<and> peek 0 cs = 0x2B \<or> c = 0x2D \<and> peek 0 cs = 0x2D then
        Continue depth (push_token Punctuation [c, c] (lx_line lx) False (lx\<lparr>lx_rest := tl cs\<rparr>))
      else Continue (depth_after c depth) (scanPunctuation lx))"

definition template_iteration :: "int \<Rightarrow> lexer \<Rightarrow> qchar \<Rightarrow> qstring \<Rightarrow> scan_move" where
  "template_iteration startLine lx c cs =
     (if c = 0x5C \<and> cs \<noteq> [] then Continue 0 (lx\<lparr>lx_rest := tl cs\<rparr>)
      else if c = 0x60 then
        Return (push_token Template (qstr ''template'') startLine False (lx\<lparr>lx_rest := cs\<rparr>))
      else if c = 0x24 \<and> cs \<noteq> [] \<and> hd cs = 0x7B then Nested (lx\<lparr>lx_rest := tl cs\<rparr>)
      else Continue 0 (lx\<lparr>lx_rest := cs, lx_line := line_after c (lx_line lx)\<rparr>))"

definition at_end :: "bool \<Rightarrow> lexer \<Rightarrow> lexer" where
  "at_end bad lx = lx\<lparr>lx_malformed := lx_malformed lx \<or> bad\<rparr>"

fun scan :: "nat \<Rightarrow> lexer_services \<Rightarrow> bool \<Rightarrow> nat \<Rightarrow> lexer \<Rightarrow> lexer option"
  and scanTemplate :: "nat \<Rightarrow> lexer_services \<Rightarrow> int \<Rightarrow> lexer \<Rightarrow> lexer option" where
  "scan 0 svc inTemplate depth lx = None"
| "scan (Suc n) svc inTemplate depth lx =
     (if lx_rest lx = [] then Some (at_end inTemplate lx)
      else case scan_iteration svc inTemplate depth lx (hd (lx_rest lx)) (tl (lx_rest lx)) of
        Return lx1 \<Rightarrow> Some lx1
      | Continue depth1 lx1 \<Rightarrow> scan n svc inTemplate depth1 lx1
      | Nested lx1 \<Rightarrow>
          (case scanTemplate n svc (lx_line lx) lx1 of
             None \<Rightarrow> None
           | Some lx2 \<Rightarrow> scan n svc inTemplate depth lx2))"
| "scanTemplate 0 svc startLine lx = None"
| "scanTemplate (Suc n) svc startLine lx =
     (if lx_rest lx = [] then Some (at_end True lx)
      else case template_iteration startLine lx (hd (lx_rest lx)) (tl (lx_rest lx)) of
        Return lx1 \<Rightarrow> Some lx1
      | Continue depth1 lx1 \<Rightarrow> scanTemplate n svc startLine lx1
      | Nested lx1 \<Rightarrow>
          (case scan n svc True 0 lx1 of
             None \<Rightarrow> None
           | Some lx2 \<Rightarrow> if lx_malformed lx2 then Some lx2 else scanTemplate n svc startLine lx2))"

definition lex :: "lexer_services \<Rightarrow> qstring \<Rightarrow> lexer option" where
  "lex svc source = scan (Suc (length source)) svc False 0 (new_lexer source)"

definition tokens :: "lexer_services \<Rightarrow> qstring \<Rightarrow> token list" where
  "tokens svc source = lx_tokens (the (lex svc source))"

definition malformed :: "lexer_services \<Rightarrow> qstring \<Rightarrow> bool" where
  "malformed svc source = lx_malformed (the (lex svc source))"

section \<open>The scanner returns\<close>

text \<open>
  Every iteration leaves a shorter rest, so a fuel above its length is never used up.  The code relies
  on \<open>QChar::digitValue\<close> being a decimal digit for every \<open>QChar::isDigit\<close>.
\<close>

definition digit_values :: "lexer_services \<Rightarrow> bool" where
  "digit_values svc \<longleftrightarrow> (\<forall>c. ls_isDigit svc c \<longrightarrow> 0 \<le> ls_digitValue svc c \<and> ls_digitValue svc c < 10)"

lemma lexer_frame [simp]:
  "lx_rest (push_token k t l f lx) = lx_rest lx" "lx_malformed (push_token k t l f lx) = lx_malformed lx"
  "lx_rest (at_end b lx) = lx_rest lx"
  by (simp_all add: push_token_def at_end_def)

lemma digits_shorten: "digits_loop svc base saw sep bad s = (a, b, r) \<Longrightarrow> length r \<le> length s"
  by (induction svc base saw sep bad s rule: digits_loop.induct) (auto split: if_splits intro: le_SucI)

lemma scanDigits_shorten: "scanDigits svc base s = (a, b, r) \<Longrightarrow> length r \<le> length s"
  unfolding scanDigits_def by (rule digits_shorten)

lemma scanDigits_progress:
  "digit_values svc \<Longrightarrow> ls_isDigit svc c \<Longrightarrow> scanDigits svc 10 (c # cs) = (a, b, r) \<Longrightarrow> length r \<le> length cs"
  by (auto simp: scanDigits_def radix_digit_def digit_values_def dest: digits_shorten)

lemma number_tail_shorten:
  "fraction_part svc s = (a, b, r) \<Longrightarrow> length r \<le> length s"
  "exponent_part svc s = (a, b, r) \<Longrightarrow> length r \<le> length s"
  by (auto simp: fraction_part_def exponent_part_def Let_def split: list.splits if_splits prod.splits
      dest!: scanDigits_shorten)

lemma number_shorten:
  assumes digits: "digit_values svc" and start: "ls_isDigit svc c \<or> c = 0x2E"
    and body: "number_body svc (c # cs) = (a, b, r)"
  shows "length r \<le> length cs"
proof (cases "c = 0x2E \<or> c = 0x30 \<and> radix_base (peek 1 (c # cs)) \<noteq> None")
  case True
  with body show ?thesis
    by (auto simp: number_body_def peek_def split: prod.splits if_splits dest!: scanDigits_shorten)
next
  case False
  then obtain s0 b0 r0 b1 f r1 b2 e where
    d: "scanDigits svc 10 (c # cs) = (s0, b0, r0)" "fraction_part svc r0 = (b1, f, r1)"
      "exponent_part svc r1 = (b2, e, r)"
    using body by (auto simp: number_body_def peek_def split: prod.splits if_splits)
  have "length r \<le> length r0" using number_tail_shorten d(2,3) le_trans by blast
  moreover have "length r0 \<le> length cs"
    using scanDigits_progress [OF digits _ d(1)] start False by blast
  ultimately show ?thesis by simp
qed

lemma scanNumber_shorten:
  assumes "digit_values svc" "ls_isDigit svc c \<or> c = 0x2E" "lx_rest lx = c # cs"
  shows "length (lx_rest (scanNumber svc lx)) \<le> length cs"
  using number_shorten [OF assms(1,2)] assms(3)
  by (auto simp: scanNumber_def Let_def split: prod.splits) fastforce+

lemma string_shorten: "string_loop svc q s d l = (v, r, l1) \<Longrightarrow> length r \<le> length s"
proof (induction svc q s d l rule: string_loop.induct)
  case (2 svc quote c cs decoded line)
  show ?case
  proof (cases "c = quote \<or> c = 0x5C \<and> cs = []")
    case False
    then consider "c \<noteq> 0x5C" | "c = 0x5C" "cs \<noteq> []" by blast
    then show ?thesis
    proof cases
      case 1
      with 2(1) [OF _ 1] 2(4) False show ?thesis by (auto split: if_splits intro: le_SucI)
    next
      case escape: 2
      with 2(2-4) False show ?thesis
        by (auto split: if_splits intro: le_SucI order_trans simp: le_diff_conv)
    qed
  qed (use 2(4) in \<open>auto split: if_splits\<close>)
qed simp

lemma scanString_shorten: "lx_rest lx = c # cs \<Longrightarrow> length (lx_rest (scanString svc c lx)) \<le> length cs"
  by (auto simp: scanString_def split: prod.splits option.splits dest: string_shorten)

lemma regex_shorten: "regex_loop b s = (v, r) \<Longrightarrow> length r \<le> length s"
  by (induction b s rule: regex_loop.induct) (auto split: if_splits)

lemma scanRegex_shorten:
  assumes "lx_rest lx = c # cs"
  shows "length (lx_rest (scanRegex svc lx)) \<le> length cs"
proof (cases "regex_loop False cs")
  case (Pair v r)
  then have "length r \<le> length cs" by (rule regex_shorten)
  with Pair assms show ?thesis
    by (auto simp: scanRegex_def split: bool.splits intro: order_trans [OF length_dropWhile_le])
qed

lemma comment_shorten: "comment_loop s l = (v, r, l1) \<Longrightarrow> length r \<le> length s"
  by (induction s l rule: comment_loop.induct) (auto split: if_splits)

lemma scanWord_shorten: "lx_rest lx = c # cs \<Longrightarrow> length (lx_rest (scanWord svc lx)) \<le> length cs"
  by (simp add: scanWord_def Let_def length_dropWhile_le)

lemma scanPunctuation_shorten: "lx_rest lx = c # cs \<Longrightarrow> length (lx_rest (scanPunctuation lx)) \<le> length cs"
  by (simp add: scanPunctuation_def Let_def)

definition move_bounded :: "nat \<Rightarrow> scan_move \<Rightarrow> bool" where
  "move_bounded k m \<longleftrightarrow>
     (case m of Return lx \<Rightarrow> length (lx_rest lx) \<le> k | Continue d lx \<Rightarrow> length (lx_rest lx) \<le> k
      | Nested lx \<Rightarrow> length (lx_rest lx) \<le> k)"

lemma move_bounded_simps [simp]:
  "move_bounded k (Return lx) \<longleftrightarrow> length (lx_rest lx) \<le> k"
  "move_bounded k (Continue d lx) \<longleftrightarrow> length (lx_rest lx) \<le> k"
  "move_bounded k (Nested lx) \<longleftrightarrow> length (lx_rest lx) \<le> k"
  by (simp_all add: move_bounded_def)

lemma move_bounded_comment:
  "move_bounded (length cs)
     (case comment_loop (tl cs) l of (False, r, line) \<Rightarrow> Return (f r line) | (True, r, line) \<Rightarrow> Continue d (g r line))"
  if "\<And>r line. lx_rest (f r line) = r" "\<And>r line. lx_rest (g r line) = r"
proof (cases "comment_loop (tl cs) l")
  case (fields v r line)
  then have "length r \<le> length (tl cs)" by (rule comment_shorten)
  with fields that show ?thesis by (auto split: bool.splits)
qed

lemma move_bounded_if:
  "(b \<Longrightarrow> move_bounded k m) \<Longrightarrow> (\<not> b \<Longrightarrow> move_bounded k m1) \<Longrightarrow> move_bounded k (if b then m else m1)"
  by simp

lemma tl_shorter [simp]: "length xs - Suc 0 \<le> length xs" by simp

lemma scan_iteration_shorten:
  assumes "digit_values svc" "lx_rest lx = c # cs"
  shows "move_bounded (length cs) (scan_iteration svc b d lx c cs)"
proof -
  have drop_line: "length (dropWhile P (tl cs)) \<le> length cs" for P
    by (rule order_trans [OF length_dropWhile_le]) simp
  note shorten = scanString_shorten [OF assms(2)] scanNumber_shorten [OF assms(1) _ assms(2)]
    scanRegex_shorten [OF assms(2)] scanWord_shorten [OF assms(2)] scanPunctuation_shorten [OF assms(2)]
  have comment: "move_bounded (length cs)
      (case comment_loop (tl cs) (lx_line lx) of
         (False, r, line) \<Rightarrow> Return (lx\<lparr>lx_rest := r, lx_line := line, lx_malformed := True\<rparr>)
       | (True, r, line) \<Rightarrow> Continue d (lx\<lparr>lx_rest := r, lx_line := line\<rparr>))"
    by (rule move_bounded_comment) simp_all
  show ?thesis
    unfolding scan_iteration_def by (intro move_bounded_if comment) (use shorten drop_line in auto)
qed

lemma template_iteration_shorten: "move_bounded (length cs) (template_iteration l lx c cs)"
  by (simp add: template_iteration_def)

definition scan_ends :: "nat \<Rightarrow> lexer \<Rightarrow> lexer option \<Rightarrow> bool" where
  "scan_ends n lx result \<longleftrightarrow>
     (length (lx_rest lx) < n \<longrightarrow> (\<exists>lx1. result = Some lx1 \<and> length (lx_rest lx1) \<le> length (lx_rest lx)))"

lemma scan_endsD:
  assumes "scan_ends n lx1 result" "length (lx_rest lx1) \<le> k" "k < n"
  obtains lx2 where "result = Some lx2" "length (lx_rest lx2) \<le> k"
  using assms by (auto simp: scan_ends_def)

lemma scan_enough:
  assumes digits: "digit_values svc"
  shows "(\<forall>b d lx. scan_ends n lx (scan n svc b d lx)) \<and> (\<forall>l lx. scan_ends n lx (scanTemplate n svc l lx))"
proof (induction n)
  case (Suc n)
  then have IH: "scan_ends n lx (scan n svc b d lx)" "scan_ends n lx (scanTemplate n svc l lx)" for b d lx l
    by blast+
  have "scan_ends (Suc n) lx (scan (Suc n) svc b d lx)" for b d lx
  proof (cases "lx_rest lx")
    case (Cons c cs)
    note bounded = scan_iteration_shorten [OF digits Cons, of b d]
    have "\<exists>lx1. scan (Suc n) svc b d lx = Some lx1 \<and> length (lx_rest lx1) \<le> length cs" if n: "length cs < n"
    proof (cases "scan_iteration svc b d lx c cs")
      case (Continue d1 lx1)
      with bounded have "length (lx_rest lx1) \<le> length cs" by simp
      from scan_endsD [OF IH(1) this n, of b d1] Continue Cons show ?thesis by auto
    next
      case (Nested lx1)
      with bounded have "length (lx_rest lx1) \<le> length cs" by simp
      from scan_endsD [OF IH(2) this n, of "lx_line lx"] obtain lx2 where
        t: "scanTemplate n svc (lx_line lx) lx1 = Some lx2" "length (lx_rest lx2) \<le> length cs" .
      from scan_endsD [OF IH(1) t(2) n, of b d] Nested Cons t(1) show ?thesis by auto
    qed (use bounded Cons in auto)
    with Cons show ?thesis by (auto simp: scan_ends_def simp del: scan.simps)
  qed (simp add: scan_ends_def)
  moreover have "scan_ends (Suc n) lx (scanTemplate (Suc n) svc l lx)" for l lx
  proof (cases "lx_rest lx")
    case (Cons c cs)
    note bounded = template_iteration_shorten [of cs l lx c]
    have "\<exists>lx1. scanTemplate (Suc n) svc l lx = Some lx1 \<and> length (lx_rest lx1) \<le> length cs" if n: "length cs < n"
    proof (cases "template_iteration l lx c cs")
      case (Continue d1 lx1)
      with bounded have "length (lx_rest lx1) \<le> length cs" by simp
      from scan_endsD [OF IH(2) this n, of l] Continue Cons show ?thesis by auto
    next
      case (Nested lx1)
      with bounded have "length (lx_rest lx1) \<le> length cs" by simp
      from scan_endsD [OF IH(1) this n, of True 0] obtain lx2 where
        t: "scan n svc True 0 lx1 = Some lx2" "length (lx_rest lx2) \<le> length cs" .
      from scan_endsD [OF IH(2) t(2) n, of l] Nested Cons t show ?thesis by auto
    qed (use bounded Cons in auto)
    with Cons show ?thesis by (auto simp: scan_ends_def simp del: scanTemplate.simps)
  qed (simp add: scan_ends_def)
  ultimately show ?case by blast
qed (simp add: scan_ends_def)

lemma lex_returns:
  assumes "digit_values svc"
  shows "\<exists>lx. lex svc source = Some lx"
proof -
  have "scan_ends (Suc (length source)) (new_lexer source) (lex svc source)"
    using scan_enough [OF assms, of "Suc (length source)"] by (simp add: lex_def del: scan.simps)
  then show ?thesis by (auto simp: scan_ends_def new_lexer_def)
qed

end
