(* ===== verification/QmlSourcePolicy.thy ===== *)
theory QmlSourcePolicy
  imports QmlLexer
begin

text \<open>
  What the installer accepts as QML and JavaScript (\<open>runtime/package/QmlSourcePolicy.{h,cpp}\<close>): the
  imports a source names, and the violations of the source policy, found by passes over its tokens.

  A loop over token positions is here a recursion over the rest of the list, and where the code looks
  at the token before, that token is carried along; \<open>QSet\<close> of aliases are lists without order.
\<close>

section \<open>Helpers\<close>

definition addUnique :: "string list \<Rightarrow> string \<Rightarrow> string list" where
  "addUnique values v = (if v \<in> set values then values else values @ [v])"

definition word :: "string \<Rightarrow> token \<Rightarrow> bool" where "word w t \<longleftrightarrow> token_text t = qstr w"

definition is_identifier :: "token \<Rightarrow> bool" where "is_identifier t \<longleftrightarrow> token_kind t = Identifier"

definition isAlias :: "qstring set \<Rightarrow> token \<Rightarrow> bool" where
  "isAlias aliases t \<longleftrightarrow> is_identifier t \<and> token_text t \<in> aliases"

text \<open>Lower case for the case-insensitive comparisons with words that have no other case variants.\<close>

definition lowered :: "qstring \<Rightarrow> qstring" where
  "lowered s = map (\<lambda>c. if ascii_upper c then c + 0x20 else c) s"

fun concatenated_from :: "bool \<Rightarrow> qstring \<Rightarrow> token list \<Rightarrow> qstring" where
  "concatenated_from expectString v [] = (if expectString then [] else v)"
| "concatenated_from expectString v (t # ts) =
     (if expectString then
        (if token_kind t \<noteq> StringToken then [] else concatenated_from False (v @ token_text t) ts)
      else if \<not> word ''+'' t then [] else concatenated_from True v ts)"

definition concatenatedString :: "token list \<Rightarrow> qstring" where
  "concatenatedString ts = concatenated_from True [] ts"

definition safeSourceUrl :: "lexer_services \<Rightarrow> qstring \<Rightarrow> bool" where
  "safeSourceUrl svc v \<longleftrightarrow>
     (if startsWith (qstr ''qrc:/'') (lowered v) then True
      else if v = [] \<or> hd v = 0x2F \<or> hd v = 0x5C then False
      else ls_validWithoutScheme svc v)"

text \<open>The tokens from the position of the value on.\<close>

definition staticSourceBinding :: "lexer_services \<Rightarrow> token list \<Rightarrow> bool" where
  "staticSourceBinding svc ts \<longleftrightarrow>
     (case ts of
        [] \<Rightarrow> False
      | v # rest \<Rightarrow>
          if token_kind v \<noteq> StringToken \<or> \<not> safeSourceUrl svc (token_text v) then False
          else (case rest of
                  [] \<Rightarrow> True
                | n # after \<Rightarrow>
                    if word '';'' n \<or> word ''}'' n then True
                    else if token_line n \<le> token_line v then False
                    else if after = [] then False
                    else is_identifier n \<and> (word '':'' (hd after) \<or> word ''{'' (hd after))))"

datatype es_import = es_import (unsupportedSyntax: bool) (bareSpecifier: "qstring option")

fun skip_qualified :: "token list \<Rightarrow> token list" where
  "skip_qualified (a # d # b # ts) =
     (if word ''.'' d \<and> is_identifier b then skip_qualified (b # ts) else d # b # ts)"
| "skip_qualified (a # ts) = ts"
| "skip_qualified [] = []"

text \<open>The tokens after the word \<open>import\<close>.\<close>

definition classifyEsImport :: "token list \<Rightarrow> es_import" where
  "classifyEsImport after =
     (case after of
        [] \<Rightarrow> es_import False None
      | n # rest \<Rightarrow>
          if token_kind n = StringToken then es_import False (Some (token_text n))
          else if word ''('' n then es_import False None
          else if word ''*'' n \<or> word ''{'' n then es_import True None
          else if \<not> is_identifier n then es_import False None
          else (case skip_qualified after of
                  [] \<Rightarrow> es_import False None
                | f # _ \<Rightarrow> es_import (word ''from'' f \<or> word '','' f) None))"

definition isQmlSourcePath :: "bytes \<Rightarrow> bool" where
  "isQmlSourcePath path \<longleftrightarrow>
     (let lower = map (\<lambda>b. if 0x41 \<le> b \<and> b \<le> 0x5A then b + 0x20 else b) path;
          ends = (\<lambda>s. length s \<le> length lower \<and> drop (length lower - length s) lower = s)
      in ends (ascii_bytes ''.qml'') \<or> ends (ascii_bytes ''.js'') \<or> ends (ascii_bytes ''.mjs''))"

section \<open>Imports\<close>

text \<open>The name of the module, and the tokens from the last one the name used.\<close>

fun qualified_name :: "qstring \<Rightarrow> token list \<Rightarrow> qstring \<times> token list" where
  "qualified_name m (a # d # b # ts) =
     (if word ''.'' d \<and> is_identifier b then qualified_name (m @ [0x2E] @ token_text b) (b # ts)
      else (m, a # d # b # ts))"
| "qualified_name m ts = (m, ts)"

lemma qualified_name_shorten: "qualified_name m ts = (m1, ts1) \<Longrightarrow> length ts1 \<le> length ts"
  by (induction m ts rule: qualified_name.induct) (auto split: if_splits)

function imports_from :: "token list \<Rightarrow> qstring list \<Rightarrow> qstring list" where
  "imports_from [] found = found"
| "imports_from (t # ts) found =
     (if ts = [] then found
      else if \<not> (is_identifier t \<and> word ''import'' t) then imports_from ts found
      else if unsupportedSyntax (classifyEsImport ts) \<or> bareSpecifier (classifyEsImport ts) \<noteq> None
        then imports_from ts found
      else if \<not> is_identifier (hd ts) then imports_from ts found
      else case qualified_name (token_text (hd ts)) ts of
        (m, used) \<Rightarrow> imports_from (tl used) (if m \<in> set found then found else found @ [m]))"
  by pat_completeness auto
termination
  by (relation "measure (\<lambda>(ts, found). length ts)") (auto dest!: qualified_name_shorten [OF sym])

definition staticImports :: "lexer_services \<Rightarrow> bytes \<Rightarrow> qstring list" where
  "staticImports svc source = imports_from (tokens svc (ls_fromUtf8 svc source)) []"

section \<open>Aliases\<close>

text \<open>The identifiers given to a \<open>Loader\<close> inside its braces.\<close>

fun loader_block :: "int \<Rightarrow> token list \<Rightarrow> qstring list" where
  "loader_block depth [] = []"
| "loader_block depth (t # ts) =
     (if depth \<le> 0 then []
      else if word ''{'' t then loader_block (depth + 1) ts
      else if word ''}'' t then loader_block (depth - 1) ts
      else if depth = 1 \<and> word ''id'' t \<and> 2 \<le> length ts \<and> word '':'' (ts ! 0) \<and> is_identifier (ts ! 1)
        then token_text (ts ! 1) # loader_block depth ts
      else loader_block depth ts)"

fun loader_ids :: "token list \<Rightarrow> qstring list" where
  "loader_ids [] = []"
| "loader_ids (t # ts) =
     (if 4 \<le> length ts \<and> word ''Loader'' t \<and> word ''{'' (hd ts) then loader_block 1 (tl ts) @ loader_ids ts
      else loader_ids ts)"

text \<open>The pass that follows assignments and bindings; \<open>a\<close>, \<open>op\<close> and \<open>b\<close> are neighbours.\<close>

definition binds :: "token \<Rightarrow> token \<Rightarrow> bool" where
  "binds a op \<longleftrightarrow> is_identifier a \<and> (word ''='' op \<or> word '':'' op)"

definition qt_alias_step :: "token \<Rightarrow> token \<Rightarrow> token \<Rightarrow> qstring set \<Rightarrow> qstring set" where
  "qt_alias_step a op b qt = (if binds a op \<and> isAlias qt b then insert (token_text a) qt else qt)"

definition loader_alias_step :: "token \<Rightarrow> token \<Rightarrow> token \<Rightarrow> qstring set \<Rightarrow> qstring set" where
  "loader_alias_step a op b loaders =
     (let named = (if is_identifier a \<and> has_infix (qstr ''loader'') (lowered (token_text a))
                   then insert (token_text a) loaders else loaders)
      in if binds a op \<and> isAlias named b then insert (token_text a) named else named)"

fun alias_pass :: "token list \<Rightarrow> qstring set \<Rightarrow> qstring set \<Rightarrow> qstring set \<times> qstring set" where
  "alias_pass (a # op # b # ts) qt loaders =
     alias_pass (op # b # ts) (qt_alias_step a op b qt) (loader_alias_step a op b loaders)"
| "alias_pass ts qt loaders = (qt, loaders)"

definition aliases :: "token list \<Rightarrow> qstring set \<times> qstring set" where
  "aliases ts = alias_pass ts {qstr ''Qt''} (set ([qstr ''Loader'', qstr ''loader''] @ loader_ids ts))"

section \<open>Violations\<close>

definition until_bracket :: "token list \<Rightarrow> token list" where
  "until_bracket ts = takeWhile (\<lambda>t. \<not> word '']'' t) ts"

definition source_violations :: "lexer_services \<Rightarrow> bool \<Rightarrow> token \<Rightarrow> token list \<Rightarrow> string list" where
  "source_violations svc inLoader t ts =
     (if is_identifier t \<and> word ''source'' t \<and> ts \<noteq> [] \<and> word '':'' (hd ts) then
        (let vs = tl ts; isStatic = staticSourceBinding svc vs in
          (if \<not> isStatic \<and> inLoader then [''dynamic-loader-source''] else [])
          @ (if \<not> isStatic then [''dynamic-url-source'']
             else if \<not> safeSourceUrl svc (token_text (hd vs)) then [''unsafe-url-source''] else [])
          @ (if vs \<noteq> [] \<and> token_kind (hd vs) = StringToken \<and> \<not> safeSourceUrl svc (token_text (hd vs))
             then [''unsafe-url-source''] else []))
      else [])"

definition import_violations :: "lexer_services \<Rightarrow> token \<Rightarrow> token list \<Rightarrow> string list" where
  "import_violations svc t ts =
     (if is_identifier t \<and> word ''import'' t then
        (if ts \<noteq> [] \<and> word ''('' (hd ts) then [''dynamic-import'']
         else (if unsupportedSyntax (classifyEsImport ts) then [''es-module-import''] else [])
            @ (case bareSpecifier (classifyEsImport ts) of
                 None \<Rightarrow> [] | Some s \<Rightarrow> if \<not> safeSourceUrl svc s then [''remote-import''] else []))
      else [])"

definition creation_violation :: "qstring \<Rightarrow> string list" where
  "creation_violation member =
     (if member = qstr ''createComponent'' then [''qml-create-component'']
      else if member = qstr ''createQmlObject'' then [''qml-create-object'']
      else if member = qstr ''include'' then [''qt-include''] else [])"

definition qt_violations :: "qstring set \<Rightarrow> token \<Rightarrow> token list \<Rightarrow> string list" where
  "qt_violations qt t ts =
     (if isAlias qt t \<and> ts \<noteq> [] then
        (if word ''['' (hd ts) then
           [''qt-dynamic-member''] @ creation_violation (concatenatedString (until_bracket (tl ts)))
         else if word ''.'' (hd ts) \<and> tl ts \<noteq> [] then
           (let member = token_text (hd (tl ts)) in
            creation_violation member @ (if member = qstr ''openUrlExternally'' then [''external-url''] else []))
         else [])
      else [])"

definition member_violations :: "qstring set \<Rightarrow> token option \<Rightarrow> token \<Rightarrow> token list \<Rightarrow> string list" where
  "member_violations loaders before t ts =
     (case before of
        None \<Rightarrow> []
      | Some b \<Rightarrow>
          if word ''['' t then
            (if concatenatedString (until_bracket ts) = qstr ''setSource'' then [''loader-set-source''] else [])
            @ (if isAlias loaders b then [''loader-dynamic-member''] else [])
          else [])
     @ (if word ''.'' t \<and> ts \<noteq> [] \<and> word ''setSource'' (hd ts) then [''loader-set-source''] else [])"

definition word_violations :: "token \<Rightarrow> string list" where
  "word_violations t =
     (if \<not> is_identifier t then []
      else if word ''export'' t then [''es-module-export'']
      else if word ''XMLHttpRequest'' t then [''raw-network'']
      else if word ''WorkerScript'' t then [''worker-network'']
      else if word ''QFile'' t then [''native-file'']
      else if word ''FileDialog'' t then [''native-file-dialog'']
      else if word ''plugin'' t then [''native-plugin'']
      else [])"

definition token_violations :: "lexer_services \<Rightarrow> qstring set \<Rightarrow> qstring set \<Rightarrow> bool \<Rightarrow> token option \<Rightarrow>
    token \<Rightarrow> token list \<Rightarrow> string list" where
  "token_violations svc qt loaders inLoader before t ts =
     source_violations svc inLoader t ts @ import_violations svc t ts @ qt_violations qt t ts
     @ member_violations loaders before t ts @ word_violations t"

fun policy_pass :: "lexer_services \<Rightarrow> qstring set \<Rightarrow> qstring set \<Rightarrow> bool list \<Rightarrow> bool \<Rightarrow> token option \<Rightarrow>
    token list \<Rightarrow> string list \<Rightarrow> string list" where
  "policy_pass svc qt loaders scopes nextIsLoader before [] result = result"
| "policy_pass svc qt loaders scopes nextIsLoader before (t # ts) result =
     (let next = (nextIsLoader \<or> is_identifier t \<and> word ''Loader'' t \<and> ts \<noteq> [] \<and> word ''{'' (hd ts));
          inLoader = (scopes \<noteq> [] \<and> hd scopes)
      in if word ''{'' t then
           policy_pass svc qt loaders ((inLoader \<or> next) # scopes) False (Some t) ts result
         else if word ''}'' t then policy_pass svc qt loaders (tl scopes) next (Some t) ts result
         else policy_pass svc qt loaders scopes next (Some t) ts
                (foldl addUnique result (token_violations svc qt loaders inLoader before t ts)))"

definition violations :: "lexer_services \<Rightarrow> bytes \<Rightarrow> string list" where
  "violations svc source =
     (let text = ls_fromUtf8 svc source; ts = tokens svc text; (qt, loaders) = aliases ts in
      policy_pass svc qt loaders [] False None ts (if malformed svc text then [''malformed-source''] else []))"

end
