(* ===== verification/QmlPolicyProofs.thy ===== *)
theory QmlPolicyProofs
  imports QmlSourcePolicy
begin

text \<open>
  What a source without violations cannot do as far as its tokens show it, that the scanner always
  returns, and two places where the scanner and JavaScript disagree about what a token is.
\<close>

section \<open>Passes over the tokens\<close>

lemma set_addUnique [simp]: "set (addUnique vs v) = insert v (set vs)"
  by (auto simp: addUnique_def)

lemma set_foldl_addUnique [simp]: "set (foldl addUnique vs ws) = set vs \<union> set ws"
  by (induction ws arbitrary: vs) auto

lemma policy_pass_grows: "set result \<subseteq> set (policy_pass svc qt loaders scopes nl before ts result)"
proof (induction svc qt loaders scopes nl before ts result rule: policy_pass.induct)
  case (2 svc qt loaders scopes nextIsLoader before t ts result)
  then show ?case by (fastforce simp: Let_def)
qed simp

lemma policy_pass_reports:
  assumes "policy_pass svc qt loaders scopes nl before (pre @ t # post) result = []"
    and "\<not> word ''{'' t" "\<not> word ''}'' t"
  shows "\<exists>inLoader b. token_violations svc qt loaders inLoader b t post = []"
  using assms(1)
proof (induction pre arbitrary: scopes nl before result)
  case Nil
  let ?found = "token_violations svc qt loaders (scopes \<noteq> [] \<and> hd scopes) before t post"
  from Nil assms(2,3) obtain nl1 where
    "policy_pass svc qt loaders scopes nl1 (Some t) post (foldl addUnique result ?found) = []"
    by (auto simp: Let_def)
  with policy_pass_grows [of "foldl addUnique result ?found" svc qt loaders scopes nl1 "Some t" post]
  have "?found = []" by simp
  then show ?case by blast
next
  case (Cons u pre)
  then obtain scopes1 nl1 result1 where
    "policy_pass svc qt loaders scopes1 nl1 (Some u) (pre @ t # post) result1 = []"
    by (auto simp: Let_def split: if_splits)
  then show ?case by (rule Cons.IH)
qed

definition qt_step :: "token list \<Rightarrow> qstring set \<Rightarrow> nat \<Rightarrow> qstring set" where
  "qt_step ts qt j = qt_alias_step (ts ! j) (ts ! (j + 1)) (ts ! (j + 2)) qt"

lemma alias_pass_fold: "fst (alias_pass ts qt loaders) = foldl (qt_step ts) qt [0..<length ts - 2]"
proof (induction ts qt loaders rule: alias_pass.induct)
  case (1 a op b ts qt loaders)
  have shift: "foldl (qt_step (a # op # b # ts)) q (map Suc js) = foldl (qt_step (op # b # ts)) q js" for q js
    by (induction js arbitrary: q) (simp_all add: qt_step_def)
  have indices: "[0..<length (a # op # b # ts) - 2] = 0 # map Suc [0..<length (op # b # ts) - 2]"
    by (simp add: upt_conv_Cons map_Suc_upt del: upt_Suc)
  have first: "qt_step (a # op # b # ts) qt 0 = qt_alias_step a op b qt" by (simp add: qt_step_def)
  show ?case by (simp only: alias_pass.simps 1 indices foldl_Cons shift first)
qed simp_all

lemma qt_step_grows: "qt \<subseteq> qt_step ts qt j"
  by (auto simp: qt_step_def qt_alias_step_def)

lemma qt_fold_grows: "qt \<subseteq> foldl (qt_step ts) qt js"
  by (induction js arbitrary: qt) (use qt_step_grows in \<open>force+\<close>)

lemma qt_fold_mono: "i \<le> k \<Longrightarrow> foldl (qt_step ts) qt [0..<i] \<subseteq> foldl (qt_step ts) qt [0..<k]"
  by (metis foldl_append le_add_diff_inverse qt_fold_grows upt_add_eq_append zero_le)

section \<open>Names of the Qt object\<close>

text \<open>
  \<open>names_qt ts i x\<close>: by the bindings among the first tokens, up to position \<open>i\<close>, the identifier \<open>x\<close> is
  the global object \<open>Qt\<close>: it is its own name, or an assignment or a property binding gave \<open>x\<close> a name
  that was known to be it.
\<close>

inductive names_qt :: "token list \<Rightarrow> nat \<Rightarrow> qstring \<Rightarrow> bool" for ts where
  itself: "names_qt ts 0 (qstr ''Qt'')"
| bound: "names_qt ts i x \<Longrightarrow> i \<le> j \<Longrightarrow> j + 2 < length ts \<Longrightarrow> binds (ts ! j) (ts ! (j + 1)) \<Longrightarrow>
    is_identifier (ts ! (j + 2)) \<Longrightarrow> token_text (ts ! (j + 2)) = x \<Longrightarrow> names_qt ts (j + 1) (token_text (ts ! j))"

lemma names_qt_found:
  "names_qt ts i x \<Longrightarrow> x \<in> foldl (qt_step ts) {qstr ''Qt''} [0..<i] \<and> (i = 0 \<or> i \<le> length ts - 2)"
proof (induction rule: names_qt.induct)
  case (bound i x j)
  let ?before = "foldl (qt_step ts) {qstr ''Qt''} [0..<j]"
  from bound have "x \<in> ?before" using qt_fold_mono by blast
  with bound have "token_text (ts ! j) \<in> qt_step ts ?before j"
    by (simp add: qt_step_def qt_alias_step_def isAlias_def)
  with bound(3) show ?case by simp
qed simp

lemma names_qt_alias: "names_qt ts i x \<Longrightarrow> x \<in> fst (aliases ts)"
  using names_qt_found [of ts i x] qt_fold_mono [of i "length ts - 2"]
  by (auto simp: aliases_def alias_pass_fold)

lemma clean_tokens:
  assumes "violations svc source = []" and ts: "ts = tokens svc (ls_fromUtf8 svc source)"
    and "k < length ts" "\<not> word ''{'' (ts ! k)" "\<not> word ''}'' (ts ! k)"
  shows "\<exists>inLoader b. token_violations svc (fst (aliases ts)) (snd (aliases ts)) inLoader b (ts ! k) (drop (Suc k) ts) = []"
proof -
  have "policy_pass svc (fst (aliases ts)) (snd (aliases ts)) [] False None
      (take k ts @ ts ! k # drop (Suc k) ts) (if malformed svc (ls_fromUtf8 svc source) then [''malformed-source''] else []) = []"
    using assms(1) unfolding id_take_nth_drop [OF assms(3), symmetric]
    by (simp add: violations_def Let_def case_prod_beta ts)
  from policy_pass_reports [OF this assms(4,5)] show ?thesis by blast
qed


section \<open>Examples\<close>

definition example_lexer :: lexer_services where
  "example_lexer = \<lparr>ls_isLetter = ascii_letter, ls_isDigit = digit_char, ls_digitValue = (\<lambda>c. uint c - 0x30),
     ls_isSpace = (\<lambda>c. c = 0x20 \<or> c = 0x0A \<or> c = 0x0D \<or> c = 0x09), ls_toUShort16 = (\<lambda>s. None),
     ls_fromUtf8 = map ucast, ls_validWithoutScheme = (\<lambda>s. 0x3A \<notin> set s)\<rparr>"

definition renamed_source :: bytes where
  "renamed_source = ascii_bytes ''a=Qt;b=a;b.x''"

definition renamed_tokens :: "token list" where
  "renamed_tokens = tokens example_lexer (ls_fromUtf8 example_lexer renamed_source)"

lemma renamed_clean: "violations example_lexer renamed_source = []"
  by code_simp

definition example_token :: "token_kind \<Rightarrow> string \<Rightarrow> token" where
  "example_token k text = \<lparr>token_kind = k, token_text = qstr text, token_line = 1, regexMayFollow = False\<rparr>"

lemma renamed_tokens_eq:
  "renamed_tokens =
     [example_token Identifier ''a'', example_token Punctuation ''='', example_token Identifier ''Qt'',
      example_token Punctuation '';'', example_token Identifier ''b'', example_token Punctuation ''='',
      example_token Identifier ''a'', example_token Punctuation '';'', example_token Identifier ''b'',
      example_token Punctuation ''.'', example_token Identifier ''x'']"
  by code_simp

lemmas renamed_facts = renamed_tokens_eq example_token_def binds_def word_def is_identifier_def

lemma renamed_qt: "names_qt renamed_tokens 5 (token_text (renamed_tokens ! 8))"
proof -
  have "names_qt renamed_tokens (0 + 1) (token_text (renamed_tokens ! 0))"
    by (rule names_qt.bound [OF names_qt.itself]) (simp_all add: renamed_facts)
  then have "names_qt renamed_tokens (4 + 1) (token_text (renamed_tokens ! 4))"
    by (rule names_qt.bound) (simp_all add: renamed_facts)
  then show ?thesis by (simp add: renamed_facts)
qed


section \<open>What the scanner does not see\<close>


definition hidden_source :: bytes where
  "hidden_source = ascii_bytes ''//'' @ [0x0D] @ ascii_bytes ''Qt.createComponent(x)''"


text \<open>A slash before an equals sign is always the division operator, so a quote in such an expression opens a string.\<close>

lemma regex_after_equals_hides:
  "violations example_lexer (ascii_bytes [CHR ''a'', CHR ''='', CHR ''/'', CHR ''='', CHR 0x22, CHR ''/'', CHR '';'']
     @ ascii_bytes ''Qt.createComponent(x)//'' @ [0x22]) = []"
  by code_simp

lemma direct_use_is_found: "violations example_lexer (ascii_bytes ''Qt.createComponent(x)'') = [''qml-create-component'']"
  by code_simp

text \<open>
  C33. Scanning a source always ends, so its tokens and its violations are defined, templates inside
  expressions inside templates included.
\<close>

theorem scanning_ends:
  assumes "digit_values svc"
  shows "\<exists>lx. lex svc source = Some lx \<and> tokens svc source = lx_tokens lx"
  using lex_returns [OF assms, of source] by (auto simp: tokens_def)

lemma example_digit_values: "digit_values example_lexer"
  by (auto simp: digit_values_def example_lexer_def digit_char_def word_le_def word_less_def)

theorem scanning_ends_witness:
  "lex example_lexer (qstr ''`${`${1}`}`'') \<noteq> None"
  using scanning_ends [OF example_digit_values, of "qstr ''`${`${1}`}`''"] by auto

end
