(* ===== verification/Installer.thy ===== *)
theory Installer
  imports PackageStore Manifest QmlSourcePolicy ArchiveExtraction
begin

text \<open>
  Verification of installed packages and installation (\<open>runtime/package/PackageInstaller.{h,cpp}\<close>).

  What decides about a package is computed here from its files by the components that own it: the
  digests, the manifest, the source policy, the paths.  The Ed25519 verification, version numbers,
  suffixes and encodings of Qt are the parameters \<open>install_services\<close>; what the file system answers
  during one call (the members of a directory, locks, reads, seals, the staging area) is the
  environment of that call.  The verification and publication of a candidate directory by the store is
  one of these answers.  Of the immutable guard the model keeps what later checks read; its seals and
  locks are answers of the environment.  The branches of Windows are the ones modelled.
\<close>

section \<open>Results\<close>

datatype install_phase = StagingPhase | VerifyPhase | PreflightPhase | CandidatePhase | ActivatePhase | CompletePhase

datatype install_error = NoInstallError | StagingFailed | InstallArchiveInvalid | SignatureMissing | SignatureInvalid
  | ContentInvalid | InstallManifestInvalid | RuntimeIncompatible | ImportDenied | PreflightRejected | AppIdMismatch
  | CandidateFailed | ActivationFailed

record immutable_guard =
  ig_open :: bool
  ig_appId :: qstring
  ig_versionDirectory :: qstring
  ig_packageDirectory :: qstring
  ig_files :: "archive_file list"
  ig_memberKeys :: "qstring set"
  ig_seals :: nat

record install_result =
  ir_phase :: install_phase
  ir_error :: install_error
  ir_stableError :: qstring
  ir_appId :: qstring
  ir_version :: qstring
  ir_path :: qstring
  ir_entryPoint :: qstring
  ir_permissions :: manifest_permissions
  ir_binding :: "activation_binding option"
  ir_guard :: "immutable_guard option"
  ir_nativeError :: "32 word"

definition ir_succeeded :: "install_result \<Rightarrow> bool" where
  "ir_succeeded r \<longleftrightarrow> ir_error r = NoInstallError \<and> ir_phase r = CompletePhase"

definition no_permissions :: manifest_permissions where
  "no_permissions = \<lparr>perm_network = \<lparr>hosts = [], methods = []\<rparr>, perm_storage = StorageDisabled,
     perm_clipboardWrite = False, perm_clipboardRead = ClipboardReadDisabled, perm_fileOpen = FileOpenDisabled,
     perm_audioPlayback = False\<rparr>"

definition install_failure :: "install_phase \<Rightarrow> install_error \<Rightarrow> string \<Rightarrow> install_result" where
  "install_failure phase e m = \<lparr>ir_phase = phase, ir_error = e, ir_stableError = qstr m, ir_appId = [], ir_version = [],
     ir_path = [], ir_entryPoint = [], ir_permissions = no_permissions, ir_binding = None, ir_guard = None, ir_nativeError = 0\<rparr>"

definition content_invalid :: install_result where
  "content_invalid = install_failure VerifyPhase ContentInvalid ''installed_content_invalid''"

record verified_lease =
  lease_appId :: qstring
  lease_version :: qstring
  lease_versionDirectory :: qstring
  lease_packageDirectory :: qstring
  lease_entryPoint :: qstring
  lease_permissions :: manifest_permissions
  lease_digestHex :: bytes
  lease_generation :: int
  lease_epoch :: "64 word"

record install_policy =
  expectedAppId :: qstring
  runtimeVersion :: qstring
  allowedImports :: "qstring set"
  policy_preflight :: "(manifest \<Rightarrow> bool) option"
  archiveLimits :: archive_limits
  allowedAppIds :: "qstring set"

record install_services =
  in_digest :: digest_services
  in_manifest :: manifest_services
  in_lexer :: lexer_services
  in_verifyPem :: "bytes \<Rightarrow> bytes \<Rightarrow> bytes \<Rightarrow> bool"
  in_versionSegments :: "qstring \<Rightarrow> int list"
  in_versionText :: "int list \<Rightarrow> qstring"
  in_fileSuffix :: "qstring \<Rightarrow> qstring"
  in_toUtf8 :: "qstring \<Rightarrow> bytes"
  in_sameDirectory :: "qstring \<Rightarrow> qstring \<Rightarrow> bool"

section \<open>Checks of the files\<close>

definition findFile :: "archive_file list \<Rightarrow> bytes \<Rightarrow> archive_file option" where
  "findFile files p = find (\<lambda>f. file_path f = p) files"

definition strictRuntimeVersion :: "install_services \<Rightarrow> qstring \<Rightarrow> int list option" where
  "strictRuntimeVersion svc v =
     (let core = takeWhile (\<lambda>c. c \<noteq> 0x2D) v; parsed = in_versionSegments svc core in
      if length parsed \<noteq> 3 \<or> in_versionText svc parsed \<noteq> core then None else Some parsed)"

text \<open>\<open>QVersionNumber::compare\<close>.\<close>

fun version_compare :: "int list \<Rightarrow> int list \<Rightarrow> int" where
  "version_compare [] [] = 0"
| "version_compare [] (b # bs) = (if b < 0 then 1 else -1)"
| "version_compare (a # as) [] = (if a < 0 then -1 else 1)"
| "version_compare (a # as) (b # bs) = (if a \<noteq> b then a - b else version_compare as bs)"

definition runtimeIsCompatible :: "install_services \<Rightarrow> qstring \<Rightarrow> runtime_compatibility \<Rightarrow> bool" where
  "runtimeIsCompatible svc runtime compatibility \<longleftrightarrow>
     (case (strictRuntimeVersion svc runtime, strictRuntimeVersion svc (minVersion compatibility),
            mf_toInt (in_manifest svc) (takeWhile (\<lambda>c. c \<noteq> 0x2E) (maxVersion compatibility))) of
        (Some r, Some m, Some maximumMajor) \<Rightarrow> 0 \<le> version_compare r m \<and> hd r \<le> maximumMajor
      | _ \<Rightarrow> False)"

definition importsAreAllowed :: "qstring list \<Rightarrow> qstring set \<Rightarrow> bool" where
  "importsAreAllowed names allowed \<longleftrightarrow> list_all (\<lambda>n. n \<in> allowed) names"

definition sourcesPassPolicy :: "install_services \<Rightarrow> archive_file list \<Rightarrow> bool" where
  "sourcesPassPolicy svc files \<longleftrightarrow>
     list_all (\<lambda>f. isQmlSourcePath (file_path f) \<longrightarrow> violations (in_lexer svc) (file_contents f) = []) files"

definition sourceImportsAreAllowed :: "install_services \<Rightarrow> archive_file list \<Rightarrow> qstring list \<Rightarrow> qstring set \<Rightarrow> bool" where
  "sourceImportsAreAllowed svc files declared allowed \<longleftrightarrow>
     list_all (\<lambda>f. isQmlSourcePath (file_path f) \<longrightarrow>
       list_all (\<lambda>m. m \<in> set declared \<and> m \<in> allowed) (staticImports (in_lexer svc) (file_contents f))) files"

definition looksLikePortableExecutable :: "bytes \<Rightarrow> bool" where
  "looksLikePortableExecutable contents \<longleftrightarrow>
     (if length contents < 0x40 \<or> take 2 contents \<noteq> ascii_bytes ''MZ'' then False
      else let peOffset = readLittle32 contents 0x3C in
        0x40 \<le> peOffset \<and> peOffset \<le> int (length contents) - 4
        \<and> slice_bytes contents peOffset 4 = ascii_bytes ''PE'' @ [0, 0])"

definition forbiddenExecutableExtensions :: "qstring set" where
  "forbiddenExecutableExtensions =
     set (map qstr [''com'', ''cpl'', ''dll'', ''drv'', ''dylib'', ''exe'', ''ocx'', ''scr'', ''so'', ''sys''])"

definition packageMembersPassPolicy :: "install_services \<Rightarrow> archive_file list \<Rightarrow> bool" where
  "packageMembersPassPolicy svc files \<longleftrightarrow>
     list_all (\<lambda>f.
       let suffix = ap_toCaseFolded (in_digest svc) (in_fileSuffix svc (ls_fromUtf8 (in_lexer svc) (file_path f)));
           executableMagic = (file_path f \<noteq> SignaturePath
             \<and> (looksLikePortableExecutable (file_contents f)
                \<or> take 4 (file_contents f) = [0x7F] @ ascii_bytes ''ELF''))
       in \<not> (suffix \<in> forbiddenExecutableExtensions \<or> executableMagic)) files"

definition permissionsMatch :: "manifest_permissions \<Rightarrow> manifest_permissions \<Rightarrow> bool" where
  "permissionsMatch a b \<longleftrightarrow>
     hosts (perm_network a) = hosts (perm_network b)
     \<and> methods (perm_network a) = methods (perm_network b)
     \<and> perm_storage a = perm_storage b \<and> perm_clipboardWrite a = perm_clipboardWrite b
     \<and> perm_clipboardRead a = perm_clipboardRead b \<and> perm_fileOpen a = perm_fileOpen b"

definition validDigestHex :: "bytes \<Rightarrow> bool" where
  "validDigestHex digest \<longleftrightarrow> length digest = 64 \<and> list_all hex_byte digest"

definition latin1_text :: "bytes \<Rightarrow> qstring" where "latin1_text bs = map ucast bs"

definition ManifestPath :: bytes where "ManifestPath = ascii_bytes ''manifest.json''"

text \<open>The identifier is the one expected, and one of those allowed, where the policy names any.\<close>

definition appId_allowed :: "install_policy \<Rightarrow> qstring \<Rightarrow> bool" where
  "appId_allowed policy appId \<longleftrightarrow>
     (expectedAppId policy = [] \<or> expectedAppId policy = appId)
     \<and> (allowedAppIds policy = {} \<or> appId \<in> allowedAppIds policy)"

definition signature_verified :: "install_services \<Rightarrow> bytes \<Rightarrow> archive_file list \<Rightarrow> bool" where
  "signature_verified svc publicKey files \<longleftrightarrow>
     (case (findFile files SignaturePath, signedPackage (in_digest svc) files) of
        (Some signature, Inr digest) \<Rightarrow>
          length (file_contents signature) = 64 \<and> in_verifyPem svc digest publicKey (file_contents signature)
      | _ \<Rightarrow> False)"

definition validateInstalledFiles :: "install_services \<Rightarrow> archive_file list \<Rightarrow> qstring \<Rightarrow> qstring \<Rightarrow> qstring \<Rightarrow> bytes \<Rightarrow>
    install_policy \<Rightarrow> install_result" where
  "validateInstalledFiles svc unsorted appId versionDirectory directory publicKey policy =
     (let files = sort_key file_path unsorted in
      case (validatePayload (in_digest svc) files, findFile files ManifestPath) of
        (Inr digest, Some manifestFile) \<Rightarrow>
          if \<not> signature_verified svc publicKey files then content_invalid
          else (case parseManifest (in_manifest svc) (file_contents manifestFile) of
              Inl errors \<Rightarrow> content_invalid
            | Inr m \<Rightarrow>
                if mf_appId m \<noteq> appId \<or> \<not> appId_allowed policy appId
                   \<or> \<not> runtimeIsCompatible svc (runtimeVersion policy) (mf_runtime m)
                   \<or> \<not> importsAreAllowed (mf_imports m) (allowedImports policy)
                   \<or> \<not> sourceImportsAreAllowed svc files (mf_imports m) (allowedImports policy)
                   \<or> \<not> sourcesPassPolicy svc files \<or> \<not> packageMembersPassPolicy svc files
                   \<or> versionDirectory \<noteq> mf_version m @ [0x2D] @ latin1_text (ds_toHex (in_digest svc) digest)
                   \<or> findFile files (in_toUtf8 svc (mf_entryPoint m)) = None
                then content_invalid
                else \<lparr>ir_phase = CompletePhase, ir_error = NoInstallError, ir_stableError = [], ir_appId = appId,
                       ir_version = mf_version m, ir_path = directory, ir_entryPoint = mf_entryPoint m,
                       ir_permissions = mf_permissions m, ir_binding = None, ir_guard = None, ir_nativeError = 0\<rparr>)
      | _ \<Rightarrow> content_invalid)"

definition authenticatedManifestAppId :: "install_services \<Rightarrow> archive_file list option \<Rightarrow> bytes \<Rightarrow> qstring option" where
  "authenticatedManifestAppId svc snapshot publicKey =
     (case snapshot of
        None \<Rightarrow> None
      | Some files \<Rightarrow>
          (case findFile files ManifestPath of
             None \<Rightarrow> None
           | Some m \<Rightarrow>
               if \<not> signature_verified svc publicKey files then None
               else (case parseManifest (in_manifest svc) (file_contents m) of
                       Inl e \<Rightarrow> None | Inr parsed \<Rightarrow> Some (mf_appId parsed))))"

section \<open>The guard\<close>

text \<open>\<open>restored\<close> is the first error of restoring the directory seals, 0 for none.\<close>

definition guard_close :: "32 word \<Rightarrow> immutable_guard \<Rightarrow> (qstring \<times> 32 word) option \<times> immutable_guard" where
  "guard_close restored g =
     (if \<not> ig_open g then (None, g)
      else if restored \<noteq> 0 then (Some (qstr ''package.immutable_restore_failed'', restored), g)
      else (None, g\<lparr>ig_open := False\<rparr>))"

definition closeImmutablePackageGuard :: "32 word \<Rightarrow> install_result \<Rightarrow> install_result" where
  "closeImmutablePackageGuard restored r =
     (case ir_guard r of
        None \<Rightarrow> r
      | Some g \<Rightarrow>
          (case guard_close restored g of
             (Some (e, native), g1) \<Rightarrow>
               r\<lparr>ir_phase := VerifyPhase, ir_error := ContentInvalid,
                 ir_stableError := (if e = [] then qstr ''package.immutable_restore_failed'' else e),
                 ir_nativeError := native, ir_guard := Some g1\<rparr>
           | (None, g1) \<Rightarrow> r\<lparr>ir_guard := None\<rparr>))"

section \<open>Verification of an installed directory\<close>

record dir_member =
  dm_path :: qstring
  dm_relative :: bytes
  dm_key :: qstring
  dm_depth :: int
  dm_isSymLink :: bool
  dm_isDir :: bool
  dm_isFile :: bool
  dm_size :: int
  dm_read :: "bytes option"

definition maximumScannedMembers :: "install_policy \<Rightarrow> 64 word" where
  "maximumScannedMembers policy =
     (let m = maximumEntries (archiveLimits policy) in if (- 1 :: 64 word) div 64 < m then - 1 else m * 64)"

definition total_exceeded :: "archive_limits \<Rightarrow> 64 word \<Rightarrow> 64 word \<Rightarrow> bool" where
  "total_exceeded limits sofar fileBytes \<longleftrightarrow>
     maximumTotalBytes limits < fileBytes \<or> maximumTotalBytes limits - fileBytes < sofar"

fun verify_members :: "install_services \<Rightarrow> install_policy \<Rightarrow> dir_member list \<Rightarrow> 64 word \<Rightarrow> 64 word \<Rightarrow>
    archive_file list \<Rightarrow> archive_file list option" where
  "verify_members svc policy [] seen sofar files = Some files"
| "verify_members svc policy (d # ds) seen sofar files =
     (if maximumScannedMembers policy \<le> seen \<or> dm_isSymLink d then None
      else if dm_isDir d then verify_members svc policy ds (seen + 1) sofar files
      else if \<not> dm_isFile d \<or> maximumEntries (archiveLimits policy) \<le> word_of_nat (length files) \<or> dm_size d < 0
              \<or> maximumEntryBytes (archiveLimits policy) < word_of_int (dm_size d) then None
      else if validateArchivePath (archive_services.truncate (in_digest svc)) (archiveLimits policy) (dm_relative d) = None
              \<or> total_exceeded (archiveLimits policy) sofar (word_of_int (dm_size d)) then None
      else (case dm_read d of
          None \<Rightarrow> None
        | Some bs \<Rightarrow>
            if int (length bs) \<noteq> dm_size d then None
            else verify_members svc policy ds (seen + 1) (sofar + word_of_nat (length bs))
              (files @ [\<lparr>file_path = dm_relative d, file_contents = bs\<rparr>])))"

record verify_env =
  ve_rootOk :: bool
  ve_members :: "dir_member list"

record installer =
  inst_root :: qstring
  inst_publicKey :: bytes
  inst_policy :: install_policy

definition verifyInstalled :: "install_services \<Rightarrow> installer \<Rightarrow> store_env \<Rightarrow> verify_env \<Rightarrow> qstring \<Rightarrow> qstring \<Rightarrow>
    install_result" where
  "verifyInstalled svc inst senv env appId versionDirectory =
     (let directory = versionPath senv (inst_root inst) appId versionDirectory in
      if directory = [] \<or> \<not> ve_rootOk env then content_invalid
      else (case verify_members svc (inst_policy inst) (ve_members env) 0 0 [] of
          None \<Rightarrow> content_invalid
        | Some files \<Rightarrow>
            validateInstalledFiles svc files appId versionDirectory directory (inst_publicKey inst) (inst_policy inst)))"

section \<open>Immutable verification\<close>

text \<open>What the system answers while a directory is locked, sealed and read: first on acquiring, then on checking.\<close>

record immutable_env =
  im_directoryOk :: bool
  im_treeOpened :: bool
  im_members :: "dir_member list"
  im_addDirectory :: "qstring \<Rightarrow> bool"
  im_lock :: "qstring \<Rightarrow> bytes option"
  im_seal :: "qstring \<Rightarrow> bool \<times> bool"
  im_treeStable :: bool
  im_sealsIntact :: bool
  im_reread :: "bytes \<Rightarrow> bytes option"
  im_current :: "dir_member list"
  im_treeContains :: "qstring \<Rightarrow> bool"
  im_restored :: "32 word"

definition immutableMemberKey :: "qstring \<Rightarrow> bool \<Rightarrow> qstring" where
  "immutableMemberKey relative isDirectory = qstr (if isDirectory then ''d:'' else ''f:'') @ relative"

fun collect_members :: "install_services \<Rightarrow> install_policy \<Rightarrow> dir_member list \<Rightarrow> 64 word \<Rightarrow> qstring set \<Rightarrow>
    dir_member list \<times> dir_member list \<times> qstring set \<Rightarrow> (dir_member list \<times> dir_member list \<times> qstring set) option" where
  "collect_members svc policy [] seen keys found = Some found"
| "collect_members svc policy (d # ds) seen keys (dirs, files, members) =
     (if maximumScannedMembers policy \<le> seen \<or> dm_isSymLink d then None
      else (case validateArchivePath (archive_services.truncate (in_digest svc)) (archiveLimits policy) (dm_relative d) of
          None \<Rightarrow> None
        | Some checked \<Rightarrow>
            if collisionKey checked \<in> keys then None
            else if dm_isDir d then
              collect_members svc policy ds (seen + 1) (insert (collisionKey checked) keys)
                (dirs @ [d], files, insert (immutableMemberKey (dm_key d) True) members)
            else if \<not> dm_isFile d \<or> maximumEntries (archiveLimits policy) \<le> word_of_nat (length files) \<or> dm_size d < 0
                    \<or> maximumEntryBytes (archiveLimits policy) < word_of_int (dm_size d) then None
            else collect_members svc policy ds (seen + 1) (insert (collisionKey checked) keys)
                (dirs, files @ [d], insert (immutableMemberKey (dm_key d) False) members)))"

fun lock_files :: "install_policy \<Rightarrow> immutable_env \<Rightarrow> dir_member list \<Rightarrow> 64 word \<Rightarrow> archive_file list \<Rightarrow> archive_file list option" where
  "lock_files policy env [] sofar files = Some files"
| "lock_files policy env (d # ds) sofar files =
     (case im_lock env (dm_path d) of
        None \<Rightarrow> None
      | Some bs \<Rightarrow>
          if total_exceeded (archiveLimits policy) sofar (word_of_nat (length bs)) then None
          else lock_files policy env ds (sofar + word_of_nat (length bs))
            (files @ [\<lparr>file_path = dm_relative d, file_contents = bs\<rparr>]))"

text \<open>Sealing stops at the first directory that cannot be sealed; the count is of the active seals.\<close>

fun seal_directories :: "immutable_env \<Rightarrow> qstring list \<Rightarrow> nat \<Rightarrow> bool \<times> nat" where
  "seal_directories env [] n = (True, n)"
| "seal_directories env (p # ps) n =
     (let (active, isSealed) = im_seal env p; n1 = (if active then n + 1 else n) in
      if \<not> isSealed then (False, n1) else seal_directories env ps n1)"

definition depth_order :: "dir_member list \<Rightarrow> dir_member list" where
  "depth_order ds = sort_key dm_depth (sort_key dm_path ds)"

text \<open>None, a guard whose acquisition failed half way, or an acquired guard.\<close>

definition acquire_guard :: "install_services \<Rightarrow> installer \<Rightarrow> immutable_env \<Rightarrow> qstring \<Rightarrow> qstring \<Rightarrow> qstring \<Rightarrow>
    bool \<times> immutable_guard option" where
  "acquire_guard svc inst env appId versionDirectory directory =
     (if \<not> im_treeOpened env then (False, None)
      else (case collect_members svc (inst_policy inst) (im_members env) 0 {} ([], [], {}) of
          None \<Rightarrow> (False, None)
        | Some (dirs, files, members) \<Rightarrow>
            if \<not> list_all (im_addDirectory env) (map dm_path (depth_order dirs)) then (False, None)
            else (case lock_files (inst_policy inst) env files 0 [] of
                None \<Rightarrow> (False, None)
              | Some contents \<Rightarrow>
                  (let (isSealed, n) = seal_directories env (directory # map dm_path (depth_order dirs)) 0 in
                   (isSealed, Some \<lparr>ig_open = True, ig_appId = appId, ig_versionDirectory = versionDirectory,
                      ig_packageDirectory = directory, ig_files = contents, ig_memberKeys = members, ig_seals = n\<rparr>)))))"

fun reread_files :: "immutable_env \<Rightarrow> archive_file list \<Rightarrow> archive_file list option" where
  "reread_files env [] = Some []"
| "reread_files env (f # fs) =
     (case im_reread env (file_path f) of
        None \<Rightarrow> None
      | Some bs \<Rightarrow> map_option (\<lambda>rest. \<lparr>file_path = file_path f, file_contents = bs\<rparr> # rest) (reread_files env fs))"

fun current_members :: "install_policy \<Rightarrow> immutable_env \<Rightarrow> dir_member list \<Rightarrow> 64 word \<Rightarrow> qstring set \<Rightarrow> qstring set option" where
  "current_members policy env [] seen found = Some found"
| "current_members policy env (d # ds) seen found =
     (if maximumScannedMembers policy \<le> seen \<or> dm_isSymLink d \<or> \<not> dm_isDir d \<and> \<not> dm_isFile d then None
      else if dm_isDir d \<and> \<not> im_treeContains env (dm_path d) then None
      else current_members policy env ds (seen + 1) (insert (immutableMemberKey (dm_key d) (dm_isDir d)) found))"

text \<open>The files as they are read again under the guard, when nothing about the directory has changed.\<close>

definition authenticated_files :: "install_services \<Rightarrow> installer \<Rightarrow> immutable_env \<Rightarrow> qstring \<Rightarrow> qstring \<Rightarrow> qstring \<Rightarrow>
    immutable_guard \<Rightarrow> archive_file list option" where
  "authenticated_files svc inst env appId versionDirectory directory g =
     (if \<not> ig_open g \<or> ig_appId g \<noteq> appId \<or> ig_versionDirectory g \<noteq> versionDirectory
         \<or> \<not> in_sameDirectory svc (ig_packageDirectory g) directory
         \<or> \<not> im_treeStable env \<or> \<not> im_sealsIntact env
         \<or> ig_seals g \<noteq> 1 + card {k \<in> ig_memberKeys g. startsWith (qstr ''d:'') k} then None
      else (case reread_files env (ig_files g) of
          None \<Rightarrow> None
        | Some files \<Rightarrow>
            if current_members (inst_policy inst) env (im_current env) 0 {} \<noteq> Some (ig_memberKeys g) then None
            else Some files))"

definition verifyInstalledImmutable :: "install_services \<Rightarrow> installer \<Rightarrow> store_env \<Rightarrow> immutable_env \<Rightarrow> qstring \<Rightarrow> qstring \<Rightarrow>
    immutable_guard option \<Rightarrow> install_result" where
  "verifyInstalledImmutable svc inst senv env appId versionDirectory retained =
     (let owns = (retained = None);
          settle = (\<lambda>r. if owns then closeImmutablePackageGuard (im_restored env) r else r);
          invalid = (\<lambda>g. settle (content_invalid\<lparr>ir_guard := g\<rparr>));
          directory = versionPath senv (inst_root inst) appId versionDirectory
      in if directory = [] \<or> \<not> im_directoryOk env then invalid retained
      else case (if owns then acquire_guard svc inst env appId versionDirectory directory else (True, retained)) of
        (True, Some g) \<Rightarrow>
          (case authenticated_files svc inst env appId versionDirectory directory g of
             None \<Rightarrow> invalid (Some g)
           | Some files \<Rightarrow>
               (let verified = validateInstalledFiles svc files appId versionDirectory directory (inst_publicKey inst) (inst_policy inst) in
                if \<not> ir_succeeded verified then settle (verified\<lparr>ir_guard := Some g\<rparr>)
                else verified\<lparr>ir_guard := Some g\<rparr>))
      | (_, g) \<Rightarrow> invalid g)"

section \<open>Rebinding\<close>

definition closed_unless_retained :: "bool \<Rightarrow> 32 word \<Rightarrow> install_result \<Rightarrow> install_result" where
  "closed_unless_retained owns restored r = (if owns then closeImmutablePackageGuard restored r else r)"

text \<open>The file of the store before the verification and after it: another process may have changed it.\<close>

definition reverifyInstalledVersion :: "install_services \<Rightarrow> installer \<Rightarrow> 'f state_codec \<Rightarrow> store_env \<Rightarrow> store_env \<Rightarrow>
    'f option \<Rightarrow> 'f option \<Rightarrow> immutable_env \<Rightarrow> qstring \<Rightarrow> activation_binding \<Rightarrow> immutable_guard option \<Rightarrow> install_result" where
  "reverifyInstalledVersion svc inst codec senv1 senv2 file1 file2 env appId expected retained =
     (let separator = lastHyphen (currentDirectory expected) in
      if separator \<le> 0 \<or> latin1 (drop (nat (separator + 1)) (currentDirectory expected)) \<noteq> versionDigestHex expected
        then content_invalid\<lparr>ir_guard := retained\<rparr>
      else if store_result.store_error (compareCurrent codec (inst_root inst) appId senv1 expected file1) \<noteq> NoStoreError
        then content_invalid\<lparr>ir_guard := retained\<rparr>
      else let verified = verifyInstalledImmutable svc inst senv1 env appId (currentDirectory expected) retained in
        if \<not> ir_succeeded verified then verified
        else if store_result.store_error (compareCurrent codec (inst_root inst) appId senv2 expected file2) \<noteq> NoStoreError
          then closed_unless_retained (retained = None) (im_restored env) (content_invalid\<lparr>ir_guard := ir_guard verified\<rparr>)
        else verified\<lparr>ir_binding := Some expected\<rparr>)"

definition lease_well_formed :: "install_services \<Rightarrow> verified_lease \<Rightarrow> qstring \<Rightarrow> bool" where
  "lease_well_formed svc lease expectedDirectory \<longleftrightarrow>
     lease_appId lease \<noteq> [] \<and> lease_version lease \<noteq> [] \<and> lease_entryPoint lease \<noteq> []
     \<and> validDigestHex (lease_digestHex lease) \<and> 0 < lease_generation lease \<and> lease_epoch lease \<noteq> 0
     \<and> lease_versionDirectory lease = lease_version lease @ [0x2D] @ latin1_text (lease_digestHex lease)
     \<and> expectedDirectory \<noteq> [] \<and> in_sameDirectory svc expectedDirectory (lease_packageDirectory lease)"

definition reverifyPinnedLease :: "install_services \<Rightarrow> installer \<Rightarrow> store_env \<Rightarrow> immutable_env \<Rightarrow> verified_lease \<Rightarrow>
    immutable_guard option \<Rightarrow> install_result" where
  "reverifyPinnedLease svc inst senv env lease retained =
     (if \<not> lease_well_formed svc lease (versionPath senv (inst_root inst) (lease_appId lease) (lease_versionDirectory lease))
        then content_invalid\<lparr>ir_guard := retained\<rparr>
      else let verified = verifyInstalledImmutable svc inst senv env (lease_appId lease) (lease_versionDirectory lease) retained in
        if \<not> ir_succeeded verified then verified
        else if ir_appId verified \<noteq> lease_appId lease \<or> ir_version verified \<noteq> lease_version lease
            \<or> ir_entryPoint verified \<noteq> lease_entryPoint lease
            \<or> \<not> in_sameDirectory svc (ir_path verified) (lease_packageDirectory lease)
            \<or> \<not> permissionsMatch (ir_permissions verified) (lease_permissions lease)
          then closed_unless_retained (retained = None) (im_restored env) (content_invalid\<lparr>ir_guard := ir_guard verified\<rparr>)
        else verified\<lparr>ir_binding := Some \<lparr>currentDirectory = lease_versionDirectory lease,
               versionDigestHex = lease_digestHex lease, binding_generation = lease_generation lease\<rparr>\<rparr>)"

section \<open>Installation\<close>

text \<open>
  The two snapshots are of the package given and of its copy in the staging area.  The store publishes
  the candidate under the name it answers, if it does.
\<close>

record install_env =
  ie_precheck :: "archive_file list option"
  ie_staged :: bool
  ie_snapshot :: "archive_file list option"
  ie_ownedSnapshot :: bool
  ie_preflightExtracted :: bool
  ie_entryPointIsFile :: bool
  ie_candidateExtracted :: bool
  ie_commit :: "qstring \<Rightarrow> qstring \<Rightarrow> bytes \<Rightarrow> bytes \<Rightarrow> bytes \<Rightarrow> archive_file list \<Rightarrow> (qstring \<times> qstring) option"
  ie_activate :: store_env
  ie_compare1 :: store_env
  ie_compare2 :: store_env
  ie_immutable :: immutable_env
  ie_restored :: "32 word"

definition precheck_mismatch :: "install_policy \<Rightarrow> qstring \<Rightarrow> qstring \<Rightarrow> bool" where
  "precheck_mismatch policy required appId \<longleftrightarrow> required \<noteq> [] \<and> appId \<noteq> required \<or> \<not> appId_allowed policy appId"

text \<open>The checks between the snapshot and the staging directories, in their order.\<close>

definition check_package :: "install_services \<Rightarrow> installer \<Rightarrow> qstring \<Rightarrow> archive_file list \<Rightarrow>
    install_result + manifest \<times> bytes \<times> bytes \<times> bytes" where
  "check_package svc inst required files =
     (case findFile files SignaturePath of
        None \<Rightarrow> Inl (install_failure VerifyPhase SignatureMissing ''signature_missing'')
      | Some signature \<Rightarrow>
          if length (file_contents signature) \<noteq> 64 \<or> \<not> signature_verified svc (inst_publicKey inst) files
            then Inl (install_failure VerifyPhase SignatureInvalid ''signature_invalid'')
          else (case (validatePayload (in_digest svc) files, signedPackage (in_digest svc) files) of
              (Inr digest, Inr signedDigest) \<Rightarrow>
                (case findFile files ManifestPath of
                   None \<Rightarrow> Inl (install_failure VerifyPhase InstallManifestInvalid ''manifest_invalid'')
                 | Some manifestFile \<Rightarrow>
                     (case parseManifest (in_manifest svc) (file_contents manifestFile) of
                        Inl e \<Rightarrow> Inl (install_failure VerifyPhase InstallManifestInvalid ''manifest_invalid'')
                      | Inr m \<Rightarrow>
                          if precheck_mismatch (inst_policy inst) required (mf_appId m)
                            then Inl (install_failure VerifyPhase AppIdMismatch ''app_id_mismatch'')
                          else if \<not> runtimeIsCompatible svc (runtimeVersion (inst_policy inst)) (mf_runtime m)
                            then Inl (install_failure VerifyPhase RuntimeIncompatible ''runtime_incompatible'')
                          else if \<not> importsAreAllowed (mf_imports m) (allowedImports (inst_policy inst))
                            then Inl (install_failure VerifyPhase ImportDenied ''import_denied'')
                          else if \<not> sourceImportsAreAllowed svc files (mf_imports m) (allowedImports (inst_policy inst))
                            then Inl (install_failure PreflightPhase ImportDenied ''import_denied'')
                          else if \<not> sourcesPassPolicy svc files \<or> \<not> packageMembersPassPolicy svc files
                            then Inl (install_failure PreflightPhase PreflightRejected ''source_policy_rejected'')
                          else Inr (m, digest, signedDigest, file_contents signature)))
              | _ \<Rightarrow> Inl (install_failure VerifyPhase ContentInvalid ''content_invalid'')))"

definition preflight_accepts :: "installer \<Rightarrow> install_env \<Rightarrow> manifest \<Rightarrow> bool" where
  "preflight_accepts inst env m \<longleftrightarrow>
     ie_preflightExtracted env \<and> ie_entryPointIsFile env
     \<and> (case policy_preflight (inst_policy inst) of None \<Rightarrow> False | Some accepts \<Rightarrow> accepts m)"

definition activate_candidate :: "install_services \<Rightarrow> installer \<Rightarrow> 'f state_codec \<Rightarrow> install_env \<Rightarrow> manifest \<Rightarrow> qstring \<Rightarrow> qstring \<Rightarrow>
    'f option \<Rightarrow> install_result \<times> 'f option" where
  "activate_candidate svc inst codec env m candidatePath versionDirectory file =
     (case activateVerified codec (inst_root inst) (mf_appId m) (ie_activate env) versionDirectory file of
        (activated, file1) \<Rightarrow>
          if store_result.store_error activated \<noteq> NoStoreError then
            ((install_failure ActivatePhase ActivationFailed ''activation_failed'')\<lparr>ir_appId := mf_appId m,
               ir_version := mf_version m, ir_path := candidatePath\<rparr>, file1)
          else (case activationBinding activated of
              None \<Rightarrow> (install_failure ActivatePhase ActivationFailed ''activation_failed'', file1)
            | Some binding \<Rightarrow>
                (closeImmutablePackageGuard (ie_restored env)
                   (reverifyInstalledVersion svc inst codec (ie_compare1 env) (ie_compare2 env) file1 file1
                      (ie_immutable env) (mf_appId m) binding None), file1)))"

definition install_staged :: "install_services \<Rightarrow> installer \<Rightarrow> 'f state_codec \<Rightarrow> install_env \<Rightarrow> qstring \<Rightarrow> 'f option \<Rightarrow>
    install_result \<times> 'f option" where
  "install_staged svc inst codec env required file =
     (if \<not> ie_staged env then (install_failure StagingPhase StagingFailed ''staging_failed'', file)
      else (case ie_snapshot env of
          None \<Rightarrow> (install_failure VerifyPhase InstallArchiveInvalid ''archive_invalid'', file)
        | Some files \<Rightarrow>
            if \<not> ie_ownedSnapshot env then (install_failure VerifyPhase InstallArchiveInvalid ''archive_invalid'', file)
            else (case check_package svc inst required files of
                Inl r \<Rightarrow> (r, file)
              | Inr (m, digest, signedDigest, signature) \<Rightarrow>
                  if \<not> preflight_accepts inst env m
                    then (install_failure PreflightPhase PreflightRejected ''preflight_rejected'', file)
                  else if \<not> ie_candidateExtracted env
                    then (install_failure CandidatePhase CandidateFailed ''candidate_failed'', file)
                  else (case ie_commit env (mf_appId m) (mf_version m) (ds_toHex (in_digest svc) digest) signedDigest signature files of
                      None \<Rightarrow> (install_failure CandidatePhase CandidateFailed ''candidate_failed'', file)
                    | Some (candidatePath, versionDirectory) \<Rightarrow>
                        activate_candidate svc inst codec env m candidatePath versionDirectory file))))"

definition install_package :: "install_services \<Rightarrow> installer \<Rightarrow> 'f state_codec \<Rightarrow> install_env \<Rightarrow> qstring \<Rightarrow> 'f option \<Rightarrow>
    install_result \<times> 'f option" where
  "install_package svc inst codec env required file =
     (case authenticatedManifestAppId svc (ie_precheck env) (inst_publicKey inst) of
        Some appId \<Rightarrow> if precheck_mismatch (inst_policy inst) required appId
          then (install_failure VerifyPhase AppIdMismatch ''app_id_mismatch'', file)
          else install_staged svc inst codec env required file
      | None \<Rightarrow> install_staged svc inst codec env required file)"

end
