(* ===== verification/InstallerProofs.thy ===== *)
theory InstallerProofs
  imports Installer
begin

text \<open>
  What installation and verification vouch for: nothing is activated before every check of the package
  has passed, and a version that verifies holds the files it was named after.
\<close>

section \<open>What the checks establish\<close>

definition authentic :: "install_services \<Rightarrow> installer \<Rightarrow> archive_file list \<Rightarrow> manifest \<Rightarrow> bool" where
  "authentic svc inst files m \<longleftrightarrow>
     (\<exists>signature digest manifestFile payload.
        findFile files SignaturePath = Some signature \<and> signedPackage (in_digest svc) files = Inr digest
        \<and> length (file_contents signature) = 64
        \<and> in_verifyPem svc digest (inst_publicKey inst) (file_contents signature)
        \<and> validatePayload (in_digest svc) files = Inr payload
        \<and> findFile files ManifestPath = Some manifestFile
        \<and> parseManifest (in_manifest svc) (file_contents manifestFile) = Inr m)
     \<and> appId_allowed (inst_policy inst) (mf_appId m)
     \<and> runtimeIsCompatible svc (runtimeVersion (inst_policy inst)) (mf_runtime m)
     \<and> set (mf_imports m) \<subseteq> allowedImports (inst_policy inst)
     \<and> (\<forall>f\<in>set files. isQmlSourcePath (file_path f) \<longrightarrow>
          violations (in_lexer svc) (file_contents f) = []
          \<and> set (staticImports (in_lexer svc) (file_contents f)) \<subseteq> set (mf_imports m))
     \<and> packageMembersPassPolicy svc files"

lemma signature_verified_iff:
  "signature_verified svc key files \<longleftrightarrow>
     (\<exists>signature digest. findFile files SignaturePath = Some signature \<and> signedPackage (in_digest svc) files = Inr digest
        \<and> length (file_contents signature) = 64 \<and> in_verifyPem svc digest key (file_contents signature))"
  by (auto simp: signature_verified_def split: option.splits sum.splits)

lemma sources_facts:
  assumes "sourcesPassPolicy svc files" "sourceImportsAreAllowed svc files declared allowed"
    and "f \<in> set files" "isQmlSourcePath (file_path f)"
  shows "violations (in_lexer svc) (file_contents f) = []
    \<and> set (staticImports (in_lexer svc) (file_contents f)) \<subseteq> set declared"
  using assms by (auto simp: sourcesPassPolicy_def sourceImportsAreAllowed_def list_all_iff)

lemma check_package_Inr:
  assumes "check_package svc inst required files = Inr (m, digest, signedDigest, signature)"
  shows "authentic svc inst files m" "required = [] \<or> mf_appId m = required"
    "validatePayload (in_digest svc) files = Inr digest"
proof -
  from assms obtain sig manifestFile where
    c: "findFile files SignaturePath = Some sig" "signature_verified svc (inst_publicKey inst) files"
      "validatePayload (in_digest svc) files = Inr digest" "findFile files ManifestPath = Some manifestFile"
      "parseManifest (in_manifest svc) (file_contents manifestFile) = Inr m"
      "\<not> precheck_mismatch (inst_policy inst) required (mf_appId m)"
      "runtimeIsCompatible svc (runtimeVersion (inst_policy inst)) (mf_runtime m)"
      "importsAreAllowed (mf_imports m) (allowedImports (inst_policy inst))"
      "sourceImportsAreAllowed svc files (mf_imports m) (allowedImports (inst_policy inst))"
      "sourcesPassPolicy svc files" "packageMembersPassPolicy svc files"
    by (auto simp: check_package_def split: option.splits sum.splits if_splits)
  show "authentic svc inst files m"
    using c sources_facts [OF c(10,9)]
    by (auto simp: authentic_def signature_verified_iff precheck_mismatch_def importsAreAllowed_def list_all_iff)
  show "required = [] \<or> mf_appId m = required" using c(6) by (auto simp: precheck_mismatch_def)
  show "validatePayload (in_digest svc) files = Inr digest" by (rule c(3))
qed

lemma install_staged_changes:
  assumes "install_staged svc inst codec env required file = (r, file1)" "file1 \<noteq> file"
  obtains files m digest signedDigest signature candidatePath versionDirectory where
    "ie_snapshot env = Some files" "check_package svc inst required files = Inr (m, digest, signedDigest, signature)"
    "preflight_accepts inst env m"
    "ie_commit env (mf_appId m) (mf_version m) (ds_toHex (in_digest svc) digest) signedDigest signature files
       = Some (candidatePath, versionDirectory)"
    "file1 = snd (activateVerified codec (inst_root inst) (mf_appId m) (ie_activate env) versionDirectory file)"
proof -
  from assms obtain files where f: "ie_snapshot env = Some files" "ie_ownedSnapshot env" "ie_staged env"
    by (auto simp: install_staged_def split: if_splits option.splits)
  with assms obtain m digest signedDigest signature where c:
    "check_package svc inst required files = Inr (m, digest, signedDigest, signature)" "preflight_accepts inst env m"
    "ie_candidateExtracted env"
    by (auto simp: install_staged_def split: if_splits sum.splits)
  with assms f obtain candidatePath versionDirectory where v:
    "ie_commit env (mf_appId m) (mf_version m) (ds_toHex (in_digest svc) digest) signedDigest signature files
       = Some (candidatePath, versionDirectory)"
    "activate_candidate svc inst codec env m candidatePath versionDirectory file = (r, file1)"
    by (auto simp: install_staged_def split: option.splits)
  from v(2) have "file1 = snd (activateVerified codec (inst_root inst) (mf_appId m) (ie_activate env) versionDirectory file)"
    by (auto simp: activate_candidate_def split: prod.splits if_splits option.splits)
  with that f(1) c(1,2) v(1) show thesis by blast
qed

lemma install_is_staged:
  "install_package svc inst codec env required file = (r, file1) \<Longrightarrow> file1 \<noteq> file \<Longrightarrow>
    install_staged svc inst codec env required file = (r, file1)"
  by (auto simp: install_package_def split: option.splits if_splits)

text \<open>
  C36. Nothing is activated unchecked.  An installation that changes the activation record of an
  application has read a package that carries a signature of the trusted key over its contents, whose
  payload digest is the one it states, whose manifest is valid, names an application the policy allows
  (and the one asked for), is compatible and imports allowed modules only, whose sources have no
  violation and import nothing they do not declare; the preflight has accepted it, and the store has
  published exactly these files.  In every other case the record is left as it was.
\<close>

theorem nothing_activated_unchecked:
  "case install_package svc inst codec env required file of (r, file1) \<Rightarrow>
     file1 = file
     \<or> (\<exists>files m digest signedDigest signature candidatePath versionDirectory.
          ie_snapshot env = Some files \<and> authentic svc inst files m \<and> (required = [] \<or> mf_appId m = required)
          \<and> preflight_accepts inst env m
          \<and> ie_commit env (mf_appId m) (mf_version m) (ds_toHex (in_digest svc) digest) signedDigest signature files
              = Some (candidatePath, versionDirectory)
          \<and> file1 = snd (activateVerified codec (inst_root inst) (mf_appId m) (ie_activate env) versionDirectory file))"
proof (cases "install_package svc inst codec env required file")
  case (Pair r file1)
  show ?thesis
  proof (cases "file1 = file")
    case False
    from install_staged_changes [OF install_is_staged [OF Pair False] False] check_package_Inr(1,2) False show ?thesis
      unfolding Pair prod.case by (metis (no_types, lifting))
  qed (simp add: Pair)
qed

section \<open>What a verified version holds\<close>

lemma validated_digest:
  assumes "ir_succeeded (validateInstalledFiles svc files appId versionDirectory directory key policy)"
  shows "\<exists>payload v. validatePayload (in_digest svc) (sort_key file_path files) = Inr payload
    \<and> versionDirectory = v @ [0x2D] @ latin1_text (ds_toHex (in_digest svc) payload)"
  using assms
  by (auto simp: validateInstalledFiles_def Let_def ir_succeeded_def content_invalid_def install_failure_def
      split: sum.splits option.splits if_splits)

lemma validated_payload:
  assumes "validatePayload svc files = Inr payload"
  shows "\<exists>s. digest_stream (archive_services.truncate svc) files True = Inr s \<and> payload = ds_sha256 svc s
    \<and> length (ds_toHex svc payload) = 64"
  using assms
  by (cases "digest_stream (archive_services.truncate svc) files True")
    (auto simp: validatePayload_def payload_digest_def calculate_def split: option.splits if_splits)

lemma latin1_text_inject: "latin1_text a = latin1_text b \<longleftrightarrow> a = b"
proof -
  have "uint (ucast c :: 16 word) = uint c" for c :: byte by (rule uint_up_ucast) (simp add: is_up)
  then have "inj (ucast :: byte \<Rightarrow> 16 word)" by (metis injI word_uint_eqI)
  then show ?thesis by (simp add: latin1_text_def inj_map_eq_map)
qed

lemma hyphenated_suffix:
  "v @ [c] @ a = w @ [c] @ b \<Longrightarrow> length a = length b \<Longrightarrow> a = b"
  by (metis append_eq_append_conv length_Cons append_Cons append_Nil)

lemma same_version_same_files:
  assumes "ir_succeeded (validateInstalledFiles svc files appId versionDirectory directory key policy)"
    and "ir_succeeded (validateInstalledFiles svc others appId' versionDirectory directory' key' policy')"
    and "list_all sizes_fit files" "list_all sizes_fit others" and "inj (ds_toHex (in_digest svc))"
  shows "mset (filter (digest_includes True) files) = mset (filter (digest_includes True) others)
    \<or> (\<exists>s t. s \<noteq> t \<and> ds_sha256 (in_digest svc) s = ds_sha256 (in_digest svc) t
         \<and> digest_stream (archive_services.truncate (in_digest svc)) (sort_key file_path files) True = Inr s
         \<and> digest_stream (archive_services.truncate (in_digest svc)) (sort_key file_path others) True = Inr t)"
proof -
  let ?ds = "in_digest svc"
  obtain p v where p: "validatePayload ?ds (sort_key file_path files) = Inr p"
    "versionDirectory = v @ [0x2D] @ latin1_text (ds_toHex ?ds p)" using validated_digest [OF assms(1)] by blast
  obtain q w where q: "validatePayload ?ds (sort_key file_path others) = Inr q"
    "versionDirectory = w @ [0x2D] @ latin1_text (ds_toHex ?ds q)" using validated_digest [OF assms(2)] by blast
  obtain s where s: "digest_stream (archive_services.truncate ?ds) (sort_key file_path files) True = Inr s"
    "p = ds_sha256 ?ds s" "length (ds_toHex ?ds p) = 64" using validated_payload [OF p(1)] by blast
  obtain t where t: "digest_stream (archive_services.truncate ?ds) (sort_key file_path others) True = Inr t"
    "q = ds_sha256 ?ds t" "length (ds_toHex ?ds q) = 64" using validated_payload [OF q(1)] by blast
  have "latin1_text (ds_toHex ?ds p) = latin1_text (ds_toHex ?ds q)"
    by (rule hyphenated_suffix [of v "0x2D" _ w]) (use p(2) q(2) s(3) t(3) in \<open>simp_all add: latin1_text_def\<close>)
  then have "p = q" using assms(5) by (simp add: latin1_text_inject inj_eq)
  show ?thesis
  proof (cases "s = t")
    case True
    have "mset (filter (digest_includes True) (sort_key file_path files))
        = mset (filter (digest_includes True) (sort_key file_path others))"
      using s(1) t(1) True assms(3,4)
      by (intro streams_same_files) (simp_all add: list_all_iff)
    then show ?thesis by simp
  next
    case False
    with s(1,2) t(1,2) \<open>p = q\<close> show ?thesis by blast
  qed
qed


end
