(* ===== verification/AdmissionToken.thy ===== *)
theory AdmissionToken
  imports Prelude "HOL-Library.Multiset"
begin

text \<open>
  The admission tokens of package authority (\<open>runtime/package/AuthorityAdmissionToken.{h,cpp}\<close>): a
  shared state with a mutex, guards that count as uses of it, and tickets on which another thread waits
  until a revoked authority has no uses left.

  Every method takes the mutex of its state for its whole body, so a run of the program is a sequence
  of method calls of its threads in some order; that sequence is what the machine below runs.  A wait
  on the condition variable is the one call that lets go of the mutex: the thread goes to \<open>sleepers\<close>,
  \<open>notify_all\<close> moves the sleepers to \<open>woken\<close>, and a woken thread evaluates its predicate again.  Waking
  without a notification, and the deadline of \<open>waitUntil\<close>, are events of their own.  Shared states are
  addressed by their number, guards by the number of the variable that holds them; a call that names
  one that does not exist is not possible and changes nothing.  The count of uses is below $2^{64}$,
  each use being an object of its own.
\<close>

section \<open>State\<close>

type_synonym thread = nat
type_synonym address = nat

record admission_state =
  revocationThread :: "thread option"
  activeUses :: nat
  closed_state :: bool

record revocation_ticket =
  ticket_state :: address
  waitForbiddenThread :: thread

record admission =
  adm_states :: "admission_state list"
  adm_guards :: "address option list"
  adm_tickets :: "revocation_ticket list"
  sleepers :: "(thread \<times> address) list"
  woken :: "(thread \<times> address) list"
  adm_commits :: "address list"

definition empty_admission :: admission where
  "empty_admission = \<lparr>adm_states = [], adm_guards = [], adm_tickets = [], sleepers = [], woken = [], adm_commits = []\<rparr>"

datatype commit_callback = NoCallback | CommitReturns bool | CommitThrows

datatype admission_event =
    MakeToken
  | TryAcquireUse address
  | Publish nat commit_callback
  | ReleaseGuard nat
  | MoveNewGuard nat
  | MoveGuard nat nat
  | BeginRevoke thread address
  | DestroyToken thread address
  | IsDrained nat
  | WaitDrained thread nat "thread option"
  | Resume thread address
  | SpuriousWake thread address
  | DeadlinePassed thread address

datatype admission_result =
    TokenAt address
  | Acquired "nat option"
  | Answer bool
  | Ticket nat
  | Asleep
  | Done

section \<open>Operations\<close>

definition update_state :: "address \<Rightarrow> (admission_state \<Rightarrow> admission_state) \<Rightarrow> admission \<Rightarrow> admission" where
  "update_state a f s = s\<lparr>adm_states := (adm_states s)[a := f (adm_states s ! a)]\<rparr>"

definition notify_all :: "address \<Rightarrow> admission \<Rightarrow> admission" where
  "notify_all a s = s\<lparr>sleepers := filter (\<lambda>(t, b). b \<noteq> a) (sleepers s),
                     woken := woken s @ filter (\<lambda>(t, b). b = a) (sleepers s)\<rparr>"

definition notify_drained :: "address \<Rightarrow> admission \<Rightarrow> admission" where
  "notify_drained a s = (if activeUses (adm_states s ! a) = 0 then notify_all a s else s)"

definition tryAcquireUse :: "address \<Rightarrow> admission \<Rightarrow> admission \<times> nat option" where
  "tryAcquireUse a s =
     (if length (adm_states s) \<le> a \<or> closed_state (adm_states s ! a) then (s, None)
      else ((update_state a (\<lambda>st. st\<lparr>activeUses := activeUses st + 1\<rparr>) s)\<lparr>adm_guards := adm_guards s @ [Some a]\<rparr>,
            Some (length (adm_guards s))))"

definition guard_at :: "nat \<Rightarrow> admission \<Rightarrow> address option" where
  "guard_at g s = (if g < length (adm_guards s) then adm_guards s ! g else None)"

definition publishIfStillAdmitted :: "nat \<Rightarrow> commit_callback \<Rightarrow> admission \<Rightarrow> admission \<times> bool" where
  "publishIfStillAdmitted g callback s =
     (case guard_at g s of
        None \<Rightarrow> (s, False)
      | Some a \<Rightarrow>
          if callback = NoCallback then (s, False)
          else if closed_state (adm_states s ! a) then (s, False)
          else (s\<lparr>adm_commits := adm_commits s @ [a]\<rparr>, callback = CommitReturns True))"

definition release_guard :: "nat \<Rightarrow> admission \<Rightarrow> admission" where
  "release_guard g s =
     (case guard_at g s of
        None \<Rightarrow> s
      | Some a \<Rightarrow>
          (let s1 = update_state a (\<lambda>st. st\<lparr>activeUses := activeUses st - 1\<rparr>) s;
               s2 = (if closed_state (adm_states s1 ! a) \<and> activeUses (adm_states s1 ! a) = 0 then notify_all a s1 else s1)
           in s2\<lparr>adm_guards := (adm_guards s2)[g := None]\<rparr>))"

definition move_new_guard :: "nat \<Rightarrow> admission \<Rightarrow> admission" where
  "move_new_guard source s = s\<lparr>adm_guards := (adm_guards s)[source := None] @ [guard_at source s]\<rparr>"

definition move_guard :: "nat \<Rightarrow> nat \<Rightarrow> admission \<Rightarrow> admission" where
  "move_guard target source s =
     (if target = source \<or> length (adm_guards s) \<le> target \<or> length (adm_guards s) \<le> source then s
      else let s1 = release_guard target s in
        s1\<lparr>adm_guards := (adm_guards s1)[target := adm_guards s1 ! source, source := None]\<rparr>)"

definition beginRevoke :: "thread \<Rightarrow> address \<Rightarrow> admission \<Rightarrow> admission" where
  "beginRevoke thr a s =
     (if length (adm_states s) \<le> a then s
      else let s1 = (if closed_state (adm_states s ! a) then s
                     else update_state a (\<lambda>st. st\<lparr>closed_state := True, revocationThread := Some thr\<rparr>) s);
               s2 = notify_drained a s1
           in s2\<lparr>adm_tickets := adm_tickets s2 @ [\<lparr>ticket_state = a, waitForbiddenThread = thr\<rparr>]\<rparr>)"

definition destroyToken :: "thread \<Rightarrow> address \<Rightarrow> admission \<Rightarrow> admission" where
  "destroyToken thr a s =
     (if length (adm_states s) \<le> a then s
      else notify_drained a
        (update_state a (\<lambda>st. st\<lparr>closed_state := True,
             revocationThread := (if revocationThread st = None then Some thr else revocationThread st)\<rparr>) s))"

definition waitingAllowed :: "admission_state \<Rightarrow> thread \<Rightarrow> thread \<Rightarrow> thread option \<Rightarrow> bool" where
  "waitingAllowed st forbidden this app \<longleftrightarrow>
     \<not> (revocationThread st = Some this \<or> forbidden = this) \<and> app \<noteq> Some this"

definition isDrained :: "address \<Rightarrow> admission \<Rightarrow> bool" where
  "isDrained a s \<longleftrightarrow> activeUses (adm_states s ! a) = 0"

definition waitUntilDrained :: "thread \<Rightarrow> nat \<Rightarrow> thread option \<Rightarrow> admission \<Rightarrow> admission \<times> admission_result" where
  "waitUntilDrained this k app s =
     (if length (adm_tickets s) \<le> k then (s, Done)
      else let ticket = adm_tickets s ! k; a = ticket_state ticket in
        if \<not> waitingAllowed (adm_states s ! a) (waitForbiddenThread ticket) this app then (s, Answer False)
        else if isDrained a s then (s, Answer True)
        else (s\<lparr>sleepers := sleepers s @ [(this, a)]\<rparr>, Asleep))"

definition resume_wait :: "thread \<Rightarrow> address \<Rightarrow> admission \<Rightarrow> admission \<times> admission_result" where
  "resume_wait this a s =
     (if (this, a) \<notin> set (woken s) then (s, Done)
      else let s1 = s\<lparr>woken := remove1 (this, a) (woken s)\<rparr> in
        if isDrained a s1 then (s1, Answer True)
        else (s1\<lparr>sleepers := sleepers s1 @ [(this, a)]\<rparr>, Asleep))"

text \<open>The end of \<open>wait_until\<close> at its deadline returns the predicate as it is then.\<close>

definition deadline_passed :: "thread \<Rightarrow> address \<Rightarrow> admission \<Rightarrow> admission \<times> admission_result" where
  "deadline_passed this a s =
     (if (this, a) \<notin> set (sleepers s) then (s, Done)
      else (s\<lparr>sleepers := remove1 (this, a) (sleepers s)\<rparr>, Answer (isDrained a s)))"

definition spurious_wake :: "thread \<Rightarrow> address \<Rightarrow> admission \<Rightarrow> admission" where
  "spurious_wake this a s =
     (if (this, a) \<notin> set (sleepers s) then s
      else s\<lparr>sleepers := remove1 (this, a) (sleepers s), woken := woken s @ [(this, a)]\<rparr>)"

definition make_token :: "admission \<Rightarrow> admission \<times> address" where
  "make_token s = (s\<lparr>adm_states := adm_states s @ [\<lparr>revocationThread = None, activeUses = 0, closed_state = False\<rparr>]\<rparr>,
                   length (adm_states s))"

fun admission_step :: "admission \<Rightarrow> admission_event \<Rightarrow> admission \<times> admission_result" where
  "admission_step s MakeToken = apsnd TokenAt (make_token s)"
| "admission_step s (TryAcquireUse a) = apsnd Acquired (tryAcquireUse a s)"
| "admission_step s (Publish g c) = apsnd Answer (publishIfStillAdmitted g c s)"
| "admission_step s (ReleaseGuard g) = (release_guard g s, Done)"
| "admission_step s (MoveNewGuard g) = (move_new_guard g s, Done)"
| "admission_step s (MoveGuard t g) = (move_guard t g s, Done)"
| "admission_step s (BeginRevoke thr a) = (beginRevoke thr a s, Ticket (length (adm_tickets s)))"
| "admission_step s (DestroyToken thr a) = (destroyToken thr a s, Done)"
| "admission_step s (IsDrained k) =
     (s, if k < length (adm_tickets s) then Answer (isDrained (ticket_state (adm_tickets s ! k)) s) else Done)"
| "admission_step s (WaitDrained thr k app) = waitUntilDrained thr k app s"
| "admission_step s (Resume thr a) = resume_wait thr a s"
| "admission_step s (SpuriousWake thr a) = (spurious_wake thr a s, Done)"
| "admission_step s (DeadlinePassed thr a) = deadline_passed thr a s"

section \<open>Invariant\<close>

definition uses :: "address \<Rightarrow> admission \<Rightarrow> nat" where
  "uses a s = count (mset (adm_guards s)) (Some a)"

definition state_ok :: "admission \<Rightarrow> address \<Rightarrow> bool" where
  "state_ok s a \<longleftrightarrow>
     activeUses (adm_states s ! a) = uses a s
     \<and> ((\<exists>thr. (thr, a) \<in> set (sleepers s)) \<longrightarrow>
          closed_state (adm_states s ! a) \<and> 0 < uses a s)
     \<and> ((\<exists>thr. (thr, a) \<in> set (woken s)) \<or> (\<exists>k\<in>set (adm_tickets s). ticket_state k = a) \<longrightarrow>
          closed_state (adm_states s ! a))"

definition admission_inv :: "admission \<Rightarrow> bool" where
  "admission_inv s \<longleftrightarrow>
     (\<forall>a < length (adm_states s). state_ok s a)
     \<and> (\<forall>a. Some a \<in> set (adm_guards s) \<longrightarrow> a < length (adm_states s))
     \<and> (\<forall>(thr, a) \<in> set (sleepers s) \<union> set (woken s). a < length (adm_states s))
     \<and> (\<forall>k\<in>set (adm_tickets s). ticket_state k < length (adm_states s))"

lemma count_update:
  assumes "g < length xs"
  shows "count (mset (xs[g := y])) x + (if xs ! g = x then 1 else 0) = count (mset xs) x + (if y = x then 1 else 0)"
proof -
  have "xs ! g \<in># mset xs" using assms by simp
  then have "0 < count (mset xs) (xs ! g)" by simp
  with assms show ?thesis by (auto simp: mset_update)
qed

lemma guard_at_Some: "guard_at g s = Some a \<longleftrightarrow> g < length (adm_guards s) \<and> adm_guards s ! g = Some a"
  by (auto simp: guard_at_def)

lemma guard_at_in: "guard_at g s = Some a \<Longrightarrow> Some a \<in> set (adm_guards s)"
  by (metis guard_at_Some nth_mem)

lemma admission_invI:
  assumes "\<And>a. a < length (adm_states s) \<Longrightarrow> state_ok s a"
    and "\<And>a. Some a \<in> set (adm_guards s) \<Longrightarrow> a < length (adm_states s)"
    and "\<And>thr a. (thr, a) \<in> set (sleepers s) \<union> set (woken s) \<Longrightarrow> a < length (adm_states s)"
    and "\<And>k. k \<in> set (adm_tickets s) \<Longrightarrow> ticket_state k < length (adm_states s)"
  shows "admission_inv s"
  using assms by (auto simp: admission_inv_def)

lemma admission_invD:
  assumes "admission_inv s"
  shows "\<And>a. a < length (adm_states s) \<Longrightarrow> state_ok s a"
    and "\<And>a. Some a \<in> set (adm_guards s) \<Longrightarrow> a < length (adm_states s)"
    and "\<And>thr a. (thr, a) \<in> set (sleepers s) \<Longrightarrow> a < length (adm_states s)"
    and "\<And>thr a. (thr, a) \<in> set (woken s) \<Longrightarrow> a < length (adm_states s)"
    and "\<And>k. k \<in> set (adm_tickets s) \<Longrightarrow> ticket_state k < length (adm_states s)"
  using assms by (fastforce simp: admission_inv_def)+

lemma admission_frames [simp]:
  "adm_guards (notify_all a s) = adm_guards s" "adm_states (notify_all a s) = adm_states s"
  "adm_tickets (notify_all a s) = adm_tickets s" "adm_commits (notify_all a s) = adm_commits s"
  "adm_guards (update_state a f s) = adm_guards s" "sleepers (update_state a f s) = sleepers s"
  "woken (update_state a f s) = woken s" "adm_tickets (update_state a f s) = adm_tickets s"
  "adm_commits (update_state a f s) = adm_commits s"
  "length (adm_states (update_state a f s)) = length (adm_states s)"
  "adm_guards (notify_drained a s) = adm_guards s" "adm_states (notify_drained a s) = adm_states s"
  "adm_tickets (notify_drained a s) = adm_tickets s" "adm_commits (notify_drained a s) = adm_commits s"
  by (simp_all add: notify_all_def update_state_def notify_drained_def)

lemma notify_members:
  "(thr, b) \<in> set (sleepers (notify_all a s)) \<longleftrightarrow> (thr, b) \<in> set (sleepers s) \<and> b \<noteq> a"
  "(thr, b) \<in> set (woken (notify_all a s)) \<longleftrightarrow> (thr, b) \<in> set (woken s) \<or> (thr, b) \<in> set (sleepers s) \<and> b = a"
  by (auto simp: notify_all_def)

lemma update_state_nth [simp]:
  "a < length (adm_states s) \<Longrightarrow> adm_states (update_state a f s) ! b = (if b = a then f (adm_states s ! a) else adm_states s ! b)"
  by (simp add: update_state_def nth_list_update)

lemma inv_make_token: "admission_inv s \<Longrightarrow> admission_inv (fst (make_token s))"
proof (rule admission_invI)
  fix a
  assume inv: "admission_inv s" and a: "a < length (adm_states (fst (make_token s)))"
  show "state_ok (fst (make_token s)) a"
  proof (cases "a = length (adm_states s)")
    case True
    have "Some a \<notin> set (adm_guards s)" "(thr, a) \<notin> set (sleepers s)" "(thr, a) \<notin> set (woken s)"
      "\<And>k. k \<in> set (adm_tickets s) \<Longrightarrow> ticket_state k \<noteq> a" for thr
      using admission_invD [OF inv] True by fastforce+
    with True show ?thesis by (auto simp: state_ok_def make_token_def uses_def nth_append count_eq_zero_iff)
  next
    case False
    with a have "a < length (adm_states s)" by (simp add: make_token_def)
    from admission_invD(1) [OF inv this] this show ?thesis
      by (simp add: state_ok_def make_token_def uses_def nth_append)
  qed
qed (auto simp: make_token_def dest: admission_invD less_SucI)

lemma state_ok_cong:
  assumes "state_ok s a"
    and "activeUses (adm_states t ! a) = activeUses (adm_states s ! a) + n" "uses a t = uses a s + n"
    and "closed_state (adm_states s ! a) \<longrightarrow> closed_state (adm_states t ! a)"
    and "\<And>thr. (thr, a) \<in> set (sleepers t) \<Longrightarrow> (thr, a) \<in> set (sleepers s)"
    and "\<And>thr. (thr, a) \<in> set (woken t) \<Longrightarrow> (thr, a) \<in> set (woken s) \<or> (thr, a) \<in> set (sleepers s)"
    and "\<And>k. k \<in> set (adm_tickets t) \<Longrightarrow> ticket_state k = a \<Longrightarrow>
      k \<in> set (adm_tickets s) \<or> closed_state (adm_states t ! a)"
  shows "state_ok t a"
  using assms unfolding state_ok_def by (metis trans_less_add1)

lemma inv_tryAcquire:
  assumes inv: "admission_inv s"
  shows "admission_inv (fst (tryAcquireUse a s))"
proof (cases "length (adm_states s) \<le> a \<or> closed_state (adm_states s ! a)")
  case False
  let ?t = "(update_state a (\<lambda>st. st\<lparr>activeUses := activeUses st + 1\<rparr>) s)\<lparr>adm_guards := adm_guards s @ [Some a]\<rparr>"
  have "admission_inv ?t"
  proof (rule admission_invI)
    fix b
    assume "b < length (adm_states ?t)"
    then have b: "b < length (adm_states s)" by simp
    show "state_ok ?t b"
      by (rule state_ok_cong [OF admission_invD(1) [OF inv b], where n = "if b = a then 1 else 0"])
        (use False in \<open>auto simp: uses_def\<close>)
  qed (use False in \<open>auto dest: admission_invD [OF inv]\<close>)
  with False show ?thesis by (simp add: tryAcquireUse_def)
qed (use inv in \<open>simp add: tryAcquireUse_def\<close>)

text \<open>A guard that holds nothing any more, and the use it was is taken off.\<close>

lemma release_facts:
  assumes "guard_at g s = Some a" "a < length (adm_states s)"
  defines "t \<equiv> release_guard g s"
  shows "adm_guards t = (adm_guards s)[g := None]" "length (adm_states t) = length (adm_states s)"
    "adm_tickets t = adm_tickets s" "adm_commits t = adm_commits s"
    "activeUses (adm_states t ! b) = activeUses (adm_states s ! b) - (if b = a then 1 else 0)"
    "closed_state (adm_states t ! b) = closed_state (adm_states s ! b)"
    "(thr, b) \<in> set (sleepers t) \<longleftrightarrow> (thr, b) \<in> set (sleepers s)
       \<and> \<not> (b = a \<and> closed_state (adm_states s ! a) \<and> activeUses (adm_states s ! a) \<le> 1)"
    "(thr, b) \<in> set (woken t) \<longrightarrow> (thr, b) \<in> set (woken s) \<or> (thr, b) \<in> set (sleepers s)"
  using assms(1,2) unfolding t_def release_guard_def
  by (auto simp: Let_def notify_members)

lemma inv_release:
  assumes inv: "admission_inv s"
  shows "admission_inv (release_guard g s)"
proof (cases "guard_at g s")
  case (Some a)
  then have g: "g < length (adm_guards s)" "adm_guards s ! g = Some a" by (simp_all add: guard_at_Some)
  have a: "a < length (adm_states s)" using admission_invD(2) [OF inv guard_at_in [OF Some]] .
  define t where "t = release_guard g s"
  note facts = release_facts [OF Some a, folded t_def]
  have count: "uses b s = uses b t + (if b = a then 1 else 0)" for b
    using count_update [OF g(1), of None "Some b"] g(2) by (auto simp: uses_def facts(1))
  have "admission_inv t"
  proof (rule admission_invI)
    fix b
    assume "b < length (adm_states t)"
    then have b: "b < length (adm_states s)" by (simp add: facts)
    have ok: "activeUses (adm_states s ! b) = uses b s"
      "\<And>thr. (thr, b) \<in> set (sleepers s) \<Longrightarrow> closed_state (adm_states s ! b) \<and> 0 < uses b s"
      "\<And>thr. (thr, b) \<in> set (woken s) \<Longrightarrow> closed_state (adm_states s ! b)"
      "\<And>k. k \<in> set (adm_tickets s) \<Longrightarrow> ticket_state k = b \<Longrightarrow> closed_state (adm_states s ! b)"
      using admission_invD(1) [OF inv b] by (auto simp: state_ok_def)
    have "activeUses (adm_states t ! b) = uses b t" using ok(1) count [of b] by (simp add: facts(5))
    moreover have "closed_state (adm_states t ! b) \<and> 0 < uses b t" if "(thr, b) \<in> set (sleepers t)" for thr
      using that ok(1) ok(2) [of thr] count [of b] by (auto simp: facts(6,7) split: if_splits)
    moreover have "closed_state (adm_states t ! b)" if "(thr, b) \<in> set (woken t)" for thr
      using that ok(2,3) facts(8) by (auto simp: facts(6))
    ultimately show "state_ok t b" using ok(4) by (auto simp: state_ok_def facts(3,6))
  next
    show "\<And>b. Some b \<in> set (adm_guards t) \<Longrightarrow> b < length (adm_states t)"
      using admission_invD(2) [OF inv] set_update_subset_insert [of "adm_guards s" g None]
      by (auto simp: facts(1,2))
    show "\<And>thr b. (thr, b) \<in> set (sleepers t) \<union> set (woken t) \<Longrightarrow> b < length (adm_states t)"
      using admission_invD(3,4) [OF inv] facts(8) unfolding facts(2,7) Un_iff by blast
  qed (use admission_invD(5) [OF inv] in \<open>simp add: facts(2,3)\<close>)
  then show ?thesis by (simp add: t_def)
qed (use inv in \<open>simp add: release_guard_def\<close>)

text \<open>Moving a guard from one variable to another keeps the uses.\<close>

lemma inv_guards_cong:
  assumes inv: "admission_inv s" and eq: "\<And>a. count (mset gs) (Some a) = count (mset (adm_guards s)) (Some a)"
  shows "admission_inv (s\<lparr>adm_guards := gs\<rparr>)"
proof -
  have members: "Some a \<in> set gs \<longleftrightarrow> Some a \<in> set (adm_guards s)" for a
    using eq [of a] by (metis count_eq_zero_iff set_mset_mset)
  show ?thesis
    by (rule admission_invI)
      (use admission_invD [OF inv] in \<open>auto simp: state_ok_def uses_def eq members\<close>)
qed

lemma inv_move_new:
  assumes "admission_inv s"
  shows "admission_inv (move_new_guard g s)"
  unfolding move_new_guard_def
proof (rule inv_guards_cong [OF assms])
  fix a
  show "count (mset ((adm_guards s)[g := None] @ [guard_at g s])) (Some a) = count (mset (adm_guards s)) (Some a)"
    using count_update [of g "adm_guards s" None "Some a"] by (auto simp: guard_at_def list_update_beyond split: if_splits)
qed

lemma release_clears: "g < length (adm_guards s) \<Longrightarrow> adm_guards (release_guard g s) ! g = None"
  by (auto simp: release_guard_def guard_at_def Let_def split: option.splits if_splits)

lemma release_length: "length (adm_guards (release_guard g s)) = length (adm_guards s)"
  by (auto simp: release_guard_def Let_def split: option.splits)

lemma inv_move:
  assumes "admission_inv s"
  shows "admission_inv (move_guard t g s)"
proof (cases "t = g \<or> length (adm_guards s) \<le> t \<or> length (adm_guards s) \<le> g")
  case False
  let ?s1 = "release_guard t s"
  have "count (mset ((adm_guards ?s1)[t := adm_guards ?s1 ! g, g := None])) (Some a) = count (mset (adm_guards ?s1)) (Some a)" for a
    using count_update [of t "adm_guards ?s1" "adm_guards ?s1 ! g" "Some a"]
      count_update [of g "(adm_guards ?s1)[t := adm_guards ?s1 ! g]" None "Some a"] False
      release_clears [of t s] release_length [of t s]
    by (auto split: if_splits)
  from inv_guards_cong [OF inv_release [OF assms] this] False show ?thesis
    by (simp add: move_guard_def Let_def)
qed (use assms in \<open>simp add: move_guard_def\<close>)

text \<open>Revocation, by a call or by the destructor.\<close>

lemma inv_closed:
  assumes inv: "admission_inv s" and "a < length (adm_states s)"
    and "\<And>st. activeUses (f st) = activeUses st" "\<And>st. closed_state (f st)"
  shows "admission_inv (notify_drained a (update_state a f s))"
proof (rule admission_invI)
  fix b
  assume "b < length (adm_states (notify_drained a (update_state a f s)))"
  then have b: "b < length (adm_states s)" by simp
  show "state_ok (notify_drained a (update_state a f s)) b"
    by (rule state_ok_cong [OF admission_invD(1) [OF inv b], where n = 0])
      (use assms in \<open>auto simp: uses_def notify_drained_def notify_members split: if_splits\<close>)
next
  show "\<And>thr b. (thr, b) \<in> set (sleepers (notify_drained a (update_state a f s)))
      \<union> set (woken (notify_drained a (update_state a f s))) \<Longrightarrow> b < length (adm_states (notify_drained a (update_state a f s)))"
    using admission_invD(3,4) [OF inv] by (auto simp: notify_drained_def notify_members split: if_splits)
qed (use admission_invD [OF inv] in auto)

lemma inv_ticket:
  assumes inv: "admission_inv s" and "a < length (adm_states s)" "closed_state (adm_states s ! a)"
  shows "admission_inv (s\<lparr>adm_tickets := adm_tickets s @ [\<lparr>ticket_state = a, waitForbiddenThread = thr\<rparr>]\<rparr>)"
  by (rule admission_invI) (use admission_invD [OF inv] assms(2,3) in \<open>auto simp: state_ok_def uses_def\<close>)

lemma update_state_id: "a < length (adm_states s) \<Longrightarrow> update_state a (\<lambda>st. st) s = s"
  by (simp add: update_state_def)

lemma inv_beginRevoke:
  assumes "admission_inv s"
  shows "admission_inv (beginRevoke thr a s)"
proof (cases "length (adm_states s) \<le> a")
  case False
  let ?close = "\<lambda>st. if closed_state st then st else st\<lparr>closed_state := True, revocationThread := Some thr\<rparr>"
  let ?s2 = "notify_drained a (update_state a ?close s)"
  have s2: "(if closed_state (adm_states s ! a) then s
      else update_state a (\<lambda>st. st\<lparr>closed_state := True, revocationThread := Some thr\<rparr>) s) = update_state a ?close s"
    using False by (simp add: update_state_def)
  have "admission_inv ?s2" using inv_closed [OF assms] False by simp
  then have "admission_inv (?s2\<lparr>adm_tickets := adm_tickets ?s2 @ [\<lparr>ticket_state = a, waitForbiddenThread = thr\<rparr>]\<rparr>)"
    by (rule inv_ticket) (use False in simp_all)
  with False show ?thesis by (simp only: beginRevoke_def s2 Let_def if_False)
qed (use assms in \<open>simp add: beginRevoke_def\<close>)

lemma inv_destroy: "admission_inv s \<Longrightarrow> admission_inv (destroyToken thr a s)"
  by (auto simp: destroyToken_def intro!: inv_closed)

text \<open>Waiting moves threads between the two lists.\<close>

lemma inv_queues:
  assumes inv: "admission_inv s"
    and "\<And>thr b. (thr, b) \<in> set sl \<Longrightarrow> (thr, b) \<in> set (sleepers s)
      \<or> b < length (adm_states s) \<and> closed_state (adm_states s ! b) \<and> 0 < activeUses (adm_states s ! b)"
    and "\<And>thr b. (thr, b) \<in> set wk \<Longrightarrow> (thr, b) \<in> set (woken s) \<or> (thr, b) \<in> set (sleepers s)"
  shows "admission_inv (s\<lparr>sleepers := sl, woken := wk\<rparr>)"
proof (rule admission_invI)
  fix b
  assume "b < length (adm_states (s\<lparr>sleepers := sl, woken := wk\<rparr>))"
  then show "state_ok (s\<lparr>sleepers := sl, woken := wk\<rparr>) b"
    using admission_invD(1) [OF inv, of b] assms(2,3) [of _ b] by (simp add: state_ok_def uses_def) metis
qed (use admission_invD [OF inv] assms(2,3) in \<open>auto dest!: assms(2,3)\<close>)

lemma inv_wait:
  assumes inv: "admission_inv s"
  shows "admission_inv (fst (waitUntilDrained thr k app s))"
proof -
  have "admission_inv (s\<lparr>sleepers := sleepers s @ [(thr, a)]\<rparr>)"
    if "k < length (adm_tickets s)" "a = ticket_state (adm_tickets s ! k)" "\<not> isDrained a s" for a
  proof -
    have ticket: "adm_tickets s ! k \<in> set (adm_tickets s)" using that(1) by simp
    then have "a < length (adm_states s)" using admission_invD(5) [OF inv] that(2) by blast
    then have "closed_state (adm_states s ! a)" "a < length (adm_states s)"
      using admission_invD(1) [OF inv, of a] ticket that(2) by (auto simp: state_ok_def)
    then show ?thesis
      using inv_queues [OF inv, of "sleepers s @ [(thr, a)]" "woken s"] that(3) by (auto simp: isDrained_def)
  qed
  then show ?thesis using inv by (auto simp: waitUntilDrained_def Let_def)
qed

lemma inv_resume:
  assumes inv: "admission_inv s"
  shows "admission_inv (fst (resume_wait thr a s))"
proof (cases "(thr, a) \<in> set (woken s)")
  case True
  then have a: "a < length (adm_states s)" "closed_state (adm_states s ! a)"
    using admission_invD(4) [OF inv True] admission_invD(1) [OF inv, of a] by (auto simp: state_ok_def)
  have sub: "set (remove1 (thr, a) (woken s)) \<subseteq> set (woken s)" by (rule set_remove1_subset)
  have swap: "s\<lparr>woken := wk, sleepers := sl\<rparr> = s\<lparr>sleepers := sl, woken := wk\<rparr>" for wk sl by (cases s) simp
  have "admission_inv (s\<lparr>woken := remove1 (thr, a) (woken s), sleepers := sleepers s @ [(thr, a)]\<rparr>)"
    if "\<not> isDrained a s"
    unfolding swap by (rule inv_queues [OF inv]) (use a sub that in \<open>auto simp: isDrained_def\<close>)
  moreover have "admission_inv (s\<lparr>sleepers := sleepers s, woken := remove1 (thr, a) (woken s)\<rparr>)"
    by (rule inv_queues [OF inv]) (use sub in auto)
  ultimately show ?thesis using inv True by (auto simp: resume_wait_def Let_def isDrained_def)
qed (use inv in \<open>simp add: resume_wait_def\<close>)

lemma inv_deadline:
  assumes inv: "admission_inv s"
  shows "admission_inv (fst (deadline_passed thr a s))"
proof -
  have sub: "set (remove1 (thr, a) (sleepers s)) \<subseteq> set (sleepers s)" by (rule set_remove1_subset)
  have "admission_inv (s\<lparr>sleepers := remove1 (thr, a) (sleepers s), woken := woken s\<rparr>)"
    by (rule inv_queues [OF inv]) (use sub in auto)
  then show ?thesis using inv by (simp add: deadline_passed_def)
qed

lemma inv_spurious:
  assumes inv: "admission_inv s"
  shows "admission_inv (spurious_wake thr a s)"
proof (cases "(thr, a) \<in> set (sleepers s)")
  case True
  have sub: "set (remove1 (thr, a) (sleepers s)) \<subseteq> set (sleepers s)" by (rule set_remove1_subset)
  have "admission_inv (s\<lparr>sleepers := remove1 (thr, a) (sleepers s), woken := woken s @ [(thr, a)]\<rparr>)"
    by (rule inv_queues [OF inv]) (use sub True in auto)
  then show ?thesis using True by (simp add: spurious_wake_def)
qed (use inv in \<open>simp add: spurious_wake_def\<close>)

lemma inv_publish: "admission_inv s \<Longrightarrow> admission_inv (fst (publishIfStillAdmitted g c s))"
proof -
  assume inv: "admission_inv s"
  have "admission_inv (s\<lparr>adm_commits := cs\<rparr>)" for cs
    by (rule admission_invI) (use admission_invD [OF inv] in \<open>auto simp: state_ok_def uses_def\<close>)
  with inv show ?thesis by (auto simp: publishIfStillAdmitted_def split: option.splits)
qed

lemma admission_inv_step: "admission_inv s \<Longrightarrow> admission_inv (fst (admission_step s e))"
  by (cases e) (simp_all add: inv_make_token inv_tryAcquire inv_publish inv_release inv_move_new inv_move
      inv_beginRevoke inv_destroy inv_wait inv_resume inv_deadline inv_spurious)

lemma admission_inv_empty: "admission_inv empty_admission"
  by (simp add: admission_inv_def empty_admission_def)

interpretation admission_always: machine_invariant admission_step admission_inv "\<lambda>_. True"
  by unfold_locales (rule admission_inv_step)

section \<open>Revoked authority\<close>

text \<open>
  What the rest of the run can do with a revoked state: it stays closed, its uses only go away, and no
  commit runs for it.
\<close>

definition commits_of :: "address \<Rightarrow> admission \<Rightarrow> nat" where
  "commits_of a s = length (filter (\<lambda>b. b = a) (adm_commits s))"

definition revoked_since :: "address \<Rightarrow> nat \<Rightarrow> nat \<Rightarrow> admission \<Rightarrow> bool" where
  "revoked_since a n c s \<longleftrightarrow>
     admission_inv s \<and> a < length (adm_states s) \<and> closed_state (adm_states s ! a)
     \<and> uses a s \<le> n \<and> commits_of a s = c"

lemma release_states:
  "length (adm_states (release_guard g s)) = length (adm_states s)"
  "closed_state (adm_states (release_guard g s) ! b) = closed_state (adm_states s ! b)"
proof -
  have "closed_state ((adm_states s)[a := (adm_states s ! a)\<lparr>activeUses := n\<rparr>] ! b) = closed_state (adm_states s ! b)" for a n
    by (cases "a < length (adm_states s)") (auto simp: nth_list_update list_update_beyond)
  then show "length (adm_states (release_guard g s)) = length (adm_states s)"
    "closed_state (adm_states (release_guard g s) ! b) = closed_state (adm_states s ! b)"
    by (auto simp: release_guard_def update_state_def Let_def split: option.splits)
qed

lemma release_guards:
  "adm_guards (release_guard g s) = (if guard_at g s = None then adm_guards s else (adm_guards s)[g := None])"
  by (auto simp: release_guard_def Let_def)

lemma closed_state_step:
  assumes "a < length (adm_states s)"
  shows "a < length (adm_states (fst (admission_step s e)))
    \<and> (closed_state (adm_states s ! a) \<longrightarrow> closed_state (adm_states (fst (admission_step s e)) ! a))"
  using assms
  by (cases e) (auto simp: make_token_def tryAcquireUse_def publishIfStillAdmitted_def move_new_guard_def move_guard_def
      beginRevoke_def destroyToken_def waitUntilDrained_def resume_wait_def deadline_passed_def spurious_wake_def
      release_states update_state_def nth_append nth_list_update Let_def split: option.splits)

lemma uses_step:
  assumes inv: "admission_inv s" and a: "a < length (adm_states s)" "closed_state (adm_states s ! a)"
  shows "uses a (fst (admission_step s e)) \<le> uses a s \<and> commits_of a (fst (admission_step s e)) = commits_of a s"
proof -
  have release: "uses a (release_guard g s) \<le> uses a s" for g
    using count_update [of g "adm_guards s" None "Some a"]
    by (cases "guard_at g s") (auto simp: release_guards uses_def guard_at_Some)
  have commits: "adm_commits (release_guard g s) = adm_commits s" for g
    by (auto simp: release_guard_def Let_def split: option.splits)
  have update: "count (mset (xs[g := None] @ [if g < length xs then xs ! g else None])) (Some a) = count (mset xs) (Some a)"
    for g and xs :: "address option list"
    using count_update [of g xs None "Some a"] by (auto simp: list_update_beyond split: if_splits)
  have moved: "uses a (move_guard t g s) \<le> uses a s" for t g
    using release [of t] count_update [of t "adm_guards (release_guard t s)" "adm_guards (release_guard t s) ! g" "Some a"]
      count_update [of g "(adm_guards (release_guard t s))[t := adm_guards (release_guard t s) ! g]" None "Some a"]
      release_clears [of t s] release_length [of t s]
    by (auto simp: move_guard_def Let_def uses_def split: if_splits)
  show ?thesis
  proof (cases e)
    case (MoveNewGuard g)
    then show ?thesis using update [of "adm_guards s" g]
      by (simp add: move_new_guard_def uses_def commits_of_def guard_at_def)
  next
    case (TryAcquireUse b)
    then show ?thesis using a by (auto simp: tryAcquireUse_def uses_def commits_of_def)
  next
    case (Publish g c)
    then show ?thesis using a by (auto simp: publishIfStillAdmitted_def uses_def commits_of_def split: option.splits)
  next
    case (MoveGuard t g)
    then show ?thesis using moved by (auto simp: commits_of_def commits move_guard_def Let_def)
  qed (use release in \<open>auto simp: commits make_token_def beginRevoke_def destroyToken_def waitUntilDrained_def resume_wait_def
      deadline_passed_def spurious_wake_def uses_def commits_of_def Let_def\<close>)
qed

lemma revoked_since_step: "revoked_since a n c s \<Longrightarrow> revoked_since a n c (fst (admission_step s e))"
  unfolding revoked_since_def
  using closed_state_step [of a s e] uses_step [of s a e] admission_inv_step [of s e] by (auto intro: order_trans)

interpretation revoked: machine_invariant admission_step "revoked_since a n c" "\<lambda>_. True"
  by unfold_locales (rule revoked_since_step)

lemma beginRevoke_facts:
  assumes "a < length (adm_states s)"
  shows "closed_state (adm_states (beginRevoke thr a s) ! a)" "a < length (adm_states (beginRevoke thr a s))"
    "uses a (beginRevoke thr a s) = uses a s" "commits_of a (beginRevoke thr a s) = commits_of a s"
  using assms by (auto simp: beginRevoke_def uses_def commits_of_def Let_def)

section \<open>Properties\<close>

lemma admission_always_inv: "admission_inv (final_state admission_step empty_admission es)"
  by (rule admission_always.run_inv [OF admission_inv_empty]) (simp add: list_all_iff)

text \<open>
  C34. Revocation is a line nothing crosses.  In every interleaving of the threads that use, move, give
  up and revoke admissions: once a token has been revoked, no publication is committed under it, and
  the number of its uses never grows again.
\<close>

theorem revoked_authority_publishes_nothing:
  assumes "a < length (adm_states (final_state admission_step empty_admission es))"
  shows "commits_of a (final_state admission_step empty_admission (es @ BeginRevoke thr a # fs))
      = commits_of a (final_state admission_step empty_admission es)
    \<and> uses a (final_state admission_step empty_admission (es @ BeginRevoke thr a # fs))
      \<le> uses a (final_state admission_step empty_admission es)"
proof -
  let ?s = "final_state admission_step empty_admission es"
  have "revoked_since a (uses a ?s) (commits_of a ?s) (beginRevoke thr a ?s)"
    using beginRevoke_facts [OF assms] inv_beginRevoke [OF admission_always_inv]
    by (simp add: revoked_since_def)
  then have "revoked_since a (uses a ?s) (commits_of a ?s) (final_state admission_step (beginRevoke thr a ?s) fs)"
    by (rule revoked.run_inv) (simp add: list_all_iff)
  then show ?thesis by (simp add: final_state_append revoked_since_def)
qed

theorem revoked_authority_publishes_nothing_witness:
  "commits_of 0 (final_state admission_step empty_admission
     ([MakeToken, TryAcquireUse 0, Publish 0 (CommitReturns True)] @ BeginRevoke 7 0 # [Publish 0 (CommitReturns True)])) = 1"
proof -
  have "(0::nat) < length (adm_states (final_state admission_step empty_admission
      [MakeToken, TryAcquireUse 0, Publish 0 (CommitReturns True)]))"
    "commits_of 0 (final_state admission_step empty_admission [MakeToken, TryAcquireUse 0, Publish 0 (CommitReturns True)]) = 1"
    by code_simp+
  with revoked_authority_publishes_nothing [of 0 _ 7 "[Publish 0 (CommitReturns True)]"] show ?thesis by metis
qed

text \<open>
  C35. Draining is exact and never missed.  In every interleaving the count of a token is the number of
  guards that hold it, so a ticket is drained exactly when no guard is left; and a thread that still
  sleeps on a ticket waits for a guard that still exists: no wake-up is lost.
\<close>

theorem drained_exactly_without_guards:
  "let s = final_state admission_step empty_admission es in
     \<forall>k\<in>set (adm_tickets s). let a = ticket_state k in
       closed_state (adm_states s ! a) \<and> (isDrained a s \<longleftrightarrow> Some a \<notin> set (adm_guards s))
       \<and> (isDrained a s \<longrightarrow> (\<forall>thr. (thr, a) \<notin> set (sleepers s)))"
proof -
  let ?s = "final_state admission_step empty_admission es"
  have "closed_state (adm_states ?s ! ticket_state k)
      \<and> (isDrained (ticket_state k) ?s \<longleftrightarrow> Some (ticket_state k) \<notin> set (adm_guards ?s))
      \<and> (isDrained (ticket_state k) ?s \<longrightarrow> (\<forall>thr. (thr, ticket_state k) \<notin> set (sleepers ?s)))"
    if k: "k \<in> set (adm_tickets ?s)" for k
  proof -
    have "ticket_state k < length (adm_states ?s)" using admission_invD(5) [OF admission_always_inv k] .
    from admission_invD(1) [OF admission_always_inv this] k show ?thesis
      by (auto simp: state_ok_def isDrained_def uses_def count_eq_zero_iff)
  qed
  then show ?thesis by (simp add: Let_def)
qed

theorem drained_exactly_without_guards_witness:
  "let s = final_state admission_step empty_admission [MakeToken, TryAcquireUse 0, BeginRevoke 7 0, WaitDrained 8 0 None] in
     \<not> isDrained 0 s \<and> Some 0 \<in> set (adm_guards s)"
proof -
  let ?es = "[MakeToken, TryAcquireUse 0, BeginRevoke 7 0, WaitDrained 8 0 None]"
  have "\<lparr>ticket_state = 0, waitForbiddenThread = 7\<rparr> \<in> set (adm_tickets (final_state admission_step empty_admission ?es))"
    "(8, 0) \<in> set (sleepers (final_state admission_step empty_admission ?es))"
    by code_simp+
  with drained_exactly_without_guards [of ?es] show ?thesis by (force simp: Let_def)
qed

end
