(* ===== verification/AppRuntime.thy ===== *)
theory AppRuntime
  imports Installer AdmissionToken WorkerSupervisor Telemetry
begin

text \<open>
  The coordinator of the runtime of an application (\<open>runtime/package/AppRuntimeCoordinator.{h,cpp}\<close>):
  which version each tab runs, when a Worker is launched, stopped or restarted, and how a candidate that
  crashes is rolled back once every use of its authority has drained.

  A call of the coordinator returns the actions the Host is to take; these are results here.  The store,
  the installer, the supervisors of the tabs and the admission tokens are those of their own theories:
  the activation file of each application and the heap of the tokens are part of the state.  What the
  system answers during a call is its environment.  A call is one step; the calls other threads make on
  the tokens come between steps.  A token whose last reference goes is revoked already, so its
  destruction adds nothing.  The recorder and the drain consumer are outputs, kept in the state.
\<close>

section \<open>Data\<close>

record tab_authority =
  ta_tabId :: qstring
  ta_incarnation :: "64 word"

datatype launch_intent = ActivateCurrent | ReloadCurrent | RestartPinned

record full_attempt_key =
  fk_tab :: tab_authority
  fk_attempt :: attempt_key
  fk_epoch :: "64 word"

datatype revalidation_mode = CurrentActivation | PinnedLease

record launch_request =
  lr_tabId :: qstring
  lr_incarnation :: "64 word"
  lr_route :: qstring
  lr_lease :: verified_lease
  lr_admission :: "address option"
  lr_attempt :: attempt_key
  lr_mode :: revalidation_mode
  lr_recovery :: bool

definition hasSameWorkerLaunchAuthority :: "launch_request \<Rightarrow> launch_request \<Rightarrow> bool" where
  "hasSameWorkerLaunchAuthority l r \<longleftrightarrow>
     lr_tabId l = lr_tabId r \<and> lr_incarnation l = lr_incarnation r \<and> lr_lease l = lr_lease r
     \<and> lr_admission l = lr_admission r \<and> lr_attempt l = lr_attempt r \<and> lr_mode l = lr_mode r
     \<and> lr_recovery l = lr_recovery r"

record drain_batch =
  db_id :: "64 word"
  db_tickets :: "revocation_ticket list"
  db_deadline :: int

datatype action_kind = ActLaunch | ActStop | ActRevoke | ActAwaitAuthorityDrain | ActIsolateSession
  | ActRecoverFromLkg | ActTrustedCrash | ActFailedClosed

record runtime_action =
  ra_kind :: action_kind
  ra_tab :: tab_authority
  ra_launch :: "launch_request option"
  ra_drain :: "drain_batch option"

datatype result_code = Applied | IgnoredStale | ResultRejected | ResultFailedClosed

record verified_current =
  vc_appId :: qstring
  vc_version :: qstring
  vc_versionDirectory :: qstring
  vc_packageDirectory :: qstring
  vc_digestHex :: bytes
  vc_generation :: int

record runtime_result =
  rr_code :: result_code
  rr_error :: qstring
  rr_actions :: "runtime_action list"
  rr_native :: "32 word"
  rr_verified :: "verified_current option"

record descriptor =
  vd_lease :: verified_lease
  vd_binding :: activation_binding

record tab_state =
  ts_authority :: tab_authority
  ts_supervisor :: supervisor
  ts_request :: "launch_request option"
  ts_pinned :: "verified_lease option"
  ts_token :: "address option"
  ts_admitted :: bool
  ts_healthy :: bool
  ts_candidate :: bool
  ts_revoked :: bool
  ts_retired :: bool
  ts_failedClosed :: bool
  ts_attemptStart :: int

record pending_drain =
  pd_batch :: drain_batch
  pd_affected :: "tab_authority list"
  pd_timedOut :: bool
  pd_terminal :: bool
  pd_error :: qstring

record 'f runtime =
  rc_files :: "qstring \<Rightarrow> 'f option"
  rc_admission :: admission
  rc_current :: "descriptor option"
  rc_candidate :: "descriptor option"
  rc_lkg :: "descriptor option"
  rc_tabs :: "(tab_authority \<times> tab_state) list"
  rc_drain :: "pending_drain option"
  rc_cleanup :: "immutable_guard option"
  rc_cleanupError :: qstring
  rc_cleanupNative :: "32 word"
  rc_nextEpoch :: "64 word"
  rc_nextDrain :: "64 word"
  rc_promoted :: bool
  rc_rollbackStarted :: bool
  rc_shuttingDown :: bool
  rc_failedClosed :: bool
  rc_events :: "safe_event list"
  rc_consumed :: "drain_batch list"

text \<open>
  What does not change: the application, its services and policies, the thread of the coordinator, and
  whether a recorder and a drain consumer are set.
\<close>

record 'f runtime_config =
  rg_appId :: qstring
  rg_services :: install_services
  rg_installer :: installer
  rg_codec :: "'f state_codec"
  rg_telemetry :: telemetry_services
  rg_fileName :: "qstring \<Rightarrow> qstring"
  rg_policy :: supervision_policy
  rg_drainTimeout :: int
  rg_thread :: thread
  rg_recorder :: bool
  rg_consumer :: bool

text \<open>
  What the system answers during one call: the clocks, the restoration of the seals of a guard (when a
  pending one is closed again, and at each verification settled), the store and the installer.
\<close>

record runtime_env =
  re_steadyNow :: int
  re_utcNow :: int
  re_retry :: "32 word"
  re_settle :: "nat \<Rightarrow> 32 word"
  re_state :: store_env
  re_verify :: "qstring \<Rightarrow> store_env \<times> verify_env"
  re_reverify :: "store_env \<times> store_env \<times> immutable_env"
  re_install :: install_env
  re_recover :: store_env
  re_mark :: store_env
  re_rollback :: store_env

section \<open>Helpers\<close>

definition plain_result :: "result_code \<Rightarrow> qstring \<Rightarrow> runtime_result" where
  "plain_result code e = \<lparr>rr_code = code, rr_error = e, rr_actions = [], rr_native = 0, rr_verified = None\<rparr>"

definition applied :: runtime_result where "applied = plain_result Applied []"

definition staleResult :: runtime_result where
  "staleResult = plain_result IgnoredStale (qstr ''stale_runtime_event'')"

definition rejectedResult :: "string \<Rightarrow> runtime_result" where
  "rejectedResult e = plain_result ResultRejected (qstr e)"

definition failedClosedResult :: "qstring \<Rightarrow> 32 word \<Rightarrow> runtime_result" where
  "failedClosedResult e native = (plain_result ResultFailedClosed e)\<lparr>rr_native := native\<rparr>"

definition sameLeaseIdentity :: "verified_lease \<Rightarrow> verified_lease \<Rightarrow> bool" where
  "sameLeaseIdentity l r \<longleftrightarrow>
     lease_appId l = lease_appId r \<and> lease_version l = lease_version r
     \<and> lease_versionDirectory l = lease_versionDirectory r \<and> lease_packageDirectory l = lease_packageDirectory r
     \<and> lease_entryPoint l = lease_entryPoint r
     \<and> hosts (perm_network (lease_permissions l)) = hosts (perm_network (lease_permissions r))
     \<and> methods (perm_network (lease_permissions l)) = methods (perm_network (lease_permissions r))
     \<and> perm_storage (lease_permissions l) = perm_storage (lease_permissions r)
     \<and> perm_clipboardWrite (lease_permissions l) = perm_clipboardWrite (lease_permissions r)
     \<and> perm_clipboardRead (lease_permissions l) = perm_clipboardRead (lease_permissions r)
     \<and> perm_fileOpen (lease_permissions l) = perm_fileOpen (lease_permissions r)
     \<and> lease_digestHex l = lease_digestHex r"

definition nextCounter :: "64 word \<Rightarrow> 64 word" where
  "nextCounter n = (if n = - 1 then 1 else n + 1)"

definition boundedDeadline :: "int \<Rightarrow> int \<Rightarrow> int" where
  "boundedDeadline now timeout =
     (if timeout \<le> 0 then now else if 2 ^ 63 - 1 - timeout < now then 2 ^ 63 - 1 else now + timeout)"

definition new_tab :: "'f runtime_config \<Rightarrow> tab_authority \<Rightarrow> tab_state" where
  "new_tab cfg tab = \<lparr>ts_authority = tab, ts_supervisor = new_supervisor (rg_policy cfg) False False,
     ts_request = None, ts_pinned = None, ts_token = None, ts_admitted = False, ts_healthy = False,
     ts_candidate = False, ts_revoked = False, ts_retired = False, ts_failedClosed = False, ts_attemptStart = 0\<rparr>"

definition authority_less :: "tab_authority \<Rightarrow> tab_authority \<Rightarrow> bool" where
  "authority_less l r \<longleftrightarrow>
     (if ta_tabId l \<noteq> ta_tabId r then text_less (ta_tabId l) (ta_tabId r)
      else ta_incarnation l < ta_incarnation r)"

text \<open>\<open>emplace\<close> of an absent key, in the order of \<open>AuthorityLess\<close>.\<close>

fun tabs_emplace :: "tab_authority \<Rightarrow> tab_state \<Rightarrow> (tab_authority \<times> tab_state) list \<Rightarrow> (tab_authority \<times> tab_state) list" where
  "tabs_emplace k v [] = [(k, v)]"
| "tabs_emplace k v ((l, w) # rest) =
     (if authority_less k l then (k, v) # (l, w) # rest else (l, w) # tabs_emplace k v rest)"

definition resolveNow :: "runtime_env \<Rightarrow> int \<Rightarrow> int" where
  "resolveNow env now = (if 0 \<le> now then now else re_steadyNow env)"

definition validAuthority :: "tab_authority \<Rightarrow> bool" where
  "validAuthority tab \<longleftrightarrow> ta_tabId tab \<noteq> [] \<and> length (ta_tabId tab) \<le> 128 \<and> ta_incarnation tab \<noteq> 0"

definition findTab :: "'f runtime \<Rightarrow> tab_authority \<Rightarrow> tab_state option" where
  "findTab s tab = map_of (rc_tabs s) tab"

definition update_tab :: "tab_authority \<Rightarrow> (tab_state \<Rightarrow> tab_state) \<Rightarrow> 'f runtime \<Rightarrow> 'f runtime" where
  "update_tab tab f s = s\<lparr>rc_tabs := map (\<lambda>(k, v). (k, if k = tab then f v else v)) (rc_tabs s)\<rparr>"

definition erase_tab :: "tab_authority \<Rightarrow> 'f runtime \<Rightarrow> 'f runtime" where
  "erase_tab tab s = s\<lparr>rc_tabs := filter (\<lambda>(k, v). k \<noteq> tab) (rc_tabs s)\<rparr>"

definition keyMatches :: "tab_state \<Rightarrow> full_attempt_key \<Rightarrow> bool" where
  "keyMatches t key \<longleftrightarrow>
     (case ts_request t of
        None \<Rightarrow> False
      | Some r \<Rightarrow> lr_tabId r = ta_tabId (fk_tab key) \<and> lr_incarnation r = ta_incarnation (fk_tab key)
          \<and> lr_attempt r = fk_attempt key \<and> lease_epoch (lr_lease r) = fk_epoch key)"

definition findTab_key :: "'f runtime \<Rightarrow> full_attempt_key \<Rightarrow> tab_state option" where
  "findTab_key s key =
     (case findTab s (fk_tab key) of
        None \<Rightarrow> None
      | Some t \<Rightarrow> if ts_revoked t \<or> ts_retired t \<or> ts_failedClosed t \<or> ts_request t = None then None
          else if keyMatches t key then Some t else None)"

definition makeTabAction :: "action_kind \<Rightarrow> tab_authority \<Rightarrow> runtime_action" where
  "makeTabAction kind tab = \<lparr>ra_kind = kind, ra_tab = tab, ra_launch = None, ra_drain = None\<rparr>"

definition no_tab :: tab_authority where "no_tab = \<lparr>ta_tabId = [], ta_incarnation = 0\<rparr>"

definition descriptorFromResult :: "'f runtime_config \<Rightarrow> install_result \<Rightarrow> activation_binding \<Rightarrow> descriptor option" where
  "descriptorFromResult cfg r binding =
     (if \<not> ir_succeeded r \<or> ir_appId r = [] \<or> ir_version r = [] \<or> ir_path r = [] \<or> ir_entryPoint r = []
         \<or> currentDirectory binding = [] \<or> versionDigestHex binding = [] \<or> binding_generation binding \<le> 0 then None
      else
        let directory = rg_fileName cfg (ir_path r) in
        if directory = [] \<or> directory \<noteq> currentDirectory binding then None
        else Some \<lparr>vd_lease = \<lparr>lease_appId = ir_appId r, lease_version = ir_version r, lease_versionDirectory = directory,
               lease_packageDirectory = ir_path r, lease_entryPoint = ir_entryPoint r,
               lease_permissions = ir_permissions r, lease_digestHex = versionDigestHex binding,
               lease_generation = binding_generation binding, lease_epoch = 0\<rparr>,
             vd_binding = binding\<rparr>)"

definition verifiedStartupResult :: "descriptor \<Rightarrow> runtime_result" where
  "verifiedStartupResult d =
     applied\<lparr>rr_verified := Some \<lparr>vc_appId = lease_appId (vd_lease d), vc_version = lease_version (vd_lease d),
       vc_versionDirectory = lease_versionDirectory (vd_lease d), vc_packageDirectory = lease_packageDirectory (vd_lease d),
       vc_digestHex = lease_digestHex (vd_lease d), vc_generation = lease_generation (vd_lease d)\<rparr>\<rparr>"

text \<open>The counter never is 0 again after the first round, so the recursion is one step deep.\<close>

definition issueLeaseEpoch :: "64 word \<Rightarrow> 64 word \<times> 64 word" where
  "issueLeaseEpoch n = (if n = 0 then (nextCounter 0, nextCounter (nextCounter 0)) else (n, nextCounter n))"

definition pinned_descriptor :: "verified_lease \<Rightarrow> descriptor" where
  "pinned_descriptor lease = \<lparr>vd_lease = lease,
     vd_binding = \<lparr>currentDirectory = lease_versionDirectory lease, versionDigestHex = lease_digestHex lease,
       binding_generation = lease_generation lease\<rparr>\<rparr>"

definition record_runtime :: "'f runtime_config \<Rightarrow> safe_event_phase \<Rightarrow> safe_event_code \<Rightarrow> qstring \<Rightarrow> int \<Rightarrow> 'f runtime \<Rightarrow> 'f runtime" where
  "record_runtime cfg phase code version now s =
     (if \<not> rg_recorder cfg then s
      else (case create_event (rg_telemetry cfg) (max 0 now) (rg_appId cfg) version phase code 0 (qstr ''/'') [] of
          Inl e \<Rightarrow> s
        | Inr e \<Rightarrow> s\<lparr>rc_events := rc_events s @ [e]\<rparr>))"

section \<open>Verification that is pending cleanup\<close>

definition cleanup_error :: "qstring \<Rightarrow> qstring" where
  "cleanup_error e = (if e = [] then qstr ''package.immutable_restore_failed'' else e)"

definition immutableCleanupFailureResult :: "'f runtime \<Rightarrow> runtime_result" where
  "immutableCleanupFailureResult s = failedClosedResult (cleanup_error (rc_cleanupError s)) (rc_cleanupNative s)"

definition settleTemporaryVerification :: "32 word \<Rightarrow> install_result \<Rightarrow> 'f runtime \<Rightarrow> 'f runtime \<times> install_result \<times> bool" where
  "settleTemporaryVerification restored r s =
     (if ir_guard r = None then (s, r, True)
      else let r1 = (if ir_succeeded r then closeImmutablePackageGuard restored r else r) in
        if ir_guard r1 = None then (s, r1, True)
        else (s\<lparr>rc_cleanup := ir_guard r1, rc_cleanupError := cleanup_error (ir_stableError r1),
                rc_cleanupNative := ir_nativeError r1\<rparr>, r1\<lparr>ir_guard := None\<rparr>, False))"

definition retryPendingImmutableCleanup :: "runtime_env \<Rightarrow> 'f runtime \<Rightarrow> 'f runtime \<times> bool" where
  "retryPendingImmutableCleanup env s =
     (case rc_cleanup s of
        None \<Rightarrow> (s, True)
      | Some g \<Rightarrow>
          (case guard_close (re_retry env) g of
             (Some (e, native), g1) \<Rightarrow>
               (s\<lparr>rc_cleanup := Some g1, rc_cleanupError := cleanup_error e, rc_cleanupNative := native\<rparr>, False)
           | (None, g1) \<Rightarrow> (s\<lparr>rc_cleanup := None, rc_cleanupError := [], rc_cleanupNative := 0\<rparr>, True)))"

section \<open>Store and installer\<close>

definition load_state :: "'f runtime_config \<Rightarrow> runtime_env \<Rightarrow> qstring \<Rightarrow> 'f runtime \<Rightarrow> loaded_state" where
  "load_state cfg env app s = activationState (rg_codec cfg) (re_state env) app (rc_files s app)"

definition verify_installed :: "'f runtime_config \<Rightarrow> runtime_env \<Rightarrow> qstring \<Rightarrow> qstring \<Rightarrow> install_result" where
  "verify_installed cfg env app version =
     verifyInstalled (rg_services cfg) (rg_installer cfg) (fst (re_verify env version)) (snd (re_verify env version)) app version"

definition reverify_installed :: "'f runtime_config \<Rightarrow> runtime_env \<Rightarrow> qstring \<Rightarrow> activation_binding \<Rightarrow> 'f runtime \<Rightarrow> install_result" where
  "reverify_installed cfg env app binding s =
     (case re_reverify env of
        (senv1, senv2, im) \<Rightarrow> reverifyInstalledVersion (rg_services cfg) (rg_installer cfg) (rg_codec cfg) senv1 senv2
          (rc_files s app) (rc_files s app) im app binding None)"

definition store_call :: "qstring \<Rightarrow> store_result \<times> 'f option \<Rightarrow> 'f runtime \<Rightarrow> 'f runtime \<times> store_result" where
  "store_call app r s = (s\<lparr>rc_files := (rc_files s)(app := snd r)\<rparr>, fst r)"

definition store_succeeded :: "store_result \<Rightarrow> bool" where
  "store_succeeded r \<longleftrightarrow> store_result.store_error r = NoStoreError"

text \<open>The application whose activation an installation changes is the one its manifest names.\<close>

definition package_appId :: "'f runtime_config \<Rightarrow> install_env \<Rightarrow> qstring" where
  "package_appId cfg env =
     (case ie_snapshot env of
        None \<Rightarrow> []
      | Some members \<Rightarrow>
          (case findFile members ManifestPath of
             None \<Rightarrow> []
           | Some f \<Rightarrow>
               (case parseManifest (in_manifest (rg_services cfg)) (file_contents f) of
                  Inl e \<Rightarrow> [] | Inr m \<Rightarrow> mf_appId m)))"

definition run_install :: "'f runtime_config \<Rightarrow> runtime_env \<Rightarrow> qstring \<Rightarrow> 'f runtime \<Rightarrow> 'f runtime \<times> install_result" where
  "run_install cfg env required s =
     (let app = package_appId cfg (re_install env);
          (r, file1) = install_package (rg_services cfg) (rg_installer cfg) (rg_codec cfg) (re_install env) required (rc_files s app)
      in (s\<lparr>rc_files := (rc_files s)(app := file1)\<rparr>, r))"

section \<open>Installing and starting\<close>

definition fail_runtime :: "'f runtime \<Rightarrow> 'f runtime" where "fail_runtime s = s\<lparr>rc_failedClosed := True\<rparr>"

definition cleanup_failed :: "'f runtime \<Rightarrow> 'f runtime \<times> runtime_result" where
  "cleanup_failed s = (fail_runtime s, immutableCleanupFailureResult s)"

definition pending_drain_result :: "pending_drain \<Rightarrow> runtime_result" where
  "pending_drain_result d =
     (if pd_timedOut d \<or> pd_terminal d then failedClosedResult (qstr ''authority_drain_pending'') 0
      else rejectedResult ''authority_drain_pending'')"

definition error_or :: "qstring \<Rightarrow> string \<Rightarrow> runtime_result" where
  "error_or e otherwise = plain_result ResultRejected (if e = [] then qstr otherwise else e)"

text \<open>What was current before, if it still verifies.\<close>

definition previous_current :: "'f runtime_config \<Rightarrow> runtime_env \<Rightarrow> 'f runtime \<Rightarrow> 'f runtime \<times> descriptor option \<times> bool" where
  "previous_current cfg env s =
     (case load_state cfg env (rg_appId cfg) s of
        Inl e \<Rightarrow> (s, None, True)
      | Inr st \<Rightarrow>
          (case if current st = [] then None else bindingForState st of
             None \<Rightarrow> (s, None, True)
           | Some binding \<Rightarrow>
               let verified = verify_installed cfg env (rg_appId cfg) (current st);
                   (s1, r, settled) = settleTemporaryVerification (re_settle env 0) verified s
               in (s1, descriptorFromResult cfg verified binding, settled)))"

definition installAndActivate :: "'f runtime_config \<Rightarrow> runtime_env \<Rightarrow> qstring \<Rightarrow> 'f runtime \<Rightarrow> 'f runtime \<times> runtime_result" where
  "installAndActivate cfg env packagePath s =
     (if rc_shuttingDown s then (s, rejectedResult ''shutdown'')
      else case retryPendingImmutableCleanup env s of (s1, retried) \<Rightarrow>
        if \<not> retried then cleanup_failed s1
        else if rc_failedClosed s1 then (s1, failedClosedResult (qstr ''app_failed_closed'') 0)
        else (case rc_drain s1 of
            Some d \<Rightarrow> (s1, pending_drain_result d)
          | None \<Rightarrow>
              if packagePath = [] then (s1, rejectedResult ''invalid_package_path'')
              else (case previous_current cfg env s1 of (s2, previousCurrent, settled) \<Rightarrow>
                if \<not> settled then cleanup_failed s2
                else (case run_install cfg env [] s2 of (s3, installed0) \<Rightarrow>
                  let descriptor = Option.bind (ir_binding installed0) (descriptorFromResult cfg installed0) in
                  (case settleTemporaryVerification (re_settle env 1) installed0 s3 of (s4, installed, settled1) \<Rightarrow>
                    if \<not> settled1 then cleanup_failed s4
                    else if \<not> ir_succeeded installed \<or> ir_binding installed = None \<or> ir_appId installed \<noteq> rg_appId cfg
                      then (s4, error_or (ir_stableError installed) ''package_install_rejected'')
                    else (case descriptor of
                        None \<Rightarrow> (s4, rejectedResult ''package_descriptor_invalid'')
                      | Some d \<Rightarrow>
                          (s4\<lparr>rc_lkg := (if rc_lkg s4 = None \<and> previousCurrent \<noteq> None then previousCurrent else rc_lkg s4),
                              rc_current := Some d, rc_candidate := Some d, rc_promoted := False,
                              rc_rollbackStarted := False\<rparr>,
                           verifiedStartupResult d)))))))"

definition installSitePackage :: "'f runtime_config \<Rightarrow> runtime_env \<Rightarrow> qstring \<Rightarrow> 'f runtime \<Rightarrow> 'f runtime \<times> runtime_result" where
  "installSitePackage cfg env site s =
     (if rc_shuttingDown s \<or> rc_failedClosed s \<or> rc_drain s \<noteq> None \<or> site = [] \<or> site = rg_appId cfg
        then (s, rejectedResult ''site_install_unavailable'')
      else case run_install cfg env site s of (s1, installed0) \<Rightarrow>
        (case settleTemporaryVerification (re_settle env 0) installed0 s1 of (s2, installed, settled) \<Rightarrow>
          if \<not> settled then cleanup_failed s2
          else if \<not> ir_succeeded installed then (s2, plain_result ResultRejected (ir_stableError installed))
          else (s2, applied)))"

text \<open>The descriptor of the last known good version of a state, when it verifies.\<close>

definition lkg_binding :: "activation_state \<Rightarrow> activation_binding" where
  "lkg_binding st = \<lparr>currentDirectory = lastKnownGood st,
     versionDigestHex = latin1 (drop (nat (lastHyphen (lastKnownGood st) + 1)) (lastKnownGood st)),
     binding_generation = generation st\<rparr>"

text \<open>None where the recovery has already decided the result.\<close>

definition recover_offline :: "'f runtime_config \<Rightarrow> runtime_env \<Rightarrow> activation_state \<Rightarrow> activation_binding \<Rightarrow> 'f runtime \<Rightarrow>
    'f runtime \<times> (runtime_result + descriptor option)" where
  "recover_offline cfg env st binding s =
     (let lkgVerified = verify_installed cfg env (rg_appId cfg) (lastKnownGood st);
          lkgCandidate = (if ir_succeeded lkgVerified \<and> 0 < lastHyphen (lastKnownGood st)
             then descriptorFromResult cfg lkgVerified (lkg_binding st) else None)
      in case settleTemporaryVerification (re_settle env 1) lkgVerified s of (s1, settledResult, settled) \<Rightarrow>
        if \<not> settled then (fail_runtime s1, Inl (immutableCleanupFailureResult s1))
        else if lkgCandidate = None then (s1, Inr None)
        else (case store_call (rg_appId cfg) (recoverLastKnownGood (rg_codec cfg) (inst_root (rg_installer cfg)) (rg_appId cfg)
                 (re_recover env) binding (rc_files s1 (rg_appId cfg))) s1 of (s2, recovered) \<Rightarrow>
            (case if store_succeeded recovered then activationBinding recovered else None of
               None \<Rightarrow> (s2, Inl (rejectedResult ''lkg_recovery_failed''))
             | Some b \<Rightarrow> (s2, Inr (descriptorFromResult cfg settledResult b)))))"

definition offline_lkg :: "'f runtime_config \<Rightarrow> runtime_env \<Rightarrow> activation_state \<Rightarrow> descriptor \<Rightarrow> 'f runtime \<Rightarrow>
    'f runtime \<times> (runtime_result + descriptor option)" where
  "offline_lkg cfg env st nextCurrent s =
     (if lastKnownGood st \<noteq> [] \<and> lastKnownGood st \<noteq> current st then
        let lkgVerified = verify_installed cfg env (rg_appId cfg) (lastKnownGood st) in
        (if \<not> ir_succeeded lkgVerified \<or> lastHyphen (lastKnownGood st) \<le> 0
           then (s, Inl (rejectedResult ''lkg_unavailable''))
         else let nextLkg = descriptorFromResult cfg lkgVerified (lkg_binding st) in
           case settleTemporaryVerification (re_settle env 2) lkgVerified s of (s1, r, settled) \<Rightarrow>
             if \<not> settled then (fail_runtime s1, Inl (immutableCleanupFailureResult s1))
             else if nextLkg = None then (s1, Inl (rejectedResult ''lkg_unavailable''))
             else (s1, Inr nextLkg))
      else (s, Inr (if lastKnownGood st = current st then Some nextCurrent else None)))"

definition started_offline :: "descriptor \<Rightarrow> descriptor option \<Rightarrow> bool \<Rightarrow> 'f runtime \<Rightarrow> 'f runtime \<times> runtime_result" where
  "started_offline d lkg promoted s =
     (s\<lparr>rc_current := Some d, rc_candidate := Some d, rc_lkg := lkg, rc_promoted := promoted\<rparr>, verifiedStartupResult d)"

definition startOffline :: "'f runtime_config \<Rightarrow> runtime_env \<Rightarrow> 'f runtime \<Rightarrow> 'f runtime \<times> runtime_result" where
  "startOffline cfg env s =
     (if rc_shuttingDown s then (s, rejectedResult ''shutdown'')
      else case retryPendingImmutableCleanup env s of (s1, retried) \<Rightarrow>
        if \<not> retried then cleanup_failed s1
        else if rc_failedClosed s1 then (s1, failedClosedResult (qstr ''app_failed_closed'') 0)
        else if rc_drain s1 \<noteq> None then (s1, rejectedResult ''authority_drain_pending'')
        else (case load_state cfg env (rg_appId cfg) s1 of
            Inl e \<Rightarrow> (s1, rejectedResult ''state_unavailable'')
          | Inr st \<Rightarrow>
              if current st = [] then (s1, rejectedResult ''state_unavailable'')
              else (case bindingForState st of
                  None \<Rightarrow> (s1, rejectedResult ''state_invalid'')
                | Some binding \<Rightarrow>
                    let verified = reverify_installed cfg env (rg_appId cfg) binding s1 in
                    (case settleTemporaryVerification (re_settle env 0) verified s1 of (s2, r, settled) \<Rightarrow>
                      if \<not> settled then cleanup_failed s2
                      else (case descriptorFromResult cfg verified binding of
                          Some d \<Rightarrow>
                            (case offline_lkg cfg env st d s2 of
                               (s3, Inl answer) \<Rightarrow> (s3, answer)
                             | (s3, Inr lkg) \<Rightarrow> started_offline d lkg (lastKnownGood st = current st) s3)
                        | None \<Rightarrow>
                            if lastKnownGood st = [] \<or> lastKnownGood st = current st
                              then (s2, rejectedResult ''installed_content_invalid'')
                            else (case recover_offline cfg env st binding s2 of
                                (s3, Inl answer) \<Rightarrow> (s3, answer)
                              | (s3, Inr None) \<Rightarrow> (s3, rejectedResult ''installed_content_invalid'')
                              | (s3, Inr (Some d)) \<Rightarrow> started_offline d (Some d) True s3))))))"

section \<open>Authorities of tabs\<close>

definition revoke_token :: "'f runtime_config \<Rightarrow> tab_state \<Rightarrow> 'f runtime \<Rightarrow> 'f runtime" where
  "revoke_token cfg t s =
     (case ts_token t of
        None \<Rightarrow> s
      | Some a \<Rightarrow> s\<lparr>rc_admission := beginRevoke (rg_thread cfg) a (rc_admission s)\<rparr>)"

definition revoked_tab :: "tab_state \<Rightarrow> tab_state" where
  "revoked_tab t = t\<lparr>ts_revoked := True, ts_admitted := False\<rparr>"

definition revokeSilently :: "'f runtime_config \<Rightarrow> tab_authority \<Rightarrow> 'f runtime \<Rightarrow> 'f runtime" where
  "revokeSilently cfg tab s =
     (case findTab s tab of
        None \<Rightarrow> s
      | Some t \<Rightarrow> update_tab tab revoked_tab (revoke_token cfg t s))"

definition candidateLease :: "'f runtime \<Rightarrow> verified_lease \<Rightarrow> bool" where
  "candidateLease s lease \<longleftrightarrow>
     (case rc_candidate s of
        None \<Rightarrow> False
      | Some d \<Rightarrow> sameLeaseIdentity (vd_lease d) lease \<and> \<not> rc_promoted s)"

definition currentCandidateTab :: "'f runtime \<Rightarrow> tab_state \<Rightarrow> bool" where
  "currentCandidateTab s t \<longleftrightarrow>
     ts_candidate t \<and> \<not> rc_promoted s
     \<and> (case (rc_candidate s, ts_pinned t) of
          (Some d, Some lease) \<Rightarrow> sameLeaseIdentity lease (vd_lease d)
        | _ \<Rightarrow> False)"

definition leaseMatches :: "tab_state \<Rightarrow> verified_lease \<Rightarrow> bool" where
  "leaseMatches t lease \<longleftrightarrow> map_option lr_lease (ts_request t) = Some lease"

definition closeTab :: "'f runtime_config \<Rightarrow> tab_authority \<Rightarrow> 'f runtime \<Rightarrow> 'f runtime \<times> runtime_result" where
  "closeTab cfg tab s =
     (if \<not> validAuthority tab then (s, rejectedResult ''invalid_tab'')
      else (case findTab s tab of
          None \<Rightarrow> (s, staleResult)
        | Some t \<Rightarrow>
            if ts_retired t then (s, staleResult)
            else (update_tab tab (\<lambda>v. v\<lparr>ts_retired := True\<rparr>) (revokeSilently cfg tab s),
              applied\<lparr>rr_actions :=
                (if ts_token t \<noteq> None \<and> \<not> ts_revoked t then [makeTabAction ActRevoke tab] else [])
                @ (if \<not> ts_revoked t then [makeTabAction ActStop tab] else [])\<rparr>)))"

section \<open>Launching\<close>

definition put_tab :: "tab_authority \<Rightarrow> tab_state \<Rightarrow> 'f runtime \<Rightarrow> 'f runtime" where
  "put_tab tab t s =
     (if findTab s tab = None then s\<lparr>rc_tabs := tabs_emplace tab t (rc_tabs s)\<rparr> else update_tab tab (\<lambda>_. t) s)"

definition launched_tab :: "launch_request \<Rightarrow> supervisor \<Rightarrow> bool \<Rightarrow> int \<Rightarrow> tab_state \<Rightarrow> tab_state" where
  "launched_tab request watcher candidate now t =
     t\<lparr>ts_supervisor := watcher, ts_token := lr_admission request, ts_request := Some request,
       ts_pinned := Some (lr_lease request), ts_admitted := False, ts_healthy := False, ts_candidate := candidate,
       ts_revoked := False, ts_retired := False, ts_failedClosed := False, ts_attemptStart := now\<rparr>"

definition start_attempt :: "'f runtime_config \<Rightarrow> bool \<Rightarrow> int \<Rightarrow> tab_state \<Rightarrow> supervisor \<times> activation_id \<times> attempt_id option" where
  "start_attempt cfg reuse now t =
     (let (watcher, act) = (if reuse then (ts_supervisor t, activation (ts_supervisor t))
                        else beginActivation (new_supervisor (rg_policy cfg) False False) now);
          (sup1, started) = beginAttempt watcher act now
      in (sup1, act, started))"

definition launchForTab :: "'f runtime_config \<Rightarrow> tab_authority \<Rightarrow> qstring \<Rightarrow> descriptor \<Rightarrow> revalidation_mode \<Rightarrow> bool \<Rightarrow>
    int \<Rightarrow> bool \<Rightarrow> bool \<Rightarrow> 'f runtime \<Rightarrow> 'f runtime \<times> runtime_result" where
  "launchForTab cfg tab route d mode recovery now reuse emitRetire s =
     (if rc_shuttingDown s then (s, rejectedResult ''shutdown'')
      else if rc_failedClosed s then (s, failedClosedResult (qstr ''app_failed_closed'') 0)
      else if rc_drain s \<noteq> None then (s, rejectedResult ''authority_drain_pending'')
      else
        let retire = (case findTab s tab of
              None \<Rightarrow> []
            | Some t \<Rightarrow> if emitRetire \<and> ts_request t \<noteq> None \<and> \<not> ts_retired t \<and> \<not> ts_revoked t
                then [makeTabAction ActRevoke tab, makeTabAction ActStop tab] else []);
            s1 = revokeSilently cfg tab s;
            t = (case findTab s1 tab of None \<Rightarrow> new_tab cfg tab | Some t \<Rightarrow> t)
        in case start_attempt cfg reuse now t of
          (watcher, act, None) \<Rightarrow>
            (put_tab tab (t\<lparr>ts_supervisor := watcher, ts_failedClosed := True\<rparr>) s1,
             (plain_result ResultFailedClosed (qstr ''attempt_unavailable''))
               \<lparr>rr_actions := retire @ [makeTabAction ActFailedClosed tab]\<rparr>)
        | (watcher, act, Some k) \<Rightarrow>
            (let (epoch, nextEpoch) = issueLeaseEpoch (rc_nextEpoch s1);
                 (adm, token) = make_token (rc_admission s1);
                 lease = (vd_lease d)\<lparr>lease_epoch := epoch\<rparr>;
                 request = \<lparr>lr_tabId = ta_tabId tab, lr_incarnation = ta_incarnation tab, lr_route = route,
                   lr_lease = lease, lr_admission = Some token,
                   lr_attempt = \<lparr>key_activation = act, key_attempt = k\<rparr>, lr_mode = mode, lr_recovery = recovery\<rparr>
             in (put_tab tab (launched_tab request watcher (candidateLease s1 lease) now t)
                   (s1\<lparr>rc_nextEpoch := nextEpoch, rc_admission := adm\<rparr>),
                 applied\<lparr>rr_actions := retire
                   @ [\<lparr>ra_kind = ActLaunch, ra_tab = tab, ra_launch = Some request, ra_drain = None\<rparr>]\<rparr>)))"

definition valid_route :: "qstring \<Rightarrow> bool" where
  "valid_route route \<longleftrightarrow> \<not> (route = [] \<or> 256 < length route \<or> \<not> startsWith (qstr ''/'') route
     \<or> 0x3F \<in> set route \<or> 0x23 \<in> set route \<or> 0x5C \<in> set route)"

definition live_tab :: "tab_state \<Rightarrow> bool" where
  "live_tab t \<longleftrightarrow> \<not> ts_retired t \<and> \<not> ts_failedClosed t"

definition previousIncarnation :: "'f runtime \<Rightarrow> tab_authority \<Rightarrow> tab_authority option" where
  "previousIncarnation s tab =
     map_option fst (find (\<lambda>(k, t). ta_tabId k = ta_tabId tab \<and> ta_incarnation k \<noteq> ta_incarnation tab \<and> live_tab t)
       (rc_tabs s))"

definition add_launch :: "runtime_result \<Rightarrow> runtime_result \<Rightarrow> runtime_result" where
  "add_launch replacement launched =
     (let r = replacement\<lparr>rr_actions := rr_actions replacement @ rr_actions launched\<rparr> in
      if rr_code launched \<noteq> Applied
      then r\<lparr>rr_code := rr_code launched, rr_error := rr_error launched, rr_native := rr_native launched\<rparr> else r)"

text \<open>Which version a launch is for: the lease of the tab, another application, or what is current.\<close>

definition launch_descriptor :: "'f runtime_config \<Rightarrow> runtime_env \<Rightarrow> tab_authority \<Rightarrow> launch_intent \<Rightarrow> qstring \<Rightarrow> 'f runtime \<Rightarrow>
    'f runtime \<times> (runtime_result + descriptor)" where
  "launch_descriptor cfg env tab intent app s =
     (if intent = RestartPinned then
        (s, case Option.bind (findTab s tab) (\<lambda>t. if ts_request t = None then None else ts_pinned t) of
              Some lease \<Rightarrow> if lease_versionDirectory lease = [] then Inl (rejectedResult ''pinned_lease_unavailable'')
                else Inr (pinned_descriptor lease)
            | None \<Rightarrow> Inl (rejectedResult ''pinned_lease_unavailable''))
      else if app \<noteq> rg_appId cfg then
        (case Option.bind (case load_state cfg env app s of Inl e \<Rightarrow> None | Inr st \<Rightarrow> Some st) bindingForState of
           None \<Rightarrow> (s, Inl (rejectedResult ''package_not_installed''))
         | Some binding \<Rightarrow>
             let verified = reverify_installed cfg env app binding s in
             (case settleTemporaryVerification (re_settle env 0) verified s of (s1, r, settled) \<Rightarrow>
               if \<not> settled then (s1, Inl (immutableCleanupFailureResult s1))
               else (case descriptorFromResult cfg verified binding of
                   None \<Rightarrow> (s1, Inl (error_or (ir_stableError verified) ''package_verification_failed''))
                 | Some d \<Rightarrow> (s1, Inr d))))
      else (s, case rc_current s of None \<Rightarrow> Inl (rejectedResult ''current_unavailable'') | Some d \<Rightarrow> Inr d))"

definition already_active :: "tab_state \<Rightarrow> qstring \<Rightarrow> bool" where
  "already_active t app \<longleftrightarrow>
     ts_request t \<noteq> None \<and> ts_admitted t \<and> \<not> ts_revoked t \<and> \<not> ts_retired t \<and> \<not> ts_failedClosed t
     \<and> (case ts_pinned t of None \<Rightarrow> False | Some lease \<Rightarrow> lease_appId lease = app)"

definition requestTabLaunch :: "'f runtime_config \<Rightarrow> runtime_env \<Rightarrow> tab_authority \<Rightarrow> qstring \<Rightarrow> launch_intent \<Rightarrow> int \<Rightarrow>
    qstring \<Rightarrow> 'f runtime \<Rightarrow> 'f runtime \<times> runtime_result" where
  "requestTabLaunch cfg env tab route intent nowMs site s =
     (if rc_shuttingDown s then (s, rejectedResult ''shutdown'')
      else if rc_failedClosed s then (s, failedClosedResult (qstr ''app_failed_closed'') 0)
      else (case rc_drain s of
          Some d \<Rightarrow> (s, pending_drain_result d)
        | None \<Rightarrow>
            if \<not> validAuthority tab \<or> \<not> valid_route route then (s, rejectedResult ''invalid_launch_request'')
            else if (case findTab s tab of None \<Rightarrow> False | Some t \<Rightarrow> ts_failedClosed t)
              then (s, failedClosedResult (qstr ''authority_failed_closed'') 0)
            else if (case findTab s tab of None \<Rightarrow> False | Some t \<Rightarrow> ts_retired t)
              then (s, rejectedResult ''authority_retired'')
            else
              let now = resolveNow env nowMs;
                  (s1, replacement) = (case previousIncarnation s tab of
                     None \<Rightarrow> (s, applied) | Some old \<Rightarrow> closeTab cfg old s);
                  app = (if site = [] then rg_appId cfg else site)
              in if intent = ActivateCurrent \<and> (case findTab s1 tab of None \<Rightarrow> False | Some t \<Rightarrow> already_active t app)
                then (update_tab tab (\<lambda>t. t\<lparr>ts_request := map_option (\<lambda>r. r\<lparr>lr_route := route\<rparr>) (ts_request t)\<rparr>) s1,
                      replacement)
              else (case launch_descriptor cfg env tab intent app s1 of
                  (s2, Inl answer) \<Rightarrow> (s2, answer)
                | (s2, Inr d) \<Rightarrow>
                    (case launchForTab cfg tab route d PinnedLease False now False True s2 of
                       (s3, launched) \<Rightarrow> (s3, add_launch replacement launched)))))"

definition cancelPendingLaunch :: "'f runtime_config \<Rightarrow> launch_request \<Rightarrow> 'f runtime \<Rightarrow> 'f runtime \<times> runtime_result" where
  "cancelPendingLaunch cfg request s =
     (let tab = \<lparr>ta_tabId = lr_tabId request, ta_incarnation = lr_incarnation request\<rparr> in
      if \<not> validAuthority tab then (s, rejectedResult ''invalid_launch_request'')
      else (case findTab s tab of
          None \<Rightarrow> (s, staleResult)
        | Some t \<Rightarrow>
            if ts_admitted t \<or> ts_revoked t \<or> ts_retired t \<or> ts_failedClosed t
               \<or> (case ts_request t of None \<Rightarrow> True | Some r \<Rightarrow> \<not> hasSameWorkerLaunchAuthority r request)
              then (s, staleResult)
            else (erase_tab tab (revokeSilently cfg tab s), applied)))"

definition restartTab :: "'f runtime_config \<Rightarrow> tab_authority \<Rightarrow> int \<Rightarrow> 'f runtime \<Rightarrow> 'f runtime \<times> runtime_result" where
  "restartTab cfg tab now s =
     (case findTab s tab of
        None \<Rightarrow> (s, staleResult)
      | Some t \<Rightarrow>
          (case (ts_request t, ts_pinned t) of
             (Some r, Some lease) \<Rightarrow>
               if lease_versionDirectory lease = []
                 then (update_tab tab (\<lambda>v. v\<lparr>ts_failedClosed := True\<rparr>) s, failedClosedResult (qstr ''pinned_lease_unavailable'') 0)
               else launchForTab cfg tab (lr_route r) (pinned_descriptor lease) PinnedLease True now
                 (sup_state (ts_supervisor t) = supervisor_state.Stopped) True s
           | _ \<Rightarrow> (update_tab tab (\<lambda>v. v\<lparr>ts_failedClosed := True\<rparr>) s, failedClosedResult (qstr ''pinned_lease_unavailable'') 0)))"

section \<open>Admission\<close>

definition failClosedTab :: "'f runtime_config \<Rightarrow> tab_authority \<Rightarrow> qstring \<Rightarrow> bool \<Rightarrow> 'f runtime \<Rightarrow> 'f runtime \<times> runtime_result" where
  "failClosedTab cfg tab stableError trustedCrash s =
     (case findTab s tab of
        None \<Rightarrow> (s, staleResult)
      | Some t \<Rightarrow>
          if ts_failedClosed t then (s, staleResult)
          else (update_tab tab (\<lambda>v. v\<lparr>ts_failedClosed := True\<rparr>) (revokeSilently cfg tab s),
            (failedClosedResult (if stableError = [] then qstr ''worker_failed_closed'' else stableError) 0)
              \<lparr>rr_actions := (if ts_token t \<noteq> None then [makeTabAction ActRevoke (ts_authority t)] else [])
                 @ map (\<lambda>k. makeTabAction k (ts_authority t))
                     [ActStop, ActIsolateSession, if trustedCrash then ActTrustedCrash else ActFailedClosed]\<rparr>))"

text \<open>The publication under a use of the token that is given up at the end of the call.\<close>

definition use_and_publish :: "address \<Rightarrow> admission \<Rightarrow> admission \<times> bool" where
  "use_and_publish a adm =
     (case tryAcquireUse a adm of
        (adm1, None) \<Rightarrow> (adm1, False)
      | (adm1, Some g) \<Rightarrow>
          (case publishIfStillAdmitted g (CommitReturns True) adm1 of
             (adm2, published) \<Rightarrow> (release_guard g adm2, published)))"

text \<open>The handshake, once the use of the token has been published.\<close>

definition admit_handshake :: "full_attempt_key \<Rightarrow> int \<Rightarrow> tab_state \<Rightarrow> bool \<Rightarrow> 'f runtime \<Rightarrow> 'f runtime \<times> runtime_result" where
  "admit_handshake key received t published s =
     (if \<not> published then (s, rejectedResult ''authority_revoked'')
      else if ts_admitted t then (s, applied)
      else if received < ts_attemptStart t then (s, rejectedResult ''admission_timestamp_invalid'')
      else (case authenticatedHandshake (ts_supervisor t) (fk_attempt key) received of
          (watcher, taken) \<Rightarrow>
            if \<not> taken then (s, rejectedResult ''admission_rejected'')
            else (update_tab (fk_tab key) (\<lambda>v. v\<lparr>ts_supervisor := watcher, ts_admitted := True\<rparr>) s, applied)))"

definition admit_at :: "full_attempt_key \<Rightarrow> verified_lease \<Rightarrow> int \<Rightarrow> 'f runtime \<Rightarrow> 'f runtime \<times> runtime_result" where
  "admit_at key lease received s =
     (case findTab s (fk_tab key) of
        None \<Rightarrow> (s, staleResult)
      | Some t \<Rightarrow>
          if ts_revoked t \<or> ts_retired t \<or> ts_failedClosed t \<or> ts_request t = None
            then (s, rejectedResult ''authority_revoked'')
          else if \<not> keyMatches t key then (s, staleResult)
          else if \<not> leaseMatches t lease then (s, rejectedResult ''lease_mismatch'')
          else (case ts_token t of
              None \<Rightarrow> (s, rejectedResult ''authority_revoked'')
            | Some a \<Rightarrow>
                (case use_and_publish a (rc_admission s) of
                  (adm, published) \<Rightarrow> admit_handshake key received t published (s\<lparr>rc_admission := adm\<rparr>))))"

definition admit_now :: "runtime_env \<Rightarrow> full_attempt_key \<Rightarrow> verified_lease \<Rightarrow> 'f runtime \<Rightarrow> 'f runtime \<times> runtime_result" where
  "admit_now env key lease s =
     (case findTab s (fk_tab key) of
        None \<Rightarrow> (s, staleResult)
      | Some t \<Rightarrow>
          if ts_revoked t \<or> ts_retired t \<or> ts_failedClosed t then (s, rejectedResult ''authority_revoked'')
          else if ts_request t = None \<or> \<not> keyMatches t key then (s, staleResult)
          else admit_at key lease (max (resolveNow env (-1)) (ts_attemptStart t)) s)"

definition request_key :: "launch_request \<Rightarrow> full_attempt_key" where
  "request_key r = \<lparr>fk_tab = \<lparr>ta_tabId = lr_tabId r, ta_incarnation = lr_incarnation r\<rparr>, fk_attempt = lr_attempt r,
     fk_epoch = lease_epoch (lr_lease r)\<rparr>"

definition admit_request :: "runtime_env \<Rightarrow> launch_request \<Rightarrow> int \<Rightarrow> 'f runtime \<Rightarrow> 'f runtime \<times> runtime_result" where
  "admit_request env request received s =
     (case findTab_key s (request_key request) of
        None \<Rightarrow> (s, staleResult)
      | Some t \<Rightarrow>
          if ts_request t \<noteq> Some request then (s, rejectedResult ''launch_authority_mismatch'')
          else admit_at (request_key request) (lr_lease request)
            (if 0 \<le> received then received else max (resolveNow env (-1)) (ts_attemptStart t)) s)"

section \<open>Rollback and drain\<close>

definition promoteCandidate :: "'f runtime_config \<Rightarrow> runtime_env \<Rightarrow> int \<Rightarrow> 'f runtime \<Rightarrow> 'f runtime \<times> runtime_result" where
  "promoteCandidate cfg env now s =
     (case if rc_promoted s then None else rc_candidate s of
        None \<Rightarrow> (s, applied)
      | Some d \<Rightarrow>
          (case store_call (rg_appId cfg) (markCurrentLastKnownGood (rg_codec cfg) (inst_root (rg_installer cfg)) (rg_appId cfg)
               (re_mark env) (vd_binding d) (rc_files s (rg_appId cfg))) s of (s1, marked) \<Rightarrow>
            (case if store_succeeded marked then activationBinding marked else None of
               None \<Rightarrow> (s1, failedClosedResult (qstr ''lkg_commit_failed'') 0)
             | Some b \<Rightarrow>
                 let d1 = \<lparr>vd_lease = (vd_lease d)\<lparr>lease_generation := binding_generation b\<rparr>, vd_binding = b\<rparr> in
                 (record_runtime cfg Health Healthy (lease_version (vd_lease d1)) now
                    (s1\<lparr>rc_promoted := True, rc_candidate := Some d1, rc_current := Some d1, rc_lkg := Some d1\<rparr>),
                  applied))))"

definition affected_tab :: "verified_lease \<Rightarrow> tab_state \<Rightarrow> bool" where
  "affected_tab lease t \<longleftrightarrow>
     \<not> (ts_request t = None \<or> ts_revoked t \<or> ts_retired t \<or> ts_failedClosed t \<or> \<not> ts_candidate t)
     \<and> (case ts_pinned t of None \<Rightarrow> False | Some p \<Rightarrow> sameLeaseIdentity p lease)"

text \<open>The loop over the tabs: the authorities revoked, with their tickets.\<close>

fun revoke_affected :: "'f runtime_config \<Rightarrow> (tab_authority \<times> tab_state) list \<Rightarrow> 'f runtime \<Rightarrow> 'f runtime \<times> revocation_ticket list" where
  "revoke_affected cfg [] s = (s, [])"
| "revoke_affected cfg ((k, t) # rest) s =
     (let s1 = update_tab k revoked_tab (revoke_token cfg t s);
          ticket = (case ts_token t of None \<Rightarrow> [] | Some a \<Rightarrow> [\<lparr>ticket_state = a, waitForbiddenThread = rg_thread cfg\<rparr>]);
          (s2, tickets) = revoke_affected cfg rest s1
      in (s2, ticket @ tickets))"

definition tab_actions :: "action_kind \<Rightarrow> tab_authority list \<Rightarrow> runtime_action list" where
  "tab_actions kind tabs = map (makeTabAction kind) tabs"

definition await_drain :: "drain_batch \<Rightarrow> runtime_action" where
  "await_drain b = \<lparr>ra_kind = ActAwaitAuthorityDrain, ra_tab = no_tab, ra_launch = None, ra_drain = Some b\<rparr>"

definition consume_drain :: "'f runtime_config \<Rightarrow> drain_batch \<Rightarrow> 'f runtime \<Rightarrow> 'f runtime" where
  "consume_drain cfg b s = (if rg_consumer cfg then s\<lparr>rc_consumed := rc_consumed s @ [b]\<rparr> else s)"

fun fail_tabs :: "tab_authority list \<Rightarrow> 'f runtime \<Rightarrow> 'f runtime" where
  "fail_tabs [] s = s"
| "fail_tabs (tab # tabs) s = fail_tabs tabs (update_tab tab (\<lambda>v. v\<lparr>ts_failedClosed := True\<rparr>) s)"

definition rollback_failed :: "'f runtime_config \<Rightarrow> pending_drain \<Rightarrow> qstring \<Rightarrow> 32 word \<Rightarrow> 'f runtime \<Rightarrow> 'f runtime \<times> runtime_result" where
  "rollback_failed cfg d e native s =
     (let d1 = d\<lparr>pd_terminal := True, pd_error := e\<rparr>; tabs = pd_affected d in
      (consume_drain cfg (pd_batch d1)
         ((fail_tabs tabs s)\<lparr>rc_drain := Some d1, rc_rollbackStarted := True, rc_failedClosed := True\<rparr>),
       (failedClosedResult e native)\<lparr>rr_actions := tab_actions ActRevoke tabs @ tab_actions ActStop tabs
          @ tab_actions ActIsolateSession tabs @ [makeTabAction ActFailedClosed no_tab, await_drain (pd_batch d1)]\<rparr>))"

definition beginCandidateRollback :: "'f runtime_config \<Rightarrow> runtime_env \<Rightarrow> int \<Rightarrow> 'f runtime \<Rightarrow> 'f runtime \<times> runtime_result" where
  "beginCandidateRollback cfg env now s =
     (if rc_rollbackStarted s \<or> rc_drain s \<noteq> None then (s, staleResult)
      else (case rc_candidate s of
          None \<Rightarrow> (s, failedClosedResult (qstr ''candidate_unavailable'') 0)
        | Some c \<Rightarrow>
            let hit = filter (\<lambda>(k, t). affected_tab (vd_lease c) t) (rc_tabs s);
                (s1, tickets) = revoke_affected cfg hit s;
                d = \<lparr>pd_batch = \<lparr>db_id = rc_nextDrain s, db_tickets = tickets,
                       db_deadline = boundedDeadline now (rg_drainTimeout cfg)\<rparr>,
                     pd_affected = map (ts_authority \<circ> snd) hit, pd_timedOut = False, pd_terminal = False, pd_error = []\<rparr>;
                (s2, rolled) = store_call (rg_appId cfg) (store_rollback (rg_codec cfg) (inst_root (rg_installer cfg))
                   (rg_appId cfg) (re_rollback env) (vd_binding c) (rc_files s1 (rg_appId cfg)))
                   (s1\<lparr>rc_nextDrain := nextCounter (rc_nextDrain s)\<rparr>)
            in (case if store_succeeded rolled then activationBinding rolled else None of
                 None \<Rightarrow> rollback_failed cfg d (qstr ''rollback_unavailable'') 0 s2
               | Some b \<Rightarrow>
                   let recovered = verify_installed cfg env (rg_appId cfg) (rg_fileName cfg (store_path rolled)) in
                   (case settleTemporaryVerification (re_settle env 0) recovered s2 of (s3, r, settled) \<Rightarrow>
                     if \<not> settled then rollback_failed cfg d (cleanup_error (rc_cleanupError s3)) (rc_cleanupNative s3) s3
                     else (case descriptorFromResult cfg recovered b of
                         None \<Rightarrow> rollback_failed cfg d (qstr ''lkg_unavailable'') 0 s3
                       | Some rd \<Rightarrow>
                           (consume_drain cfg (pd_batch d)
                              (s3\<lparr>rc_current := Some rd, rc_lkg := Some rd, rc_promoted := True, rc_rollbackStarted := True,
                                  rc_drain := Some d\<rparr>),
                            applied\<lparr>rr_actions := tab_actions ActRevoke (pd_affected d) @ tab_actions ActStop (pd_affected d)
                              @ [await_drain (pd_batch d)]\<rparr>))))))"

definition allTicketsDrained :: "'f runtime \<Rightarrow> bool" where
  "allTicketsDrained s \<longleftrightarrow>
     (case rc_drain s of
        None \<Rightarrow> True
      | Some d \<Rightarrow> list_all (\<lambda>k. isDrained (ticket_state k) (rc_admission s)) (db_tickets (pd_batch d)))"

definition appendDrainTimeoutActions :: "pending_drain \<Rightarrow> runtime_action list" where
  "appendDrainTimeoutActions d = tab_actions ActFailedClosed (pd_affected d) @ tab_actions ActStop (pd_affected d)
     @ tab_actions ActIsolateSession (pd_affected d)"

definition drain_timeout_result :: "pending_drain \<Rightarrow> runtime_result" where
  "drain_timeout_result d =
     (failedClosedResult (qstr ''authority_drain_timeout'') 0)\<lparr>rr_actions := appendDrainTimeoutActions d\<rparr>"

definition timeoutDrain :: "'f runtime \<Rightarrow> 'f runtime \<times> runtime_result" where
  "timeoutDrain s =
     (case rc_drain s of
        None \<Rightarrow> (s, staleResult)
      | Some d \<Rightarrow>
          if pd_timedOut d then (s, staleResult)
          else (s\<lparr>rc_drain := Some (d\<lparr>pd_timedOut := True\<rparr>), rc_failedClosed := True\<rparr>, drain_timeout_result d))"

fun erase_tabs :: "tab_authority list \<Rightarrow> 'f runtime \<Rightarrow> 'f runtime" where
  "erase_tabs [] s = s"
| "erase_tabs (tab # tabs) s = erase_tabs tabs (erase_tab tab s)"

fun recover_tabs :: "'f runtime_config \<Rightarrow> int \<Rightarrow> tab_authority list \<Rightarrow> 'f runtime \<Rightarrow> 'f runtime \<times> runtime_action list" where
  "recover_tabs cfg now [] s = (s, [])"
| "recover_tabs cfg now (tab # tabs) s =
     (let (s1, acts) = (case (findTab s tab, rc_lkg s) of
              (Some t, Some d) \<Rightarrow> apsnd rr_actions (launchForTab cfg tab (case ts_request t of None \<Rightarrow> [] | Some r \<Rightarrow> lr_route r)
                d PinnedLease True now False False s)
            | _ \<Rightarrow> (s, []));
          (s2, rest) = recover_tabs cfg now tabs s1
      in (s2, makeTabAction ActRecoverFromLkg tab # acts @ rest))"

definition finishDrain :: "'f runtime_config \<Rightarrow> int \<Rightarrow> 'f runtime \<Rightarrow> 'f runtime \<times> runtime_result" where
  "finishDrain cfg now s =
     (case rc_drain s of
        None \<Rightarrow> (s, staleResult)
      | Some d \<Rightarrow>
          if \<not> allTicketsDrained s then (s, rejectedResult ''authority_drain_pending'')
          else
            let s1 = s\<lparr>rc_drain := None\<rparr> in
            if pd_timedOut d \<or> pd_terminal d \<or> rc_shuttingDown s \<or> rc_failedClosed s then
              (erase_tabs (pd_affected d) s1,
               if pd_terminal d then failedClosedResult (if pd_error d = [] then qstr ''authority_drain_failed'' else pd_error d) 0
               else if pd_timedOut d then failedClosedResult (qstr ''authority_drain_timeout'') 0
               else applied)
            else (case recover_tabs cfg now (pd_affected d) s1 of (s2, acts) \<Rightarrow>
              ((case rc_lkg s2 of
                  None \<Rightarrow> s2\<lparr>rc_rollbackStarted := False\<rparr>
                | Some l \<Rightarrow> record_runtime cfg Rollback Recovered (lease_version (vd_lease l)) now
                    (s2\<lparr>rc_rollbackStarted := False\<rparr>)),
               applied\<lparr>rr_actions := acts\<rparr>)))"

definition drain_at :: "'f runtime \<Rightarrow> 64 word \<Rightarrow> pending_drain option" where
  "drain_at s batchId = (case rc_drain s of None \<Rightarrow> None | Some d \<Rightarrow> if db_id (pd_batch d) = batchId then Some d else None)"

definition authorityDrainTimedOut :: "64 word \<Rightarrow> int \<Rightarrow> 'f runtime \<Rightarrow> 'f runtime \<times> runtime_result" where
  "authorityDrainTimedOut batchId now s =
     (case drain_at s batchId of
        None \<Rightarrow> (s, staleResult)
      | Some d \<Rightarrow> if now \<le> db_deadline (pd_batch d) then (s, rejectedResult ''authority_drain_deadline_pending'')
          else timeoutDrain s)"

definition authorityDrainCompleted :: "'f runtime_config \<Rightarrow> 64 word \<Rightarrow> int \<Rightarrow> 'f runtime \<Rightarrow> 'f runtime \<times> runtime_result" where
  "authorityDrainCompleted cfg batchId now s =
     (case drain_at s batchId of
        None \<Rightarrow> (s, staleResult)
      | Some d \<Rightarrow>
          if db_deadline (pd_batch d) < now then
            (case if \<not> pd_timedOut d then timeoutDrain s else (s, drain_timeout_result d) of
               (s1, r) \<Rightarrow> if \<not> allTicketsDrained s1 then (s1, r) else (fst (finishDrain cfg now s1), r))
          else finishDrain cfg now s)"

section \<open>Workers\<close>

text \<open>A supervisor that gives up rolls the candidate back, or fails the tab.\<close>

definition give_up :: "'f runtime_config \<Rightarrow> runtime_env \<Rightarrow> tab_authority \<Rightarrow> int \<Rightarrow> 'f runtime \<Rightarrow> 'f runtime \<times> runtime_result" where
  "give_up cfg env tab now s =
     (if (case findTab s tab of None \<Rightarrow> False | Some t \<Rightarrow> currentCandidateTab s t)
      then beginCandidateRollback cfg env now s else failClosedTab cfg tab (qstr ''worker_crash_loop'') True s)"

definition set_supervisor :: "tab_authority \<Rightarrow> supervisor \<Rightarrow> 'f runtime \<Rightarrow> 'f runtime" where
  "set_supervisor tab watcher s = update_tab tab (\<lambda>v. v\<lparr>ts_supervisor := watcher\<rparr>) s"

definition worker_heartbeat :: "'f runtime_config \<Rightarrow> runtime_env \<Rightarrow> full_attempt_key \<Rightarrow> int \<Rightarrow> 'f runtime \<Rightarrow> 'f runtime \<times> runtime_result" where
  "worker_heartbeat cfg env key received s =
     (case findTab_key s key of
        None \<Rightarrow> (s, staleResult)
      | Some t \<Rightarrow>
          if \<not> ts_admitted t then (s, rejectedResult ''worker_not_admitted'')
          else (case WorkerSupervisor.checkHealth (ts_supervisor t) (fk_attempt key) received of
            (watcher, action) \<Rightarrow>
              let s1 = set_supervisor (fk_tab key) watcher s in
              if action = IgnoredStaleAttempt \<or> action = IgnoredDuplicateFailure then (s1, staleResult)
              else if action = Restart then restartTab cfg (fk_tab key) received s1
              else if action = CrashLoopRollback \<or> action = StartupRollback then give_up cfg env (fk_tab key) received s1
              else
                let beaten = WorkerSupervisor.heartbeat watcher (fk_attempt key) received;
                    s2 = set_supervisor (fk_tab key) beaten s1
                in if \<not> ts_healthy t \<and> isHealthy beaten (fk_attempt key) received then
                     let s3 = update_tab (fk_tab key) (\<lambda>v. v\<lparr>ts_healthy := True\<rparr>) s2 in
                     (if currentCandidateTab s3 t then promoteCandidate cfg env received s3 else (s3, applied))
                   else (s2, applied)))"

definition add_health :: "runtime_result \<Rightarrow> runtime_result \<Rightarrow> runtime_result" where
  "add_health r other =
     (let r1 = r\<lparr>rr_actions := rr_actions r @ rr_actions other\<rparr> in
      if rr_code other \<noteq> Applied then r1\<lparr>rr_code := rr_code other, rr_error := rr_error other\<rparr> else r1)"

fun check_tabs :: "'f runtime_config \<Rightarrow> runtime_env \<Rightarrow> int \<Rightarrow> tab_authority list \<Rightarrow> runtime_result \<Rightarrow> 'f runtime \<Rightarrow> 'f runtime \<times> runtime_result" where
  "check_tabs cfg env now [] r s = (s, r)"
| "check_tabs cfg env now (tab # tabs) r s =
     (case findTab s tab of
        None \<Rightarrow> check_tabs cfg env now tabs r s
      | Some t \<Rightarrow>
          if ts_revoked t \<or> ts_retired t \<or> ts_failedClosed t \<or> ts_request t = None \<or> \<not> ts_admitted t
            then check_tabs cfg env now tabs r s
          else (case activeAttempt (ts_supervisor t) of
              None \<Rightarrow> check_tabs cfg env now tabs r s
            | Some k \<Rightarrow>
                (case WorkerSupervisor.checkHealth (ts_supervisor t)
                    \<lparr>key_activation = activation (ts_supervisor t), key_attempt = k\<rparr> now of
                  (watcher, action) \<Rightarrow>
                    let s1 = set_supervisor tab watcher s in
                    if action = Restart then
                      (case restartTab cfg tab now s1 of (s2, restarted) \<Rightarrow> check_tabs cfg env now tabs (add_health r restarted) s2)
                    else if action = CrashLoopRollback \<or> action = StartupRollback then
                      (case give_up cfg env tab now s1 of (s2, rollback) \<Rightarrow> (s2, add_health r rollback))
                    else check_tabs cfg env now tabs r s1)))"

definition runtime_checkHealth :: "'f runtime_config \<Rightarrow> runtime_env \<Rightarrow> int \<Rightarrow> 'f runtime \<Rightarrow> 'f runtime \<times> runtime_result" where
  "runtime_checkHealth cfg env now s =
     (if rc_shuttingDown s then (s, rejectedResult ''shutdown'')
      else check_tabs cfg env now (map fst (rc_tabs s)) applied s)"

definition runtime_workerExited :: "'f runtime_config \<Rightarrow> runtime_env \<Rightarrow> full_attempt_key \<Rightarrow> worker_exit_reason \<Rightarrow> int \<Rightarrow>
    'f runtime \<Rightarrow> 'f runtime \<times> runtime_result" where
  "runtime_workerExited cfg env key reason nowMs s =
     (case findTab_key s key of
        None \<Rightarrow> (s, staleResult)
      | Some t \<Rightarrow>
          let now = resolveNow env nowMs; tab = fk_tab key in
          (case WorkerSupervisor.workerExited (ts_supervisor t) (fk_attempt key) reason now of
            (watcher, action) \<Rightarrow>
              let s1 = set_supervisor tab watcher s in
              if action = IgnoredStaleAttempt \<or> action = IgnoredDuplicateFailure then (s1, staleResult)
              else if reason = Clean then (update_tab tab (\<lambda>v. v\<lparr>ts_retired := True\<rparr>) (revokeSilently cfg tab s1), applied)
              else if action = Restart then restartTab cfg tab now s1
              else if action = CrashLoopRollback \<or> action = StartupRollback then give_up cfg env tab now s1
              else (s1, applied)))"

definition workerAdmissionFailed :: "'f runtime_config \<Rightarrow> runtime_env \<Rightarrow> full_attempt_key \<Rightarrow> qstring \<Rightarrow> int \<Rightarrow> 'f runtime \<Rightarrow>
    'f runtime \<times> runtime_result" where
  "workerAdmissionFailed cfg env key stableError nowMs s =
     (case findTab_key s key of
        None \<Rightarrow> (s, staleResult)
      | Some t \<Rightarrow>
          if currentCandidateTab s t then beginCandidateRollback cfg env (resolveNow env nowMs) s
          else failClosedTab cfg (fk_tab key) (if stableError = [] then qstr ''worker_admission_failed'' else stableError) False s)"

definition workerCleanupFailed :: "'f runtime_config \<Rightarrow> full_attempt_key \<Rightarrow> qstring \<Rightarrow> 32 word \<Rightarrow> 'f runtime \<Rightarrow> 'f runtime \<times> runtime_result" where
  "workerCleanupFailed cfg key stableError native s =
     (case findTab s (fk_tab key) of
        None \<Rightarrow> (s, staleResult)
      | Some t \<Rightarrow>
          (fail_runtime (update_tab (fk_tab key) (\<lambda>v. v\<lparr>ts_failedClosed := True\<rparr>) (revokeSilently cfg (fk_tab key) s)),
           (failedClosedResult (if stableError = [] then qstr ''worker_cleanup_failed'' else stableError) native)
             \<lparr>rr_actions := [makeTabAction ActFailedClosed (ts_authority t)]\<rparr>))"

definition allowedTemplates :: "qstring list" where
  "allowedTemplates = map qstr [''/login'', ''/dashboard'', ''/orders'', ''/orders/:id'', ''/orders/:id/edit'', ''/customers'',
     ''/customers/:id'', ''/files'', ''/settings'']"

definition recordRouteLoadAcknowledged :: "'f runtime_config \<Rightarrow> runtime_env \<Rightarrow> launch_request \<Rightarrow> qstring \<Rightarrow> int \<Rightarrow> 'f runtime \<Rightarrow> 'f runtime" where
  "recordRouteLoadAcknowledged cfg env request template pendingRouteLoads s =
     (case findTab_key s (request_key request) of
        None \<Rightarrow> s
      | Some t \<Rightarrow>
          if \<not> rg_recorder cfg \<or> \<not> ts_admitted t
             \<or> (case ts_request t of None \<Rightarrow> True
                 | Some r \<Rightarrow> \<not> hasSameWorkerLaunchAuthority r request \<or> lr_route r \<noteq> lr_route request)
             \<or> pendingRouteLoads \<noteq> 0 \<or> template \<notin> set allowedTemplates
             \<or> ts_pinned t \<noteq> Some (lr_lease request) \<or> lease_version (lr_lease request) = [] then s
          else (case create_event (rg_telemetry cfg) (re_utcNow env) (rg_appId cfg) (lease_version (lr_lease request))
                 Worker_phase Completed 0 template [(QueueDepth, Some (of_int pendingRouteLoads))] of
              Inl e \<Rightarrow> s
            | Inr e \<Rightarrow> s\<lparr>rc_events := rc_events s @ [e]\<rparr>))"

section \<open>Shutdown\<close>

definition retire_tab :: "'f runtime_config \<Rightarrow> tab_authority \<Rightarrow> 'f runtime \<Rightarrow> 'f runtime" where
  "retire_tab cfg tab s =
     (case findTab s tab of
        None \<Rightarrow> s
      | Some t \<Rightarrow> if ts_retired t then s
          else update_tab tab (\<lambda>v. v\<lparr>ts_retired := True\<rparr>) (revokeSilently cfg tab s))"

definition beginShutdown :: "'f runtime_config \<Rightarrow> 'f runtime \<Rightarrow> 'f runtime \<times> runtime_result" where
  "beginShutdown cfg s =
     (if rc_shuttingDown s then (s, staleResult)
      else
        let live = filter (\<lambda>(k, t). \<not> ts_retired t \<and> \<not> ts_revoked t) (rc_tabs s) in
        (fold (retire_tab cfg) (map fst (rc_tabs s)) (s\<lparr>rc_shuttingDown := True\<rparr>),
         applied\<lparr>rr_actions := tab_actions ActRevoke (map fst (filter (\<lambda>(k, t). ts_token t \<noteq> None) live))
           @ tab_actions ActStop (map fst live)\<rparr>))"

text \<open>The guard whose seals could not be restored goes to the Host.\<close>

definition beginHostShutdownCleanup :: "runtime_env \<Rightarrow> 'f runtime \<Rightarrow> 'f runtime \<times> (qstring \<times> 32 word \<times> immutable_guard option)" where
  "beginHostShutdownCleanup env s =
     (case retryPendingImmutableCleanup env s of
        (s1, True) \<Rightarrow> (s1, [], 0, None)
      | (s1, False) \<Rightarrow>
          (s1\<lparr>rc_cleanup := None, rc_cleanupError := [], rc_cleanupNative := 0\<rparr>,
           cleanup_error (rc_cleanupError s1), rc_cleanupNative s1, rc_cleanup s1))"

section \<open>The machine\<close>

text \<open>
  The calls of the coordinator, the calls other threads make on the tokens, and another process that
  writes an activation file.
\<close>

datatype 'f runtime_event =
    InstallAndActivate runtime_env qstring
  | InstallSite runtime_env qstring
  | StartOffline runtime_env
  | RequestLaunch runtime_env tab_authority qstring launch_intent int qstring
  | CancelLaunch launch_request
  | AdmitNow runtime_env full_attempt_key verified_lease
  | AdmitAt full_attempt_key verified_lease int
  | AdmitRequest runtime_env launch_request int
  | WorkerHeartbeat runtime_env full_attempt_key int
  | RouteLoaded runtime_env launch_request qstring int
  | RuntimeHealth runtime_env int
  | RuntimeExited runtime_env full_attempt_key worker_exit_reason int
  | AdmissionFailed runtime_env full_attempt_key qstring int
  | CleanupFailed full_attempt_key qstring "32 word"
  | DrainTimedOut "64 word" int
  | DrainCompleted "64 word" int
  | CloseTab tab_authority
  | BeginShutdown
  | HostCleanup runtime_env
  | TokenCall admission_event
  | FileChanged qstring "'f option"

definition new_runtime :: "(qstring \<Rightarrow> 'f option) \<Rightarrow> 'f runtime" where
  "new_runtime activations = \<lparr>rc_files = activations, rc_admission = empty_admission, rc_current = None, rc_candidate = None,
     rc_lkg = None, rc_tabs = [], rc_drain = None, rc_cleanup = None, rc_cleanupError = [], rc_cleanupNative = 0,
     rc_nextEpoch = 1, rc_nextDrain = 1, rc_promoted = False, rc_rollbackStarted = False, rc_shuttingDown = False,
     rc_failedClosed = False, rc_events = [], rc_consumed = []\<rparr>"

fun runtime_step :: "'f runtime_config \<Rightarrow> 'f runtime \<Rightarrow> 'f runtime_event \<Rightarrow> 'f runtime \<times> runtime_result" where
  "runtime_step cfg s (InstallAndActivate env p) = installAndActivate cfg env p s"
| "runtime_step cfg s (InstallSite env p) = installSitePackage cfg env p s"
| "runtime_step cfg s (StartOffline env) = startOffline cfg env s"
| "runtime_step cfg s (RequestLaunch env tab route intent now site) = requestTabLaunch cfg env tab route intent now site s"
| "runtime_step cfg s (CancelLaunch request) = cancelPendingLaunch cfg request s"
| "runtime_step cfg s (AdmitNow env key lease) = admit_now env key lease s"
| "runtime_step cfg s (AdmitAt key lease now) = admit_at key lease now s"
| "runtime_step cfg s (AdmitRequest env request now) = admit_request env request now s"
| "runtime_step cfg s (WorkerHeartbeat env key now) = worker_heartbeat cfg env key now s"
| "runtime_step cfg s (RouteLoaded env request template n) = (recordRouteLoadAcknowledged cfg env request template n s, applied)"
| "runtime_step cfg s (RuntimeHealth env now) = runtime_checkHealth cfg env now s"
| "runtime_step cfg s (RuntimeExited env key reason now) = runtime_workerExited cfg env key reason now s"
| "runtime_step cfg s (AdmissionFailed env key e now) = workerAdmissionFailed cfg env key e now s"
| "runtime_step cfg s (CleanupFailed key e native) = workerCleanupFailed cfg key e native s"
| "runtime_step cfg s (DrainTimedOut n now) = authorityDrainTimedOut n now s"
| "runtime_step cfg s (DrainCompleted n now) = authorityDrainCompleted cfg n now s"
| "runtime_step cfg s (CloseTab tab) = closeTab cfg tab s"
| "runtime_step cfg s BeginShutdown = beginShutdown cfg s"
| "runtime_step cfg s (HostCleanup env) = (fst (beginHostShutdownCleanup env s), applied)"
| "runtime_step cfg s (TokenCall e) = (s\<lparr>rc_admission := fst (admission_step (rc_admission s) e)\<rparr>, applied)"
| "runtime_step cfg s (FileChanged app f) = (s\<lparr>rc_files := (rc_files s)(app := f)\<rparr>, applied)"

end
