(* ===== verification/AppRuntimeProofs.thy ===== *)
theory AppRuntimeProofs
  imports AppRuntime
begin

text \<open>
  What holds of the coordinator in every run, whatever the Workers, the store, the system and the threads
  that hold admissions do.  Each operation is first taken apart into small steps on the tabs, the drain,
  the tokens and the flags; the invariants are then facts about the small steps.
\<close>

section \<open>Small steps\<close>

definition core :: "'f runtime \<Rightarrow> (tab_authority \<times> tab_state) list \<times> pending_drain option \<times> admission \<times> bool \<times> bool" where
  "core s = (rc_tabs s, rc_drain s, rc_admission s, rc_shuttingDown s, rc_failedClosed s)"

text \<open>A change of a tab that gives it no life and no authority it did not have.\<close>

definition calms :: "tab_state \<Rightarrow> tab_state \<Rightarrow> bool" where
  "calms t t' \<longleftrightarrow> ts_authority t' = ts_authority t \<and> ts_token t' = ts_token t \<and> ts_revoked t' = ts_revoked t
     \<and> (ts_retired t \<longrightarrow> ts_retired t') \<and> (ts_failedClosed t \<longrightarrow> ts_failedClosed t')"

definition alone :: "'f runtime \<Rightarrow> tab_authority \<Rightarrow> bool" where
  "alone s k \<longleftrightarrow> (\<forall>(l, t) \<in> set (rc_tabs s). ta_tabId l = ta_tabId k \<and> live_tab t \<longrightarrow> l = k)"

definition token_closed :: "admission \<Rightarrow> address \<Rightarrow> bool" where
  "token_closed adm a \<longleftrightarrow> a < length (adm_states adm) \<and> closed_state (adm_states adm ! a)"

text \<open>What a pending drain knows of the tabs it will recover.\<close>

definition drain_ok :: "'f runtime \<Rightarrow> pending_drain \<Rightarrow> bool" where
  "drain_ok s d \<longleftrightarrow>
     list_all (alone s) (pd_affected d) \<and> distinct (map ta_tabId (pd_affected d))
     \<and> list_all (\<lambda>k. token_closed (rc_admission s) (ticket_state k)) (db_tickets (pd_batch d))
     \<and> (\<forall>(k, t) \<in> set (rc_tabs s). k \<in> set (pd_affected d) \<longrightarrow>
          ts_revoked t \<and> (\<forall>a. ts_token t = Some a \<longrightarrow> a \<in> ticket_state ` set (db_tickets (pd_batch d))))"

inductive micro :: "'f runtime_config \<Rightarrow> 'f runtime \<Rightarrow> launch_request list \<Rightarrow> 'f runtime \<Rightarrow> bool" for cfg where
  other: "core s' = core s \<Longrightarrow> micro cfg s [] s'"
| change: "(\<And>t. (k, t) \<in> set (rc_tabs s) \<Longrightarrow> calms t (f t)) \<Longrightarrow> core s' = core (update_tab k f s) \<Longrightarrow> micro cfg s [] s'"
| revoke: "findTab s k = Some t \<Longrightarrow> micro cfg s [] (update_tab k revoked_tab (revoke_token cfg t s))"
| token: "micro cfg s [] (s\<lparr>rc_admission := fst (admission_step (rc_admission s) e)\<rparr>)"
| erase: "micro cfg s [] (erase_tab k s)"
| fail: "core s' = core (s\<lparr>rc_failedClosed := True\<rparr>) \<Longrightarrow> micro cfg s [] s'"
| shut: "micro cfg s [] (s\<lparr>rc_shuttingDown := True\<rparr>)"
| drain: "rc_drain s = None \<Longrightarrow> drain_ok s d \<Longrightarrow> core s' = core (s\<lparr>rc_drain := Some d\<rparr>) \<Longrightarrow> micro cfg s [] s'"
| time_out: "rc_drain s = Some d \<Longrightarrow>
    micro cfg s [] (s\<lparr>rc_drain := Some (d\<lparr>pd_timedOut := True\<rparr>), rc_failedClosed := True\<rparr>)"
| drained: "allTicketsDrained s \<Longrightarrow> micro cfg s [] (s\<lparr>rc_drain := None\<rparr>)"
| launch: "\<not> rc_shuttingDown s \<Longrightarrow> \<not> rc_failedClosed s \<Longrightarrow> rc_drain s = None \<Longrightarrow> alone s k \<Longrightarrow> ts_authority t = k \<Longrightarrow>
    validAuthority k \<Longrightarrow> make_token (rc_admission s) = (adm, a) \<Longrightarrow> lr_admission request = Some a \<Longrightarrow>
    micro cfg s [request] (put_tab k (launched_tab request watcher c now t) (s\<lparr>rc_nextEpoch := n, rc_admission := adm\<rparr>))"

inductive micros :: "'f runtime_config \<Rightarrow> 'f runtime \<Rightarrow> launch_request list \<Rightarrow> 'f runtime \<Rightarrow> bool" for cfg where
  stop: "micros cfg s [] s"
| more: "micro cfg s l t \<Longrightarrow> micros cfg t m u \<Longrightarrow> micros cfg s (l @ m) u"

lemma micros_trans [trans]: "micros cfg s l t \<Longrightarrow> micros cfg t m u \<Longrightarrow> micros cfg s (l @ m) u"
  by (induction rule: micros.induct) (auto intro: micros.more)

lemma micros_one: "micro cfg s l t \<Longrightarrow> micros cfg s l t"
  using micros.more [OF _ micros.stop] by fastforce

lemma micros_silent: "micros cfg s [] t \<Longrightarrow> micros cfg t m u \<Longrightarrow> micros cfg s m u"
  using micros_trans by fastforce

section \<open>The invariant\<close>

definition tab_ok :: "admission \<Rightarrow> tab_authority \<Rightarrow> tab_state \<Rightarrow> bool" where
  "tab_ok adm k t \<longleftrightarrow> ts_authority t = k \<and> validAuthority k
     \<and> (\<forall>a. ts_token t = Some a \<longrightarrow> a < length (adm_states adm) \<and> (ts_revoked t \<longrightarrow> token_closed adm a))"

definition runtime_inv :: "'f runtime \<Rightarrow> bool" where
  "runtime_inv s \<longleftrightarrow>
     distinct (map fst (rc_tabs s)) \<and> (\<forall>(k, t) \<in> set (rc_tabs s). tab_ok (rc_admission s) k t)
     \<and> (\<forall>(k, t) \<in> set (rc_tabs s). live_tab t \<longrightarrow> alone s k)
     \<and> (\<forall>(k, t) \<in> set (rc_tabs s). \<forall>(l, u) \<in> set (rc_tabs s). ts_token t \<noteq> None \<and> ts_token t = ts_token u \<longrightarrow> k = l)
     \<and> admission_inv (rc_admission s)
     \<and> (\<forall>d. rc_drain s = Some d \<longrightarrow> drain_ok s d)"

lemma runtime_invD:
  assumes "runtime_inv s"
  shows "distinct (map fst (rc_tabs s))" "\<And>k t. (k, t) \<in> set (rc_tabs s) \<Longrightarrow> tab_ok (rc_admission s) k t"
    and "\<And>k t. (k, t) \<in> set (rc_tabs s) \<Longrightarrow> live_tab t \<Longrightarrow> alone s k"
    and "\<And>k t l u. (k, t) \<in> set (rc_tabs s) \<Longrightarrow> (l, u) \<in> set (rc_tabs s) \<Longrightarrow> ts_token t \<noteq> None \<Longrightarrow>
      ts_token t = ts_token u \<Longrightarrow> k = l"
    and "admission_inv (rc_admission s)" "\<And>d. rc_drain s = Some d \<Longrightarrow> drain_ok s d"
  using assms unfolding runtime_inv_def by blast+

lemma runtime_invI:
  assumes "distinct (map fst (rc_tabs s))" "\<And>k t. (k, t) \<in> set (rc_tabs s) \<Longrightarrow> tab_ok (rc_admission s) k t"
    and "\<And>k t. (k, t) \<in> set (rc_tabs s) \<Longrightarrow> live_tab t \<Longrightarrow> alone s k"
    and "\<And>k t l u. (k, t) \<in> set (rc_tabs s) \<Longrightarrow> (l, u) \<in> set (rc_tabs s) \<Longrightarrow> ts_token t \<noteq> None \<Longrightarrow>
      ts_token t = ts_token u \<Longrightarrow> k = l"
    and "admission_inv (rc_admission s)" "\<And>d. rc_drain s = Some d \<Longrightarrow> drain_ok s d"
  shows "runtime_inv s"
  using assms unfolding runtime_inv_def by (intro conjI; blast)

lemma drain_okD:
  assumes "drain_ok s d"
  shows "\<And>k. k \<in> set (pd_affected d) \<Longrightarrow> alone s k" "distinct (map ta_tabId (pd_affected d))"
    and "\<And>k. k \<in> set (db_tickets (pd_batch d)) \<Longrightarrow> token_closed (rc_admission s) (ticket_state k)"
    and "\<And>k t. (k, t) \<in> set (rc_tabs s) \<Longrightarrow> k \<in> set (pd_affected d) \<Longrightarrow> ts_revoked t"
    and "\<And>k t a. (k, t) \<in> set (rc_tabs s) \<Longrightarrow> k \<in> set (pd_affected d) \<Longrightarrow> ts_token t = Some a \<Longrightarrow>
      a \<in> ticket_state ` set (db_tickets (pd_batch d))"
  using assms by (auto simp: drain_ok_def list_all_iff)

lemma drain_okI:
  assumes "\<And>k. k \<in> set (pd_affected d) \<Longrightarrow> alone s k" "distinct (map ta_tabId (pd_affected d))"
    and "\<And>k. k \<in> set (db_tickets (pd_batch d)) \<Longrightarrow> token_closed (rc_admission s) (ticket_state k)"
    and "\<And>k t. (k, t) \<in> set (rc_tabs s) \<Longrightarrow> k \<in> set (pd_affected d) \<Longrightarrow>
      ts_revoked t \<and> (\<forall>a. ts_token t = Some a \<longrightarrow> a \<in> ticket_state ` set (db_tickets (pd_batch d)))"
  shows "drain_ok s d"
  using assms unfolding drain_ok_def list_all_iff by (intro conjI; blast)

lemma core_cong:
  assumes "core s' = core s"
  shows "runtime_inv s' = runtime_inv s" "alone s' = alone s" "drain_ok s' = drain_ok s" "findTab s' = findTab s"
    "rc_tabs s' = rc_tabs s" "rc_drain s' = rc_drain s" "rc_admission s' = rc_admission s"
    "rc_shuttingDown s' = rc_shuttingDown s" "rc_failedClosed s' = rc_failedClosed s"
proof -
  have eq: "rc_tabs s' = rc_tabs s" "rc_drain s' = rc_drain s" "rc_admission s' = rc_admission s"
    "rc_shuttingDown s' = rc_shuttingDown s" "rc_failedClosed s' = rc_failedClosed s"
    using assms by (simp_all add: core_def)
  show alone: "alone s' = alone s" by (rule ext) (simp only: alone_def eq)
  show d: "drain_ok s' = drain_ok s" by (rule ext) (simp only: drain_ok_def eq alone)
  show "runtime_inv s' = runtime_inv s" by (simp only: runtime_inv_def eq alone d)
  show "findTab s' = findTab s" by (rule ext) (simp only: findTab_def eq)
  show "rc_tabs s' = rc_tabs s" "rc_drain s' = rc_drain s" "rc_admission s' = rc_admission s"
    "rc_shuttingDown s' = rc_shuttingDown s" "rc_failedClosed s' = rc_failedClosed s" by (fact eq)+
qed

lemma findTab_in: "findTab s k = Some t \<Longrightarrow> (k, t) \<in> set (rc_tabs s)"
  by (simp add: findTab_def map_of_SomeD)

lemma findTab_iff: "runtime_inv s \<Longrightarrow> findTab s k = Some t \<longleftrightarrow> (k, t) \<in> set (rc_tabs s)"
  by (simp add: findTab_def runtime_invD(1))

text \<open>Tabs that only lose life and authority keep the invariant.\<close>

lemma inv_shrink:
  assumes inv: "runtime_inv s" and "distinct (map fst (rc_tabs s'))"
    and same: "rc_admission s' = rc_admission s" "rc_drain s' = rc_drain s \<or> rc_drain s' = None"
    and from_old: "\<And>k t'. (k, t') \<in> set (rc_tabs s') \<Longrightarrow> \<exists>t. (k, t) \<in> set (rc_tabs s) \<and> ts_token t' = ts_token t
      \<and> (live_tab t' \<longrightarrow> live_tab t) \<and> (ts_revoked t \<longrightarrow> ts_revoked t') \<and> tab_ok (rc_admission s) k t'"
  shows "runtime_inv s'"
proof (rule runtime_invI)
  have alone: "alone s k \<Longrightarrow> alone s' k" for k using from_old unfolding alone_def by fast
  show "alone s' k" if "(k, t) \<in> set (rc_tabs s')" "live_tab t" for k t
    using from_old [OF that(1)] that(2) runtime_invD(3) [OF inv] alone by blast
  show "drain_ok s' d" if "rc_drain s' = Some d" for d
  proof -
    have d: "drain_ok s d" using that same(2) runtime_invD(6) [OF inv] by auto
    have "ts_revoked t' \<and> (\<forall>a. ts_token t' = Some a \<longrightarrow> a \<in> ticket_state ` set (db_tickets (pd_batch d)))"
      if "(k, t') \<in> set (rc_tabs s')" "k \<in> set (pd_affected d)" for k t'
      using from_old [OF that(1)] drain_okD(4,5) [OF d _ that(2)] by metis
    with d alone same(1) show ?thesis by (auto simp: drain_ok_def list_all_iff)
  qed
  show "k = l" if "(k, t) \<in> set (rc_tabs s')" "(l, u) \<in> set (rc_tabs s')" "ts_token t \<noteq> None" "ts_token t = ts_token u" for k t l u
    using from_old [OF that(1)] from_old [OF that(2)] that(3,4) runtime_invD(4) [OF inv] by metis
qed (use assms from_old runtime_invD [OF inv] in auto)

lemma inv_update:
  assumes "runtime_inv s"
    and "\<And>t. (k, t) \<in> set (rc_tabs s) \<Longrightarrow> ts_token (f t) = ts_token t \<and> (live_tab (f t) \<longrightarrow> live_tab t)
      \<and> (ts_revoked t \<longrightarrow> ts_revoked (f t)) \<and> tab_ok (rc_admission s) k (f t)"
  shows "runtime_inv (update_tab k f s)"
proof (rule inv_shrink [OF assms(1)])
  have "map fst (rc_tabs (update_tab k f s)) = map fst (rc_tabs s)" by (auto simp: update_tab_def)
  with runtime_invD(1) [OF assms(1)] show "distinct (map fst (rc_tabs (update_tab k f s)))" by metis
  fix l t'
  assume "(l, t') \<in> set (rc_tabs (update_tab k f s))"
  then obtain t where t: "(l, t) \<in> set (rc_tabs s)" "t' = (if l = k then f t else t)" by (auto simp: update_tab_def)
  then show "\<exists>t. (l, t) \<in> set (rc_tabs s) \<and> ts_token t' = ts_token t \<and> (live_tab t' \<longrightarrow> live_tab t)
      \<and> (ts_revoked t \<longrightarrow> ts_revoked t') \<and> tab_ok (rc_admission s) l t'"
    using assms(2) [of t] runtime_invD(2) [OF assms(1) t(1)] by (intro exI [of _ t]) auto
qed (simp_all add: update_tab_def)

lemma inv_erase: "runtime_inv s \<Longrightarrow> runtime_inv (erase_tab k s)"
  by (rule inv_shrink) (auto simp: erase_tab_def runtime_inv_def intro: distinct_map_filter)

lemma token_closed_step: "token_closed adm a \<Longrightarrow> token_closed (fst (admission_step adm e)) a"
  using closed_state_step [of a adm e] by (simp add: token_closed_def)

lemma inv_token: "runtime_inv s \<Longrightarrow> runtime_inv (s\<lparr>rc_admission := fst (admission_step (rc_admission s) e)\<rparr>)"
  using closed_state_step [of _ "rc_admission s" e] token_closed_step [of "rc_admission s" _ e] admission_inv_step [of "rc_admission s" e]
  by (auto simp: runtime_inv_def alone_def drain_ok_def tab_ok_def list_all_iff; fastforce)

lemma revoke_token_step: "revoke_token cfg t s = (case ts_token t of None \<Rightarrow> s
    | Some a \<Rightarrow> s\<lparr>rc_admission := fst (admission_step (rc_admission s) (BeginRevoke (rg_thread cfg) a))\<rparr>)"
  by (simp add: revoke_token_def split: option.split)

lemma revoke_token_closes:
  "ts_token t = Some a \<Longrightarrow> a < length (adm_states (rc_admission s)) \<Longrightarrow> token_closed (rc_admission (revoke_token cfg t s)) a"
  by (simp add: revoke_token_def token_closed_def beginRevoke_facts)

lemma inv_revoke_token: "runtime_inv s \<Longrightarrow> runtime_inv (revoke_token cfg t s)"
  unfolding revoke_token_step by (auto intro: inv_token split: option.split simp del: admission_step.simps)

lemma revoke_token_frame [simp]:
  "rc_tabs (revoke_token cfg t s) = rc_tabs s" "rc_drain (revoke_token cfg t s) = rc_drain s"
  "rc_shuttingDown (revoke_token cfg t s) = rc_shuttingDown s" "rc_failedClosed (revoke_token cfg t s) = rc_failedClosed s"
  by (simp_all add: revoke_token_def split: option.split)

lemma inv_revoke:
  assumes inv: "runtime_inv s" and t: "findTab s k = Some t"
  shows "runtime_inv (update_tab k revoked_tab (revoke_token cfg t s))"
proof (rule inv_update [OF inv_revoke_token [OF inv]])
  fix u
  assume u: "(k, u) \<in> set (rc_tabs (revoke_token cfg t s))"
  then have "u = t" using t by (simp add: findTab_iff [OF inv, symmetric])
  then have "tab_ok (rc_admission (revoke_token cfg t s)) k t"
    using runtime_invD(2) [OF inv_revoke_token [OF inv] u] by simp
  moreover have "ts_token t = Some a \<Longrightarrow> token_closed (rc_admission (revoke_token cfg t s)) a" for a
    using runtime_invD(2) [OF inv findTab_in [OF t]] revoke_token_closes [of t a s cfg] by (simp add: tab_ok_def)
  ultimately show "ts_token (revoked_tab u) = ts_token u \<and> (live_tab (revoked_tab u) \<longrightarrow> live_tab u)
      \<and> (ts_revoked u \<longrightarrow> ts_revoked (revoked_tab u)) \<and> tab_ok (rc_admission (revoke_token cfg t s)) k (revoked_tab u)"
    using \<open>u = t\<close> by (auto simp: revoked_tab_def live_tab_def tab_ok_def)
qed

text \<open>A launch: the tab is alone in its tab identifier, and its token is a new one.\<close>

lemma set_tabs_emplace: "set (tabs_emplace k v ts) = insert (k, v) (set ts)"
  by (induction ts rule: tabs_emplace.induct) auto

lemma distinct_tabs_emplace: "distinct (map fst ts) \<Longrightarrow> k \<notin> fst ` set ts \<Longrightarrow> distinct (map fst (tabs_emplace k v ts))"
  by (induction k v ts rule: tabs_emplace.induct) (auto simp: set_tabs_emplace)

lemma findTab_None: "findTab s k = None \<longleftrightarrow> k \<notin> fst ` set (rc_tabs s)"
  by (simp add: findTab_def map_of_eq_None_iff)

lemma put_tab_tabs:
  "set (rc_tabs (put_tab k v s)) = insert (k, v) {(l, t) \<in> set (rc_tabs s). l \<noteq> k}"
proof (cases "findTab s k = None")
  case True
  then show ?thesis by (force simp: put_tab_def set_tabs_emplace findTab_None)
next
  case False
  then have "k \<in> fst ` set (rc_tabs s)" by (simp add: findTab_None)
  with False show ?thesis by (force simp: put_tab_def update_tab_def)
qed

lemma put_tab_distinct: "distinct (map fst (rc_tabs s)) \<Longrightarrow> distinct (map fst (rc_tabs (put_tab k v s)))"
proof (cases "findTab s k = None")
  case False
  assume "distinct (map fst (rc_tabs s))"
  moreover have "map fst (rc_tabs (put_tab k v s)) = map fst (rc_tabs s)"
    using False by (auto simp: put_tab_def update_tab_def)
  ultimately show ?thesis by simp
qed (simp add: put_tab_def distinct_tabs_emplace findTab_None)

lemma put_tab_frame [simp]:
  "rc_admission (put_tab k v s) = rc_admission s" "rc_drain (put_tab k v s) = rc_drain s"
  "rc_shuttingDown (put_tab k v s) = rc_shuttingDown s" "rc_failedClosed (put_tab k v s) = rc_failedClosed s"
  by (simp_all add: put_tab_def update_tab_def)

lemma inv_put:
  assumes inv: "runtime_inv s" and "rc_drain s = None" and alone: "alone s k"
    and ok: "tab_ok (rc_admission s) k v" and fresh: "\<And>l u. (l, u) \<in> set (rc_tabs s) \<Longrightarrow> ts_token u \<noteq> ts_token v"
  shows "runtime_inv (put_tab k v s)"
proof (rule runtime_invI)
  show "alone (put_tab k v s) l" if "(l, t) \<in> set (rc_tabs (put_tab k v s))" "live_tab t" for l t
  proof (cases "l = k")
    case True
    with alone show ?thesis by (auto simp: alone_def put_tab_tabs)
  next
    case False
    with that have l: "(l, t) \<in> set (rc_tabs s)" by (simp add: put_tab_tabs)
    from runtime_invD(3) [OF inv l that(2)] have "alone s l" .
    moreover from alone l that(2) False have "ta_tabId l \<noteq> ta_tabId k" by (auto simp: alone_def)
    ultimately show ?thesis by (auto simp: alone_def put_tab_tabs)
  qed
  show "l = m" if "(l, t) \<in> set (rc_tabs (put_tab k v s))" "(m, u) \<in> set (rc_tabs (put_tab k v s))"
    "ts_token t \<noteq> None" "ts_token t = ts_token u" for l t m u
    using that fresh runtime_invD(4) [OF inv] by (simp add: put_tab_tabs) metis
qed (use assms runtime_invD [OF inv] in \<open>auto simp: put_tab_tabs intro: put_tab_distinct\<close>)

lemma make_token_step: "make_token adm = (adm1, a) \<Longrightarrow> adm1 = fst (admission_step adm MakeToken) \<and> a = length (adm_states adm)
    \<and> length (adm_states adm1) = Suc (length (adm_states adm))"
  by (auto simp: make_token_def)

lemma inv_launch:
  assumes inv: "runtime_inv s" and "rc_drain s = None" "alone s k" "ts_authority t = k" "validAuthority k"
    and token: "make_token (rc_admission s) = (adm, a)" and "lr_admission request = Some a"
  shows "runtime_inv (put_tab k (launched_tab request watcher c now t) (s\<lparr>rc_nextEpoch := n, rc_admission := adm\<rparr>))"
proof (rule inv_put)
  note m = make_token_step [OF token]
  have "runtime_inv (s\<lparr>rc_admission := adm\<rparr>)" using inv_token [OF inv, of MakeToken] m by simp
  then show "runtime_inv (s\<lparr>rc_nextEpoch := n, rc_admission := adm\<rparr>)"
    by (subst core_cong(1) [where s = "s\<lparr>rc_admission := adm\<rparr>"]) (simp_all add: core_def)
  show "ts_token u \<noteq> ts_token (launched_tab request watcher c now t)"
    if "(l, u) \<in> set (rc_tabs (s\<lparr>rc_nextEpoch := n, rc_admission := adm\<rparr>))" for l u
    using runtime_invD(2) [OF inv, of l u] that m assms(7) by (auto simp: tab_ok_def launched_tab_def)
qed (use assms make_token_step [OF token] in \<open>auto simp: alone_def tab_ok_def launched_tab_def\<close>)

lemma alone_frame [simp]:
  "alone (s\<lparr>rc_drain := x\<rparr>) = alone s" "alone (s\<lparr>rc_failedClosed := b\<rparr>) = alone s"
  "alone (s\<lparr>rc_shuttingDown := b\<rparr>) = alone s" "alone (s\<lparr>rc_admission := adm\<rparr>) = alone s"
  by (simp_all add: alone_def fun_eq_iff)

lemma drain_ok_frame [simp]:
  "drain_ok (s\<lparr>rc_drain := x\<rparr>) = drain_ok s" "drain_ok (s\<lparr>rc_failedClosed := b\<rparr>) = drain_ok s"
  "drain_ok (s\<lparr>rc_shuttingDown := b\<rparr>) = drain_ok s"
  by (simp_all add: drain_ok_def fun_eq_iff)

lemma inv_drain:
  assumes inv: "runtime_inv s" and "drain_ok s d"
  shows "runtime_inv (s\<lparr>rc_drain := Some d\<rparr>)"
  using assms by (simp add: runtime_inv_def)

lemma inv_no_drain: "runtime_inv s \<Longrightarrow> runtime_inv (s\<lparr>rc_drain := None\<rparr>)"
  by (simp add: runtime_inv_def)

lemma inv_flags:
  "runtime_inv (s\<lparr>rc_failedClosed := b\<rparr>) = runtime_inv s" "runtime_inv (s\<lparr>rc_shuttingDown := b\<rparr>) = runtime_inv s"
  by (simp_all add: runtime_inv_def)

lemma calms_ok: "calms t t' \<Longrightarrow> tab_ok adm k t \<Longrightarrow> ts_token t' = ts_token t \<and> (live_tab t' \<longrightarrow> live_tab t)
    \<and> (ts_revoked t \<longrightarrow> ts_revoked t') \<and> tab_ok adm k t'"
  by (auto simp: calms_def live_tab_def tab_ok_def)

lemma micro_inv: "micro cfg s l s' \<Longrightarrow> runtime_inv s \<Longrightarrow> runtime_inv s'"
proof (induction rule: micro.induct)
  case (other s' s)
  then show ?case by (simp add: core_cong(1) [OF other(1)])
next
  case (change k s f s')
  have "runtime_inv (update_tab k f s)"
    using calms_ok [OF change(1)] runtime_invD(2) [OF change(3)] by (blast intro: inv_update [OF change(3)])
  then show ?case by (simp add: core_cong(1) [OF change(2)])
next
  case (drain s d s')
  then show ?case by (simp add: core_cong(1) [OF drain(3)] inv_drain)
next
  case (time_out s d)
  have "drain_ok s (d\<lparr>pd_timedOut := True\<rparr>)" using runtime_invD(6) [OF time_out(2,1)] by (simp add: drain_ok_def)
  then have "runtime_inv ((s\<lparr>rc_drain := Some (d\<lparr>pd_timedOut := True\<rparr>)\<rparr>)\<lparr>rc_failedClosed := True\<rparr>)"
    using inv_drain [OF time_out(2)] by (simp only: inv_flags)
  then show ?case by simp
next
  case (fail s' s)
  then show ?case by (simp add: core_cong(1) [OF fail(1)] inv_flags)
next
  case (token s e)
  then show ?case by (rule inv_token)
next
  case (launch s k t adm a request watcher c now n)
  then show ?case by (blast intro: inv_launch)
qed (simp_all add: inv_revoke inv_erase inv_no_drain inv_flags)

lemma micros_inv: "micros cfg s l s' \<Longrightarrow> runtime_inv s \<Longrightarrow> runtime_inv s'"
  by (induction rule: micros.induct) (auto dest: micro_inv)

text \<open>A runtime that is shutting down or has failed launches nothing and stays so.\<close>

definition stopped_runtime :: "'f runtime \<Rightarrow> bool" where
  "stopped_runtime s \<longleftrightarrow> rc_shuttingDown s \<or> rc_failedClosed s"

lemma update_tab_frame [simp]:
  "rc_admission (update_tab k f s) = rc_admission s" "rc_drain (update_tab k f s) = rc_drain s"
  "rc_shuttingDown (update_tab k f s) = rc_shuttingDown s" "rc_failedClosed (update_tab k f s) = rc_failedClosed s"
  by (simp_all add: update_tab_def)

lemma erase_tab_frame [simp]:
  "rc_admission (erase_tab k s) = rc_admission s" "rc_drain (erase_tab k s) = rc_drain s"
  "rc_shuttingDown (erase_tab k s) = rc_shuttingDown s" "rc_failedClosed (erase_tab k s) = rc_failedClosed s"
  by (simp_all add: erase_tab_def)

lemma micro_stopped: "micro cfg s l s' \<Longrightarrow> stopped_runtime s \<Longrightarrow> stopped_runtime s' \<and> l = []"
  by (induction rule: micro.induct) (auto simp: stopped_runtime_def core_def)

lemma micros_stopped: "micros cfg s l s' \<Longrightarrow> stopped_runtime s \<Longrightarrow> stopped_runtime s' \<and> l = []"
  by (induction rule: micros.induct) (auto dest: micro_stopped)

text \<open>Whatever holds of the tokens in every run of theirs holds of them in the runtime.\<close>

locale token_fact =
  fixes fact :: "admission \<Rightarrow> bool"
  assumes fact_step: "fact adm \<Longrightarrow> fact (fst (admission_step adm e))"
begin

lemma micro_fact: "micro cfg s l s' \<Longrightarrow> fact (rc_admission s) \<Longrightarrow> fact (rc_admission s')"
proof (induction rule: micro.induct)
  case (revoke s k t)
  then show ?case by (simp add: revoke_token_step fact_step del: admission_step.simps split: option.split)
next
  case (token s e)
  then show ?case by (simp add: fact_step)
next
  case (launch s k t adm a request watcher c now n)
  then show ?case using make_token_step [OF launch(7)] by (simp add: fact_step del: admission_step.simps)
qed (simp_all add: core_def)

lemma micros_fact: "micros cfg s l s' \<Longrightarrow> fact (rc_admission s) \<Longrightarrow> fact (rc_admission s')"
  by (induction rule: micros.induct) (auto dest: micro_fact)

end

interpretation closed_tokens: token_fact "\<lambda>adm. token_closed adm a" by unfold_locales (rule token_closed_step)

interpretation revoked_tokens: token_fact "revoked_since a n c" by unfold_locales (rule revoked_since_step)

section \<open>The operations in small steps\<close>

lemma m_other: "core s' = core s \<Longrightarrow> micros cfg s [] s'"
  by (rule micros_one) (rule micro.other)

lemma m_fail: "core s' = core (s\<lparr>rc_failedClosed := True\<rparr>) \<Longrightarrow> micros cfg s [] s'"
  by (rule micros_one) (rule micro.fail)

lemma m_change: "(\<And>t. (k, t) \<in> set (rc_tabs s) \<Longrightarrow> calms t (f t)) \<Longrightarrow> micros cfg s [] (update_tab k f s)"
  by (rule micros_one) (rule micro.change [OF _ refl])

lemma m_revoke: "micros cfg s [] (revokeSilently cfg k s)"
  by (auto simp: revokeSilently_def intro: micros_one micro.revoke micros.stop split: option.split)

definition launch_actions :: "runtime_action list \<Rightarrow> launch_request list" where
  "launch_actions as = concat (map (\<lambda>a. case ra_launch a of None \<Rightarrow> [] | Some r \<Rightarrow> if ra_kind a = ActLaunch then [r] else []) as)"

definition launches :: "runtime_result \<Rightarrow> launch_request list" where
  "launches r = launch_actions (rr_actions r)"

lemma launch_actions_simps [simp]:
  "launch_actions [] = []" "launch_actions (as @ bs) = launch_actions as @ launch_actions bs"
  "launch_actions (makeTabAction kind tab # as) = launch_actions as"
  "launch_actions (await_drain b # as) = launch_actions as" "launch_actions (tab_actions kind tabs) = []"
  "launch_actions (\<lparr>ra_kind = ActLaunch, ra_tab = tab, ra_launch = Some r, ra_drain = x\<rparr> # as) = r # launch_actions as"
  by (induction tabs) (simp_all add: launch_actions_def makeTabAction_def await_drain_def tab_actions_def)

lemma launch_actions_map [simp]: "launch_actions (map (\<lambda>k. makeTabAction k tab) ks) = []"
  by (induction ks) simp_all

lemma launches_actions [simp]: "launches (r\<lparr>rr_actions := as\<rparr>) = launch_actions as"
  by (simp add: launches_def)

lemma launches_plain [simp]:
  "launches (plain_result c e) = []" "launches applied = []" "launches staleResult = []" "launches (rejectedResult m) = []"
  "launches (failedClosedResult e n) = []" "launches (immutableCleanupFailureResult s) = []" "launches (pending_drain_result d) = []"
  "launches (error_or e m) = []" "launches (verifiedStartupResult v) = []"
  by (simp_all add: launches_def launch_actions_def plain_result_def applied_def staleResult_def rejectedResult_def failedClosedResult_def
      immutableCleanupFailureResult_def pending_drain_result_def error_or_def verifiedStartupResult_def)

text \<open>An operation is a chain of small steps that launches what its result says.\<close>

definition chained :: "'f runtime_config \<Rightarrow> 'f runtime \<Rightarrow> 'f runtime \<times> runtime_result \<Rightarrow> bool" where
  "chained cfg s r \<longleftrightarrow> micros cfg s (launches (snd r)) (fst r)"

lemma core_records [simp]:
  "core (s\<lparr>rc_files := a\<rparr>) = core s" "core (s\<lparr>rc_current := b\<rparr>) = core s" "core (s\<lparr>rc_candidate := c\<rparr>) = core s"
  "core (s\<lparr>rc_lkg := b\<rparr>) = core s" "core (s\<lparr>rc_cleanup := g\<rparr>) = core s" "core (s\<lparr>rc_cleanupError := e\<rparr>) = core s"
  "core (s\<lparr>rc_cleanupNative := n\<rparr>) = core s" "core (s\<lparr>rc_nextEpoch := m\<rparr>) = core s" "core (s\<lparr>rc_nextDrain := m\<rparr>) = core s"
  "core (s\<lparr>rc_promoted := p\<rparr>) = core s" "core (s\<lparr>rc_rollbackStarted := p\<rparr>) = core s" "core (s\<lparr>rc_events := es\<rparr>) = core s"
  "core (s\<lparr>rc_consumed := ds\<rparr>) = core s"
  by (simp_all add: core_def)

lemma core_failed: "core s' = core s \<Longrightarrow> core (s'\<lparr>rc_failedClosed := True\<rparr>) = core (s\<lparr>rc_failedClosed := True\<rparr>)"
  by (simp add: core_def)

lemma core_record [simp]: "core (record_runtime cfg p c v n s) = core s"
  by (simp add: record_runtime_def split: sum.split)

lemma core_consume [simp]: "core (consume_drain cfg b s) = core s"
  by (simp add: consume_drain_def)

lemma core_store [simp]: "core (fst (store_call a r s)) = core s"
  by (simp add: store_call_def)

lemma core_install [simp]: "core (fst (run_install cfg env r s)) = core s"
  by (simp add: run_install_def Let_def split_beta)

lemma core_settle [simp]: "core (fst (settleTemporaryVerification x r s)) = core s"
  by (simp add: settleTemporaryVerification_def Let_def)

lemma core_retry [simp]: "core (fst (retryPendingImmutableCleanup env s)) = core s"
  by (simp add: retryPendingImmutableCleanup_def split: option.split prod.split)

lemma core_previous [simp]: "core (fst (previous_current cfg env s)) = core s"
  by (simp add: previous_current_def Let_def split_beta split: option.split sum.split)

lemma chained_same: "core (fst r) = core s \<Longrightarrow> launches (snd r) = [] \<Longrightarrow> chained cfg s r"
  by (simp add: chained_def m_other)

lemma chained_cleanup: "core s' = core s \<Longrightarrow> chained cfg s (cleanup_failed s')"
  by (auto simp: chained_def cleanup_failed_def fail_runtime_def intro: m_fail core_failed)

lemma chained_after:
  "micros cfg s [] t \<Longrightarrow> chained cfg t r \<Longrightarrow> chained cfg s r"
  by (auto simp: chained_def intro: micros_silent)

lemma chained_silent: "micros cfg s [] (fst r) \<Longrightarrow> launches (snd r) = [] \<Longrightarrow> chained cfg s r"
  by (simp add: chained_def)

subsection \<open>Installing and starting\<close>

text \<open>The control structure of an operation: each call that leaves the core alone is passed over.\<close>

lemma chained_if: "(c \<Longrightarrow> chained cfg s a) \<Longrightarrow> (\<not> c \<Longrightarrow> chained cfg s b) \<Longrightarrow> chained cfg s (if c then a else b)"
  by simp

lemma chained_option:
  "(x = None \<Longrightarrow> chained cfg s a) \<Longrightarrow> (\<And>y. x = Some y \<Longrightarrow> chained cfg s (f y)) \<Longrightarrow>
    chained cfg s (case x of None \<Rightarrow> a | Some y \<Rightarrow> f y)"
  by (simp split: option.split)

lemma chained_sum:
  "(\<And>y. x = Inl y \<Longrightarrow> chained cfg s (f y)) \<Longrightarrow> (\<And>y. x = Inr y \<Longrightarrow> chained cfg s (g y)) \<Longrightarrow>
    chained cfg s (case x of Inl y \<Rightarrow> f y | Inr y \<Rightarrow> g y)"
  by (simp split: sum.split)

lemma chained_settle:
  assumes "core s' = core s" "\<And>s1 y b. core s1 = core s \<Longrightarrow> chained cfg s (f s1 y b)"
  shows "chained cfg s (case settleTemporaryVerification w x s' of (s1, y, b) \<Rightarrow> f s1 y b)"
  using assms(2) core_settle [of w x s'] assms(1) by (simp add: split_beta)

lemma chained_retry:
  assumes "\<And>s1 b. core s1 = core s \<Longrightarrow> chained cfg s (f s1 b)"
  shows "chained cfg s (case retryPendingImmutableCleanup env s of (s1, b) \<Rightarrow> f s1 b)"
  using assms by (simp add: split_beta)

lemma chained_install:
  assumes "core s' = core s" "\<And>s1 y. core s1 = core s \<Longrightarrow> chained cfg s (f s1 y)"
  shows "chained cfg s (case run_install cfg env p s' of (s1, y) \<Rightarrow> f s1 y)"
  using assms core_install [of cfg env p s'] by (simp add: split_beta)

lemma chained_previous:
  assumes "core s' = core s" "\<And>s1 d b. core s1 = core s \<Longrightarrow> chained cfg s (f s1 d b)"
  shows "chained cfg s (case previous_current cfg env s' of (s1, d, b) \<Rightarrow> f s1 d b)"
  using assms core_previous [of cfg env s'] by (simp add: split_beta)

lemmas chained_control = chained_if chained_option chained_sum chained_settle chained_retry chained_install chained_previous

lemma chained_installAndActivate: "chained cfg s (installAndActivate cfg env p s)"
  unfolding installAndActivate_def Let_def
  by (rule chained_control chained_cleanup chained_same | assumption | simp)+

lemma chained_installSitePackage: "chained cfg s (installSitePackage cfg env p s)"
  unfolding installSitePackage_def
  by (rule chained_control chained_cleanup chained_same | assumption | simp)+

text \<open>A part of an operation that goes on, or that has decided the result.\<close>

definition decides :: "'f runtime_config \<Rightarrow> 'f runtime \<Rightarrow> 'f runtime \<times> (runtime_result + 'x) \<Rightarrow> bool" where
  "decides cfg s r \<longleftrightarrow> (case snd r of Inl answer \<Rightarrow> chained cfg s (fst r, answer) | Inr x \<Rightarrow> core (fst r) = core s)"

lemma chained_decides:
  assumes "decides cfg s r" and "\<And>s1 x. core s1 = core s \<Longrightarrow> chained cfg s (f s1 x)"
  shows "chained cfg s (case r of (s1, Inl answer) \<Rightarrow> (s1, answer) | (s1, Inr x) \<Rightarrow> f s1 x)"
  using assms by (auto simp: decides_def split: prod.split sum.splits)

lemma decides_same:
  "core s' = core s \<Longrightarrow> decides cfg s (s', Inr x)" "core s' = core s \<Longrightarrow> launches a = [] \<Longrightarrow> decides cfg s (s', Inl a)"
  by (simp_all add: decides_def chained_same)

lemma decides_failed:
  "core s' = core s \<Longrightarrow> decides cfg s (fail_runtime s', Inl (immutableCleanupFailureResult s'))"
  using chained_cleanup [of s' s cfg] by (simp add: decides_def cleanup_failed_def)

lemma decides_if: "(c \<Longrightarrow> decides cfg s a) \<Longrightarrow> (\<not> c \<Longrightarrow> decides cfg s b) \<Longrightarrow> decides cfg s (if c then a else b)"
  by simp

lemma decides_option:
  "(x = None \<Longrightarrow> decides cfg s a) \<Longrightarrow> (\<And>y. x = Some y \<Longrightarrow> decides cfg s (f y)) \<Longrightarrow>
    decides cfg s (case x of None \<Rightarrow> a | Some y \<Rightarrow> f y)"
  by (simp split: option.split)

lemma decides_settle:
  assumes "core s' = core s" "\<And>s1 y b. core s1 = core s \<Longrightarrow> decides cfg s (f s1 y b)"
  shows "decides cfg s (case settleTemporaryVerification w x s' of (s1, y, b) \<Rightarrow> f s1 y b)"
  using assms(2) core_settle [of w x s'] assms(1) by (simp add: split_beta)

lemma decides_store:
  assumes "core s' = core s" "\<And>s1 y. core s1 = core s \<Longrightarrow> decides cfg s (f s1 y)"
  shows "decides cfg s (case store_call a r s' of (s1, y) \<Rightarrow> f s1 y)"
  using assms by (simp add: split_beta)

lemmas decides_control = decides_if decides_option decides_settle decides_store decides_failed decides_same

lemma decides_recover: "core s' = core s \<Longrightarrow> decides cfg s (recover_offline cfg env st binding s')"
  unfolding recover_offline_def Let_def by (rule decides_control | assumption | simp)+

lemma decides_lkg: "core s' = core s \<Longrightarrow> decides cfg s (offline_lkg cfg env st d s')"
  unfolding offline_lkg_def Let_def by (rule decides_control | assumption | simp)+

lemma chained_started: "core s' = core s \<Longrightarrow> chained cfg s (started_offline d l p s')"
  by (simp add: started_offline_def chained_same)

lemma chained_recovered:
  assumes "decides cfg s r"
    and "\<And>s1. core s1 = core s \<Longrightarrow> chained cfg s (f s1)" "\<And>s1 d. core s1 = core s \<Longrightarrow> chained cfg s (g s1 d)"
  shows "chained cfg s (case r of (s1, Inl answer) \<Rightarrow> (s1, answer) | (s1, Inr None) \<Rightarrow> f s1 | (s1, Inr (Some d)) \<Rightarrow> g s1 d)"
  using assms by (auto simp: decides_def split: prod.split sum.splits option.split)

lemma chained_startOffline: "chained cfg s (startOffline cfg env s)"
  unfolding startOffline_def Let_def
  by (rule chained_control chained_decides [OF decides_lkg] chained_recovered [OF decides_recover] chained_started
      chained_cleanup chained_same | assumption | simp)+

subsection \<open>Tabs\<close>

lemma findTab_update: "findTab (update_tab k f s) l = (if l = k then map_option f (findTab s k) else findTab s l)"
proof -
  have "map_of (map (\<lambda>(m, v). (m, if m = k then f v else v)) ts) l
      = (if l = k then map_option f (map_of ts k) else map_of ts l)" for ts
    by (induction ts) auto
  then show ?thesis by (simp add: findTab_def update_tab_def)
qed

lemma findTab_frame [simp]:
  "findTab (s\<lparr>rc_admission := adm\<rparr>) = findTab s" "findTab (s\<lparr>rc_nextEpoch := n\<rparr>) = findTab s"
  "findTab (revoke_token cfg t s) = findTab s"
  by (simp_all add: findTab_def fun_eq_iff)

lemma findTab_revokeSilently:
  "findTab (revokeSilently cfg k s) l = (if l = k then map_option revoked_tab (findTab s k) else findTab s l)"
  by (simp add: revokeSilently_def findTab_update split: option.split)

lemma revokeSilently_frame [simp]:
  "rc_drain (revokeSilently cfg k s) = rc_drain s" "rc_shuttingDown (revokeSilently cfg k s) = rc_shuttingDown s"
  "rc_failedClosed (revokeSilently cfg k s) = rc_failedClosed s"
  by (simp_all add: revokeSilently_def split: option.split)

lemma calms_simps [simp]:
  "calms t t" "calms t (t\<lparr>ts_retired := True\<rparr>)" "calms t (t\<lparr>ts_failedClosed := True\<rparr>)" "calms t (t\<lparr>ts_supervisor := w\<rparr>)"
  "calms t (t\<lparr>ts_request := r\<rparr>)" "calms t (t\<lparr>ts_healthy := b\<rparr>)" "calms t (t\<lparr>ts_admitted := b\<rparr>)"
  "calms t (t\<lparr>ts_supervisor := w, ts_admitted := b\<rparr>)" "calms t (t\<lparr>ts_supervisor := w, ts_failedClosed := True\<rparr>)"
  by (simp_all add: calms_def)

lemma m_revoke_change:
  "(\<And>t. calms t (f t)) \<Longrightarrow> micros cfg s [] (update_tab k f (revokeSilently cfg k s))"
  by (rule micros_silent [OF m_revoke m_change])

lemma chained_closeTab: "chained cfg s (closeTab cfg k s)"
  unfolding closeTab_def
  by (rule chained_if chained_option | (rule chained_silent, simp add: micros.stop m_revoke_change, simp))+

lemma chained_cancel: "chained cfg s (cancelPendingLaunch cfg r s)"
proof -
  have erased: "micros cfg s [] (erase_tab k (revokeSilently cfg k s))" for k
    by (rule micros_silent [OF m_revoke micros_one [OF micro.erase]])
  show ?thesis
    unfolding cancelPendingLaunch_def Let_def
    by (rule chained_if chained_option | (rule chained_silent, simp add: micros.stop erased, simp))+
qed

lemma alone_update:
  assumes "\<And>t. (k, t) \<in> set (rc_tabs s) \<Longrightarrow> live_tab (f t) \<Longrightarrow> live_tab t" "alone s l"
  shows "alone (update_tab k f s) l"
proof -
  have "m = l" if m: "(m, t) \<in> set (rc_tabs (update_tab k f s))" "ta_tabId m = ta_tabId l" "live_tab t" for m t
  proof -
    obtain u where u: "(m, u) \<in> set (rc_tabs s)" "t = (if m = k then f u else u)" using m(1) by (auto simp: update_tab_def)
    with m(3) assms(1) have "live_tab u" by (auto split: if_splits)
    with u(1) m(2) assms(2) show ?thesis by (auto simp: alone_def)
  qed
  then show ?thesis by (auto simp: alone_def)
qed

lemma alone_revoke: "alone s l \<Longrightarrow> alone (revokeSilently cfg k s) l"
proof (cases "findTab s k")
  case (Some t)
  assume "alone s l"
  then have "alone (revoke_token cfg t s) l" by (simp add: alone_def)
  then show ?thesis
    using Some by (auto simp: revokeSilently_def revoked_tab_def live_tab_def intro!: alone_update)
qed (simp add: revokeSilently_def)

lemma start_attempt_fresh: "snd (snd (start_attempt cfg False now t)) \<noteq> None"
  by (simp add: start_attempt_def beginActivation_def beginAttempt_def Let_def)

lemma chained_launchForTab:
  assumes inv: "runtime_inv s" and alone: "rc_drain s = None \<Longrightarrow> alone s k" and valid: "validAuthority k"
    and reuse: "reuse \<Longrightarrow> findTab s k \<noteq> None"
  shows "chained cfg s (launchForTab cfg k route d mode recovery now reuse emit s)"
proof (cases "rc_shuttingDown s \<or> rc_failedClosed s \<or> rc_drain s \<noteq> None")
  case True
  then show ?thesis by (auto simp: launchForTab_def intro: chained_same)
next
  case False
  define s1 where "s1 = revokeSilently cfg k s"
  define t where "t = (case findTab s1 k of None \<Rightarrow> new_tab cfg k | Some t \<Rightarrow> t)"
  have s1: "micros cfg s [] s1" unfolding s1_def by (rule m_revoke)
  note inv1 = micros_inv [OF s1 inv]
  have auth: "ts_authority t = k"
    using runtime_invD(2) [OF inv1 findTab_in] by (auto simp: t_def new_tab_def tab_ok_def split: option.split)
  have flags: "\<not> rc_shuttingDown s1" "\<not> rc_failedClosed s1" "rc_drain s1 = None" "alone s1 k"
    using False alone by (simp_all add: s1_def alone_revoke)
  obtain w act x where start: "start_attempt cfg reuse now t = (w, act, x)" by (cases "start_attempt cfg reuse now t") auto
  show ?thesis
  proof (cases x)
    case None
    then have "reuse" using start start_attempt_fresh [of cfg now t] by (cases reuse) auto
    then obtain u where u: "findTab s1 k = Some u" using reuse by (auto simp: s1_def findTab_revokeSilently)
    have "(k, v) \<in> set (rc_tabs s1) \<Longrightarrow> calms v (t\<lparr>ts_supervisor := w, ts_failedClosed := True\<rparr>)" for v
      using u by (simp add: findTab_iff [OF inv1, symmetric] t_def)
    then have "micros cfg s1 [] (put_tab k (t\<lparr>ts_supervisor := w, ts_failedClosed := True\<rparr>) s1)"
      using u by (simp add: put_tab_def m_change)
    then show ?thesis
      using False start None micros_silent [OF s1]
      by (auto simp: launchForTab_def chained_def Let_def simp flip: s1_def t_def split: option.split)
  next
    case (Some n)
    obtain epoch next_epoch where e: "issueLeaseEpoch (rc_nextEpoch s1) = (epoch, next_epoch)" by force
    obtain adm a where m: "make_token (rc_admission s1) = (adm, a)" by force
    define lease where "lease = (vd_lease d)\<lparr>lease_epoch := epoch\<rparr>"
    define request where "request = \<lparr>lr_tabId = ta_tabId k, lr_incarnation = ta_incarnation k, lr_route = route,
      lr_lease = lease, lr_admission = Some a, lr_attempt = \<lparr>key_activation = act, key_attempt = n\<rparr>, lr_mode = mode,
      lr_recovery = recovery\<rparr>"
    have "lr_admission request = Some a" by (simp add: request_def)
    from micro.launch [OF flags auth valid m this]
    have "micros cfg s [request] (put_tab k (launched_tab request w (candidateLease s1 lease) now t)
        (s1\<lparr>rc_nextEpoch := next_epoch, rc_admission := adm\<rparr>))"
      by (rule micros_silent [OF s1 micros_one])
    moreover have "launchForTab cfg k route d mode recovery now reuse emit s
        = (put_tab k (launched_tab request w (candidateLease s1 lease) now t)
             (s1\<lparr>rc_nextEpoch := next_epoch, rc_admission := adm\<rparr>),
           applied\<lparr>rr_actions := (case findTab s k of None \<Rightarrow> []
              | Some t \<Rightarrow> if emit \<and> ts_request t \<noteq> None \<and> \<not> ts_retired t \<and> \<not> ts_revoked t
                  then [makeTabAction ActRevoke k, makeTabAction ActStop k] else [])
              @ [\<lparr>ra_kind = ActLaunch, ra_tab = k, ra_launch = Some request, ra_drain = None\<rparr>]\<rparr>)"
      using False start Some e m
      by (simp add: launchForTab_def Let_def request_def lease_def flip: s1_def t_def)
    ultimately show ?thesis by (simp add: chained_def split: option.split)
  qed
qed

lemma live_alone: "runtime_inv s \<Longrightarrow> findTab s k = Some t \<Longrightarrow> live_tab t \<Longrightarrow> alone s k"
  using runtime_invD(3) findTab_in by blast

lemma found_valid: "runtime_inv s \<Longrightarrow> findTab s k = Some t \<Longrightarrow> validAuthority k"
  using runtime_invD(2) [OF _ findTab_in] by (fastforce simp: tab_ok_def)

lemma chained_restartTab:
  assumes inv: "runtime_inv s" and live: "\<And>t. findTab s k = Some t \<Longrightarrow> live_tab t"
  shows "chained cfg s (restartTab cfg k now s)"
proof (cases "findTab s k")
  case None
  then show ?thesis by (simp add: restartTab_def chained_same)
next
  case (Some t)
  have failed: "chained cfg s (update_tab k (\<lambda>v. v\<lparr>ts_failedClosed := True\<rparr>) s, failedClosedResult e n)" for e n
    by (rule chained_silent) (simp_all add: m_change)
  have "chained cfg s (launchForTab cfg k route d PinnedLease True now reuse True s)" for route d reuse
    using Some live by (intro chained_launchForTab [OF inv live_alone [OF inv Some] found_valid [OF inv Some]]) auto
  with failed Some show ?thesis by (auto simp: restartTab_def split: option.split)
qed

lemma m_set_supervisor: "micros cfg s [] (set_supervisor k w s)"
  by (simp add: set_supervisor_def m_change)

lemma findTab_set_supervisor:
  "findTab (set_supervisor k w s) l = (if l = k then map_option (\<lambda>v. v\<lparr>ts_supervisor := w\<rparr>) (findTab s k) else findTab s l)"
  by (simp add: set_supervisor_def findTab_update)

lemma findTab_key_live: "findTab_key s key = Some t \<Longrightarrow> findTab s (fk_tab key) = Some t \<and> live_tab t"
  by (auto simp: findTab_key_def live_tab_def split: option.splits if_splits)

lemma chained_failClosedTab: "chained cfg s (failClosedTab cfg k e b s)"
  unfolding failClosedTab_def
  by (rule chained_if chained_option | (rule chained_silent, simp add: micros.stop m_revoke_change, simp))+

lemma m_token: "micros cfg s [] (s\<lparr>rc_admission := fst (admission_step (rc_admission s) e)\<rparr>)"
  by (rule micros_one) (rule micro.token)

lemma m_use: "micros cfg s [] (s\<lparr>rc_admission := fst (use_and_publish a (rc_admission s))\<rparr>)"
proof -
  obtain adm1 g where t: "tryAcquireUse a (rc_admission s) = (adm1, g)" by force
  define s1 where "s1 = s\<lparr>rc_admission := adm1\<rparr>"
  have s1: "micros cfg s [] s1" using m_token [of cfg s "TryAcquireUse a"] t by (simp add: s1_def)
  show ?thesis
  proof (cases g)
    case None
    with t s1 show ?thesis by (simp add: use_and_publish_def s1_def)
  next
    case (Some n)
    obtain adm2 p where pub: "publishIfStillAdmitted n (CommitReturns True) adm1 = (adm2, p)" by force
    define s2 where "s2 = s1\<lparr>rc_admission := adm2\<rparr>"
    have "micros cfg s1 [] s2"
      using m_token [of cfg s1 "Publish n (CommitReturns True)"] pub by (simp add: s2_def s1_def)
    moreover have "micros cfg s2 [] (s2\<lparr>rc_admission := release_guard n adm2\<rparr>)"
      using m_token [of cfg s2 "ReleaseGuard n"] by (simp add: s2_def)
    ultimately show ?thesis
      using t Some pub micros_silent [OF s1 micros_silent] by (simp add: use_and_publish_def s2_def s1_def)
  qed
qed

lemma chained_handshake: "chained cfg s (admit_handshake key now t b s)"
  unfolding admit_handshake_def split_beta
  by (rule chained_if | (rule chained_silent, simp add: micros.stop m_change, simp))+

lemma chained_admit_at: "chained cfg s (admit_at key lease now s)"
proof -
  have "chained cfg s (case use_and_publish a (rc_admission s) of
      (adm, published) \<Rightarrow> admit_handshake key now t published (s\<lparr>rc_admission := adm\<rparr>))" for a t
    using chained_after [OF m_use chained_handshake] by (simp add: split_beta)
  then show ?thesis
    unfolding admit_at_def
    by - (rule chained_if chained_option | assumption | (rule chained_same, simp, simp))+
qed

lemma chained_admit_now: "chained cfg s (admit_now env key lease s)"
  unfolding admit_now_def
  by (rule chained_if chained_option chained_admit_at | (rule chained_same, simp, simp))+

lemma chained_admit_request: "chained cfg s (admit_request env r now s)"
  unfolding admit_request_def
  by (rule chained_if chained_option chained_admit_at | (rule chained_same, simp, simp))+

subsection \<open>A launch on request\<close>

lemma core_frame:
  assumes "core s' = core s"
  shows "runtime_inv s' \<longleftrightarrow> runtime_inv s" "alone s' k \<longleftrightarrow> alone s k" "findTab s' k = findTab s k" "rc_drain s' = rc_drain s"
  using core_cong [OF assms] by simp_all

lemma decides_launch: "decides cfg s (launch_descriptor cfg env k intent app s)"
proof -
  have pinned: "decides cfg s (case settleTemporaryVerification w x s of (s1, y, b) \<Rightarrow>
      if \<not> b then (s1, Inl (immutableCleanupFailureResult s1))
      else (case f of None \<Rightarrow> (s1, Inl (error_or e m)) | Some d \<Rightarrow> (s1, Inr d)))" for w x f e m
    by (rule decides_settle decides_if decides_option decides_same refl | assumption | simp)+
  have plain: "decides cfg s (s, case o1 of Some lease \<Rightarrow> if lease_versionDirectory lease = [] then Inl (rejectedResult m)
      else Inr (pinned_descriptor lease) | None \<Rightarrow> Inl (rejectedResult m))"
    "decides cfg s (s, case o2 of None \<Rightarrow> Inl (rejectedResult m) | Some d \<Rightarrow> Inr d)" for o1 o2 m
    by (auto simp: decides_def chained_same split: option.split)
  show ?thesis
    unfolding launch_descriptor_def Let_def
    by (rule decides_if decides_option pinned plain | (rule decides_same, simp, simp))+
qed

lemma find_Some_in: "find P xs = Some x \<Longrightarrow> x \<in> set xs \<and> P x"
  by (induction xs) (auto split: if_splits)

lemma closeTab_alone:
  assumes inv: "runtime_inv s" and old: "previousIncarnation s k = Some old"
  shows "alone (fst (closeTab cfg old s)) k"
proof -
  from old obtain t where t: "(old, t) \<in> set (rc_tabs s)" "ta_tabId old = ta_tabId k" "live_tab t"
    by (auto simp: previousIncarnation_def dest!: find_Some_in)
  have f: "findTab s old = Some t" using t(1) by (simp add: findTab_iff [OF inv])
  have "fst (closeTab cfg old s) = update_tab old (\<lambda>v. v\<lparr>ts_retired := True\<rparr>) (revokeSilently cfg old s)"
    using f t(3) found_valid [OF inv f] by (simp add: closeTab_def live_tab_def)
  moreover have "alone (revokeSilently cfg old s) old" by (rule alone_revoke) (rule runtime_invD(3) [OF inv t(1,3)])
  ultimately show ?thesis using t(2) by (force simp: alone_def update_tab_def live_tab_def split: if_splits)
qed

lemma no_previous_alone:
  assumes "previousIncarnation s k = None"
  shows "alone s k"
proof -
  have "l = k" if "(l, t) \<in> set (rc_tabs s)" "ta_tabId l = ta_tabId k" "live_tab t" for l t
  proof -
    have "\<not> (ta_tabId l = ta_tabId k \<and> ta_incarnation l \<noteq> ta_incarnation k \<and> live_tab t)"
      using assms that(1) by (auto simp: previousIncarnation_def find_None_iff)
    with that(2,3) show ?thesis by simp
  qed
  then show ?thesis by (auto simp: alone_def)
qed

lemma launches_add [simp]:
  "launches (add_launch r l) = launches r @ launches l" "launches (add_health r l) = launches r @ launches l"
  by (simp_all add: launches_def add_launch_def add_health_def Let_def)

lemma chained_add_launch:
  "launches r = [] \<Longrightarrow> chained cfg s (s1, x) \<Longrightarrow> chained cfg s (s1, add_launch r x)"
  by (simp add: chained_def)

lemma chained_requestTabLaunch:
  fixes s :: "'a runtime"
  assumes inv: "runtime_inv s"
  shows "chained cfg s (requestTabLaunch cfg env k route intent now site s)"
proof -
  define closed_old where "closed_old = (case previousIncarnation s k of None \<Rightarrow> (s, applied) | Some old \<Rightarrow> closeTab cfg old s)"
  obtain s1 replacement where c: "closed_old = (s1, replacement)" by force
  have "chained cfg s closed_old" by (auto simp: closed_old_def intro: chained_same chained_closeTab split: option.split)
  moreover have silent: "launches replacement = []"
    using c by (auto simp: closed_old_def closeTab_def split: option.splits if_splits)
  ultimately have s1: "micros cfg s [] s1" by (simp add: chained_def c)
  have alone: "alone s1 k"
  proof (cases "previousIncarnation s k")
    case None
    with c no_previous_alone [OF None] show ?thesis by (simp add: closed_old_def)
  next
    case (Some old)
    with c closeTab_alone [OF inv Some, of cfg] show ?thesis by (simp add: closed_old_def)
  qed
  note inv1 = micros_inv [OF s1 inv]
  define app where "app = (if site = [] then rg_appId cfg else site)"
  have launch: "chained cfg s (case launch_descriptor cfg env k intent app s1 of
      (s2, Inl answer) \<Rightarrow> (s2, answer)
    | (s2, Inr d) \<Rightarrow> (case launchForTab cfg k route d PinnedLease False n False True s2 of
        (s3, launched) \<Rightarrow> (s3, add_launch replacement launched)))" if valid: "validAuthority k" for n
  proof (rule chained_after [OF s1 chained_decides [OF decides_launch]])
    fix s2 :: "'a runtime" and d
    assume s2: "core s2 = core s1"
    have "chained cfg s2 (launchForTab cfg k route d PinnedLease False n False True s2)"
      using valid inv1 alone core_frame [OF s2] by (intro chained_launchForTab) simp_all
    then have "chained cfg s1 (launchForTab cfg k route d PinnedLease False n False True s2)"
      by (rule chained_after [OF m_other [OF s2]])
    then show "chained cfg s1 (case launchForTab cfg k route d PinnedLease False n False True s2 of
        (s3, launched) \<Rightarrow> (s3, add_launch replacement launched))"
      using silent by (auto simp: split_beta intro: chained_add_launch)
  qed
  have route: "chained cfg s (update_tab k (\<lambda>t. t\<lparr>ts_request := map_option (\<lambda>r. r\<lparr>lr_route := route\<rparr>) (ts_request t)\<rparr>) s1, replacement)"
    by (rule chained_after [OF s1 chained_silent]) (simp_all add: m_change silent)
  show ?thesis
    unfolding requestTabLaunch_def Let_def closed_old_def [symmetric] app_def [symmetric] c prod.case
    by (rule chained_if chained_option route launch | (rule chained_same, simp, simp) | blast)+
qed

subsection \<open>Rollback\<close>

lemma revoked_tab_idem [simp]: "revoked_tab (revoked_tab t) = revoked_tab t"
  by (simp add: revoked_tab_def)

lemma revoke_token_fields [simp]:
  "rc_candidate (revoke_token cfg t s) = rc_candidate s" "rc_files (revoke_token cfg t s) = rc_files s"
  "rc_candidate (update_tab k f s) = rc_candidate s" "rc_files (update_tab k f s) = rc_files s"
  by (simp_all add: update_tab_def revoke_token_def split: option.split)

lemma revoke_affected_fields:
  "rc_drain (fst (revoke_affected cfg hit s)) = rc_drain s \<and> rc_candidate (fst (revoke_affected cfg hit s)) = rc_candidate s
    \<and> rc_files (fst (revoke_affected cfg hit s)) = rc_files s"
  by (induction cfg hit s rule: revoke_affected.induct) (simp_all add: Let_def split_beta)

lemma revoke_affected_tabs:
  "rc_tabs (fst (revoke_affected cfg hit s)) = map (\<lambda>(k, v). (k, if k \<in> fst ` set hit then revoked_tab v else v)) (rc_tabs s)"
  by (induction hit arbitrary: s) (auto simp: Let_def split_beta update_tab_def map_idI)

lemma revoke_affected_tickets:
  "ticket_state ` set (snd (revoke_affected cfg hit s)) = {a. \<exists>(k, t) \<in> set hit. ts_token t = Some a}"
proof (induction hit arbitrary: s)
  case (Cons kt hit)
  obtain k t where kt: "kt = (k, t)" by force
  show ?case using Cons by (cases "ts_token t") (auto simp: kt Let_def split_beta image_Un)
qed simp

lemma m_revoke_affected:
  assumes "revoke_affected cfg hit s = (s1, tickets)" "distinct (map fst hit)"
    and "\<And>k t. (k, t) \<in> set hit \<Longrightarrow> findTab s k = Some t"
  shows "micros cfg s [] s1"
  using assms
proof (induction hit arbitrary: s s1 tickets)
  case Nil
  then show ?case by (simp add: micros.stop)
next
  case (Cons kt hit)
  obtain k t where kt: "kt = (k, t)" by force
  obtain s2 rest where r: "revoke_affected cfg hit (update_tab k revoked_tab (revoke_token cfg t s)) = (s2, rest)" by force
  have "findTab (update_tab k revoked_tab (revoke_token cfg t s)) l = Some u" if "(l, u) \<in> set hit" for l u
    using Cons.prems(2,3) that by (force simp: kt findTab_update)
  from Cons.IH [OF r _ this] Cons.prems(2)
  have "micros cfg (update_tab k revoked_tab (revoke_token cfg t s)) [] s2" by (simp add: kt)
  moreover have "micros cfg s [] (update_tab k revoked_tab (revoke_token cfg t s))"
    using Cons.prems(3) by (intro micros_one micro.revoke) (simp add: kt)
  ultimately show ?case using Cons.prems(1) r by (auto simp: kt intro: micros_silent)
qed

text \<open>The drain of a rollback knows all that the invariant asks of it.\<close>

lemma rollback_drain_ok:
  assumes inv: "runtime_inv s" and r: "revoke_affected cfg hit s = (s1, tickets)" and m: "micros cfg s [] s1"
    and hit: "hit = filter (\<lambda>(k, t). affected_tab lease t) (rc_tabs s)"
    and d: "pd_affected d = map (ts_authority \<circ> snd) hit" "db_tickets (pd_batch d) = tickets"
  shows "drain_ok s1 d"
proof -
  have members: "(k, t) \<in> set (rc_tabs s)" "live_tab t" "ts_authority t = k" if "(k, t) \<in> set hit" for k t
    using that runtime_invD(2) [OF inv, of k t] by (auto simp: hit affected_tab_def live_tab_def tab_ok_def)
  have keys: "map (ts_authority \<circ> snd) hit = map fst hit" using members(3) by (intro map_cong) auto
  have tabs: "rc_tabs s1 = map (\<lambda>(k, v). (k, if k \<in> fst ` set hit then revoked_tab v else v)) (rc_tabs s)"
    "ticket_state ` set tickets = {a. \<exists>(k, t) \<in> set hit. ts_token t = Some a}"
    using revoke_affected_tabs [of cfg hit s] revoke_affected_tickets [of cfg hit s] r by simp_all
  have alone: "alone s1 k" if k: "k \<in> fst ` set hit" for k
  proof -
    obtain t where t: "(k, t) \<in> set hit" using k by auto
    have "l = k" if l: "(l, u) \<in> set (rc_tabs s1)" "ta_tabId l = ta_tabId k" "live_tab u" for l u
    proof -
      obtain v where v: "(l, v) \<in> set (rc_tabs s)" "u = (if l \<in> fst ` set hit then revoked_tab v else v)"
        using l(1) by (auto simp: tabs)
      then have "live_tab v" using l(3) by (auto simp: revoked_tab_def live_tab_def split: if_splits)
      then show ?thesis using runtime_invD(3) [OF inv members(1,2) [OF t]] v(1) l(2) by (auto simp: alone_def)
    qed
    then show ?thesis by (auto simp: alone_def)
  qed
  have dist: "distinct (map fst hit)" using runtime_invD(1) [OF inv] by (simp add: hit distinct_map_filter)
  have ids: "distinct (map ta_tabId (map fst hit))"
  proof -
    have "inj_on ta_tabId (fst ` set hit)"
    proof (rule inj_onI)
      fix k l
      assume "k \<in> fst ` set hit" "l \<in> fst ` set hit" "ta_tabId k = ta_tabId l"
      then obtain t u where "(k, t) \<in> set hit" "(l, u) \<in> set hit" by auto
      with members(1,2) [of k t] members(1,2) [of l u] runtime_invD(3) [OF inv, of k t] \<open>ta_tabId k = ta_tabId l\<close>
      show "k = l" by (auto simp: alone_def)
    qed
    with dist show ?thesis by (simp only: distinct_map [of ta_tabId "map fst hit"] set_map)
  qed
  have closed: "token_closed (rc_admission s1) a" if "(k, t) \<in> set hit" "ts_token t = Some a" for k t a
  proof -
    have "(k, revoked_tab t) \<in> set (rc_tabs s1)" using members(1) [OF that(1)] that(1) by (force simp: tabs)
    from runtime_invD(2) [OF micros_inv [OF m inv] this] that(2) show ?thesis by (simp add: tab_ok_def revoked_tab_def)
  qed
  have closed_tickets: "token_closed (rc_admission s1) (ticket_state x)" if "x \<in> set tickets" for x
  proof -
    have "ticket_state x \<in> {a. \<exists>(k, t) \<in> set hit. ts_token t = Some a}" using that by (simp flip: tabs(2))
    then show ?thesis using closed by blast
  qed
  have revoked: "ts_revoked t \<and> (\<forall>a. ts_token t = Some a \<longrightarrow> a \<in> ticket_state ` set tickets)"
    if kt: "(k, t) \<in> set (rc_tabs s1)" "k \<in> fst ` set hit" for k t
  proof -
    obtain v where "(k, v) \<in> set (rc_tabs s)" "t = (if k \<in> fst ` set hit then revoked_tab v else v)"
      using kt(1) by (auto simp: tabs)
    with kt(2) have v: "(k, v) \<in> set (rc_tabs s)" "t = revoked_tab v" by simp_all
    obtain u where u: "(k, u) \<in> set hit" using kt(2) by auto
    have "u = v" using members(1) [OF u] v(1) eq_key_imp_eq_value [OF runtime_invD(1) [OF inv]] by blast
    with u v(2) show ?thesis by (auto simp: tabs(2) revoked_tab_def)
  qed
  have aff: "set (pd_affected d) = fst ` set hit" by (simp only: d keys set_map)
  show ?thesis
  proof (rule drain_okI)
    show "alone s1 k" if "k \<in> set (pd_affected d)" for k using that alone aff by blast
    show "distinct (map ta_tabId (pd_affected d))" using ids by (simp only: d(1) keys)
    show "token_closed (rc_admission s1) (ticket_state k)" if "k \<in> set (db_tickets (pd_batch d))" for k
      using that closed_tickets d(2) by simp
    show "ts_revoked t \<and> (\<forall>a. ts_token t = Some a \<longrightarrow> a \<in> ticket_state ` set (db_tickets (pd_batch d)))"
      if "(k, t) \<in> set (rc_tabs s1)" "k \<in> set (pd_affected d)" for k t
      using revoked [OF that(1)] that(2) unfolding aff d(2) by blast
  qed
qed

lemma m_fail_tabs: "micros cfg s [] (fail_tabs tabs s)"
proof (induction tabs arbitrary: s)
  case (Cons tab tabs)
  have "micros cfg s [] (update_tab tab (\<lambda>v. v\<lparr>ts_failedClosed := True\<rparr>) s)" by (rule m_change) simp
  from micros_silent [OF this Cons.IH] show ?case by simp
qed (simp add: micros.stop)

lemma fail_tabs_drain: "fail_tabs tabs (s\<lparr>rc_drain := x\<rparr>) = (fail_tabs tabs s)\<lparr>rc_drain := x\<rparr>"
proof (induction tabs arbitrary: s)
  case (Cons tab tabs)
  have "update_tab tab f (s\<lparr>rc_drain := x\<rparr>) = (update_tab tab f s)\<lparr>rc_drain := x\<rparr>" for f
    by (cases s) (simp add: update_tab_def)
  then show ?case by (simp add: Cons.IH)
qed simp

lemma m_drain: "rc_drain s = None \<Longrightarrow> drain_ok s d \<Longrightarrow> core s' = core (s\<lparr>rc_drain := Some d\<rparr>) \<Longrightarrow> micros cfg s [] s'"
  by (rule micros_one) (rule micro.drain)

lemma chained_rollback_failed:
  assumes "rc_drain s = None" "drain_ok s d"
  shows "chained cfg s (rollback_failed cfg d e n s)"
proof -
  define d1 where "d1 = d\<lparr>pd_terminal := True, pd_error := e\<rparr>"
  have "drain_ok s d1" using assms(2) by (simp add: drain_ok_def d1_def)
  then have "micros cfg s [] (s\<lparr>rc_drain := Some d1\<rparr>)" by (rule m_drain [OF assms(1)]) simp
  from micros_silent [OF this m_fail_tabs]
  have failed: "micros cfg s [] (fail_tabs (pd_affected d) (s\<lparr>rc_drain := Some d1\<rparr>))" .
  have "micros cfg (fail_tabs (pd_affected d) (s\<lparr>rc_drain := Some d1\<rparr>)) [] (fst (rollback_failed cfg d e n s))"
    by (rule m_fail) (simp add: rollback_failed_def Let_def fail_tabs_drain d1_def core_def consume_drain_def)
  from micros_silent [OF failed this] show ?thesis
    by (rule chained_silent) (simp add: rollback_failed_def Let_def)
qed

lemma chained_beginCandidateRollback:
  fixes s :: "'f runtime"
  assumes inv: "runtime_inv s"
  shows "chained cfg s (beginCandidateRollback cfg env now s)"
proof (cases "rc_rollbackStarted s \<or> rc_drain s \<noteq> None \<or> rc_candidate s = None")
  case True
  then show ?thesis by (auto simp: beginCandidateRollback_def intro!: chained_same split: option.split)
next
  case False
  then obtain c where c: "rc_candidate s = Some c" "rc_drain s = None" "\<not> rc_rollbackStarted s" by auto
  define hit where "hit = filter (\<lambda>(k, t). affected_tab (vd_lease c) t) (rc_tabs s)"
  obtain s1 tickets where r: "revoke_affected cfg hit s = (s1, tickets)" by force
  define d where "d = \<lparr>pd_batch = \<lparr>db_id = rc_nextDrain s, db_tickets = tickets,
      db_deadline = boundedDeadline now (rg_drainTimeout cfg)\<rparr>,
    pd_affected = map (ts_authority \<circ> snd) hit, pd_timedOut = False, pd_terminal = False, pd_error = []\<rparr>"
  obtain s2 rolled where st: "store_call (rg_appId cfg) (store_rollback (rg_codec cfg) (inst_root (rg_installer cfg))
      (rg_appId cfg) (re_rollback env) (vd_binding c) (rc_files s1 (rg_appId cfg)))
      (s1\<lparr>rc_nextDrain := nextCounter (rc_nextDrain s)\<rparr>) = (s2, rolled)" by force
  have m1: "micros cfg s [] s1"
    by (rule m_revoke_affected [OF r])
      (auto simp: hit_def findTab_iff [OF inv] runtime_invD(1) [OF inv] distinct_map_filter)
  have ok: "drain_ok s1 d" by (rule rollback_drain_ok [OF inv r m1 hit_def]) (simp_all add: d_def)
  have "core (fst (store_call a x (s1\<lparr>rc_nextDrain := y\<rparr>))) = core s1" for a x y by simp
  then have s2: "core s2 = core s1" using st by (metis fst_conv)
  have none1: "rc_drain s1 = None" using revoke_affected_fields [of cfg hit s] r c(2) by simp
  have failed: "chained cfg s (rollback_failed cfg d e n s3)" if "core s3 = core s1" for e n and s3 :: "'f runtime"
  proof -
    have "micros cfg s [] s3" using m1 m_other [OF that] by (rule micros_silent)
    moreover have "chained cfg s3 (rollback_failed cfg d e n s3)"
      using none1 ok core_frame(4) [OF that] core_cong(3) [OF that] by (intro chained_rollback_failed) simp_all
    ultimately show ?thesis by (rule chained_after)
  qed
  have started: "chained cfg s (consume_drain cfg (pd_batch d) (s3\<lparr>rc_current := a, rc_lkg := b, rc_promoted := p,
      rc_rollbackStarted := q, rc_drain := Some d\<rparr>), applied\<lparr>rr_actions := tab_actions ActRevoke (pd_affected d)
        @ tab_actions ActStop (pd_affected d) @ [await_drain (pd_batch d)]\<rparr>)"
    if s3: "core s3 = core s1" for a b p q and s3 :: "'f runtime"
  proof -
    have "micros cfg s1 [] (consume_drain cfg (pd_batch d) (s3\<lparr>rc_current := a, rc_lkg := b, rc_promoted := p,
        rc_rollbackStarted := q, rc_drain := Some d\<rparr>))"
      by (rule m_drain [OF none1 ok]) (use s3 in \<open>simp add: core_def consume_drain_def\<close>)
    from micros_silent [OF m1 this] show ?thesis by (simp add: chained_silent)
  qed
  have after: "chained cfg s (case settleTemporaryVerification w x s2 of (s3, y, b) \<Rightarrow> f s3 y b)"
    if "\<And>s3 y b. core s3 = core s1 \<Longrightarrow> chained cfg s (f s3 y b)" for w x and f :: "'f runtime \<Rightarrow> install_result \<Rightarrow> bool \<Rightarrow> 'f runtime \<times> runtime_result"
    using that core_settle [of w x s2] s2 by (simp add: split_beta)
  show ?thesis
    unfolding beginCandidateRollback_def
    using c
    by (simp add: r st flip: hit_def d_def)
      (auto simp: Let_def intro!: chained_option chained_if after failed started s2)
qed

lemma chained_promote: "chained cfg s (promoteCandidate cfg env now s)"
  unfolding promoteCandidate_def split_beta Let_def
  by (rule chained_option | (rule chained_same, simp, simp))+

subsection \<open>Drains\<close>

lemma chained_timeout: "chained cfg s (timeoutDrain s)"
proof (cases "rc_drain s")
  case (Some d)
  have "launches (drain_timeout_result d) = []"
    by (simp add: drain_timeout_result_def appendDrainTimeoutActions_def)
  then show ?thesis
    using Some micros_one [OF micro.time_out [OF Some, of cfg]]
    by (auto simp: timeoutDrain_def intro: chained_same chained_silent)
qed (simp add: timeoutDrain_def chained_same)

lemma m_erase_tabs: "micros cfg s [] (erase_tabs tabs s)"
proof (induction tabs arbitrary: s)
  case (Cons tab tabs)
  from micros_silent [OF micros_one [OF micro.erase] Cons.IH] show ?case by simp
qed (simp add: micros.stop)

lemma launch_drain: "rc_drain s = None \<Longrightarrow> rc_drain (fst (launchForTab cfg k route d mode rec now reuse emit s)) = None"
  by (simp add: launchForTab_def Let_def split_beta split: option.split)

lemma alone_put: "alone s l \<Longrightarrow> ta_tabId l \<noteq> ta_tabId k \<Longrightarrow> alone (put_tab k v s) l"
  by (auto simp: alone_def put_tab_tabs)

lemma alone_launch:
  assumes "alone s l" "ta_tabId l \<noteq> ta_tabId k"
  shows "alone (fst (launchForTab cfg k route d mode rec now reuse emit s)) l"
proof -
  have records: "alone (s\<lparr>rc_nextEpoch := n, rc_admission := adm\<rparr>) = alone s" "alone (s\<lparr>rc_nextEpoch := n\<rparr>) = alone s"
    for s :: "'a runtime" and n adm by (simp_all add: alone_def fun_eq_iff)
  show ?thesis
    using assms by (auto simp: launchForTab_def Let_def split_beta records intro!: alone_put alone_revoke split: option.split)
qed

lemma m_recover_tabs:
  assumes "runtime_inv s" "rc_drain s = None" "list_all (alone s) tabs" "distinct (map ta_tabId tabs)"
  shows "micros cfg s (launch_actions (snd (recover_tabs cfg now tabs s))) (fst (recover_tabs cfg now tabs s))"
  using assms
proof (induction tabs arbitrary: s)
  case Nil
  then show ?case by (simp add: micros.stop)
next
  case (Cons tab tabs)
  show ?case
  proof (cases "findTab s tab = None \<or> rc_lkg s = None")
    case True
    have "recover_tabs cfg now (tab # tabs) s = (fst (recover_tabs cfg now tabs s),
        makeTabAction ActRecoverFromLkg tab # snd (recover_tabs cfg now tabs s))"
      using True by (auto simp: Let_def split_beta split: option.split)
    then show ?thesis using Cons.IH [of s] Cons.prems by simp
  next
    case False
    then obtain t d where t: "findTab s tab = Some t" "rc_lkg s = Some d" by auto
    define r where "r = launchForTab cfg tab (case ts_request t of None \<Rightarrow> [] | Some r \<Rightarrow> lr_route r) d PinnedLease True now False False s"
    have "chained cfg s r"
      unfolding r_def using Cons.prems found_valid [OF Cons.prems(1) t(1)] by (intro chained_launchForTab) simp_all
    then have m: "micros cfg s (launches (snd r)) (fst r)" by (simp add: chained_def)
    have "ta_tabId l \<noteq> ta_tabId tab" if "l \<in> set tabs" for l
      using that Cons.prems(4) by (metis distinct.simps(2) image_eqI list.set_map list.simps(9))
    then have "list_all (alone (fst r)) tabs"
      using Cons.prems(3) by (auto simp: r_def list_all_iff intro: alone_launch)
    then have "micros cfg (fst r) (launch_actions (snd (recover_tabs cfg now tabs (fst r)))) (fst (recover_tabs cfg now tabs (fst r)))"
      using Cons.prems by (intro Cons.IH micros_inv [OF m]) (simp_all add: r_def launch_drain)
    with m have "micros cfg s (launches (snd r) @ launch_actions (snd (recover_tabs cfg now tabs (fst r))))
        (fst (recover_tabs cfg now tabs (fst r)))" by (rule micros_trans)
    then show ?thesis
      using t by (simp add: Let_def split_beta launches_def flip: r_def)
  qed
qed

lemma chained_finishDrain:
  fixes s :: "'f runtime"
  assumes inv: "runtime_inv s"
  shows "chained cfg s (finishDrain cfg now s)"
proof (cases "rc_drain s = None \<or> \<not> allTicketsDrained s")
  case True
  then show ?thesis by (auto simp: finishDrain_def chained_same split: option.split)
next
  case False
  then obtain d where Some: "rc_drain s = Some d" and all: "allTicketsDrained s" by auto
  define s1 where "s1 = s\<lparr>rc_drain := None\<rparr>"
  have s1: "micros cfg s [] s1" unfolding s1_def by (rule micros_one) (rule micro.drained [OF all])
  note ok = runtime_invD(6) [OF inv Some]
  have "list_all (alone s1) (pd_affected d)" "distinct (map ta_tabId (pd_affected d))"
    using drain_okD(1,2) [OF ok] by (simp_all add: s1_def list_all_iff)
  then have m: "micros cfg s (launch_actions (snd (recover_tabs cfg now (pd_affected d) s1))) (fst (recover_tabs cfg now (pd_affected d) s1))"
    by (intro micros_silent [OF s1 m_recover_tabs] micros_inv [OF s1 inv]) (simp_all add: s1_def)
  have recovered: "chained cfg s (case recover_tabs cfg now (pd_affected d) s1 of (s2, acts) \<Rightarrow> (f s2, applied\<lparr>rr_actions := acts\<rparr>))"
    if "\<And>s2. core (f s2) = core s2" for f :: "'f runtime \<Rightarrow> 'f runtime"
    using micros_trans [OF m m_other [OF that]] by (simp add: chained_def split_beta)
  have erased: "launches r = [] \<Longrightarrow> chained cfg s (erase_tabs (pd_affected d) s1, r)" for r
    by (rule chained_silent) (simp_all add: micros_silent [OF s1 m_erase_tabs])
  show ?thesis
    unfolding finishDrain_def Some option.case Let_def s1_def [symmetric]
    by (rule chained_if recovered erased | (rule chained_same, simp, simp) | simp split: option.split)+
qed

lemma chained_drainTimedOut: "chained cfg s (authorityDrainTimedOut n now s)"
  unfolding authorityDrainTimedOut_def
  by (rule chained_if chained_option chained_timeout | (rule chained_same, simp, simp))+

lemma chained_drainCompleted:
  assumes inv: "runtime_inv s"
  shows "chained cfg s (authorityDrainCompleted cfg n now s)"
proof (cases "drain_at s n")
  case None
  then show ?thesis by (simp add: authorityDrainCompleted_def chained_same)
next
  case (Some d)
  show ?thesis
  proof (cases "db_deadline (pd_batch d) < now")
    case False
    then show ?thesis using Some chained_finishDrain [OF inv] by (simp add: authorityDrainCompleted_def)
  next
    case True
    define r where "r = (if \<not> pd_timedOut d then timeoutDrain s else (s, drain_timeout_result d))"
    have "launches (drain_timeout_result d) = []" for d
      by (simp add: drain_timeout_result_def appendDrainTimeoutActions_def)
    then have l: "launches (snd r) = []" "(s, drain_timeout_result d) = r \<Longrightarrow> chained cfg s r"
      by (auto simp: r_def timeoutDrain_def intro: chained_same split: option.split)
    then have "chained cfg s r" using chained_timeout [of cfg s] l(1) by (cases "pd_timedOut d") (simp_all add: r_def)
    then have m: "micros cfg s [] (fst r)" using l(1) by (simp add: chained_def)
    have "stopped_runtime (fst r) \<or> pd_timedOut d \<and> fst r = s"
      using Some by (auto simp: r_def timeoutDrain_def stopped_runtime_def drain_at_def split: option.splits if_splits)
    moreover have "chained cfg (fst r) (finishDrain cfg now (fst r))" by (rule chained_finishDrain [OF micros_inv [OF m inv]])
    moreover have "launches (snd (finishDrain cfg now s)) = []" if "pd_timedOut d"
      using Some that by (auto simp: finishDrain_def drain_at_def Let_def split: option.splits if_splits)
    ultimately have "micros cfg (fst r) [] (fst (finishDrain cfg now (fst r)))"
      using micros_stopped [of cfg "fst r" "launches (snd (finishDrain cfg now (fst r)))"] unfolding chained_def by metis
    with m have drained: "micros cfg s [] (fst (finishDrain cfg now (fst r)))" by (rule micros_silent)
    show ?thesis
      using m drained l(1) True Some by (auto simp: authorityDrainCompleted_def split_beta simp flip: r_def intro: chained_silent)
  qed
qed

subsection \<open>Workers and shutdown\<close>

lemma chained_give_up: "runtime_inv s \<Longrightarrow> chained cfg s (give_up cfg env k now s)"
  unfolding give_up_def by (rule chained_if chained_failClosedTab chained_beginCandidateRollback | assumption)+

lemma after_supervisor:
  "runtime_inv s \<Longrightarrow> (runtime_inv (set_supervisor k w s) \<Longrightarrow> chained cfg (set_supervisor k w s) r) \<Longrightarrow> chained cfg s r"
  by (rule chained_after [OF m_set_supervisor]) (blast intro: micros_inv [OF m_set_supervisor])

lemma supervisor_live:
  "findTab s k = Some t \<Longrightarrow> live_tab t \<Longrightarrow> findTab (set_supervisor k w s) k = Some u \<Longrightarrow> live_tab u"
  by (auto simp: findTab_set_supervisor live_tab_def)

lemma chained_worker_heartbeat:
  assumes inv: "runtime_inv s"
  shows "chained cfg s (worker_heartbeat cfg env key now s)"
proof (cases "findTab_key s key")
  case None
  then show ?thesis by (simp add: worker_heartbeat_def chained_same)
next
  case (Some t)
  note t = findTab_key_live [OF Some]
  define k where "k = fk_tab key"
  have restart: "chained cfg s (restartTab cfg k now (set_supervisor k w s))" for w
    using t supervisor_live [of s k t] by (intro after_supervisor [OF inv, of k w] chained_restartTab) (auto simp: k_def)
  have give: "chained cfg s (give_up cfg env k now (set_supervisor k w s))" for w
    by (intro after_supervisor [OF inv, of k w] chained_give_up)
  have beat: "micros cfg s [] (set_supervisor k v (set_supervisor k w s))" for v w
    by (rule micros_silent [OF m_set_supervisor m_set_supervisor])
  have "micros cfg s' [] (update_tab k (\<lambda>v. v\<lparr>ts_healthy := True\<rparr>) s')" for s' by (rule m_change) simp
  from micros_silent [OF beat this]
  have healthy: "chained cfg s (if c then promoteCandidate cfg env now (update_tab k (\<lambda>v. v\<lparr>ts_healthy := True\<rparr>)
        (set_supervisor k v (set_supervisor k w s)))
      else (update_tab k (\<lambda>v. v\<lparr>ts_healthy := True\<rparr>) (set_supervisor k v (set_supervisor k w s)), applied))" for c v w
    by (auto intro: chained_after [OF _ chained_promote] chained_silent)
  have quiet: "chained cfg s (set_supervisor k w s, staleResult)" "chained cfg s (set_supervisor k v (set_supervisor k w s), applied)"
    for v w by (simp_all add: chained_silent m_set_supervisor beat)
  show ?thesis
    unfolding worker_heartbeat_def Some option.case Let_def split_beta k_def [symmetric]
    by (rule restart give healthy quiet chained_if | (rule chained_same, simp, simp))+
qed

lemma m_check_tabs:
  assumes "runtime_inv s"
  shows "\<exists>l. micros cfg s l (fst (check_tabs cfg env now tabs r s))
    \<and> launches (snd (check_tabs cfg env now tabs r s)) = launches r @ l"
  using assms
proof (induction tabs arbitrary: r s)
  case Nil
  then show ?case by (auto intro: micros.stop)
next
  case (Cons tab tabs)
  note skip = Cons.IH [OF Cons.prems, of r]
  show ?case
  proof (cases "findTab s tab")
    case None
    with skip show ?thesis by simp
  next
    case (Some t)
    define passed where "passed = (ts_revoked t \<or> ts_retired t \<or> ts_failedClosed t \<or> ts_request t = None \<or> \<not> ts_admitted t)"
    show ?thesis
    proof (cases "passed \<or> activeAttempt (ts_supervisor t) = None")
      case True
      with skip Some show ?thesis by (auto simp: passed_def)
    next
      case False
      then obtain k where k: "activeAttempt (ts_supervisor t) = Some k" by auto
      obtain w action where c: "WorkerSupervisor.checkHealth (ts_supervisor t)
          \<lparr>key_activation = activation (ts_supervisor t), key_attempt = k\<rparr> now = (w, action)" by force
      define s1 where "s1 = set_supervisor tab w s"
      have s1: "micros cfg s [] s1" unfolding s1_def by (rule m_set_supervisor)
      note inv1 = micros_inv [OF s1 Cons.prems]
      have step: "check_tabs cfg env now (tab # tabs) r s =
          (if action = Restart then
             (case restartTab cfg tab now s1 of (s2, restarted) \<Rightarrow> check_tabs cfg env now tabs (add_health r restarted) s2)
           else if action = CrashLoopRollback \<or> action = StartupRollback then
             (case give_up cfg env tab now s1 of (s2, rollback) \<Rightarrow> (s2, add_health r rollback))
           else check_tabs cfg env now tabs r s1)"
        using Some False k c by (auto simp: passed_def s1_def Let_def)
      have "live_tab t" using False by (simp add: passed_def live_tab_def)
      then have "chained cfg s1 (restartTab cfg tab now s1)"
        using supervisor_live [OF Some] by (intro chained_restartTab [OF inv1]) (auto simp: s1_def)
      then have re: "micros cfg s (launches (snd (restartTab cfg tab now s1))) (fst (restartTab cfg tab now s1))"
        unfolding chained_def by (rule micros_silent [OF s1])
      have gi: "micros cfg s (launches (snd (give_up cfg env tab now s1))) (fst (give_up cfg env tab now s1))"
        using chained_give_up [OF inv1, of cfg env tab now] unfolding chained_def by (rule micros_silent [OF s1])
      show ?thesis
        unfolding step
        using Cons.IH [OF micros_inv [OF re Cons.prems], of "add_health r (snd (restartTab cfg tab now s1))"]
          Cons.IH [OF inv1, of r] micros_trans [OF re] micros_silent [OF s1] gi
        by (simp add: split_beta) blast
    qed
  qed
qed

lemma chained_checkHealth: "runtime_inv s \<Longrightarrow> chained cfg s (runtime_checkHealth cfg env now s)"
  using m_check_tabs [of s cfg env now "map fst (rc_tabs s)" applied]
  by (auto simp: runtime_checkHealth_def chained_def intro: micros.stop)

lemma chained_workerExited:
  assumes inv: "runtime_inv s"
  shows "chained cfg s (runtime_workerExited cfg env key reason now s)"
proof (cases "findTab_key s key")
  case None
  then show ?thesis by (simp add: runtime_workerExited_def chained_same)
next
  case (Some t)
  note t = findTab_key_live [OF Some]
  define k where "k = fk_tab key"
  have restart: "chained cfg s (restartTab cfg k n (set_supervisor k w s))" for w n
    using t supervisor_live [of s k t] by (intro after_supervisor [OF inv, of k w] chained_restartTab) (auto simp: k_def)
  have give: "chained cfg s (give_up cfg env k n (set_supervisor k w s))" for w n
    by (intro after_supervisor [OF inv, of k w] chained_give_up)
  have quiet: "chained cfg s (set_supervisor k w s, staleResult)" "chained cfg s (set_supervisor k w s, applied)"
    "chained cfg s (update_tab k (\<lambda>v. v\<lparr>ts_retired := True\<rparr>) (revokeSilently cfg k (set_supervisor k w s)), applied)" for w
    by (simp_all add: chained_silent m_set_supervisor micros_silent [OF m_set_supervisor m_revoke_change])
  show ?thesis
    unfolding runtime_workerExited_def Some option.case Let_def split_beta k_def [symmetric]
    by (rule restart give quiet chained_if)+
qed

lemma chained_admissionFailed: "runtime_inv s \<Longrightarrow> chained cfg s (workerAdmissionFailed cfg env key e now s)"
  unfolding workerAdmissionFailed_def
  by (rule chained_option chained_if chained_failClosedTab chained_beginCandidateRollback | assumption | (rule chained_same, simp, simp))+

lemma chained_cleanupFailed: "chained cfg s (workerCleanupFailed cfg key e n s)"
proof -
  have m: "micros cfg s [] (fail_runtime (update_tab k (\<lambda>v. v\<lparr>ts_failedClosed := True\<rparr>) (revokeSilently cfg k s)))" for k
    by (rule micros_silent [OF m_revoke_change m_fail]) (simp_all add: fail_runtime_def)
  show ?thesis
    unfolding workerCleanupFailed_def
    by (rule chained_option | (rule chained_same, simp, simp) | (rule chained_silent, simp add: m, simp))+
qed

lemma m_retire_tabs: "micros cfg s [] (fold (retire_tab cfg) tabs s)"
proof (induction tabs arbitrary: s)
  case (Cons tab tabs)
  have "micros cfg s [] (retire_tab cfg tab s)"
    by (auto simp: retire_tab_def intro: micros.stop m_revoke_change split: option.split)
  from micros_silent [OF this Cons.IH] show ?case by simp
qed (simp add: micros.stop)

lemma chained_beginShutdown: "chained cfg s (beginShutdown cfg s)"
proof -
  have "micros cfg s [] (fold (retire_tab cfg) tabs (s\<lparr>rc_shuttingDown := True\<rparr>))" for tabs
    by (rule micros_silent [OF micros_one [OF micro.shut] m_retire_tabs])
  then show ?thesis by (auto simp: beginShutdown_def Let_def intro: chained_same chained_silent)
qed

text \<open>Every step of the runtime.\<close>

lemma chained_step: "runtime_inv s \<Longrightarrow> chained cfg s (runtime_step cfg s e)"
proof (cases e)
  case (RouteLoaded env request template n)
  then show ?thesis
    by (auto simp: recordRouteLoadAcknowledged_def intro!: chained_same split: option.split sum.split)
next
  case (HostCleanup env)
  have "core (fst (beginHostShutdownCleanup env s)) = core s"
    using core_retry [of env s] by (cases "retryPendingImmutableCleanup env s") (auto simp: beginHostShutdownCleanup_def split: bool.split)
  with HostCleanup show ?thesis by (simp add: chained_same)
next
  case (TokenCall c)
  then show ?thesis by (simp add: chained_silent m_token)
qed (simp_all add: chained_installAndActivate chained_installSitePackage chained_startOffline chained_requestTabLaunch
    chained_cancel chained_admit_now chained_admit_at chained_admit_request chained_worker_heartbeat chained_checkHealth
    chained_workerExited chained_admissionFailed chained_cleanupFailed chained_drainTimedOut chained_drainCompleted
    chained_closeTab chained_beginShutdown chained_same)

section \<open>Properties\<close>

lemma inv_new: "runtime_inv (new_runtime f)"
  by (simp add: runtime_inv_def new_runtime_def admission_inv_empty)

interpretation runtime_always: machine_invariant "runtime_step cfg" runtime_inv "\<lambda>_. True" for cfg
  by unfold_locales (use chained_step micros_inv in \<open>unfold chained_def, blast\<close>)

lemma reachable_inv: "runtime_inv (final_state (runtime_step cfg) (new_runtime f) es)"
  by (rule runtime_always.run_inv [OF inv_new]) (simp add: list_all_iff)

text \<open>
  C38. One Worker per tab.  In every run of the coordinator, whatever is installed, requested, crashes,
  times out or is closed in whatever order: of the incarnations of a tab at most one is alive, and no
  two tabs ever hold the same admission token, so revoking the authority of one touches no other.
\<close>

theorem one_worker_per_tab:
  "let tabs = rc_tabs (final_state (runtime_step cfg) (new_runtime f) es) in
     distinct (map (\<lambda>(k, t). ta_tabId k) (filter (\<lambda>(k, t). live_tab t) tabs))
     \<and> distinct (List.map_filter (\<lambda>(k, t). ts_token t) tabs)"
proof -
  define s where "s = final_state (runtime_step cfg) (new_runtime f) es"
  note inv = runtime_invD [OF reachable_inv [of cfg f es, folded s_def]]
  have keys: "distinct (rc_tabs s)" using inv(1) by (simp add: distinct_map)
  have same: "t = u" if "(k, t) \<in> set (rc_tabs s)" "(k, u) \<in> set (rc_tabs s)" for k t u
    using eq_key_imp_eq_value [OF inv(1) that] .
  have "inj_on (\<lambda>(k, t). ta_tabId k) (set (filter (\<lambda>(k, t). live_tab t) (rc_tabs s)))"
    using inv(3) same by (intro inj_onI) (clarsimp simp: alone_def, blast)
  then have "distinct (map (\<lambda>(k, t). ta_tabId k) (filter (\<lambda>(k, t). live_tab t) (rc_tabs s)))"
    using keys by (simp add: distinct_map)
  moreover have "inj_on (\<lambda>(k, t). the (ts_token t)) (set (filter (\<lambda>(k, t). ts_token t \<noteq> None) (rc_tabs s)))"
    using inv(4) same by (intro inj_onI) (clarsimp, metis)
  then have "distinct (List.map_filter (\<lambda>(k, t). ts_token t) (rc_tabs s))"
    using keys by (simp add: List.map_filter_def distinct_map comp_def case_prod_unfold)
  ultimately show ?thesis by (simp add: s_def Let_def)
qed

lemma step_stopped: "runtime_inv s \<Longrightarrow> stopped_runtime s \<Longrightarrow>
    stopped_runtime (fst (runtime_step cfg s e)) \<and> launches (snd (runtime_step cfg s e)) = []"
  using chained_step [of s cfg e] micros_stopped unfolding chained_def by blast

interpretation stopped: machine_invariant "runtime_step cfg" "\<lambda>s. runtime_inv s \<and> stopped_runtime s" "\<lambda>_. True" for cfg
  by unfold_locales (use step_stopped runtime_always.step_inv in blast)

text \<open>
  C40. A stopped runtime launches nothing.  Once the shutdown has begun, or the runtime has failed closed
  (a drain that missed its deadline, a rollback without a version to go back to, a sandbox that could
  not be cleaned up), no call in the rest of the run asks for a Worker, and the runtime stays stopped.
\<close>

theorem stopped_runtime_launches_nothing:
  "let s = final_state (runtime_step cfg) (new_runtime f) es in
     stopped_runtime (fst (beginShutdown cfg s))
     \<and> (if stopped_runtime s
        then list_all (\<lambda>r. launches r = []) (snd (run_machine (runtime_step cfg) s fs))
          \<and> stopped_runtime (final_state (runtime_step cfg) s fs)
        else True)"
proof -
  define s where "s = final_state (runtime_step cfg) (new_runtime f) es"
  have inv: "runtime_inv s" unfolding s_def by (rule reachable_inv)
  have "rc_shuttingDown (fold (retire_tab cfg) tabs r) = rc_shuttingDown r" for tabs and r :: "'a runtime"
    by (induction tabs arbitrary: r) (auto simp: retire_tab_def split: option.split)
  then have "stopped_runtime (fst (beginShutdown cfg s))" by (simp add: beginShutdown_def stopped_runtime_def Let_def)
  moreover have "list_all (\<lambda>r. launches r = []) (snd (run_machine (runtime_step cfg) s fs))" if "stopped_runtime s"
    using inv that step_stopped by (intro stopped.run_outputs) (auto simp: list_all_iff)
  moreover have "stopped_runtime (final_state (runtime_step cfg) s fs)" if "stopped_runtime s"
    using stopped.run_inv [of s fs cfg] inv that by (simp add: list_all_iff)
  ultimately show ?thesis by (simp add: s_def Let_def)
qed

text \<open>What a pending drain has closed stays closed, publishes nothing, and has to be drained before anything is launched.\<close>

definition tickets_drained :: "pending_drain \<Rightarrow> admission \<Rightarrow> bool" where
  "tickets_drained d adm \<longleftrightarrow> admission_inv adm
     \<and> list_all (\<lambda>k. token_closed adm (ticket_state k) \<and> uses (ticket_state k) adm = 0) (db_tickets (pd_batch d))"

interpretation drained_tickets: token_fact "tickets_drained d" for d
proof
  fix adm e
  assume d: "tickets_drained d adm"
  have "token_closed (fst (admission_step adm e)) (ticket_state k) \<and> uses (ticket_state k) (fst (admission_step adm e)) = 0"
    if "k \<in> set (db_tickets (pd_batch d))" for k
    using d that token_closed_step [of adm "ticket_state k" e] uses_step [of adm "ticket_state k" e]
    by (simp add: tickets_drained_def list_all_iff token_closed_def)
  then show "tickets_drained d (fst (admission_step adm e))"
    using d admission_inv_step [of adm e] by (simp add: tickets_drained_def list_all_iff del: admission_step.simps)
qed

lemma drained_now:
  assumes "runtime_inv s" "rc_drain s = Some d" "allTicketsDrained s"
  shows "tickets_drained d (rc_admission s)"
proof -
  note inv = runtime_invD(5,6) [OF assms(1)]
  have "token_closed (rc_admission s) (ticket_state k) \<and> uses (ticket_state k) (rc_admission s) = 0"
    if k: "k \<in> set (db_tickets (pd_batch d))" for k
  proof -
    have c: "token_closed (rc_admission s) (ticket_state k)" by (rule drain_okD(3) [OF inv(2) [OF assms(2)] k])
    moreover have "isDrained (ticket_state k) (rc_admission s)"
      using assms(2,3) k by (simp add: allTicketsDrained_def list_all_iff)
    ultimately show ?thesis
      using admission_invD(1) [OF inv(1)] by (auto simp: token_closed_def isDrained_def state_ok_def)
  qed
  then show ?thesis using inv(1) by (simp add: tickets_drained_def list_all_iff)
qed

definition still_pending :: "pending_drain \<Rightarrow> 'f runtime \<Rightarrow> bool" where
  "still_pending d s \<longleftrightarrow> map_option pd_batch (rc_drain s) = Some (pd_batch d)"

lemma micro_pending:
  assumes "micro cfg s l s'" "runtime_inv s" "still_pending d s"
  shows "l = [] \<and> still_pending d s' \<or> l = [] \<and> tickets_drained d (rc_admission s')"
  using assms
proof (induction rule: micro.induct)
  case (drained s)
  then obtain e where "rc_drain s = Some e" "pd_batch e = pd_batch d" by (auto simp: still_pending_def)
  with drained_now [OF drained(2) this(1) drained(1)] show ?case by (simp add: tickets_drained_def)
qed (auto simp: still_pending_def core_def)

lemma micros_pending:
  "micros cfg s l s' \<Longrightarrow> runtime_inv s \<Longrightarrow> still_pending d s \<Longrightarrow> l = [] \<or> tickets_drained d (rc_admission s')"
proof (induction rule: micros.induct)
  case (more s l t m u)
  from micro_pending [OF more(1) more.prems] show ?case
    using more.IH micro_inv [OF more(1) more.prems(1)] drained_tickets.micros_fact [OF more(2)] by auto
qed simp

interpretation revoked_runtime: machine_invariant "runtime_step cfg"
    "\<lambda>s. runtime_inv s \<and> revoked_since a n c (rc_admission s)" "\<lambda>_. True" for cfg :: "'f runtime_config" and a n c
proof
  fix s :: "'f runtime" and e
  assume "runtime_inv s \<and> revoked_since a n c (rc_admission s)"
  then show "runtime_inv (fst (runtime_step cfg s e)) \<and> revoked_since a n c (rc_admission (fst (runtime_step cfg s e)))"
    using chained_step [of s cfg e] revoked_tokens.micros_fact runtime_always.step_inv [of s cfg e] unfolding chained_def by blast
qed

text \<open>
  C39. Recovery waits for the drain.  While the rollback of a candidate waits for its authorities to drain,
  every token it revoked is closed and nothing is published under it in the rest of the run; and no call
  launches a Worker, the recovered ones included, before no thread holds a use of any of these tokens.
\<close>

theorem recovery_waits_for_drain:
  "let s = final_state (runtime_step cfg) (new_runtime f) es;
       adm = rc_admission s; later = rc_admission (final_state (runtime_step cfg) s fs);
       (s1, r) = runtime_step cfg s e
   in case rc_drain s of
        None \<Rightarrow> True
      | Some d \<Rightarrow>
          list_all (\<lambda>k. closed_state (adm_states adm ! ticket_state k)
              \<and> commits_of (ticket_state k) later = commits_of (ticket_state k) adm) (db_tickets (pd_batch d))
          \<and> (launches r = []
             \<or> list_all (\<lambda>k. Some (ticket_state k) \<notin> set (adm_guards (rc_admission s1))) (db_tickets (pd_batch d)))"
proof -
  define s where "s = final_state (runtime_step cfg) (new_runtime f) es"
  have inv: "runtime_inv s" unfolding s_def by (rule reachable_inv)
  define later where "later = final_state (runtime_step cfg) s fs"
  have closed: "closed_state (adm_states (rc_admission s) ! ticket_state k)
      \<and> commits_of (ticket_state k) (rc_admission later) = commits_of (ticket_state k) (rc_admission s)"
    if "rc_drain s = Some d" "k \<in> set (db_tickets (pd_batch d))" for d k
  proof -
    define a where "a = ticket_state k"
    have c: "token_closed (rc_admission s) a" using drain_okD(3) [OF runtime_invD(6) [OF inv that(1)] that(2)] by (simp add: a_def)
    then have "runtime_inv s \<and> revoked_since a (uses a (rc_admission s)) (commits_of a (rc_admission s)) (rc_admission s)"
      using runtime_invD(5) [OF inv] inv by (simp add: revoked_since_def token_closed_def)
    from revoked_runtime.run_inv [OF this, of fs cfg] c show ?thesis
      by (simp add: later_def a_def revoked_since_def token_closed_def list_all_iff)
  qed
  have launched: "Some (ticket_state k) \<notin> set (adm_guards (rc_admission (fst (runtime_step cfg s e))))"
    if "rc_drain s = Some d" "launches (snd (runtime_step cfg s e)) \<noteq> []" "k \<in> set (db_tickets (pd_batch d))" for d k
    using micros_pending [OF chained_step [OF inv, of cfg e, unfolded chained_def] inv, of d] that
    by (auto simp: still_pending_def tickets_drained_def list_all_iff uses_def count_eq_zero_iff)
  show ?thesis
    using closed launched by (auto simp: list_all_iff Let_def split_beta simp flip: s_def later_def split: option.split)
qed

section \<open>Two calls that lose track of a tab\<close>

text \<open>
  A launch request that is refused after the previous incarnation of its tab has been retired returns none
  of the actions that would stop the Worker of that incarnation.
\<close>

lemma refused_launch_loses_stop:
  assumes "\<not> rc_shuttingDown s" "\<not> rc_failedClosed s" "rc_drain s = None" "validAuthority k" "valid_route route"
    and "findTab s k = None" "previousIncarnation s k = Some old" "findTab s old = Some t" "\<not> ts_retired t" "validAuthority old"
  shows "case requestTabLaunch cfg env k route RestartPinned now site s of (s1, r) \<Rightarrow>
    rr_actions r = [] \<and> map_option ts_retired (findTab s1 old) = Some True"
proof -
  have "old \<noteq> k" using assms(6,8) by auto
  then show ?thesis
    using assms
    by (simp add: requestTabLaunch_def Let_def split_beta closeTab_def launch_descriptor_def findTab_update
        findTab_revokeSilently rejectedResult_def plain_result_def)
qed

text \<open>
  A tab that is closed while a rollback waits for its authorities to drain is launched again when they have:
  the recovery looks the tab up and does not see that it is retired.
\<close>

lemma isDrained_revoke [simp]: "isDrained a (beginRevoke thr b adm) \<longleftrightarrow> isDrained a adm"
  by (auto simp: isDrained_def beginRevoke_def notify_drained_def notify_all_def update_state_def Let_def nth_list_update
      split: if_splits)

lemma fresh_launch:
  assumes "\<not> rc_shuttingDown s" "\<not> rc_failedClosed s" "rc_drain s = None"
  shows "launches (snd (launchForTab cfg k route d mode recovery now False emit s)) \<noteq> []"
  using assms start_attempt_fresh [of cfg now] by (auto simp: launchForTab_def Let_def split_beta split: option.split)

lemma closed_tab_launched_again:
  assumes "rc_drain s = Some d" "pd_affected d = [k]" "\<not> pd_timedOut d" "\<not> pd_terminal d" "allTicketsDrained s"
    and "\<not> rc_shuttingDown s" "\<not> rc_failedClosed s" "rc_lkg s = Some l" "validAuthority k"
    and "findTab s k = Some t" "\<not> ts_retired t" "now \<le> db_deadline (pd_batch d)"
  shows "case closeTab cfg k s of (s1, r) \<Rightarrow>
    rr_code r = Applied \<and> map_option ts_retired (findTab s1 k) = Some True
    \<and> launches (snd (authorityDrainCompleted cfg (db_id (pd_batch d)) now s1)) \<noteq> []"
proof -
  define s1 where "s1 = fst (closeTab cfg k s)"
  have c: "closeTab cfg k s = (s1, snd (closeTab cfg k s))" "rr_code (snd (closeTab cfg k s)) = Applied"
    using assms by (simp_all add: s1_def closeTab_def applied_def plain_result_def)
  have s1: "s1 = update_tab k (\<lambda>v. v\<lparr>ts_retired := True\<rparr>) (revokeSilently cfg k s)"
    using assms by (simp add: s1_def closeTab_def)
  have "rc_lkg s1 = Some l"
    using assms by (simp add: s1 update_tab_def revokeSilently_def revoke_token_def split: option.split)
  moreover have "allTicketsDrained s1" "rc_drain s1 = Some d" "\<not> rc_shuttingDown s1" "\<not> rc_failedClosed s1"
    using assms by (auto simp: s1 allTicketsDrained_def list_all_iff revokeSilently_def revoke_token_def split: option.split)
  moreover obtain u where u: "findTab s1 k = Some u" "ts_retired u"
    using assms by (simp add: s1 findTab_update findTab_revokeSilently)
  moreover have "findTab (s1\<lparr>rc_drain := None\<rparr>) k = Some u" using u by (simp add: findTab_def)
  ultimately have "launches (snd (authorityDrainCompleted cfg (db_id (pd_batch d)) now s1)) \<noteq> []"
    using assms fresh_launch [of "s1\<lparr>rc_drain := None\<rparr>" cfg k]
    by (auto simp: authorityDrainCompleted_def drain_at_def finishDrain_def Let_def split_beta launches_def)
  with c u show ?thesis by (simp add: split_beta s1_def)
qed

end
