(* ===== verification/Spec2Isabelle.thy ===== *)
theory Spec2Isabelle
  imports WorkerSupervisor GestureStore IpcSessionProofs TabModelProofs RouteProofs NetworkProofs TelemetryProofs PendingQueue ExactIntegers ManifestProofs ArchiveProofs ArchiveExtraction PackageStoreProofs QmlPolicyProofs InstallerProofs AppRuntimeProofs
begin

text \<open>
  Q-Browser.
\<close>

end
